(* ===== verification/Prelude.thy ===== *)
theory Prelude
  imports Complex_Main "HOL-Library.AList"
begin

text \<open>
  What every theory of the development shares: the reading of JavaScript's data structures
  in HOL and the generic lemmas about them.

  \<^item> A \<open>Map\<close> of the source is an association list in insertion order. \<open>map.get k\<close> is
    \<open>map_of m k\<close>, \<open>map.set k v\<close> is \<open>AList.update k v m\<close> (an existing key keeps its place,
    a new one goes to the end, as ECMAScript prescribes), \<open>map.delete k\<close> is
    \<open>AList.delete k m\<close>. The locale \<open>key_store\<close> states the laws clients rely on.
  \<^item> \<open>null\<close> and \<open>undefined\<close> are \<open>None\<close>; \<open>a ?? b\<close> is \<open>nullish a b\<close>.
  \<^item> An array's \<open>find\<close> is \<open>List.find\<close>; assigning to a field of the object \<open>find\<close> returned
    is \<open>map_first\<close>; \<open>[...new Set(xs)]\<close> is \<open>js_unique xs\<close>.
  \<^item> A function that throws or refuses returns a sum: \<open>Inl\<close> the error, \<open>Inr\<close> the value.
  \<^item> Strings are lists of code units below 256 (\<open>char\<close>).

  The locale \<open>machine\<close> carries an invariant from one step to every run of a component.
\<close>

named_theorems frame_simps "which part of a component's state an operation leaves alone"
named_theorems js_simps "facts about the JavaScript library functions of the model"

section \<open>Optional values and results\<close>

type_synonym ('e, 'a) result = "'e + 'a"

definition nullish :: "'a option \<Rightarrow> 'a \<Rightarrow> 'a" where
  "nullish x d = (case x of None \<Rightarrow> d | Some v \<Rightarrow> v)"

lemma nullish_simps [simp]: "nullish None d = d" "nullish (Some v) d = v"
  by (simp_all add: nullish_def)

text \<open>An optional field of a patch: \<open>patch.f !== undefined ? patch.f : current.f\<close>.\<close>

definition orElse :: "'a option \<Rightarrow> 'a option \<Rightarrow> 'a option" where
  "orElse x y = (case x of None \<Rightarrow> y | Some v \<Rightarrow> Some v)"

lemma orElse_simps [simp]: "orElse None y = y" "orElse (Some v) y = Some v"
  by (simp_all add: orElse_def)

section \<open>Arrays\<close>

definition js_unique :: "'a list \<Rightarrow> 'a list" where
  "js_unique xs = rev (remdups (rev xs))"

lemma set_js_unique [simp]: "set (js_unique xs) = set xs"
  by (simp add: js_unique_def)

lemma distinct_js_unique [simp]: "distinct (js_unique xs)"
  by (simp add: js_unique_def)

lemma js_unique_Nil_iff [simp]: "js_unique xs = [] \<longleftrightarrow> xs = []"
  using set_js_unique [of xs] by (metis set_empty)

lemma js_unique_simps [simp]: "js_unique [] = []" "js_unique [x] = [x]"
  by (simp_all add: js_unique_def)

lemma js_unique_distinct: "distinct xs \<Longrightarrow> js_unique xs = xs"
  by (simp add: js_unique_def distinct_remdups_id)

lemma js_unique_snoc: "js_unique (xs @ [x]) = (if x \<in> set xs then js_unique xs else js_unique xs @ [x])"
  by (simp add: js_unique_def)

text \<open>Assigning through the object that \<open>find\<close> returned changes the first match only.\<close>

fun map_first :: "('a \<Rightarrow> bool) \<Rightarrow> ('a \<Rightarrow> 'a) \<Rightarrow> 'a list \<Rightarrow> 'a list" where
  "map_first p f [] = []"
| "map_first p f (x # xs) = (if p x then f x # xs else x # map_first p f xs)"

lemma length_map_first [simp]: "length (map_first p f xs) = length xs"
  by (induction xs) auto

lemma map_first_none: "find p xs = None \<Longrightarrow> map_first p f xs = xs"
  by (induction xs) (auto split: if_splits)

lemma map_map_first: "(\<And>x. g (f x) = g x) \<Longrightarrow> map g (map_first p f xs) = map g xs"
  by (induction xs) auto

lemma set_map_first: "set (map_first p f xs) \<subseteq> set xs \<union> f ` {x \<in> set xs. p x}"
  by (induction xs) auto

lemma filter_map_first:
  "(\<And>x. p x \<Longrightarrow> \<not> q x) \<Longrightarrow> (\<And>x. p x \<Longrightarrow> \<not> q (f x)) \<Longrightarrow> filter q (map_first p f xs) = filter q xs"
  by (induction xs) auto

lemma find_map_first_other:
  "(\<And>x. q x \<Longrightarrow> p x \<Longrightarrow> False) \<Longrightarrow> (\<And>x. p x \<Longrightarrow> \<not> q (f x)) \<Longrightarrow> find q (map_first p f xs) = find q xs"
  by (induction xs) auto

lemma find_map_first_same:
  "(\<And>x. p (f x) = p x) \<Longrightarrow> find p (map_first p f xs) = map_option f (find p xs)"
  by (induction xs) auto

text \<open>With unique keys, the first element that has a key is the only one.\<close>

lemma map_first_key:
  "distinct (map k xs) \<Longrightarrow> map_first (\<lambda>x. k x = i) f xs = map (\<lambda>x. if k x = i then f x else x) xs"
proof (induction xs)
  case Nil
  then show ?case by simp
next
  case (Cons x xs)
  then have "k x \<notin> k ` set xs" by simp
  then have "k x = i \<Longrightarrow> map (\<lambda>x. if k x = i then f x else x) xs = xs"
    by (intro map_idI) (auto simp: image_def)
  with Cons show ?case by simp
qed

lemma find_key_in: "find (\<lambda>x. k x = i) xs = Some x \<Longrightarrow> x \<in> set xs \<and> k x = i"
  by (auto simp: find_Some_iff)

lemma find_Some_mem: "find p xs = Some x \<Longrightarrow> x \<in> set xs \<and> p x"
  by (auto simp: find_Some_iff)

lemma find_key_unique:
  "distinct (map k xs) \<Longrightarrow> x \<in> set xs \<Longrightarrow> find (\<lambda>y. k y = k x) xs = Some x"
  by (induction xs) (auto simp: rev_image_eqI)

lemma find_append: "find p (xs @ ys) = (case find p xs of None \<Rightarrow> find p ys | Some x \<Rightarrow> Some x)"
  by (induction xs) auto

text \<open>A sum over a list in which the one element with a key changes.\<close>

lemma sum_list_map_first:
  fixes g :: "'a \<Rightarrow> 'b :: ab_group_add"
  assumes "find p xs = Some x"
  shows "(\<Sum>y\<leftarrow>map_first p f xs. g y) = (\<Sum>y\<leftarrow>xs. g y) - g x + g (f x)"
  using assms by (induction xs) (auto split: if_splits simp: algebra_simps)

section \<open>Maps\<close>

lemma map_of_update [simp]: "map_of (AList.update k v m) = (map_of m)(k \<mapsto> v)"
  by (rule update_conv')

lemma map_of_delete [simp]: "map_of (AList.delete k m) = (map_of m)(k := None)"
  by (rule delete_conv')

lemma keys_update_old [simp]:
  "k \<in> fst ` set m \<Longrightarrow> map fst (AList.update k v m) = map fst m"
  by (simp add: update_keys)

lemma keys_update_new: "k \<notin> fst ` set m \<Longrightarrow> map fst (AList.update k v m) = map fst m @ [k]"
  by (simp add: update_keys)

lemma map_of_mem_iff: "distinct (map fst m) \<Longrightarrow> map_of m k = Some v \<longleftrightarrow> (k, v) \<in> set m"
  by (simp add: map_of_eq_Some_iff)

lemma keys_update_set: "fst ` set (AList.update k v m) = insert k (fst ` set m)"
  by (simp add: dom_update)

text \<open>A map built from a list whose keys are distinct.\<close>

lemma map_of_foldl_update:
  "distinct (map key xs) \<Longrightarrow> map_of (foldl (\<lambda>m x. AList.update (key x) (val x) m) m xs) i =
     (case find (\<lambda>x. key x = i) xs of Some x \<Rightarrow> Some (val x) | None \<Rightarrow> map_of m i)"
proof (induction xs arbitrary: m)
  case (Cons x xs)
  have "find (\<lambda>y. key y = i) xs = None" if "key x = i"
    using Cons.prems that by (auto simp: find_None_iff image_iff)
  with Cons show ?case by (auto split: option.split)
qed simp

text \<open>Two maps with the same keys in the same order and the same lookups are one.\<close>

lemma assoc_eqI:
  "map fst m = map fst m' \<Longrightarrow> distinct (map fst m) \<Longrightarrow> map_of m = map_of m' \<Longrightarrow> m = m'"
proof (induction m arbitrary: m')
  case (Cons kv m)
  obtain k v where kv: "kv = (k, v)" by (cases kv)
  obtain v' n where m': "m' = (k, v') # n" using Cons.prems(1) kv by (cases m') auto
  have "v = v'" using fun_cong [OF Cons.prems(3), of k] by (simp add: kv m')
  moreover have "map_of m x = map_of n x" for x
  proof (cases "x = k")
    case True
    have "k \<notin> set (map fst m)" "k \<notin> set (map fst n)" using Cons.prems(1,2) by (simp_all add: kv m' del: set_map)
    then have "map_of m k = None" "map_of n k = None" by (simp_all add: map_of_eq_None_iff)
    then show ?thesis by (simp add: True)
  next
    case False
    with fun_cong [OF Cons.prems(3), of x] show ?thesis by (simp add: kv m')
  qed
  ultimately show ?case using Cons by (simp add: kv m' ext)
qed simp

lemma keys_foldl_update:
  "key ` set xs \<subseteq> fst ` set m \<Longrightarrow> map fst (foldl (\<lambda>m x. AList.update (key x) (val x) m) m xs) = map fst m"
proof (induction xs arbitrary: m)
  case (Cons x xs)
  then have "key x \<in> fst ` set m" "key ` set xs \<subseteq> fst ` set (AList.update (key x) (val x) m)"
    by (auto simp: keys_update_set)
  then show ?case by (simp add: Cons.IH)
qed simp

text \<open>What a client may assume of a key-value store, whatever represents it.\<close>

locale key_store =
  fixes get :: "'m \<Rightarrow> 'k \<Rightarrow> 'v option"
    and put :: "'k \<Rightarrow> 'v \<Rightarrow> 'm \<Rightarrow> 'm"
    and del :: "'k \<Rightarrow> 'm \<Rightarrow> 'm"
  assumes get_put: "get (put k v m) = (get m)(k \<mapsto> v)"
    and get_del: "get (del k m) = (get m)(k := None)"
begin

lemma get_put_other: "k \<noteq> l \<Longrightarrow> get (put k v m) l = get m l"
  by (simp add: get_put)

lemma get_foldr_put_other:
  "k \<notin> set ks \<Longrightarrow> get (foldl (\<lambda>m l. put l (f m l) m) m ks) k = get m k"
  by (induction ks arbitrary: m) (auto simp: get_put)

lemma get_foldl_del: "get (foldl (\<lambda>m l. del l m) m ks) k = (if k \<in> set ks then None else get m k)"
  by (induction ks arbitrary: m) (auto simp: get_del)

end

interpretation js_map: key_store "map_of :: ('k \<times> 'v) list \<Rightarrow> 'k \<Rightarrow> 'v option" AList.update AList.delete
  by unfold_locales simp_all

section \<open>Runs of a component\<close>

locale machine =
  fixes step :: "'s \<Rightarrow> 'e \<Rightarrow> 's"
    and legal :: "'e \<Rightarrow> bool"
    and inv :: "'s \<Rightarrow> bool"
  assumes step_inv: "inv s \<Longrightarrow> legal e \<Longrightarrow> inv (step s e)"
begin

lemma run_inv: "inv s \<Longrightarrow> \<forall>e \<in> set es. legal e \<Longrightarrow> inv (foldl step s es)"
  by (induction es arbitrary: s) (auto intro: step_inv)

end

text \<open>A machine with a quantity that no step lowers.\<close>

locale growing_machine = machine +
  fixes level :: "'s \<Rightarrow> 'l :: preorder"
  assumes step_level: "inv s \<Longrightarrow> legal e \<Longrightarrow> level s \<le> level (step s e)"
begin

lemma run_level: "inv s \<Longrightarrow> \<forall>e \<in> set es. legal e \<Longrightarrow> level s \<le> level (foldl step s es)"
proof (induction es arbitrary: s)
  case Nil
  then show ?case by simp
next
  case (Cons e es)
  then have "level s \<le> level (step s e)" "level (step s e) \<le> level (foldl step (step s e) es)"
    by (auto intro: step_level step_inv)
  then show ?case by (auto intro: order_trans)
qed

end

section \<open>Strings\<close>

text \<open>
  \<open>trim\<close> strips ECMAScript white space and line terminators, \<open>toLowerCase\<close> maps the letters
  of the first 256 code units.
\<close>

definition js_space :: "char \<Rightarrow> bool" where
  "js_space c = (let n = of_char c :: nat in n \<in> {9, 10, 11, 12, 13, 32, 160})"

definition strip :: "('a \<Rightarrow> bool) \<Rightarrow> 'a list \<Rightarrow> 'a list" where
  "strip p s = rev (dropWhile p (rev (dropWhile p s)))"

definition js_trim :: "string \<Rightarrow> string" where
  "js_trim s = strip js_space s"

lemma strip_last: "strip p s \<noteq> [] \<Longrightarrow> \<not> p (last (strip p s))"
  unfolding strip_def rev_is_Nil_conv last_rev by (rule hd_dropWhile)

lemma strip_hd:
  assumes "strip p s \<noteq> []"
  shows "\<not> p (hd (strip p s))"
proof -
  define u where "u = dropWhile p s"
  have u: "u = strip p s @ rev (takeWhile p (rev u))"
    unfolding strip_def u_def [symmetric] rev_append [symmetric] takeWhile_dropWhile_id by simp
  then have "u \<noteq> []" using assms by auto
  moreover have "hd u = hd (strip p s)" by (subst u) (simp add: assms)
  ultimately show ?thesis unfolding u_def using hd_dropWhile [of p s] by simp
qed

lemma set_strip: "set (strip p s) \<subseteq> set s"
  by (auto simp: strip_def dest!: set_dropWhileD)

lemma dropWhile_id: "xs = [] \<or> \<not> p (hd xs) \<Longrightarrow> dropWhile p xs = xs"
  by (cases xs) auto

lemma strip_id: "s = [] \<or> \<not> p (hd s) \<and> \<not> p (last s) \<Longrightarrow> strip p s = s"
  unfolding strip_def by (subst (2) dropWhile_id, blast) (subst dropWhile_id, auto simp: hd_rev)

lemma strip_idem [simp]: "strip p (strip p s) = strip p s"
  by (rule strip_id) (metis strip_hd strip_last)

definition js_lower_char :: "char \<Rightarrow> char" where
  "js_lower_char c =
     (let n = of_char c :: nat
      in if (65 \<le> n \<and> n \<le> 90) \<or> (192 \<le> n \<and> n \<le> 222 \<and> n \<noteq> 215) then char_of (n + 32) else c)"

definition js_lower :: "string \<Rightarrow> string" where
  "js_lower s = map js_lower_char s"

definition starts_with :: "string \<Rightarrow> string \<Rightarrow> bool" where
  "starts_with s p = (take (length p) s = p)"

lemma starts_with_append [simp]: "starts_with (p @ s) p"
  by (simp add: starts_with_def)

lemma starts_with_iff: "starts_with s p \<longleftrightarrow> (\<exists>r. s = p @ r)"
  by (metis append_take_drop_id starts_with_append starts_with_def)

text \<open>\<open>s.split(c)\<close> for a one-character separator.\<close>

fun js_split :: "char \<Rightarrow> string \<Rightarrow> string list" where
  "js_split c [] = [[]]"
| "js_split c (x # xs) =
     (if x = c then [] # js_split c xs
      else case js_split c xs of [] \<Rightarrow> [[x]] | y # ys \<Rightarrow> (x # y) # ys)"

lemma js_split_nonempty [simp]: "js_split c s \<noteq> []"
  by (induction s) (auto split: list.splits)

lemma js_split_no_sep: "p \<in> set (js_split c s) \<Longrightarrow> c \<notin> set p"
  by (induction s arbitrary: p) (auto split: list.splits if_splits)

definition digit :: "char \<Rightarrow> bool" where
  "digit c = (48 \<le> (of_char c :: nat) \<and> (of_char c :: nat) \<le> 57)"

definition digit_val :: "char \<Rightarrow> nat" where
  "digit_val c = (of_char c :: nat) - 48"

definition digits_val :: "string \<Rightarrow> nat" where
  "digits_val s = foldl (\<lambda>n c. 10 * n + digit_val c) 0 s"

lemma digit_val_digit [simp]: "n < 10 \<Longrightarrow> digit_val (char_of (48 + n)) = n"
  by (simp add: digit_val_def)

text \<open>A natural number in decimal, as \<open>String(n)\<close> and template literals write it.\<close>

fun show_nat :: "nat \<Rightarrow> string" where
  "show_nat n = (if n < 10 then [char_of (48 + n)] else show_nat (n div 10) @ [char_of (48 + n mod 10)])"

declare show_nat.simps [simp del]

lemma digits_val_snoc: "digits_val (s @ [c]) = 10 * digits_val s + digit_val c"
  by (simp add: digits_val_def)

lemma digits_val_show_nat [simp]: "digits_val (show_nat n) = n"
proof (induction n rule: show_nat.induct)
  case (1 n)
  then show ?case
    by (subst show_nat.simps) (auto simp: digits_val_snoc, simp add: digits_val_def)
qed

lemma show_nat_inject [simp]: "show_nat m = show_nat n \<longleftrightarrow> m = n"
  by (metis digits_val_show_nat)

lemma show_nat_digits: "c \<in> set (show_nat n) \<Longrightarrow> digit c"
proof (induction n rule: show_nat.induct)
  case (1 n)
  have d: "digit (char_of (48 + k))" if "k < 10" for k :: nat
    using that by (simp add: digit_def)
  from 1 show ?case
    by (subst (asm) show_nat.simps) (auto split: if_splits intro: d)
qed

lemma show_nat_nonempty [simp]: "show_nat n \<noteq> []"
  by (subst show_nat.simps) simp

text \<open>What follows the last separator of a string is found again.\<close>

lemma last_part_inject: "a @ c # x = b @ c # y \<Longrightarrow> c \<notin> set x \<Longrightarrow> c \<notin> set y \<Longrightarrow> x = y"
proof (induction a arbitrary: b)
  case Nil
  then show ?case by (cases b) auto
next
  case (Cons z a)
  then show ?case by (cases b) auto
qed

text \<open>
  \<open>randomUUID()\<close>: an identifier not drawn before. The model numbers them in the order they
  are drawn.
\<close>

definition uuid :: "nat \<Rightarrow> string" where
  "uuid n = show_nat n"

lemma uuid_inject [simp]: "uuid m = uuid n \<longleftrightarrow> m = n"
  by (simp add: uuid_def)

lemma uuid_no_dash: "CHR ''-'' \<notin> set (uuid n)"
  using show_nat_digits [of "CHR ''-''" n] by (auto simp: uuid_def digit_def)

text \<open>A string that may be absent, where the source tests it for truth: empty counts as absent.\<close>

definition given :: "string option \<Rightarrow> string option" where
  "given s = (case s of None \<Rightarrow> None | Some x \<Rightarrow> if x = [] then None else Some x)"

section \<open>Values of unknown shape\<close>

text \<open>
  A request body, or any parameter the source types \<open>unknown\<close>. \<open>JNum\<close> is a finite number;
  \<open>JNonFinite\<close> stands for NaN and the infinities, which the source always handles alike.
\<close>

datatype json =
    JUndef
  | JNull
  | JBool bool
  | JNum rat
  | JNonFinite
  | JStr string
  | JArr "json list"
  | JObj "(string \<times> json) list"

text \<open>Reading a property: absent, or read from something without properties, is \<open>undefined\<close>.\<close>

fun jprop :: "json \<Rightarrow> string \<Rightarrow> json" where
  "jprop (JObj ps) k = nullish (map_of ps k) JUndef"
| "jprop _ k = JUndef"

fun jhas :: "json \<Rightarrow> string \<Rightarrow> bool" where
  "jhas (JObj ps) k = (map_of ps k \<noteq> None)"
| "jhas _ k = False"

definition is_integral :: "rat \<Rightarrow> bool" where
  "is_integral x = (of_int \<lfloor>x\<rfloor> = x)"

lemma is_integral_iff: "is_integral x \<longleftrightarrow> (\<exists>n. x = of_int n)"
  by (metis floor_of_int is_integral_def)

end
