(* ===== verification/Js_Number.thy ===== *)
theory Js_Number
  imports Prelude
begin

text \<open>
  JavaScript numbers: IEEE-754 binary64, round to nearest, ties to even. A finite double is
  the rational it denotes; \<open>b64 x\<close> is the double nearest to the exact result \<open>x\<close> of an
  operation, subnormals included. So \<open>a + b\<close> of the source is \<open>jadd a b\<close>, and every
  rounding the code suffers is in the model. Not modelled: overflow (a magnitude of
  \<open>2 ^ 1024\<close> or more), NaN, and the sign of zero; where the source tests for them
  (\<open>Number.isFinite\<close>), the value is a \<^typ>\<open>json\<close> and the test is in the model.

  The lemmas: \<open>b64\<close> is monotone and odd, exact on integers up to \<open>2 ^ 53\<close>, and within half
  a unit in the last place of its argument; amounts of whole cents survive the code's
  arithmetic exactly (\<open>cents_sum\<close>).
\<close>

section \<open>Rounding to a double\<close>

text \<open>\<open>ilog2 x\<close> is the binary exponent of \<open>x\<close>: \<open>2 powi ilog2 x \<le> x < 2 powi (ilog2 x + 1)\<close>.\<close>

fun ilog2n :: "nat \<Rightarrow> nat" where
  "ilog2n n = (if n < 2 then 0 else Suc (ilog2n (n div 2)))"

declare ilog2n.simps [simp del]

lemma ilog2n_bounds: "0 < n \<Longrightarrow> 2 ^ ilog2n n \<le> n \<and> n < 2 ^ Suc (ilog2n n)"
proof (induction n rule: ilog2n.induct)
  case (1 n)
  show ?case
  proof (cases "n < 2")
    case True
    with "1.prems" show ?thesis by (simp add: ilog2n.simps [of n])
  next
    case False
    with "1.IH" have "2 ^ ilog2n (n div 2) \<le> n div 2 \<and> n div 2 < 2 ^ Suc (ilog2n (n div 2))"
      by simp
    with False show ?thesis by (auto simp: ilog2n.simps [of n])
  qed
qed

definition ilog2 :: "rat \<Rightarrow> int" where
  "ilog2 x =
     (if 1 \<le> x then int (ilog2n (nat \<lfloor>x\<rfloor>))
      else let m = nat \<lceil>1 / x\<rceil> in - int (Suc (ilog2n (m - 1))))"

lemma pow2_pos [simp]: "0 < (2::rat) powi k"
  by simp

lemma pow2_mono: "k \<le> l \<Longrightarrow> (2::rat) powi k \<le> 2 powi l"
  by (simp add: power_int_increasing)

lemma pow2_add: "(2::rat) powi (k + l) = 2 powi k * 2 powi l"
  by (simp add: power_int_add)

lemma pow2_nat: "(2::rat) powi int n = 2 ^ n"
  by simp

lemma recip_le: "0 < x \<Longrightarrow> 0 < a \<Longrightarrow> 1 / x \<le> a \<longleftrightarrow> 1 / a \<le> (x :: rat)"
  by (simp add: divide_le_eq mult.commute)

lemma recip_less: "0 < x \<Longrightarrow> 0 < a \<Longrightarrow> a < 1 / x \<longleftrightarrow> x < 1 / (a :: rat)"
  by (simp add: less_divide_eq mult.commute)

lemma ilog2_bounds:
  assumes "0 < x"
  shows "2 powi ilog2 x \<le> x" and "x < 2 powi (ilog2 x + 1)"
proof -
  have "2 powi ilog2 x \<le> x \<and> x < 2 powi (ilog2 x + 1)"
  proof (cases "1 \<le> x")
    case True
    define n where "n = nat \<lfloor>x\<rfloor>"
    have n: "0 < n" "of_nat n \<le> x" "x < of_nat n + 1"
      using True by (auto simp: n_def of_nat_nat le_floor_iff) linarith+
    have b: "2 ^ ilog2n n \<le> n" "n < 2 ^ Suc (ilog2n n)"
      using ilog2n_bounds [OF n(1)] by auto
    have "(2::rat) ^ ilog2n n \<le> of_nat n"
      using b(1) by (metis of_nat_le_iff of_nat_numeral of_nat_power)
    moreover have "(of_nat (Suc n) :: rat) \<le> 2 ^ Suc (ilog2n n)"
      using b(2) by (metis Suc_leI of_nat_le_iff of_nat_numeral of_nat_power)
    ultimately have "2 ^ ilog2n n \<le> x" "x < 2 ^ Suc (ilog2n n)"
      using n(2,3) by (linarith, simp)
    then show ?thesis using True by (simp add: ilog2_def n_def [symmetric] power_int_add)
  next
    case False
    define m where "m = nat \<lceil>1 / x\<rceil>"
    have y: "1 < 1 / x" using False assms by simp
    then have m: "2 \<le> m" "1 / x \<le> of_nat m" "of_nat m - 1 < 1 / x"
      unfolding m_def by (auto simp: of_nat_nat le_ceiling_iff less_ceiling_iff nat_le_iff) linarith+
    have b: "2 ^ ilog2n (m - 1) \<le> m - 1" "m - 1 < 2 ^ Suc (ilog2n (m - 1))"
      using ilog2n_bounds [of "m - 1"] m(1) by auto
    let ?j = "ilog2n (m - 1)"
    have "(of_nat m :: rat) \<le> 2 ^ Suc ?j"
      using b(2) m(1) by (metis Suc_leI Suc_diff_1 less_le_trans of_nat_le_iff of_nat_numeral of_nat_power pos2)
    then have 1: "1 / x \<le> 2 ^ Suc ?j" using m(2) by simp
    have "(2::rat) ^ ?j \<le> of_nat (m - 1)"
      using b(1) by (metis of_nat_le_iff of_nat_numeral of_nat_power)
    then have 2: "2 ^ ?j < 1 / x" using m(1,3) by simp
    have e: "ilog2 x = - int (Suc ?j)" using False by (simp add: ilog2_def Let_def m_def)
    have e1: "ilog2 x + 1 = - int ?j" unfolding e by simp
    have p: "(2::rat) powi ilog2 x = 1 / 2 ^ Suc ?j" "(2::rat) powi (ilog2 x + 1) = 1 / 2 ^ ?j"
      unfolding e1 unfolding e by (simp_all only: power_int_minus pow2_nat divide_inverse mult_1)
    show ?thesis
      unfolding p using 1 2 recip_le [OF assms, of "2 ^ Suc ?j"] recip_less [OF assms, of "2 ^ ?j"]
      by (metis zero_less_numeral zero_less_power)
  qed
  then show "2 powi ilog2 x \<le> x" and "x < 2 powi (ilog2 x + 1)" by auto
qed

definition rne :: "rat \<Rightarrow> int" where
  "rne y =
     (let f = \<lfloor>y\<rfloor>; d = y - of_int f
      in if d < 1 / 2 then f else if 1 / 2 < d then f + 1 else if even f then f else f + 1)"

lemma rne_of_int [simp]: "rne (of_int n) = n"
  by (simp add: rne_def Let_def)

lemma rne_err: "\<bar>of_int (rne y) - y\<bar> \<le> 1 / 2"
proof -
  define f where "f = \<lfloor>y\<rfloor>"
  have "of_int f \<le> y" "y < of_int f + 1" unfolding f_def by linarith+
  then show ?thesis unfolding rne_def Let_def f_def [symmetric] by (auto simp: abs_if)
qed

lemma rne_mono:
  assumes "x \<le> y" shows "rne x \<le> rne y"
proof (cases "\<lfloor>x\<rfloor> = \<lfloor>y\<rfloor>")
  case True
  with assms show ?thesis by (auto simp: rne_def Let_def)
next
  case False
  with assms have l: "\<lfloor>x\<rfloor> < \<lfloor>y\<rfloor>" by (meson floor_mono order_less_le)
  have "rne x \<le> \<lfloor>x\<rfloor> + 1" "\<lfloor>y\<rfloor> \<le> rne y" by (auto simp: rne_def Let_def)
  with l show ?thesis by linarith
qed

lemma rne_uminus: "rne (- y) = - rne y"
proof -
  have c: "\<lfloor>- y\<rfloor> = (if y = of_int \<lfloor>y\<rfloor> then - \<lfloor>y\<rfloor> else - \<lfloor>y\<rfloor> - 1)"
    by (auto simp: floor_eq_iff) linarith+
  show ?thesis
  proof (cases "y = of_int \<lfloor>y\<rfloor>")
    case True
    then show ?thesis by (metis of_int_minus rne_of_int)
  next
    case False
    then show ?thesis unfolding rne_def Let_def c by auto
  qed
qed

definition b64_exp :: "rat \<Rightarrow> int" where
  "b64_exp x = max (ilog2 \<bar>x\<bar> - 52) (- 1074)"

definition b64 :: "rat \<Rightarrow> rat" where
  "b64 x = (if x = 0 then 0 else of_int (rne (x / 2 powi b64_exp x)) * 2 powi b64_exp x)"

lemma b64_0 [simp]: "b64 0 = 0" by (simp add: b64_def)

lemma b64_uminus: "b64 (- x) = - b64 x"
  by (simp add: b64_def b64_exp_def rne_uminus flip: minus_divide_left)

lemma b64_mono_pos:
  assumes "0 < x" "x \<le> y" shows "b64 x \<le> b64 y"
proof (cases "b64_exp x = b64_exp y")
  case True
  have "rne (x / 2 powi b64_exp y) \<le> rne (y / 2 powi b64_exp y)"
    using assms by (intro rne_mono divide_right_mono) auto
  then show ?thesis using assms True by (simp add: b64_def)
next
  case False
  let ?L = "ilog2 y"
  have y: "0 < y" using assms by simp
  have lx: "2 powi ilog2 x \<le> x" "x < 2 powi (ilog2 x + 1)" using ilog2_bounds assms by auto
  have ly: "2 powi ?L \<le> y" using ilog2_bounds y by auto
  have "ilog2 x \<le> ?L"
  proof (rule ccontr)
    assume "\<not> ilog2 x \<le> ?L"
    then have "(2::rat) powi (?L + 1) \<le> 2 powi ilog2 x" by (intro pow2_mono) simp
    moreover have "y < 2 powi (?L + 1)" using ilog2_bounds y by auto
    ultimately show False using lx(1) assms(2) by linarith
  qed
  with False assms y have l: "ilog2 x < ?L" "b64_exp x < b64_exp y" "b64_exp y = ?L - 52"
    by (auto simp: b64_exp_def max_def split: if_splits)
  have xL: "x \<le> 2 powi ?L"
    using lx(2) pow2_mono [of "ilog2 x + 1" ?L] l(1) by linarith
  define k where "k = nat (?L - b64_exp x)"
  have k: "?L - b64_exp x = int k" using l unfolding k_def by simp
  have xe: "(2::rat) powi ?L / 2 powi b64_exp x = of_int (2 ^ k)"
    by (metis k of_int_numeral of_int_power pow2_nat power_int_diff zero_neq_numeral)
  have "rne (x / 2 powi b64_exp x) \<le> 2 ^ k"
    using rne_mono [of "x / 2 powi b64_exp x" "2 powi ?L / 2 powi b64_exp x"] xL
    by (metis divide_right_mono less_imp_le pow2_pos rne_of_int xe)
  then have "(of_int (rne (x / 2 powi b64_exp x)) :: rat) \<le> 2 powi ?L / 2 powi b64_exp x"
    unfolding xe by (simp only: of_int_le_iff)
  then have bx: "b64 x \<le> 2 powi ?L" using assms(1) by (simp add: b64_def field_simps)
  have "(2::rat) powi (b64_exp y + int 52) = 2 powi b64_exp y * 2 ^ 52"
    by (simp only: pow2_add pow2_nat)
  then have ye: "(2::rat) powi ?L / 2 powi b64_exp y = of_int (2 ^ 52)"
    by (simp add: l(3))
  have "2 ^ 52 \<le> rne (y / 2 powi b64_exp y)"
    using rne_mono [of "2 powi ?L / 2 powi b64_exp y" "y / 2 powi b64_exp y"] ly
    by (metis divide_right_mono less_imp_le pow2_pos rne_of_int ye)
  then have "2 powi ?L / 2 powi b64_exp y \<le> (of_int (rne (y / 2 powi b64_exp y)) :: rat)"
    unfolding ye by (simp only: of_int_le_iff)
  then have "2 powi ?L \<le> b64 y" using y by (simp add: b64_def field_simps)
  with bx show ?thesis by simp
qed

lemma b64_nonneg: "0 \<le> x \<Longrightarrow> 0 \<le> b64 x"
proof -
  assume "0 \<le> x"
  then have "rne 0 \<le> rne (x / 2 powi b64_exp x)" by (intro rne_mono) simp
  moreover have "rne 0 = 0" using rne_of_int [of 0] by simp
  ultimately show ?thesis by (simp add: b64_def)
qed

lemma b64_mono: assumes "x \<le> y" shows "b64 x \<le> b64 y"
proof -
  consider "0 < x" | "x \<le> 0" "0 \<le> y" | "y < 0" by linarith
  then show ?thesis
  proof cases
    case 1 then show ?thesis using b64_mono_pos assms by blast
  next
    case 2
    have "b64 x \<le> 0" using b64_nonneg [of "- x"] 2 by (simp add: b64_uminus)
    then show ?thesis using b64_nonneg [of y] 2 by linarith
  next
    case 3
    then have "b64 (- y) \<le> b64 (- x)" using assms by (intro b64_mono_pos) auto
    then show ?thesis by (simp add: b64_uminus)
  qed
qed

lemma b64_err: "\<bar>b64 x - x\<bar> \<le> \<bar>x\<bar> / 2 ^ 53 + 1 / 2 ^ 60"
proof (cases "x = 0")
  case True
  then show ?thesis by simp
next
  case False
  let ?q = "(2::rat) powi b64_exp x"
  have x: "0 < \<bar>x\<bar>" using False by simp
  have "?q / 2 \<le> \<bar>x\<bar> / 2 ^ 53 + 1 / 2 ^ 60"
  proof (cases "- 1074 < ilog2 \<bar>x\<bar> - 52")
    case True
    then have "ilog2 \<bar>x\<bar> = b64_exp x + int 52" by (simp add: b64_exp_def)
    then have "(2::rat) powi ilog2 \<bar>x\<bar> = ?q * 2 ^ 52" by (metis pow2_add pow2_nat)
    with ilog2_bounds(1) [OF x] show ?thesis by simp
  next
    case False
    then have "b64_exp x = - 1074" by (simp add: b64_exp_def)
    then have "?q \<le> 2 powi (- int 59)" by (intro pow2_mono) simp
    also have "(2::rat) powi (- int 59) = 1 / 2 ^ 59"
      by (simp only: power_int_minus pow2_nat divide_inverse mult_1)
    finally show ?thesis by (auto intro: add_increasing)
  qed
  moreover have "\<bar>b64 x - x\<bar> \<le> 1 / 2 * ?q"
  proof -
    have "b64 x - x = (of_int (rne (x / ?q)) - x / ?q) * ?q"
      using False by (simp add: b64_def field_simps)
    then have "\<bar>b64 x - x\<bar> = \<bar>of_int (rne (x / ?q)) - x / ?q\<bar> * ?q" by (simp add: abs_mult)
    also have "\<dots> \<le> 1 / 2 * ?q" by (intro mult_right_mono rne_err) simp
    finally show ?thesis .
  qed
  ultimately show ?thesis by linarith
qed

text \<open>What is a double already is not rounded again.\<close>

lemma b64_multiple:
  assumes "b64_exp y \<le> g" and y: "y = of_int m * 2 powi g"
  shows "b64 y = y"
proof -
  define k where "k = nat (g - b64_exp y)"
  have "(2::rat) powi g = 2 powi (b64_exp y + int k)" using assms(1) by (simp add: k_def)
  then have g: "(2::rat) powi g = 2 powi b64_exp y * 2 ^ k" by (simp only: pow2_add pow2_nat)
  have "y = of_int m * (2 powi b64_exp y * 2 ^ k)" using y unfolding g .
  then have z: "y = of_int (m * 2 ^ k) * 2 powi b64_exp y" by (simp add: ac_simps)
  have "y / 2 powi b64_exp y = of_int (m * 2 ^ k)" by (subst z) simp
  then have "b64 y = (if y = 0 then 0 else of_int (m * 2 ^ k) * 2 powi b64_exp y)"
    unfolding b64_def by (simp only: rne_of_int)
  then show ?thesis using z by simp
qed

lemma ilog2_le: "0 < y \<Longrightarrow> y < 2 powi (g + 1) \<Longrightarrow> ilog2 y \<le> g"
proof (rule ccontr)
  assume y: "0 < y" "y < 2 powi (g + 1)" and "\<not> ilog2 y \<le> g"
  then have "(2::rat) powi (g + 1) \<le> 2 powi ilog2 y" by (intro pow2_mono) simp
  with ilog2_bounds(1) [OF y(1)] y(2) show False by simp
qed

lemma b64_idem_pos:
  assumes x: "0 < x" shows "b64 (b64 x) = b64 x"
proof (cases "b64 x = 0")
  case False
  define e where "e = b64_exp x"
  define n where "n = rne (x / 2 powi e)"
  have y: "b64 x = of_int n * 2 powi e" using x by (simp add: b64_def e_def n_def)
  have y0: "0 < b64 x" using b64_nonneg [of x] x False by simp
  have e: "ilog2 x + 1 \<le> e + int 53" "- 1074 \<le> e" using x unfolding e_def b64_exp_def by auto
  have "x < 2 powi (e + int 53)"
    using ilog2_bounds(2) [OF x] pow2_mono [OF e(1)] by linarith
  then have "x / 2 powi e \<le> of_int (2 ^ 53)" unfolding pow2_add pow2_nat by (simp add: field_simps)
  then have n: "n \<le> 2 ^ 53" unfolding n_def using rne_mono rne_of_int by metis
  show ?thesis
  proof (cases "n < 2 ^ 53")
    case True
    then have "(of_int n :: rat) < 2 ^ 53" by (metis of_int_less_iff of_int_numeral of_int_power)
    then have "b64 x < 2 powi (e + int 53)" unfolding y pow2_add pow2_nat by (simp add: mult.commute)
    then have "ilog2 (b64 x) \<le> e + 52" using ilog2_le [of "b64 x" "e + 52"] y0 by (simp add: add.commute)
    then have "b64_exp (b64 x) \<le> e" using y0 e(2) unfolding b64_exp_def by simp
    then show ?thesis using y by (rule b64_multiple)
  next
    case False
    with n have n53: "n = 2 ^ 53" by simp
    have y2: "b64 x = of_int (2 ^ 52) * 2 powi (e + 1)"
      unfolding y n53 by (simp add: power_int_add)
    have "b64 x < 2 powi (e + int 54)" unfolding y n53 pow2_add pow2_nat by simp
    then have "ilog2 (b64 x) \<le> e + 53" using ilog2_le [of "b64 x" "e + 53"] y0 by (simp add: add.commute)
    then have "b64_exp (b64 x) \<le> e + 1" using y0 e(2) unfolding b64_exp_def by simp
    then show ?thesis using y2 by (rule b64_multiple)
  qed
qed simp

lemma b64_idem [simp]: "b64 (b64 x) = b64 x"
proof -
  consider "0 < x" | "x = 0" | "0 < - x" by linarith
  then show ?thesis
  proof cases
    case 3
    from b64_idem_pos [OF 3] show ?thesis by (simp add: b64_uminus)
  qed (auto simp: b64_idem_pos)
qed

lemma b64_exact_int:
  assumes "\<bar>n\<bar> \<le> 2 ^ 53" shows "b64 (of_int n) = of_int n"
proof (cases "n = 0")
  case True then show ?thesis by simp
next
  case False
  let ?x = "of_int n :: rat"
  have x: "0 < \<bar>?x\<bar>" using False by simp
  have lb: "2 powi ilog2 \<bar>?x\<bar> \<le> \<bar>?x\<bar>" "\<bar>?x\<bar> < 2 powi (ilog2 \<bar>?x\<bar> + 1)" using ilog2_bounds x by auto
  have ub: "\<bar>?x\<bar> \<le> 2 ^ 53" using assms by (metis of_int_abs of_int_le_iff of_int_numeral of_int_power)
  show ?thesis
  proof (cases "b64_exp ?x \<le> 0")
    case True
    define k where "k = nat (- b64_exp ?x)"
    have k: "b64_exp ?x = - int k" using True by (simp add: k_def)
    have "?x / 2 powi b64_exp ?x = of_int (n * 2 ^ k)" unfolding k by (simp add: power_int_minus divide_inverse)
    then have "b64 ?x = of_int (n * 2 ^ k) * 2 powi b64_exp ?x"
      using False by (simp only: b64_def rne_of_int) simp
    then show ?thesis by (simp add: k power_int_minus)
  next
    case pos: False
    then have e: "b64_exp ?x = ilog2 \<bar>?x\<bar> - 52" by (auto simp: b64_exp_def max_def split: if_splits)
    with pos have "53 \<le> ilog2 \<bar>?x\<bar>" by linarith
    then have "(2::rat) ^ 53 \<le> 2 powi ilog2 \<bar>?x\<bar>" using pow2_mono [of 53 "ilog2 \<bar>?x\<bar>"] by simp
    with lb(1) ub have eq: "\<bar>?x\<bar> = 2 ^ 53" by linarith
    then have i: "\<bar>n\<bar> = 2 ^ 53" by (metis of_int_abs of_int_eq_iff of_int_numeral of_int_power)
    have "ilog2 \<bar>?x\<bar> = 53"
    proof (rule ccontr)
      assume "ilog2 \<bar>?x\<bar> \<noteq> 53"
      with \<open>53 \<le> ilog2 \<bar>?x\<bar>\<close> have "(2::rat) powi 54 \<le> 2 powi ilog2 \<bar>?x\<bar>" by (intro pow2_mono) simp
      with lb(1) eq show False by simp
    qed
    with e have e1: "b64_exp ?x = 1" by simp
    have "even n" proof -
      have "even \<bar>n\<bar>" unfolding i by simp
      then show ?thesis by simp
    qed
    then obtain m where m: "n = m * 2" by (metis evenE mult.commute)
    have "?x / 2 = of_int m" unfolding m by simp
    then have "b64 ?x = of_int m * 2"
      using False unfolding b64_def e1 by (metis of_int_eq_0_iff power_int_1_right rne_of_int)
    then show ?thesis unfolding m by simp
  qed
qed

lemma floor_rat_numeral [simp]: "\<lfloor>(numeral a :: rat) / numeral b\<rfloor> = numeral a div numeral b"
  by (metis floor_divide_of_int_eq of_int_numeral)

lemma b64_le_0: "x \<le> 0 \<Longrightarrow> b64 x \<le> 0"
  using b64_mono [of x 0] by simp

lemma b64_nat_numeral [simp]: "numeral k \<le> (9007199254740992 :: int) \<Longrightarrow> b64 (numeral k) = numeral k"
  using b64_exact_int [of "numeral k"] by simp

lemma b64_1 [simp]: "b64 1 = 1"
  using b64_exact_int [of 1] by simp

lemma b64_ge_int: "of_int n \<le> x \<Longrightarrow> \<bar>n\<bar> \<le> 2 ^ 53 \<Longrightarrow> of_int n \<le> b64 x"
  using b64_mono [of "of_int n" x] by (simp add: b64_exact_int)

lemma b64_le_int: "x \<le> of_int n \<Longrightarrow> \<bar>n\<bar> \<le> 2 ^ 53 \<Longrightarrow> b64 x \<le> of_int n"
  using b64_mono [of x "of_int n"] by (simp add: b64_exact_int)

section \<open>The operators\<close>

definition jadd :: "rat \<Rightarrow> rat \<Rightarrow> rat" where "jadd a b = b64 (a + b)"
definition jsub :: "rat \<Rightarrow> rat \<Rightarrow> rat" where "jsub a b = b64 (a - b)"
definition jmul :: "rat \<Rightarrow> rat \<Rightarrow> rat" where "jmul a b = b64 (a * b)"
definition jdiv :: "rat \<Rightarrow> rat \<Rightarrow> rat" where "jdiv a b = b64 (a / b)"

text \<open>\<open>Math.round\<close>: the nearest integer, ties towards plus infinity, with no double rounding.\<close>

definition jround :: "rat \<Rightarrow> int" where "jround x = \<lfloor>x + 1 / 2\<rfloor>"

lemma jround_mono: "x \<le> y \<Longrightarrow> jround x \<le> jround y"
  by (simp add: jround_def floor_mono)

lemma jround_of_int [simp]: "jround (of_int n) = n"
  by (simp add: jround_def floor_eq_iff)

lemma jround_0 [simp]: "jround 0 = 0"
  using jround_of_int [of 0] by simp

lemma jround_near: "\<bar>x - of_int n\<bar> < 1 / 2 \<Longrightarrow> jround x = n"
  by (auto simp: jround_def floor_eq_iff abs_if split: if_splits)

lemma jadd_mono: "a \<le> c \<Longrightarrow> b \<le> d \<Longrightarrow> jadd a b \<le> jadd c d"
  by (simp add: jadd_def b64_mono)

lemma jsub_mono: "a \<le> c \<Longrightarrow> d \<le> b \<Longrightarrow> jsub a b \<le> jsub c d"
  by (simp add: jsub_def b64_mono)

lemma jmul_mono: "0 \<le> a \<Longrightarrow> a \<le> c \<Longrightarrow> 0 \<le> b \<Longrightarrow> b \<le> d \<Longrightarrow> jmul a b \<le> jmul c d"
  by (simp add: jmul_def b64_mono mult_mono)

lemma jdiv_mono: "a \<le> c \<Longrightarrow> 0 \<le> b \<Longrightarrow> jdiv a b \<le> jdiv c b"
  by (simp add: jdiv_def b64_mono divide_right_mono)

lemma j_nonneg [simp, intro]:
  "0 \<le> a \<Longrightarrow> 0 \<le> b \<Longrightarrow> 0 \<le> jadd a b"
  "b \<le> a \<Longrightarrow> 0 \<le> jsub a b"
  "0 \<le> a \<Longrightarrow> 0 \<le> b \<Longrightarrow> 0 \<le> jmul a b"
  "0 \<le> a \<Longrightarrow> 0 \<le> b \<Longrightarrow> 0 \<le> jdiv a b"
  by (simp_all add: jadd_def jsub_def jmul_def jdiv_def b64_nonneg)

lemma j_zero [simp]: "jmul 0 b = 0" "jmul a 0 = 0" "jdiv 0 b = 0" "jsub a a = 0"
  by (simp_all add: jmul_def jdiv_def jsub_def)

text \<open>\<open>arr.reduce((s, x) => s + f(x), 0)\<close>: a left fold with a rounding at every step.\<close>

definition jsum :: "rat list \<Rightarrow> rat" where
  "jsum xs = foldl jadd 0 xs"

lemma foldl_jadd_nonneg: "\<forall>x \<in> set xs. 0 \<le> x \<Longrightarrow> 0 \<le> a \<Longrightarrow> 0 \<le> foldl jadd a xs"
  by (induction xs arbitrary: a) auto

lemma jsum_nonneg: "\<forall>x \<in> set xs. 0 \<le> x \<Longrightarrow> 0 \<le> jsum xs"
  by (simp add: jsum_def foldl_jadd_nonneg)

section \<open>Amounts of money\<close>

lemma pow2_nums:
  "(2::rat) ^ 46 = 70368744177664" "(2::rat) ^ 47 = 140737488355328" "(2::rat) ^ 48 = 281474976710656"
  "(2::rat) ^ 53 = 9007199254740992" "(2::rat) ^ 60 = 1152921504606846976"
  by simp_all

text \<open>\<open>cents n\<close> is the double the code computes for \<open>n\<close> hundredths of a unit.\<close>

definition cents :: "int \<Rightarrow> rat" where
  "cents n = jdiv (of_int n) 100"

definition round2 :: "rat \<Rightarrow> rat" where
  "round2 x = jdiv (of_int (jround (jmul x 100))) 100"

lemma round2_cents_of: "round2 x = cents (jround (jmul x 100))"
  by (simp add: round2_def cents_def)

lemma cents_0 [simp]: "cents 0 = 0"
  by (simp add: cents_def)

lemma cents_mono: "m \<le> n \<Longrightarrow> cents m \<le> cents n"
  by (simp add: cents_def jdiv_mono)

lemma round2_mono: "x \<le> y \<Longrightarrow> round2 x \<le> round2 y"
  unfolding round2_cents_of jmul_def by (intro cents_mono jround_mono b64_mono) simp

lemma round2_nonneg: "0 \<le> x \<Longrightarrow> 0 \<le> round2 x"
  using round2_mono [of 0 x] by (simp add: round2_def)

lemma cents_err: "\<bar>n\<bar> \<le> 2 ^ 48 \<Longrightarrow> \<bar>100 * cents n - of_int n\<bar> \<le> 1 / 31"
proof -
  assume n: "\<bar>n\<bar> \<le> 2 ^ 48"
  have "(of_int \<bar>n\<bar> :: rat) \<le> of_int (2 ^ 48)" using n by (simp only: of_int_le_iff)
  then have "\<bar>of_int n :: rat\<bar> \<le> 2 ^ 48" by simp
  then have "\<bar>of_int n / 100 :: rat\<bar> \<le> 2 ^ 48 / 100" by simp
  then show ?thesis
    using b64_err [of "of_int n / 100"] unfolding cents_def jdiv_def pow2_nums by linarith
qed

text \<open>Rounding to cents a value within a quarter of a cent of \<open>n\<close> cents gives \<open>n\<close> cents.\<close>

lemma jround_near_cents:
  assumes "\<bar>100 * x - of_int n\<bar> \<le> 1 / 4" and "\<bar>n\<bar> \<le> 2 ^ 48"
  shows "jround (jmul x 100) = n"
proof -
  have "(of_int \<bar>n\<bar> :: rat) \<le> of_int (2 ^ 48)" using assms(2) by (simp only: of_int_le_iff)
  then have "\<bar>of_int n :: rat\<bar> \<le> 2 ^ 48" by simp
  with assms(1) have "\<bar>x * 100\<bar> \<le> 2 ^ 48 + 1 / 4" by linarith
  then have "\<bar>b64 (x * 100) - x * 100\<bar> \<le> 1 / 8" using b64_err [of "x * 100"] unfolding pow2_nums by linarith
  with assms(1) have "\<bar>b64 (x * 100) - of_int n\<bar> < 1 / 2" by linarith
  then show ?thesis by (simp add: jmul_def jround_near)
qed

lemma round2_near: "\<bar>100 * x - of_int n\<bar> \<le> 1 / 4 \<Longrightarrow> \<bar>n\<bar> \<le> 2 ^ 48 \<Longrightarrow> round2 x = cents n"
  by (simp add: round2_cents_of jround_near_cents)

text \<open>The amount in cents, as \<open>Math.round(x * 100)\<close>.\<close>

definition centi :: "rat \<Rightarrow> int" where
  "centi x = jround (jmul x 100)"

lemma centi_mono: "x \<le> y \<Longrightarrow> centi x \<le> centi y"
  unfolding centi_def jmul_def by (intro jround_mono b64_mono) simp

lemma centi_cents: "\<bar>n\<bar> \<le> 2 ^ 48 \<Longrightarrow> centi (cents n) = n"
  unfolding centi_def using cents_err [of n] by (intro jround_near_cents) linarith+

lemma centi_cents_bound: "0 \<le> n \<Longrightarrow> centi (cents n) \<le> 2 ^ 46 \<Longrightarrow> centi (cents n) = n"
proof (rule ccontr)
  assume n: "0 \<le> n" "centi (cents n) \<le> 2 ^ 46" "centi (cents n) \<noteq> n"
  then have "2 ^ 48 \<le> n" using centi_cents [of n] by (cases "n \<le> 2 ^ 48") simp_all
  then have "centi (cents (2 ^ 48)) \<le> centi (cents n)" by (intro centi_mono cents_mono)
  then show False using centi_cents [of "2 ^ 48"] n(2) by simp
qed

lemma centi_nonneg: "0 \<le> x \<Longrightarrow> 0 \<le> centi x"
  using centi_mono [of 0 x] by (simp add: centi_def)

lemma centi_cents_nonneg [simp]: "0 \<le> n \<Longrightarrow> 0 \<le> centi (cents n)"
  using cents_mono [of 0 n] by (simp add: centi_nonneg)

lemma round2_cents: "\<bar>n\<bar> \<le> 2 ^ 48 \<Longrightarrow> round2 (cents n) = cents n"
  using cents_err [of n] by (intro round2_near) linarith+

lemma cents_bound: "\<bar>n\<bar> \<le> 2 ^ 46 \<Longrightarrow> \<bar>cents n\<bar> \<le> 703687441777"
proof -
  assume n: "\<bar>n\<bar> \<le> 2 ^ 46"
  then have "(of_int \<bar>n\<bar> :: rat) \<le> of_int (2 ^ 46)" by (simp only: of_int_le_iff)
  then have "\<bar>of_int n :: rat\<bar> \<le> 70368744177664" by simp
  moreover have "\<bar>100 * cents n - of_int n\<bar> \<le> 1 / 31" using n by (intro cents_err) simp
  ultimately show ?thesis by linarith
qed

text \<open>
  Adding and subtracting amounts of whole cents and rounding the result is exact: the four
  roundings on the way stay far below half a cent. The bound is 70 billion units.
\<close>

lemma cents_sum:
  assumes "\<bar>m\<bar> \<le> 2 ^ 46" "\<bar>n\<bar> \<le> 2 ^ 46"
  shows "round2 (jadd (cents m) (cents n)) = cents (m + n)"
    and "round2 (jsub (cents m) (cents n)) = cents (m - n)"
proof -
  have e: "\<bar>100 * cents m - of_int m\<bar> \<le> 1 / 31" "\<bar>100 * cents n - of_int n\<bar> \<le> 1 / 31"
    by (rule cents_err, use assms in simp)+
  have c: "\<bar>cents m\<bar> \<le> 703687441777" "\<bar>cents n\<bar> \<le> 703687441777"
    using assms by (auto intro: cents_bound)
  have r: "\<bar>b64 y - y\<bar> \<le> 1 / 6000" if "\<bar>y\<bar> \<le> 1407374883554" for y
    using b64_err [of y] that unfolding pow2_nums by linarith
  have a: "\<bar>b64 (cents m + cents n) - (cents m + cents n)\<bar> \<le> 1 / 6000" using c by (intro r) linarith
  have d: "\<bar>b64 (cents m - cents n) - (cents m - cents n)\<bar> \<le> 1 / 6000" using c by (intro r) linarith
  have "\<bar>100 * jadd (cents m) (cents n) - of_int (m + n)\<bar> \<le> 1 / 4"
    using e a unfolding jadd_def of_int_add by linarith
  then show "round2 (jadd (cents m) (cents n)) = cents (m + n)"
    using assms abs_triangle_ineq [of m n] by (intro round2_near) simp_all
  have "\<bar>100 * jsub (cents m) (cents n) - of_int (m - n)\<bar> \<le> 1 / 4"
    using e d unfolding jsub_def of_int_diff by linarith
  then show "round2 (jsub (cents m) (cents n)) = cents (m - n)"
    using assms abs_triangle_ineq4 [of m n] by (intro round2_near) simp_all
qed

lemma cents_inj:
  assumes "cents m = cents n" "\<bar>m\<bar> \<le> 2 ^ 48" "\<bar>n\<bar> \<le> 2 ^ 48"
  shows "m = n"
proof -
  have "\<bar>of_int m - of_int n :: rat\<bar> < 1"
    using cents_err [OF assms(2)] cents_err [OF assms(3)] assms(1) by linarith
  then have "\<bar>m - n\<bar> < 1" by (metis of_int_1 of_int_abs of_int_diff of_int_less_iff)
  then show ?thesis by simp
qed

end
