(* ===== verification/Js_Date.thy ===== *)
theory Js_Date
  imports Js_Number
begin

text \<open>
  \<open>Date\<close> in UTC. A point in time is a number of milliseconds since the epoch, an \<^typ>\<open>int\<close>;
  the ISO-8601 strings the source stores are in one-to-one correspondence with it (always
  \<open>toISOString\<close>, always UTC, years 0 to 9999), and comparing two of them as strings is
  comparing the two points in time, so \<open>localeCompare\<close> and \<open><\<close> on ISO strings are the
  order of \<^typ>\<open>int\<close> here. The calendar is ECMAScript's proleptic Gregorian one (sections
  \<open>Day\<close>, \<open>YearFromTime\<close>, \<open>MonthFromTime\<close> of the standard).

  The lemmas: the first instant of months is strictly increasing (\<open>month_start_less\<close>), and a
  point in time lies in the month that \<open>utc_year\<close> and \<open>utc_month\<close> name, and in no other.
\<close>

type_synonym time = int

definition ms_per_hour :: int where "ms_per_hour = 3600000"
definition ms_per_day :: int where "ms_per_day = 86400000"

definition day_of :: "time \<Rightarrow> int" where "day_of t = t div ms_per_day"

definition leap :: "int \<Rightarrow> bool" where
  "leap y = (y mod 4 = 0 \<and> (y mod 100 \<noteq> 0 \<or> y mod 400 = 0))"

definition year_day :: "int \<Rightarrow> int" where
  "year_day y = 365 * (y - 1970) + (y - 1969) div 4 - (y - 1901) div 100 + (y - 1601) div 400"

definition year_of_day :: "int \<Rightarrow> int" where
  "year_of_day d =
     (let y = 1970 + (400 * d) div 146097
      in if d < year_day y then y - 1 else if year_day (y + 1) \<le> d then y + 1 else y)"

text \<open>Days before each month of a year, the year's length after the last.\<close>

definition month_days :: "bool \<Rightarrow> int \<Rightarrow> int" where
  "month_days l m =
     (let k = (if l then 1 else 0)
      in if m \<le> 0 then 0 else if m = 1 then 31 else if m = 2 then 59 + k else if m = 3 then 90 + k
         else if m = 4 then 120 + k else if m = 5 then 151 + k else if m = 6 then 181 + k
         else if m = 7 then 212 + k else if m = 8 then 243 + k else if m = 9 then 273 + k
         else if m = 10 then 304 + k else if m = 11 then 334 + k else 365 + k)"

definition month_of_year_day :: "bool \<Rightarrow> int \<Rightarrow> int" where
  "month_of_year_day l d =
     (let f = month_days l
      in if d < f 1 then 0 else if d < f 2 then 1 else if d < f 3 then 2 else if d < f 4 then 3
         else if d < f 5 then 4 else if d < f 6 then 5 else if d < f 7 then 6 else if d < f 8 then 7
         else if d < f 9 then 8 else if d < f 10 then 9 else if d < f 11 then 10 else 11)"

definition utc_year :: "time \<Rightarrow> int" where "utc_year t = year_of_day (day_of t)"

definition utc_month :: "time \<Rightarrow> int" where
  "utc_month t = (let y = utc_year t in month_of_year_day (leap y) (day_of t - year_day y))"

definition utc_date :: "time \<Rightarrow> int" where
  "utc_date t = (let y = utc_year t in day_of t - year_day y - month_days (leap y) (utc_month t) + 1)"

definition utc_weekday :: "time \<Rightarrow> int" where "utc_weekday t = (day_of t + 4) mod 7"
definition utc_hours :: "time \<Rightarrow> int" where "utc_hours t = (t div ms_per_hour) mod 24"
definition utc_minutes :: "time \<Rightarrow> int" where "utc_minutes t = (t div 60000) mod 60"

text \<open>\<open>Date.UTC(y, m, 1)\<close>: the month may run past the year's end.\<close>

definition date_utc :: "int \<Rightarrow> int \<Rightarrow> time" where
  "date_utc y m =
     (let y' = y + m div 12; m' = m mod 12 in (year_day y' + month_days (leap y') m') * ms_per_day)"

text \<open>\<open>toISOString\<close>, for years 0 to 9999.\<close>

definition pad_digits :: "nat \<Rightarrow> int \<Rightarrow> string" where
  "pad_digits w n = (let s = show_nat (nat n) in replicate (w - length s) (CHR ''0'') @ s)"

definition iso :: "time \<Rightarrow> string" where
  "iso t = pad_digits 4 (utc_year t) @ ''-'' @ pad_digits 2 (utc_month t + 1) @ ''-'' @ pad_digits 2 (utc_date t)
     @ ''T'' @ pad_digits 2 (utc_hours t) @ '':'' @ pad_digits 2 (utc_minutes t)
     @ '':'' @ pad_digits 2 (t div 1000 mod 60) @ ''.'' @ pad_digits 3 (t mod 1000) @ ''Z''"

text \<open>\<open>toLocaleDateString('en-US', { month: 'long', year: 'numeric', timeZone: 'UTC' })\<close>.\<close>

definition month_name :: "int \<Rightarrow> string" where
  "month_name m = [''January'', ''February'', ''March'', ''April'', ''May'', ''June'', ''July'',
     ''August'', ''September'', ''October'', ''November'', ''December''] ! nat m"

definition month_year :: "time \<Rightarrow> string" where
  "month_year t = month_name (utc_month t) @ '' '' @ show_nat (nat (utc_year t))"

section \<open>Months tile time\<close>

text \<open>Counting one further in a positional system: without and with a carry.\<close>

lemma succ_no_carry:
  fixes x n :: int
  assumes "0 < n" "x mod n + 1 < n"
  shows "(x + 1) div n = x div n" and "(x + 1) mod n = x mod n + 1"
proof -
  have r: "0 \<le> x mod n" using assms by simp
  have e: "x + 1 = n * (x div n) + (x mod n + 1)" by simp
  show "(x + 1) div n = x div n" using r assms by (intro int_div_pos_eq [OF e]) auto
  show "(x + 1) mod n = x mod n + 1" using r assms by (intro int_mod_pos_eq [OF e]) auto
qed

lemma succ_carry:
  fixes x n :: int
  assumes "0 < n" "x mod n = n - 1"
  shows "(x + 1) div n = x div n + 1" and "(x + 1) mod n = 0"
proof -
  have "x = n * (x div n) + x mod n" by simp
  then have "x + 1 = n * (x div n) + n" using assms(2) by linarith
  then have e: "x + 1 = n * (x div n + 1) + 0" by (simp add: distrib_left)
  show "(x + 1) div n = x div n + 1" using assms by (intro int_div_pos_eq [OF e]) auto
  show "(x + 1) mod n = 0" using assms by (intro int_mod_pos_eq [OF e]) auto
qed

lemma div_step:
  fixes z n :: int
  assumes n: "0 < n"
  shows "z div n = (z - 1) div n + (if n dvd z then 1 else 0)"
proof (cases "(z - 1) mod n = n - 1")
  case True
  from succ_carry [OF n True] show ?thesis by (simp add: dvd_eq_mod_eq_0)
next
  case False
  moreover have b: "0 \<le> (z - 1) mod n" "(z - 1) mod n < n" using n by simp_all
  ultimately have l: "(z - 1) mod n + 1 < n" by linarith
  from succ_no_carry [OF n l] b(1) show ?thesis by (simp add: dvd_eq_mod_eq_0)
qed

lemma div_bounds:
  fixes x n :: int
  assumes "0 < n"
  shows "n * (x div n) \<le> x \<and> x < n * (x div n) + n"
proof -
  have "0 \<le> x mod n" "x mod n < n" "x = n * (x div n) + x mod n" using assms by simp_all
  then show ?thesis by linarith
qed

lemma shifted_dvd: "n dvd k \<Longrightarrow> n dvd y - k \<longleftrightarrow> y mod n = 0" for n k y :: int
  by (simp add: dvd_diff_left_iff dvd_eq_mod_eq_0 [symmetric])

lemma year_length: "year_day (y + 1) = year_day y + (if leap y then 366 else 365)"
proof -
  have d: "(4 dvd y + 1 - 1969) = (y mod 4 = 0)" "(100 dvd y + 1 - 1901) = (y mod 100 = 0)"
      "(400 dvd y + 1 - 1601) = (y mod 400 = 0)"
    using shifted_dvd [of 4 1968 y] shifted_dvd [of 100 1900 y] shifted_dvd [of 400 1600 y] by simp_all
  have p: "y + 1 - 1969 - 1 = y - 1969" "y + 1 - 1901 - 1 = y - 1901" "y + 1 - 1601 - 1 = y - 1601" by simp_all
  have s: "(y + 1 - 1969) div 4 = (y - 1969) div 4 + (if y mod 4 = 0 then 1 else 0)"
      "(y + 1 - 1901) div 100 = (y - 1901) div 100 + (if y mod 100 = 0 then 1 else 0)"
      "(y + 1 - 1601) div 400 = (y - 1601) div 400 + (if y mod 400 = 0 then 1 else 0)"
    using div_step [of 4 "y + 1 - 1969"] div_step [of 100 "y + 1 - 1901"] div_step [of 400 "y + 1 - 1601"]
    unfolding d p by (simp_all only: zero_less_numeral)
  define a b c where "a = (y - 1969) div 4" and "b = (y - 1901) div 100" and "c = (y - 1601) div 400"
  define p q r where "p = (y mod 4 = 0)" and "q = (y mod 100 = 0)" and "r = (y mod 400 = 0)"
  have "r \<Longrightarrow> q" "q \<Longrightarrow> p" unfolding p_def q_def r_def
    using dvd_trans [of 100 400 y] dvd_trans [of 4 100 y] by (simp_all flip: dvd_eq_mod_eq_0)
  then show ?thesis
    unfolding year_day_def s leap_def a_def [symmetric] b_def [symmetric] c_def [symmetric]
      p_def [symmetric] q_def [symmetric] r_def [symmetric]
    by (cases p; cases q; cases r) simp_all
qed

lemma year_day_linear:
  "146097 * (y - 1970) - 1500 \<le> 400 * year_day y" "400 * year_day y \<le> 146097 * (y - 1970) + 1500"
proof -
  define a b c where "a = (y - 1969) div 4" and "b = (y - 1901) div 100" and "c = (y - 1601) div 400"
  have e: "year_day y = 365 * (y - 1970) + a - b + c" by (simp add: year_day_def a_def b_def c_def)
  have "4 * a \<le> y - 1969 \<and> y - 1969 < 4 * a + 4" unfolding a_def by (rule div_bounds) simp
  moreover have "100 * b \<le> y - 1901 \<and> y - 1901 < 100 * b + 100" unfolding b_def by (rule div_bounds) simp
  moreover have "400 * c \<le> y - 1601 \<and> y - 1601 < 400 * c + 400" unfolding c_def by (rule div_bounds) simp
  ultimately show "146097 * (y - 1970) - 1500 \<le> 400 * year_day y"
      "400 * year_day y \<le> 146097 * (y - 1970) + 1500"
    unfolding e by (simp_all add: algebra_simps)
qed

lemma year_of_day_bounds: "year_day (year_of_day d) \<le> d \<and> d < year_day (year_of_day d + 1)"
proof -
  define q where "q = (400 * d) div 146097"
  have q: "146097 * q \<le> 400 * d" "400 * d < 146097 * q + 146097" unfolding q_def by simp_all
  have lo: "year_day (1969 + q) \<le> d" using year_day_linear(2) [of "1969 + q"] q by simp
  have hi: "d < year_day (1972 + q)" using year_day_linear(1) [of "1972 + q"] q by simp
  show ?thesis
    using lo hi unfolding year_of_day_def Let_def q_def [symmetric] by auto
qed

lemma month_days_table:
  "month_days l 0 = 0" "month_days l 1 = 31" "month_days l 2 = 59 + (if l then 1 else 0)"
  "month_days l 3 = 90 + (if l then 1 else 0)" "month_days l 4 = 120 + (if l then 1 else 0)"
  "month_days l 5 = 151 + (if l then 1 else 0)" "month_days l 6 = 181 + (if l then 1 else 0)"
  "month_days l 7 = 212 + (if l then 1 else 0)" "month_days l 8 = 243 + (if l then 1 else 0)"
  "month_days l 9 = 273 + (if l then 1 else 0)" "month_days l 10 = 304 + (if l then 1 else 0)"
  "month_days l 11 = 334 + (if l then 1 else 0)" "month_days l 12 = 365 + (if l then 1 else 0)"
  by (simp_all add: month_days_def)

lemma month_cases:
  "0 \<le> m \<Longrightarrow> m < (12::int) \<Longrightarrow>
     m = 0 \<or> m = 1 \<or> m = 2 \<or> m = 3 \<or> m = 4 \<or> m = 5 \<or> m = 6 \<or> m = 7 \<or> m = 8 \<or> m = 9 \<or> m = 10 \<or> m = 11"
  by presburger

lemma month_days_step: "0 \<le> m \<Longrightarrow> m < 12 \<Longrightarrow> month_days l m < month_days l (m + 1)"
  by (drule (1) month_cases) (elim disjE; simp add: month_days_table)

lemma month_of_year_day_bounds:
  assumes "0 \<le> d" "d < (if l then 366 else 365)"
  shows "month_days l (month_of_year_day l d) \<le> d \<and> d < month_days l (month_of_year_day l d + 1)
    \<and> 0 \<le> month_of_year_day l d \<and> month_of_year_day l d < 12"
  using assms unfolding month_of_year_day_def Let_def
  by (cases l) (simp_all add: month_days_table split: if_split)

definition month_start :: "int \<Rightarrow> time" where
  "month_start k = date_utc (k div 12) (k mod 12)"

definition month_index :: "time \<Rightarrow> int" where
  "month_index t = 12 * utc_year t + utc_month t"

lemma month_start_step: "month_start k < month_start (k + 1)"
proof -
  let ?y = "k div 12" and ?m = "k mod 12"
  have m: "0 \<le> ?m" "?m < 12" by simp_all
  show ?thesis
  proof (cases "?m = 11")
    case True
    have k: "(k + 1) div 12 = ?y + 1" "(k + 1) mod 12 = 0"
      using succ_carry [of 12 k] True by simp_all
    have e: "(11::int) div 12 = 0" "(11::int) mod 12 = 11" "(0::int) div 12 = 0" "(0::int) mod 12 = 0"
      by simp_all
    show ?thesis unfolding month_start_def date_utc_def Let_def k True
      by (simp only: month_days_table year_length e add_0_right) (simp add: ms_per_day_def)
  next
    case False
    then have k: "(k + 1) div 12 = ?y" "(k + 1) mod 12 = ?m + 1"
      using succ_no_carry [of 12 k] m by simp_all
    have "month_days l ?m < month_days l (?m + 1)" for l
      using m by (rule month_days_step)
    then have l: "(c + month_days l ?m) * ms_per_day < (c + month_days l (?m + 1)) * ms_per_day" for c l
      by (simp add: ms_per_day_def)
    have r: "0 \<le> ?m + 1" "?m + 1 < 12" using m False by linarith+
    have e: "(?m + 1) mod 12 = ?m + 1" "(?m + 1) div 12 = 0" "?m mod 12 = ?m" "?m div 12 = 0"
      using r by (simp_all only: mod_pos_pos_trivial div_pos_pos_trivial m)
    show ?thesis unfolding month_start_def date_utc_def Let_def k e add_0_right by (rule l)
  qed
qed

lemma month_start_mono: "i \<le> j \<Longrightarrow> month_start i \<le> month_start j"
proof (induction "nat (j - i)" arbitrary: j)
  case 0
  then show ?case by simp
next
  case (Suc n)
  then have "month_start i \<le> month_start (j - 1)" by simp
  also have "\<dots> \<le> month_start j" using month_start_step [of "j - 1"] by simp
  finally show ?case .
qed

lemma month_start_less: "i < j \<Longrightarrow> month_start i < month_start j"
  using month_start_step [of i] month_start_mono [of "i + 1" j] by simp

lemma month_index_bounds:
  "month_start (month_index t) \<le> t \<and> t < month_start (month_index t + 1)"
  "0 \<le> utc_month t \<and> utc_month t < 12"
proof -
  let ?y = "utc_year t" and ?d = "day_of t"
  have y: "year_day ?y \<le> ?d" "?d < year_day (?y + 1)"
    using year_of_day_bounds [of ?d] by (auto simp: utc_year_def)
  then have m: "month_days (leap ?y) (utc_month t) \<le> ?d - year_day ?y"
      "?d - year_day ?y < month_days (leap ?y) (utc_month t + 1)" "0 \<le> utc_month t" "utc_month t < 12"
    using month_of_year_day_bounds [of "?d - year_day ?y" "leap ?y"]
    by (auto simp: year_length utc_month_def Let_def)
  have k: "(12 * ?y + utc_month t) div 12 = ?y" "(12 * ?y + utc_month t) mod 12 = utc_month t"
    using m by (simp_all add: div_pos_pos_trivial)
  have d: "?d * ms_per_day \<le> t" "t < (?d + 1) * ms_per_day"
    using div_bounds [of ms_per_day t] unfolding day_of_def by (simp_all add: ms_per_day_def algebra_simps)
  have lo: "month_start (month_index t) \<le> t"
    using d m k unfolding month_start_def month_index_def date_utc_def Let_def
    by (simp add: ms_per_day_def)
  have hi: "t < month_start (month_index t + 1)"
  proof (cases "utc_month t = 11")
    case True
    then have k': "(12 * ?y + utc_month t + 1) div 12 = ?y + 1" "(12 * ?y + utc_month t + 1) mod 12 = 0"
      by simp_all
    have "t < year_day (?y + 1) * ms_per_day" using d y by (simp add: ms_per_day_def)
    then show ?thesis unfolding month_start_def month_index_def date_utc_def Let_def k'
      by (simp add: month_days_def)
  next
    case False
    then have k': "(12 * ?y + utc_month t + 1) div 12 = ?y"
        "(12 * ?y + utc_month t + 1) mod 12 = utc_month t + 1"
      using succ_no_carry [of 12 "12 * ?y + utc_month t"] m k False by simp_all
    show ?thesis unfolding month_start_def month_index_def date_utc_def Let_def k'
      using d m False by (simp add: ms_per_day_def)
  qed
  show "month_start (month_index t) \<le> t \<and> t < month_start (month_index t + 1)" using lo hi ..
  show "0 \<le> utc_month t \<and> utc_month t < 12" using m by simp
qed

lemma month_index_unique:
  assumes "month_start k \<le> t" "t < month_start (k + 1)"
  shows "month_index t = k"
proof (rule ccontr)
  assume "month_index t \<noteq> k"
  then consider "month_index t + 1 \<le> k" | "k + 1 \<le> month_index t" by linarith
  then show False
    using month_start_mono [of "month_index t + 1" k] month_start_mono [of "k + 1" "month_index t"]
      month_index_bounds(1) [of t] assms
    by cases auto
qed

lemma date_utc_start:
  assumes "0 \<le> m" "m \<le> 12"
  shows "date_utc y m = month_start (12 * y + m)"
proof (cases "m = 12")
  case True
  then show ?thesis by (simp add: month_start_def date_utc_def)
next
  case False
  then have "(12 * y + m) div 12 = y" "(12 * y + m) mod 12 = m" using assms by (simp_all add: div_pos_pos_trivial)
  then show ?thesis by (simp add: month_start_def)
qed

end
