(* ===== verification/Pricing.thy ===== *)
theory Pricing
  imports Js_Date
begin

text \<open>
  The pure half of the billing bridge: what a plan is and what an hour costs
  (\<^verbatim>\<open>pricing.ts\<close>), the arithmetic of the credit wallet (\<^verbatim>\<open>wallet.ts\<close>), quotas
  (\<^verbatim>\<open>quotas.ts\<close>), the plan catalogue's input rules (\<^verbatim>\<open>plans.ts\<close>), runtime hours
  (\<^verbatim>\<open>tracking.ts\<close>), and the resource limits of a server (\<^verbatim>\<open>shared/src/events.ts\<close>).

  The lemmas: a resource factor is at least a quarter and grows with the limits; a charge is
  never negative and grows with the hours; the wallet's arithmetic is exact on cents; what
  \<open>parsePlanInput\<close> accepts is a plan with sane figures, and a stored plan parses to itself.
\<close>

section \<open>Resource limits\<close>

datatype io_priority = IoLow | IoNormal | IoHigh
datatype restart_policy = RestartNo | RestartOnFailure | RestartAlways

record limits =
  ramMb :: "rat option"
  cpuCores :: "rat option"
  cpuPercent :: "rat option"
  ramPercent :: "rat option"
  diskPercent :: "rat option"
  swapPercent :: "rat option"
  ioPriority :: "io_priority option"
  restartPolicy :: "restart_policy option"
  oomKill :: "bool option"

definition no_limits :: limits where
  "no_limits = \<lparr>ramMb = None, cpuCores = None, cpuPercent = None, ramPercent = None, diskPercent = None,
     swapPercent = None, ioPriority = None, restartPolicy = None, oomKill = None\<rparr>"

section \<open>Plans and prices\<close>

record plan =
  plan_id :: string
  plan_name :: string
  pricePerHour :: rat
  plan_currency :: string
  freeHoursPerMonth :: rat
  maxServers :: rat
  maxDatabases :: rat
  maxRamMb :: "rat option"
  maxBackupsPerServer :: "rat option"
  plan_active :: bool

definition default_plan :: plan where
  "default_plan = \<lparr>plan_id = ''standard'', plan_name = ''Standard'', pricePerHour = b64 (2 / 100),
     plan_currency = ''EUR'', freeHoursPerMonth = 100, maxServers = 5, maxDatabases = 5,
     maxRamMb = Some 8192, maxBackupsPerServer = Some 10, plan_active = True\<rparr>"

definition standard_cpu :: rat where "standard_cpu = 50"
definition standard_ram :: rat where "standard_ram = 50"
definition min_factor :: rat where "min_factor = 1 / 4"

definition roundCurrency :: "rat \<Rightarrow> rat" where
  "roundCurrency amount = jdiv (of_int (jround (jmul amount 100))) 100"

definition resourceFactor :: "limits \<Rightarrow> rat" where
  "resourceFactor l =
     (let cpu = nullish (cpuPercent l) standard_cpu;
          ram = nullish (ramPercent l) standard_ram;
          factor = jdiv (jadd cpu ram) (jadd standard_cpu standard_ram)
      in max min_factor (roundCurrency factor))"

definition billableHours :: "rat \<Rightarrow> plan \<Rightarrow> rat" where
  "billableHours totalHours p = max 0 (jsub totalHours (freeHoursPerMonth p))"

definition computeCharge :: "rat \<Rightarrow> plan \<Rightarrow> limits \<Rightarrow> rat" where
  "computeCharge totalHours p l =
     (let hours = billableHours totalHours p
      in roundCurrency (jmul (jmul hours (pricePerHour p)) (resourceFactor l)))"

record charging_model =
  cm_pricePerHour :: rat
  cm_currency :: string
  cm_freeHoursPerMonth :: rat
  cm_standardCpuPercent :: rat
  cm_standardRamPercent :: rat
  cm_minimum :: rat

definition chargingModel :: "plan \<Rightarrow> charging_model" where
  "chargingModel p = \<lparr>cm_pricePerHour = pricePerHour p, cm_currency = plan_currency p,
     cm_freeHoursPerMonth = freeHoursPerMonth p, cm_standardCpuPercent = standard_cpu,
     cm_standardRamPercent = standard_ram, cm_minimum = min_factor\<rparr>"

section \<open>The wallet\<close>

definition applyTopUp :: "rat \<Rightarrow> rat \<Rightarrow> rat" where
  "applyTopUp balance amount = roundCurrency (jadd balance (max 0 amount))"

definition applyCharge :: "rat \<Rightarrow> rat \<Rightarrow> rat" where
  "applyCharge balance amount = roundCurrency (jsub balance (max 0 amount))"

definition canCover :: "rat \<Rightarrow> rat \<Rightarrow> bool" where
  "canCover balance amount = (amount \<le> balance)"

section \<open>Quotas\<close>

datatype quota_resource = Servers | Databases

fun quotaLimit :: "plan \<Rightarrow> quota_resource \<Rightarrow> rat" where
  "quotaLimit p Servers = maxServers p"
| "quotaLimit p Databases = maxDatabases p"

definition withinQuota :: "plan \<Rightarrow> quota_resource \<Rightarrow> rat \<Rightarrow> bool" where
  "withinQuota p r current = (current < quotaLimit p r)"

section \<open>Runtime hours\<close>

definition hoursBetween :: "time \<Rightarrow> time \<Rightarrow> rat" where
  "hoursBetween start end = (let ms = end - start in if ms > 0 then jdiv (of_int ms) (of_int ms_per_hour) else 0)"

definition accruedHours :: "(time \<times> time option) list \<Rightarrow> time \<Rightarrow> rat" where
  "accruedHours intervals now = jsum (map (\<lambda>(start, stop). hoursBetween start (nullish stop now)) intervals)"

section \<open>The plan catalogue\<close>

datatype plan_problem =
    NoName | NameTooLong | BadPrice | BadFreeHours | BadServers | BadDatabases
  | BadRam | BadBackups | BadActive | BodyNotObject

definition max_plan_name :: nat where "max_plan_name = 60"

text \<open>The fields of a plan an edit may leave out, as \<open>base[key]\<close> reads them.\<close>

definition json_of_option :: "rat option \<Rightarrow> json" where
  "json_of_option x = (case x of None \<Rightarrow> JNull | Some v \<Rightarrow> JNum v)"

definition plan_fields :: "plan \<Rightarrow> (string \<times> json) list" where
  "plan_fields p =
     [(''name'', JStr (plan_name p)), (''pricePerHour'', JNum (pricePerHour p)),
      (''freeHoursPerMonth'', JNum (freeHoursPerMonth p)), (''maxServers'', JNum (maxServers p)),
      (''maxDatabases'', JNum (maxDatabases p)), (''maxRamMb'', json_of_option (maxRamMb p)),
      (''maxBackupsPerServer'', json_of_option (maxBackupsPerServer p)), (''active'', JBool (plan_active p))]"

definition plan_pick :: "json \<Rightarrow> plan option \<Rightarrow> string \<Rightarrow> json" where
  "plan_pick b base key =
     (if jhas b key then jprop b key
      else case base of None \<Rightarrow> JUndef | Some p \<Rightarrow> jprop (JObj (plan_fields p)) key)"

fun plan_number :: "json \<Rightarrow> rat option" where
  "plan_number (JNum x) = Some x"
| "plan_number _ = None"

definition plan_ceiling :: "json \<Rightarrow> plan_problem \<Rightarrow> rat \<Rightarrow> (plan_problem, rat option) result" where
  "plan_ceiling v problem least =
     (if v = JNull \<or> v = JUndef \<or> v = JStr '''' then Inr None
      else case plan_number v of
        None \<Rightarrow> Inl problem
      | Some x \<Rightarrow> if \<not> is_integral x \<or> x < least then Inl problem else Inr (Some x))"

definition json_or :: "json \<Rightarrow> json \<Rightarrow> json" where
  "json_or v d = (if v = JNull \<or> v = JUndef then d else v)"

text \<open>\<open>Omit<BillingPlan, 'id' | 'currency'>\<close>: the plan without its id and currency.\<close>

record plan_input =
  in_name :: string
  in_price :: rat
  in_freeHours :: rat
  in_maxServers :: rat
  in_maxDatabases :: rat
  in_maxRamMb :: "rat option"
  in_maxBackups :: "rat option"
  in_active :: bool

definition plan_body :: "json \<Rightarrow> (plan_problem, json) result" where
  "plan_body body =
     (case body of JNull \<Rightarrow> Inr (JObj []) | JUndef \<Rightarrow> Inr (JObj []) | JObj ps \<Rightarrow> Inr body
      | JArr xs \<Rightarrow> Inr (JObj []) | _ \<Rightarrow> Inl BodyNotObject)"

definition plan_name_of :: "json \<Rightarrow> (plan_problem, string) result" where
  "plan_name_of v =
     (case v of
        JStr s \<Rightarrow> if js_trim s = [] then Inl NoName
                  else if max_plan_name < length (js_trim s) then Inl NameTooLong
                  else Inr (js_trim s)
      | _ \<Rightarrow> Inl NoName)"

definition plan_amount :: "json \<Rightarrow> plan_problem \<Rightarrow> (plan_problem, rat) result" where
  "plan_amount v problem =
     (case plan_number v of None \<Rightarrow> Inl problem | Some x \<Rightarrow> if x < 0 then Inl problem else Inr x)"

definition plan_count :: "json \<Rightarrow> plan_problem \<Rightarrow> (plan_problem, rat) result" where
  "plan_count v problem =
     (case plan_number v of
        None \<Rightarrow> Inl problem
      | Some x \<Rightarrow> if \<not> is_integral x \<or> x < 0 then Inl problem else Inr x)"

definition plan_flag :: "json \<Rightarrow> (plan_problem, bool) result" where
  "plan_flag v = (case v of JBool b \<Rightarrow> Inr b | _ \<Rightarrow> Inl BadActive)"

definition and_then :: "('e, 'a) result \<Rightarrow> ('a \<Rightarrow> ('e, 'b) result) \<Rightarrow> ('e, 'b) result" where
  "and_then r f = (case r of Inl e \<Rightarrow> Inl e | Inr x \<Rightarrow> f x)"

definition parsePlanInput :: "json \<Rightarrow> plan option \<Rightarrow> (plan_problem, plan_input) result" where
  "parsePlanInput body base =
     and_then (plan_body body) (\<lambda>b.
     and_then (plan_name_of (plan_pick b base ''name'')) (\<lambda>name.
     and_then (plan_amount (plan_pick b base ''pricePerHour'') BadPrice) (\<lambda>price.
     and_then (plan_amount (json_or (plan_pick b base ''freeHoursPerMonth'') (JNum 0)) BadFreeHours) (\<lambda>free.
     and_then (plan_count (plan_pick b base ''maxServers'') BadServers) (\<lambda>servers.
     and_then (plan_count (plan_pick b base ''maxDatabases'') BadDatabases) (\<lambda>databases.
     and_then (plan_ceiling (plan_pick b base ''maxRamMb'') BadRam 128) (\<lambda>ram.
     and_then (plan_ceiling (plan_pick b base ''maxBackupsPerServer'') BadBackups 1) (\<lambda>backups.
     and_then (plan_flag (json_or (plan_pick b base ''active'') (JBool True))) (\<lambda>active.
     Inr \<lparr>in_name = name, in_price = price, in_freeHours = free, in_maxServers = servers,
          in_maxDatabases = databases, in_maxRamMb = ram, in_maxBackups = backups,
          in_active = active\<rparr>)))))))))"

text \<open>
  \<open>planIdFrom\<close>. \<open>normalize('NFKD')\<close> splits an accented letter into the letter and a combining
  mark, which lies beyond the code units of the model and is written \<open>^\<close> here: like the mark it
  is no letter or digit, so the next step turns it into a dash all the same.
\<close>

definition nfkd_char :: "char \<Rightarrow> string" where
  "nfkd_char c =
     (let n = of_char c :: nat
      in if 224 \<le> n \<and> n \<le> 229 then ''a^'' else if n = 231 then ''c^''
         else if 232 \<le> n \<and> n \<le> 235 then ''e^'' else if 236 \<le> n \<and> n \<le> 239 then ''i^''
         else if n = 241 then ''n^'' else if 242 \<le> n \<and> n \<le> 246 then ''o^''
         else if 249 \<le> n \<and> n \<le> 252 then ''u^'' else if n = 253 \<or> n = 255 then ''y^''
         else if n = 170 then ''a'' else if n = 186 then ''o''
         else if n = 178 then ''2'' else if n = 179 then ''3'' else if n = 185 then ''1''
         else if n = 188 then ''1^4'' else if n = 189 then ''1^2'' else if n = 190 then ''3^4''
         else [c])"

definition slug_char :: "char \<Rightarrow> bool" where
  "slug_char c = (let n = of_char c :: nat in (97 \<le> n \<and> n \<le> 122) \<or> (48 \<le> n \<and> n \<le> 57))"

text \<open>\<open>replace(/[^a-z0-9]+/g, '-')\<close>: every run of other characters becomes one dash.\<close>

fun dash_runs :: "string \<Rightarrow> string" where
  "dash_runs [] = []"
| "dash_runs (c # cs) =
     (if slug_char c then c # dash_runs cs
      else case cs of [] \<Rightarrow> ''-'' | d # ds \<Rightarrow> if slug_char d then CHR ''-'' # dash_runs cs else dash_runs cs)"

text \<open>\<open>replace(/^-+|-+$/g, '')\<close>.\<close>

definition strip_dashes :: "string \<Rightarrow> string" where
  "strip_dashes s = strip (\<lambda>c. c = CHR ''-'') s"

definition planIdFrom :: "string \<Rightarrow> string" where
  "planIdFrom name = take 40 (strip_dashes (dash_runs (concat (map nfkd_char (js_lower name)))))"

definition retireProblem :: "plan \<Rightarrow> bool" where
  "retireProblem p = (plan_id p = plan_id default_plan)"

datatype switch_problem = NoSuchPlan | NotOffered string

definition switchProblem :: "plan option \<Rightarrow> string \<Rightarrow> switch_problem option" where
  "switchProblem target current =
     (case target of
        None \<Rightarrow> Some NoSuchPlan
      | Some t \<Rightarrow> if plan_id t = current then None
                  else if \<not> plan_active t then Some (NotOffered (plan_name t)) else None)"

section \<open>Prices are sane\<close>

lemma roundCurrency_round2: "roundCurrency = round2"
  by (simp add: fun_eq_iff roundCurrency_def round2_def)

lemma resourceFactor_min: "1 / 4 \<le> resourceFactor l"
  by (simp add: resourceFactor_def min_factor_def Let_def)

lemma resourceFactor_pos: "0 < resourceFactor l"
  using resourceFactor_min [of l] by linarith

lemma resourceFactor_mono:
  assumes "nullish (cpuPercent l) 50 \<le> nullish (cpuPercent m) 50"
    and "nullish (ramPercent l) 50 \<le> nullish (ramPercent m) 50"
  shows "resourceFactor l \<le> resourceFactor m"
proof -
  have "0 \<le> jadd standard_cpu standard_ram" by (simp add: standard_cpu_def standard_ram_def)
  with assms show ?thesis
    unfolding resourceFactor_def Let_def roundCurrency_round2 standard_cpu_def standard_ram_def
    by (intro max.mono order_refl round2_mono jdiv_mono jadd_mono)
qed

lemma resourceFactor_standard: "resourceFactor no_limits = 1"
  by code_simp

lemma hoursBetween_nonneg [simp]: "0 \<le> hoursBetween s e"
  by (simp add: hoursBetween_def ms_per_hour_def Let_def)

lemma hoursBetween_mono: "s' \<le> s \<Longrightarrow> e \<le> e' \<Longrightarrow> hoursBetween s e \<le> hoursBetween s' e'"
  by (simp add: hoursBetween_def ms_per_hour_def Let_def) (auto intro!: jdiv_mono)

lemma accruedHours_nonneg: "0 \<le> accruedHours ivs now"
  by (auto simp: accruedHours_def intro!: jsum_nonneg)

lemma billableHours_nonneg [simp]: "0 \<le> billableHours h p"
  by (simp add: billableHours_def)

lemma computeCharge_nonneg: "0 \<le> pricePerHour p \<Longrightarrow> 0 \<le> computeCharge h p l"
  unfolding computeCharge_def Let_def roundCurrency_round2
  using resourceFactor_pos [of l] by (intro round2_nonneg j_nonneg billableHours_nonneg) auto

lemma computeCharge_mono:
  assumes "0 \<le> pricePerHour p" "h \<le> h'"
  shows "computeCharge h p l \<le> computeCharge h' p l"
proof -
  have "billableHours h p \<le> billableHours h' p"
    using assms(2) unfolding billableHours_def by (intro max.mono order_refl jsub_mono)
  then have *: "jmul (billableHours h p) (pricePerHour p) \<le> jmul (billableHours h' p) (pricePerHour p)"
    using assms(1) by (intro jmul_mono) auto
  have "0 \<le> resourceFactor l" "0 \<le> jmul (billableHours h p) (pricePerHour p)"
    using resourceFactor_pos [of l] assms(1) by (auto intro!: j_nonneg)
  then show ?thesis
    unfolding computeCharge_def Let_def roundCurrency_round2
    by (intro round2_mono) (rule jmul_mono [OF _ *], simp_all)
qed

lemma computeCharge_free: "h \<le> freeHoursPerMonth p \<Longrightarrow> computeCharge h p l = 0"
proof -
  assume "h \<le> freeHoursPerMonth p"
  then have "jsub h (freeHoursPerMonth p) \<le> 0" by (simp add: jsub_def b64_le_0)
  then show ?thesis by (simp add: computeCharge_def billableHours_def roundCurrency_def)
qed

text \<open>The wallet counts in whole cents: whatever is added or drawn, the balance stays one.\<close>

definition whole_cents :: "rat \<Rightarrow> bool" where
  "whole_cents x = (\<exists>n. x = cents n)"

lemma whole_cents_0 [simp]: "whole_cents 0"
  unfolding whole_cents_def by (metis cents_0)

lemma whole_cents_round [simp]: "whole_cents (roundCurrency x)"
  unfolding whole_cents_def roundCurrency_round2 round2_cents_of by blast

lemma whole_cents_wallet [simp]: "whole_cents (applyTopUp b a)" "whole_cents (applyCharge b a)"
  by (simp_all add: applyTopUp_def applyCharge_def)

lemma wallet_exact:
  assumes "0 \<le> a" "\<bar>a\<bar> \<le> 2 ^ 46" "\<bar>b\<bar> \<le> 2 ^ 46"
  shows "applyTopUp (cents b) (cents a) = cents (b + a)"
    and "applyCharge (cents b) (cents a) = cents (b - a)"
proof -
  have "0 \<le> cents a" using cents_mono [of 0 a] assms(1) by simp
  then show "applyTopUp (cents b) (cents a) = cents (b + a)" "applyCharge (cents b) (cents a) = cents (b - a)"
    using cents_sum assms by (simp_all add: applyTopUp_def applyCharge_def roundCurrency_round2)
qed

section \<open>The catalogue\<close>

lemma js_trim_idem [simp]: "js_trim (js_trim s) = js_trim s"
  by (simp add: js_trim_def)

definition valid_plan_input :: "plan_input \<Rightarrow> bool" where
  "valid_plan_input i =
     (in_name i \<noteq> [] \<and> js_trim (in_name i) = in_name i \<and> length (in_name i) \<le> 60
      \<and> 0 \<le> in_price i \<and> 0 \<le> in_freeHours i
      \<and> is_integral (in_maxServers i) \<and> 0 \<le> in_maxServers i
      \<and> is_integral (in_maxDatabases i) \<and> 0 \<le> in_maxDatabases i
      \<and> (\<forall>m. in_maxRamMb i = Some m \<longrightarrow> is_integral m \<and> 128 \<le> m)
      \<and> (\<forall>m. in_maxBackups i = Some m \<longrightarrow> is_integral m \<and> 1 \<le> m))"

definition input_of :: "plan \<Rightarrow> plan_input" where
  "input_of p = \<lparr>in_name = plan_name p, in_price = pricePerHour p, in_freeHours = freeHoursPerMonth p,
     in_maxServers = maxServers p, in_maxDatabases = maxDatabases p, in_maxRamMb = maxRamMb p,
     in_maxBackups = maxBackupsPerServer p, in_active = plan_active p\<rparr>"

lemma and_then_Inr [simp]: "and_then r f = Inr y \<longleftrightarrow> (\<exists>x. r = Inr x \<and> f x = Inr y)"
  by (auto simp: and_then_def split: sum.splits)

lemma and_then_simps [simp]: "and_then (Inr x) f = f x" "and_then (Inl e) f = Inl e"
  by (simp_all add: and_then_def)

lemma plan_name_of_valid:
  "plan_name_of v = Inr n \<Longrightarrow> n \<noteq> [] \<and> js_trim n = n \<and> length n \<le> 60"
  by (auto simp: plan_name_of_def max_plan_name_def js_trim_idem split: json.splits if_splits)

lemma plan_amount_valid: "plan_amount v e = Inr x \<Longrightarrow> 0 \<le> x"
  by (auto simp: plan_amount_def split: option.splits if_splits)

lemma plan_count_valid: "plan_count v e = Inr x \<Longrightarrow> is_integral x \<and> 0 \<le> x"
  by (auto simp: plan_count_def split: option.splits if_splits)

lemma plan_ceiling_valid: "plan_ceiling v e least = Inr (Some x) \<Longrightarrow> is_integral x \<and> least \<le> x"
  by (auto simp: plan_ceiling_def split: option.splits if_splits)

lemma parsePlanInput_valid_input: "parsePlanInput body base = Inr i \<Longrightarrow> valid_plan_input i"
  unfolding parsePlanInput_def and_then_Inr valid_plan_input_def
  by (auto dest: plan_name_of_valid plan_amount_valid plan_count_valid plan_ceiling_valid)

lemma plan_pick_fields:
  "jprop (JObj (plan_fields p)) ''name'' = JStr (plan_name p)"
  "jprop (JObj (plan_fields p)) ''pricePerHour'' = JNum (pricePerHour p)"
  "jprop (JObj (plan_fields p)) ''freeHoursPerMonth'' = JNum (freeHoursPerMonth p)"
  "jprop (JObj (plan_fields p)) ''maxServers'' = JNum (maxServers p)"
  "jprop (JObj (plan_fields p)) ''maxDatabases'' = JNum (maxDatabases p)"
  "jprop (JObj (plan_fields p)) ''maxRamMb'' = json_of_option (maxRamMb p)"
  "jprop (JObj (plan_fields p)) ''maxBackupsPerServer'' = json_of_option (maxBackupsPerServer p)"
  "jprop (JObj (plan_fields p)) ''active'' = JBool (plan_active p)"
  by (simp_all add: plan_fields_def)

text \<open>An edit that changes nothing keeps the plan as it is.\<close>

lemma parse_empty_edit:
  assumes "valid_plan_input (input_of p)"
  shows "parsePlanInput (JObj []) (Some p) = Inr (input_of p)"
proof -
  have pick: "plan_pick (JObj []) (Some p) k = jprop (JObj (plan_fields p)) k" for k
    by (simp add: plan_pick_def)
  have c: "plan_ceiling (json_of_option x) e m = Inr x"
    if "\<forall>y. x = Some y \<longrightarrow> is_integral y \<and> m \<le> y" for x e m
    using that by (auto simp: plan_ceiling_def json_of_option_def split: option.splits)
  show ?thesis
    using assms unfolding parsePlanInput_def plan_body_def json.case and_then_simps
      pick plan_pick_fields valid_plan_input_def
    by (simp add: plan_name_of_def plan_amount_def plan_count_def plan_flag_def json_or_def
        input_of_def max_plan_name_def c)
qed

subsection \<open>Identifiers made from names\<close>

declare dash_runs.simps [simp del]

lemma dash_runs_chars: "c \<in> set (dash_runs s) \<Longrightarrow> slug_char c \<or> c = CHR ''-''"
proof (induction s)
  case Nil
  then show ?case by (simp add: dash_runs.simps)
next
  case (Cons x xs)
  show ?case
  proof (cases "slug_char x")
    case True
    with Cons show ?thesis by (auto simp: dash_runs.simps)
  next
    case False
    with Cons show ?thesis
      by (cases xs) (auto simp: dash_runs.simps(2) [of x] split: if_splits)
  qed
qed

lemma planIdFrom_chars: "c \<in> set (planIdFrom s) \<Longrightarrow> slug_char c \<or> c = CHR ''-''"
  unfolding planIdFrom_def strip_dashes_def using set_strip dash_runs_chars by (meson in_set_takeD subsetD)

lemma planIdFrom_hd: "planIdFrom s \<noteq> [] \<Longrightarrow> hd (planIdFrom s) \<noteq> CHR ''-''"
  unfolding planIdFrom_def strip_dashes_def
  using strip_hd [of "\<lambda>c. c = CHR ''-''"] by (simp add: hd_take)

lemma planIdFrom_length: "length (planIdFrom s) \<le> 40"
  by (simp add: planIdFrom_def)

text \<open>Trimmed before it is cut: a long name can leave a dash at the end of the identifier.\<close>

lemma planIdFrom_dangling_dash:
  "planIdFrom (replicate 39 (CHR ''a'') @ '' b'') = replicate 39 (CHR ''a'') @ ''-''"
  by code_simp

end
