(* ===== verification/Billing_Repo.thy ===== *)
theory Billing_Repo
  imports Pricing
begin

text \<open>
  The billing bridge's records (\<^verbatim>\<open>types.ts\<close>) and its repository as the in-memory store
  implements it (\<^verbatim>\<open>repository.ts\<close>). The two methods that write what they read,
  \<open>getWallet\<close> and \<open>closeInterval\<close>, return the new store beside their answer.

  The lemmas: each method's effect on what the others read, and the laws of the conditional
  status change \<open>transitionLedgerStatus\<close>, stated once for any store in the locale
  \<open>status_store\<close> and proved of this one.
\<close>

section \<open>Records\<close>

datatype ledger_type = Topup | Charge
datatype ledger_status = Pending | Confirmed | Failed | Expired
datatype cycle_status = CycleOpen | CyclePaid | CycleOverdue

record interval =
  iv_id :: string
  iv_user :: string
  iv_deployment :: string
  iv_plan :: string
  iv_limits :: limits
  iv_started :: time
  iv_stopped :: "time option"
  iv_created :: time

record billed_deployment =
  bd_deployment :: string
  bd_user :: string
  bd_limits :: limits

record wallet =
  w_user :: string
  w_balance :: rat
  w_currency :: string

record ledger_entry =
  le_id :: string
  le_user :: string
  le_type :: ledger_type
  le_amount :: rat
  le_currency :: string
  le_reference :: string
  le_status :: ledger_status
  le_description :: string
  le_failure :: "string option"
  le_created :: time

record billing_cycle =
  cy_id :: string
  cy_user :: string
  cy_start :: time
  cy_end :: time
  cy_cost :: rat
  cy_currency :: string
  cy_status :: cycle_status
  cy_created :: time

section \<open>The store\<close>

record billing_repo =
  br_plans :: "(string \<times> plan) list"
  br_userPlans :: "(string \<times> string) list"
  br_deployments :: "(string \<times> billed_deployment) list"
  br_intervals :: "interval list"
  br_wallets :: "(string \<times> wallet) list"
  br_emails :: "(string \<times> string) list"
  br_warnings :: "(string \<times> time) list"
  br_ledger :: "ledger_entry list"
  br_cycles :: "billing_cycle list"
  br_drawn :: nat

definition new_billing_repo :: "plan list \<Rightarrow> billing_repo" where
  "new_billing_repo plans = \<lparr>br_plans = foldl (\<lambda>m p. AList.update (plan_id p) p m) [] plans, br_userPlans = [],
     br_deployments = [], br_intervals = [], br_wallets = [], br_emails = [], br_warnings = [],
     br_ledger = [], br_cycles = [], br_drawn = 0\<rparr>"

subsection \<open>Plans\<close>

definition getUserPlan :: "string \<Rightarrow> billing_repo \<Rightarrow> plan" where
  "getUserPlan userId r =
     (let own = (case map_of (br_userPlans r) userId of
                   None \<Rightarrow> None
                 | Some planId \<Rightarrow> if planId = '''' then None else map_of (br_plans r) planId)
      in nullish (orElse own (map_of (br_plans r) (plan_id default_plan))) default_plan)"

definition listPlans :: "billing_repo \<Rightarrow> plan list" where
  "listPlans r = map snd (br_plans r)"

definition getPlan :: "string \<Rightarrow> billing_repo \<Rightarrow> plan option" where
  "getPlan i r = map_of (br_plans r) i"

definition savePlan :: "plan \<Rightarrow> billing_repo \<Rightarrow> billing_repo" where
  "savePlan p r = r\<lparr>br_plans := AList.update (plan_id p) p (br_plans r)\<rparr>"

definition setUserPlan :: "string \<Rightarrow> string \<Rightarrow> billing_repo \<Rightarrow> billing_repo" where
  "setUserPlan userId planId r = r\<lparr>br_userPlans := AList.update userId planId (br_userPlans r)\<rparr>"

subsection \<open>Deployments and runtime intervals\<close>

definition saveDeployment :: "billed_deployment \<Rightarrow> billing_repo \<Rightarrow> billing_repo" where
  "saveDeployment d r = r\<lparr>br_deployments := AList.update (bd_deployment d) d (br_deployments r)\<rparr>"

definition getDeployment :: "string \<Rightarrow> billing_repo \<Rightarrow> billed_deployment option" where
  "getDeployment deploymentId r = map_of (br_deployments r) deploymentId"

definition is_open :: "string \<Rightarrow> interval \<Rightarrow> bool" where
  "is_open deploymentId i = (iv_deployment i = deploymentId \<and> iv_stopped i = None)"

definition getOpenInterval :: "string \<Rightarrow> billing_repo \<Rightarrow> interval option" where
  "getOpenInterval deploymentId r = find (is_open deploymentId) (rev (br_intervals r))"

definition getLastInterval :: "string \<Rightarrow> billing_repo \<Rightarrow> interval option" where
  "getLastInterval deploymentId r = find (\<lambda>i. iv_deployment i = deploymentId) (rev (br_intervals r))"

definition openInterval ::
  "time \<Rightarrow> string \<Rightarrow> string \<Rightarrow> string \<Rightarrow> limits \<Rightarrow> time \<Rightarrow> billing_repo \<Rightarrow> interval \<times> billing_repo" where
  "openInterval clock userId deploymentId planId l startedAt r =
     (let record = \<lparr>iv_id = uuid (br_drawn r), iv_user = userId, iv_deployment = deploymentId,
            iv_plan = planId, iv_limits = l, iv_started = startedAt, iv_stopped = None, iv_created = clock\<rparr>
      in (record, r\<lparr>br_intervals := br_intervals r @ [record], br_drawn := Suc (br_drawn r)\<rparr>))"

definition closeInterval :: "string \<Rightarrow> time \<Rightarrow> billing_repo \<Rightarrow> interval option \<times> billing_repo" where
  "closeInterval deploymentId stoppedAt r =
     (case getOpenInterval deploymentId r of
        None \<Rightarrow> (None, r)
      | Some i \<Rightarrow>
          (Some (i\<lparr>iv_stopped := Some stoppedAt\<rparr>),
           r\<lparr>br_intervals :=
             rev (map_first (is_open deploymentId) (iv_stopped_update (\<lambda>_. Some stoppedAt)) (rev (br_intervals r)))\<rparr>))"

definition listIntervals :: "string \<Rightarrow> billing_repo \<Rightarrow> interval list" where
  "listIntervals userId r = [i \<leftarrow> br_intervals r. iv_user i = userId]"

subsection \<open>Wallets\<close>

definition getWallet :: "string \<Rightarrow> billing_repo \<Rightarrow> wallet \<times> billing_repo" where
  "getWallet userId r =
     (case map_of (br_wallets r) userId of
        Some w \<Rightarrow> (w, r)
      | None \<Rightarrow>
          (let w = \<lparr>w_user = userId, w_balance = 0, w_currency = plan_currency default_plan\<rparr>
           in (w, r\<lparr>br_wallets := AList.update userId w (br_wallets r)\<rparr>)))"

definition setWalletEmail :: "string \<Rightarrow> string \<Rightarrow> billing_repo \<Rightarrow> billing_repo" where
  "setWalletEmail userId email r =
     (let r = snd (getWallet userId r) in r\<lparr>br_emails := AList.update userId email (br_emails r)\<rparr>)"

definition getWalletEmail :: "string \<Rightarrow> billing_repo \<Rightarrow> string option" where
  "getWalletEmail userId r = map_of (br_emails r) userId"

definition getLowCreditWarnedAt :: "string \<Rightarrow> billing_repo \<Rightarrow> time option" where
  "getLowCreditWarnedAt userId r = map_of (br_warnings r) userId"

definition setLowCreditWarnedAt :: "string \<Rightarrow> time option \<Rightarrow> billing_repo \<Rightarrow> billing_repo" where
  "setLowCreditWarnedAt userId t r =
     (let r = snd (getWallet userId r)
      in r\<lparr>br_warnings := (case t of Some a \<Rightarrow> AList.update userId a (br_warnings r)
                                    | None \<Rightarrow> AList.delete userId (br_warnings r))\<rparr>)"

definition setBalance :: "string \<Rightarrow> rat \<Rightarrow> billing_repo \<Rightarrow> wallet \<times> billing_repo" where
  "setBalance userId balance r =
     (let (w, r) = getWallet userId r; updated = w\<lparr>w_balance := balance\<rparr>
      in (updated, r\<lparr>br_wallets := AList.update userId updated (br_wallets r)\<rparr>))"

subsection \<open>The ledger\<close>

record ledger_input =
  li_user :: string
  li_type :: ledger_type
  li_amount :: rat
  li_currency :: string
  li_reference :: string
  li_status :: ledger_status
  li_description :: string

definition createLedgerEntry :: "time \<Rightarrow> ledger_input \<Rightarrow> billing_repo \<Rightarrow> ledger_entry \<times> billing_repo" where
  "createLedgerEntry clock inp r =
     (let entry = \<lparr>le_id = uuid (br_drawn r), le_user = li_user inp, le_type = li_type inp,
            le_amount = li_amount inp, le_currency = li_currency inp, le_reference = li_reference inp,
            le_status = li_status inp, le_description = li_description inp, le_failure = None,
            le_created = clock\<rparr>
      in (entry, r\<lparr>br_ledger := br_ledger r @ [entry], br_drawn := Suc (br_drawn r)\<rparr>))"

definition getLedgerByReference :: "string \<Rightarrow> billing_repo \<Rightarrow> ledger_entry option" where
  "getLedgerByReference reference r = find (\<lambda>e. le_reference e = reference) (br_ledger r)"

definition updateLedgerStatus :: "string \<Rightarrow> ledger_status \<Rightarrow> billing_repo \<Rightarrow> ledger_entry option \<times> billing_repo" where
  "updateLedgerStatus i status r =
     (case find (\<lambda>e. le_id e = i) (br_ledger r) of
        None \<Rightarrow> (None, r)
      | Some e \<Rightarrow>
          (Some (e\<lparr>le_status := status\<rparr>),
           r\<lparr>br_ledger := map_first (\<lambda>e. le_id e = i) (le_status_update (\<lambda>_. status)) (br_ledger r)\<rparr>))"

definition move_entry :: "ledger_status \<Rightarrow> string option \<Rightarrow> ledger_entry \<Rightarrow> ledger_entry" where
  "move_entry to reason e = e\<lparr>le_status := to, le_failure := orElse reason (le_failure e)\<rparr>"

definition transitionLedgerStatus ::
  "string \<Rightarrow> ledger_status list \<Rightarrow> ledger_status \<Rightarrow> string option \<Rightarrow> billing_repo \<Rightarrow> bool \<times> billing_repo" where
  "transitionLedgerStatus i from to reason r =
     (case find (\<lambda>e. le_id e = i) (br_ledger r) of
        None \<Rightarrow> (False, r)
      | Some e \<Rightarrow>
          if le_status e \<notin> set from then (False, r)
          else (True, r\<lparr>br_ledger := map_first (\<lambda>e. le_id e = i) (move_entry to reason) (br_ledger r)\<rparr>))"

definition listPendingTopUps :: "time \<Rightarrow> billing_repo \<Rightarrow> ledger_entry list" where
  "listPendingTopUps createdBefore r =
     [e \<leftarrow> br_ledger r. le_type e = Topup \<and> le_status e = Pending \<and> le_created e < createdBefore]"

definition listLedger :: "string \<Rightarrow> billing_repo \<Rightarrow> ledger_entry list" where
  "listLedger userId r = [e \<leftarrow> br_ledger r. le_user e = userId]"

subsection \<open>Cycles\<close>

definition createCycle ::
  "time \<Rightarrow> string \<Rightarrow> time \<Rightarrow> time \<Rightarrow> rat \<Rightarrow> string \<Rightarrow> cycle_status \<Rightarrow> billing_repo \<Rightarrow> billing_repo" where
  "createCycle clock userId start end' cost cur status r =
     r\<lparr>br_cycles := br_cycles r @ [\<lparr>cy_id = uuid (br_drawn r), cy_user = userId, cy_start = start,
         cy_end = end', cy_cost = cost, cy_currency = cur, cy_status = status, cy_created = clock\<rparr>],
       br_drawn := Suc (br_drawn r)\<rparr>"

definition listCycles :: "string \<Rightarrow> billing_repo \<Rightarrow> billing_cycle list" where
  "listCycles userId r = [c \<leftarrow> br_cycles r. cy_user c = userId]"

definition listBillableUserIds :: "billing_repo \<Rightarrow> string list" where
  "listBillableUserIds r =
     js_unique (map iv_user (br_intervals r) @ map fst (br_wallets r) @ map fst (br_userPlans r)
                @ map (\<lambda>(k, d). bd_user d) (br_deployments r))"

section \<open>What each method leaves alone\<close>

lemma getWallet_frame [frame_simps]:
  "br_plans (snd (getWallet u r)) = br_plans r"
  "br_userPlans (snd (getWallet u r)) = br_userPlans r"
  "br_deployments (snd (getWallet u r)) = br_deployments r"
  "br_intervals (snd (getWallet u r)) = br_intervals r"
  "br_emails (snd (getWallet u r)) = br_emails r"
  "br_warnings (snd (getWallet u r)) = br_warnings r"
  "br_ledger (snd (getWallet u r)) = br_ledger r"
  "br_cycles (snd (getWallet u r)) = br_cycles r"
  "br_drawn (snd (getWallet u r)) = br_drawn r"
  by (simp_all add: getWallet_def Let_def split: option.split)

lemma setBalance_frame [frame_simps]:
  "br_plans (snd (setBalance u b r)) = br_plans r"
  "br_userPlans (snd (setBalance u b r)) = br_userPlans r"
  "br_deployments (snd (setBalance u b r)) = br_deployments r"
  "br_intervals (snd (setBalance u b r)) = br_intervals r"
  "br_emails (snd (setBalance u b r)) = br_emails r"
  "br_warnings (snd (setBalance u b r)) = br_warnings r"
  "br_ledger (snd (setBalance u b r)) = br_ledger r"
  "br_cycles (snd (setBalance u b r)) = br_cycles r"
  "br_drawn (snd (setBalance u b r)) = br_drawn r"
  by (simp_all add: setBalance_def Let_def frame_simps case_prod_unfold)

lemma setWalletEmail_frame [frame_simps]:
  "br_plans (setWalletEmail u e r) = br_plans r"
  "br_userPlans (setWalletEmail u e r) = br_userPlans r"
  "br_deployments (setWalletEmail u e r) = br_deployments r"
  "br_intervals (setWalletEmail u e r) = br_intervals r"
  "br_warnings (setWalletEmail u e r) = br_warnings r"
  "br_ledger (setWalletEmail u e r) = br_ledger r"
  "br_cycles (setWalletEmail u e r) = br_cycles r"
  "br_drawn (setWalletEmail u e r) = br_drawn r"
  by (simp_all add: setWalletEmail_def Let_def frame_simps)

lemma setLowCreditWarnedAt_frame [frame_simps]:
  "br_plans (setLowCreditWarnedAt u t r) = br_plans r"
  "br_userPlans (setLowCreditWarnedAt u t r) = br_userPlans r"
  "br_deployments (setLowCreditWarnedAt u t r) = br_deployments r"
  "br_intervals (setLowCreditWarnedAt u t r) = br_intervals r"
  "br_emails (setLowCreditWarnedAt u t r) = br_emails r"
  "br_ledger (setLowCreditWarnedAt u t r) = br_ledger r"
  "br_cycles (setLowCreditWarnedAt u t r) = br_cycles r"
  "br_drawn (setLowCreditWarnedAt u t r) = br_drawn r"
  by (simp_all add: setLowCreditWarnedAt_def Let_def frame_simps)

lemma createLedgerEntry_frame [frame_simps]:
  "br_plans (snd (createLedgerEntry c i r)) = br_plans r"
  "br_userPlans (snd (createLedgerEntry c i r)) = br_userPlans r"
  "br_deployments (snd (createLedgerEntry c i r)) = br_deployments r"
  "br_intervals (snd (createLedgerEntry c i r)) = br_intervals r"
  "br_wallets (snd (createLedgerEntry c i r)) = br_wallets r"
  "br_emails (snd (createLedgerEntry c i r)) = br_emails r"
  "br_warnings (snd (createLedgerEntry c i r)) = br_warnings r"
  "br_cycles (snd (createLedgerEntry c i r)) = br_cycles r"
  by (simp_all add: createLedgerEntry_def Let_def)

lemma transitionLedgerStatus_frame [frame_simps]:
  "br_plans (snd (transitionLedgerStatus i from to why r)) = br_plans r"
  "br_userPlans (snd (transitionLedgerStatus i from to why r)) = br_userPlans r"
  "br_deployments (snd (transitionLedgerStatus i from to why r)) = br_deployments r"
  "br_intervals (snd (transitionLedgerStatus i from to why r)) = br_intervals r"
  "br_wallets (snd (transitionLedgerStatus i from to why r)) = br_wallets r"
  "br_emails (snd (transitionLedgerStatus i from to why r)) = br_emails r"
  "br_warnings (snd (transitionLedgerStatus i from to why r)) = br_warnings r"
  "br_cycles (snd (transitionLedgerStatus i from to why r)) = br_cycles r"
  "br_drawn (snd (transitionLedgerStatus i from to why r)) = br_drawn r"
  by (simp_all add: transitionLedgerStatus_def split: option.split)

lemma createCycle_frame [frame_simps]:
  "br_plans (createCycle c u a e x cur st r) = br_plans r"
  "br_userPlans (createCycle c u a e x cur st r) = br_userPlans r"
  "br_deployments (createCycle c u a e x cur st r) = br_deployments r"
  "br_intervals (createCycle c u a e x cur st r) = br_intervals r"
  "br_wallets (createCycle c u a e x cur st r) = br_wallets r"
  "br_emails (createCycle c u a e x cur st r) = br_emails r"
  "br_warnings (createCycle c u a e x cur st r) = br_warnings r"
  "br_ledger (createCycle c u a e x cur st r) = br_ledger r"
  by (simp_all add: createCycle_def)

lemma openInterval_frame [frame_simps]:
  "br_plans (snd (openInterval c u d p l t r)) = br_plans r"
  "br_userPlans (snd (openInterval c u d p l t r)) = br_userPlans r"
  "br_deployments (snd (openInterval c u d p l t r)) = br_deployments r"
  "br_wallets (snd (openInterval c u d p l t r)) = br_wallets r"
  "br_emails (snd (openInterval c u d p l t r)) = br_emails r"
  "br_warnings (snd (openInterval c u d p l t r)) = br_warnings r"
  "br_ledger (snd (openInterval c u d p l t r)) = br_ledger r"
  "br_cycles (snd (openInterval c u d p l t r)) = br_cycles r"
  by (simp_all add: openInterval_def Let_def)

lemma closeInterval_frame [frame_simps]:
  "br_plans (snd (closeInterval d t r)) = br_plans r"
  "br_userPlans (snd (closeInterval d t r)) = br_userPlans r"
  "br_deployments (snd (closeInterval d t r)) = br_deployments r"
  "br_wallets (snd (closeInterval d t r)) = br_wallets r"
  "br_emails (snd (closeInterval d t r)) = br_emails r"
  "br_warnings (snd (closeInterval d t r)) = br_warnings r"
  "br_ledger (snd (closeInterval d t r)) = br_ledger r"
  "br_cycles (snd (closeInterval d t r)) = br_cycles r"
  "br_drawn (snd (closeInterval d t r)) = br_drawn r"
  by (simp_all add: closeInterval_def split: option.split)

lemma saveDeployment_frame [frame_simps]:
  "br_plans (saveDeployment d r) = br_plans r"
  "br_userPlans (saveDeployment d r) = br_userPlans r"
  "br_intervals (saveDeployment d r) = br_intervals r"
  "br_wallets (saveDeployment d r) = br_wallets r"
  "br_emails (saveDeployment d r) = br_emails r"
  "br_warnings (saveDeployment d r) = br_warnings r"
  "br_ledger (saveDeployment d r) = br_ledger r"
  "br_cycles (saveDeployment d r) = br_cycles r"
  "br_drawn (saveDeployment d r) = br_drawn r"
  by (simp_all add: saveDeployment_def)

lemma savePlan_frame [frame_simps]:
  "br_userPlans (savePlan p r) = br_userPlans r"
  "br_deployments (savePlan p r) = br_deployments r"
  "br_intervals (savePlan p r) = br_intervals r"
  "br_wallets (savePlan p r) = br_wallets r"
  "br_emails (savePlan p r) = br_emails r"
  "br_warnings (savePlan p r) = br_warnings r"
  "br_ledger (savePlan p r) = br_ledger r"
  "br_cycles (savePlan p r) = br_cycles r"
  "br_drawn (savePlan p r) = br_drawn r"
  by (simp_all add: savePlan_def)

lemma setUserPlan_frame [frame_simps]:
  "br_plans (setUserPlan u p r) = br_plans r"
  "br_deployments (setUserPlan u p r) = br_deployments r"
  "br_intervals (setUserPlan u p r) = br_intervals r"
  "br_wallets (setUserPlan u p r) = br_wallets r"
  "br_emails (setUserPlan u p r) = br_emails r"
  "br_warnings (setUserPlan u p r) = br_warnings r"
  "br_ledger (setUserPlan u p r) = br_ledger r"
  "br_cycles (setUserPlan u p r) = br_cycles r"
  "br_drawn (setUserPlan u p r) = br_drawn r"
  by (simp_all add: setUserPlan_def)

section \<open>Balances\<close>

definition balance_of :: "billing_repo \<Rightarrow> string \<Rightarrow> rat" where
  "balance_of r userId = (case map_of (br_wallets r) userId of None \<Rightarrow> 0 | Some w \<Rightarrow> w_balance w)"

lemma balance_of_cong: "br_wallets r = br_wallets r' \<Longrightarrow> balance_of r = balance_of r'"
  by (simp add: balance_of_def fun_eq_iff)

lemma getWallet_balance [simp]:
  "w_balance (fst (getWallet u r)) = balance_of r u"
  "balance_of (snd (getWallet u r)) = balance_of r"
  by (auto simp: getWallet_def balance_of_def fun_eq_iff Let_def split: option.split)

lemma setBalance_balance [simp]:
  "balance_of (snd (setBalance u b r)) = (balance_of r)(u := b)"
  by (auto simp: setBalance_def balance_of_def fun_eq_iff getWallet_def Let_def split: option.split)

lemma balance_of_frames [simp]:
  "balance_of (setWalletEmail u e r) = balance_of r"
  "balance_of (setLowCreditWarnedAt u wt r) = balance_of r"
  "balance_of (snd (createLedgerEntry c i r)) = balance_of r"
  "balance_of (snd (transitionLedgerStatus j from to why r)) = balance_of r"
  "balance_of (createCycle c u a z x cur st r) = balance_of r"
  "balance_of (snd (openInterval c u d p l t r)) = balance_of r"
  "balance_of (snd (closeInterval dpl t r)) = balance_of r"
  "balance_of (saveDeployment dep r) = balance_of r"
  "balance_of (savePlan pl r) = balance_of r"
  "balance_of (setUserPlan u pid r) = balance_of r"
  by (simp_all add: balance_of_def fun_eq_iff frame_simps)
     (simp_all add: setWalletEmail_def setLowCreditWarnedAt_def Let_def getWallet_def split: option.split)

lemma wallet_keys:
  "fst ` set (br_wallets (snd (getWallet u r))) = insert u (fst ` set (br_wallets r))"
  "fst ` set (br_wallets (snd (setBalance u b r))) = insert u (fst ` set (br_wallets r))"
proof -
  have g: "fst ` set (br_wallets (snd (getWallet u r))) = insert u (fst ` set (br_wallets r))" for r
    by (auto simp: getWallet_def Let_def dom_update split: option.split dest!: map_of_SomeD intro: rev_image_eqI)
  then show "fst ` set (br_wallets (snd (getWallet u r))) = insert u (fst ` set (br_wallets r))" .
  show "fst ` set (br_wallets (snd (setBalance u b r))) = insert u (fst ` set (br_wallets r))"
    by (simp add: setBalance_def Let_def case_prod_unfold dom_update g)
qed

section \<open>The conditional status change\<close>

text \<open>
  What a client may assume of a store whose entries move between statuses only conditionally:
  the move succeeds exactly when the current status is among \<open>from\<close>, and then it is \<open>to\<close>.
\<close>

locale status_store =
  fixes status :: "'s \<Rightarrow> 'i \<Rightarrow> 'st option"
    and move :: "'i \<Rightarrow> 'st list \<Rightarrow> 'st \<Rightarrow> 'w \<Rightarrow> 's \<Rightarrow> bool \<times> 's"
  assumes move_ok: "fst (move i from to w s) = (\<exists>st \<in> set from. status s i = Some st)"
    and move_status: "status (snd (move i from to w s)) =
      (if fst (move i from to w s) then (status s)(i := Some to) else status s)"
begin

text \<open>A run of moves, with the answer of each.\<close>

fun moves :: "('i \<times> 'st list \<times> 'st \<times> 'w) list \<Rightarrow> 's \<Rightarrow> bool list \<times> 's" where
  "moves [] s = ([], s)"
| "moves ((i, from, to, w) # ms) s =
     (let (ok, s) = move i from to w s; (oks, s) = moves ms s in (ok # oks, s))"

lemma moves_length: "length (fst (moves ms s)) = length ms"
proof (induction ms arbitrary: s)
  case (Cons m ms)
  then show ?case by (cases m) (simp add: split_beta)
qed simp

lemma move_twice: "to \<notin> set from \<Longrightarrow> fst (move i from to w s) \<Longrightarrow> \<not> fst (move i from to w' (snd (move i from to w s)))"
  by (simp add: move_ok [of i "from" to w'] move_status)

text \<open>A status no move starts from is final.\<close>

lemma final_status:
  assumes "status s i = Some st" "\<forall>(j, from, to, w) \<in> set ms. j = i \<longrightarrow> st \<notin> set from"
  shows "status (snd (moves ms s)) i = Some st
    \<and> (\<forall>k < length ms. fst (ms ! k) = i \<longrightarrow> \<not> fst (moves ms s) ! k)"
  using assms
proof (induction ms arbitrary: s)
  case Nil
  then show ?case by simp
next
  case (Cons m ms)
  obtain j fs to w where m: "m = (j, fs, to, w)" by (cases m) auto
  have "status (snd (move j fs to w s)) i = Some st"
    using Cons.prems by (auto simp: m move_status move_ok)
  moreover have "j = i \<Longrightarrow> \<not> fst (move j fs to w s)" using Cons.prems by (auto simp: m move_ok)
  ultimately show ?case using Cons.IH [of "snd (move j fs to w s)"] Cons.prems(2)
    by (auto simp: m Let_def case_prod_unfold nth_Cons split: nat.splits)
qed

text \<open>Of any number of moves of one entry into final statuses, at most one succeeds.\<close>

lemma one_final_move:
  assumes "\<forall>(j, from, to, w) \<in> set ms. j = i \<and> set from \<subseteq> live \<and> to \<notin> live"
  shows "length (filter (\<lambda>ok. ok) (fst (moves ms s))) \<le> 1"
  using assms
proof (induction ms arbitrary: s)
  case Nil
  then show ?case by simp
next
  case (Cons m ms)
  obtain j fs to w where m: "m = (j, fs, to, w)" by (cases m) auto
  let ?s = "snd (move j fs to w s)"
  have e: "fst (moves (m # ms) s) = fst (move j fs to w s) # fst (moves ms ?s)"
    by (simp add: m split_beta)
  show ?case
  proof (cases "fst (move j fs to w s)")
    case True
    then have st: "status ?s i = Some to" using Cons.prems by (simp add: m move_status)
    have to: "to \<notin> live" using Cons.prems by (simp add: m)
    have rest: "fst x = i \<and> set (fst (snd x)) \<subseteq> live" if "x \<in> set ms" for x
      using Cons.prems that unfolding m by fastforce
    with to have "\<forall>(j, from, _, _) \<in> set ms. j = i \<longrightarrow> to \<notin> set from" by fastforce
    with final_status [OF st this] rest have "\<forall>k < length ms. \<not> fst (moves ms ?s) ! k"
      by (meson nth_mem)
    then have "filter (\<lambda>ok. ok) (fst (moves ms ?s)) = []"
      by (auto simp: filter_empty_conv in_set_conv_nth moves_length)
    then show ?thesis by (simp add: e)
  next
    case False
    then show ?thesis using Cons.IH [of ?s] Cons.prems by (simp add: e)
  qed
qed

end

definition ledger_status_of :: "billing_repo \<Rightarrow> string \<Rightarrow> ledger_status option" where
  "ledger_status_of r i = map_option le_status (find (\<lambda>e. le_id e = i) (br_ledger r))"

lemma move_entry_simps [simp]:
  "le_id (move_entry to why e) = le_id e" "le_user (move_entry to why e) = le_user e"
  "le_type (move_entry to why e) = le_type e" "le_amount (move_entry to why e) = le_amount e"
  "le_reference (move_entry to why e) = le_reference e" "le_status (move_entry to why e) = to"
  "le_created (move_entry to why e) = le_created e"
  by (simp_all add: move_entry_def)

interpretation ledger: status_store ledger_status_of transitionLedgerStatus
proof
  fix i "from" to why r
  show "fst (transitionLedgerStatus i from to why r) = (\<exists>st \<in> set from. ledger_status_of r i = Some st)"
    by (auto simp: transitionLedgerStatus_def ledger_status_of_def split: option.split)
  have "find (\<lambda>e. le_id e = j) (map_first (\<lambda>e. le_id e = i) (move_entry to why) es) =
      (if j = i then map_option (move_entry to why) (find (\<lambda>e. le_id e = i) es) else find (\<lambda>e. le_id e = j) es)" for j es
    by (auto intro: find_map_first_same find_map_first_other)
  then show "ledger_status_of (snd (transitionLedgerStatus i from to why r)) =
      (if fst (transitionLedgerStatus i from to why r) then (ledger_status_of r)(i := Some to) else ledger_status_of r)"
    by (auto simp: transitionLedgerStatus_def ledger_status_of_def fun_eq_iff split: option.split)
qed

end
