(* ===== verification/Billing_Cycle.thy ===== *)
theory Billing_Cycle
  imports Billing_Repo "HOL-Library.Sublist" "HOL-Library.Multiset"
begin

text \<open>
  The monthly billing cycle (\<^verbatim>\<open>cycle.ts\<close>): the calendar months it bills, the cost of a user's
  runtime in a period, and the run that charges every user once.

  The lemmas: months follow each other without gap or overlap; a cost is never negative, does
  not depend on the order of the intervals, grows with the intervals and shrinks with the free
  hours; a run leaves each user it bills with exactly one cycle for the period and a second run
  of the same period changes nothing.
\<close>

section \<open>Periods\<close>

record period =
  cp_start :: time
  cp_end :: time

definition monthPeriodOf :: "time \<Rightarrow> period" where
  "monthPeriodOf t = \<lparr>cp_start = date_utc (utc_year t) (utc_month t),
                      cp_end = date_utc (utc_year t) (utc_month t + 1)\<rparr>"

definition previousMonthPeriod :: "time \<Rightarrow> period" where
  "previousMonthPeriod t = monthPeriodOf (cp_start (monthPeriodOf t) - 1)"

definition clipIntervalHours :: "interval \<Rightarrow> period \<Rightarrow> rat" where
  "clipIntervalHours i p =
     (let start = max (iv_started i) (cp_start p);
          stop = min (nullish (iv_stopped i) (cp_end p)) (cp_end p)
      in if stop \<le> start then 0 else hoursBetween start stop)"

section \<open>The cost of a period\<close>

type_synonym rate_of = "string \<Rightarrow> rat option"

definition ratesOf :: "plan list \<Rightarrow> rate_of" where
  "ratesOf plans = map_of (foldl (\<lambda>m p. AList.update (plan_id p) (pricePerHour p) m) [] plans)"

definition cost_step :: "plan \<Rightarrow> period \<Rightarrow> rate_of \<Rightarrow> rat \<times> rat \<Rightarrow> interval \<Rightarrow> rat \<times> rat" where
  "cost_step p per rateOf acc i =
     (let (remainingFree, cost) = acc; h = clipIntervalHours i per
      in if h \<le> 0 then (remainingFree, cost)
         else let freeApplied = min remainingFree h
              in (jsub remainingFree freeApplied,
                  jadd cost (jmul (jmul (jsub h freeApplied) (nullish (rateOf (iv_plan i)) (pricePerHour p)))
                                  (resourceFactor (iv_limits i)))))"

definition computeCycleCost :: "interval list \<Rightarrow> plan \<Rightarrow> period \<Rightarrow> rate_of \<Rightarrow> rat" where
  "computeCycleCost intervals p per rateOf =
     (let ordered = sort_key iv_started intervals
      in roundCurrency (snd (foldl (cost_step p per rateOf) (freeHoursPerMonth p, 0) ordered)))"

definition periodLabel :: "period \<Rightarrow> string" where
  "periodLabel per = month_year (cp_start per)"

section \<open>The run\<close>

text \<open>What the service publishes, with the payload of each event.\<close>

datatype billing_msg =
    SuspendMsg string "string list"
  | InvoiceMsg string string time time rat string "string option"
  | PaymentRequestMsg string string string rat string "string option"
  | CreditLowMsg string rat rat string

record outcome =
  oc_user :: string
  oc_cost :: rat
  oc_status :: cycle_status
  oc_suspended :: "string list"

definition running_ids :: "interval list \<Rightarrow> string list" where
  "running_ids ivs = js_unique (map iv_deployment [i \<leftarrow> ivs. iv_stopped i = None])"

definition charge_reference :: "period \<Rightarrow> string \<Rightarrow> string" where
  "charge_reference per userId = ''charge-'' @ iso (cp_start per) @ ''-'' @ userId"

definition invoice_reference :: "period \<Rightarrow> string \<Rightarrow> string" where
  "invoice_reference per userId = ''invoice-'' @ iso (cp_start per) @ ''-'' @ userId"

definition alreadyBilled :: "period \<Rightarrow> string \<Rightarrow> billing_repo \<Rightarrow> bool" where
  "alreadyBilled per userId r = list_ex (\<lambda>c. cy_start c = cp_start per) (listCycles userId r)"

text \<open>The body of the loop for one user: the new store, the outcome if there is one, the events.\<close>

definition bill_user ::
  "time \<Rightarrow> rate_of \<Rightarrow> period \<Rightarrow> string \<Rightarrow> billing_repo \<Rightarrow> outcome list \<times> billing_msg list \<times> billing_repo" where
  "bill_user clock rateOf per userId r =
     (if alreadyBilled per userId r then ([], [], r)
      else
        let p = getUserPlan userId r; intervals = listIntervals userId r;
            cost = computeCycleCost intervals p per rateOf
        in if cost > 0 then
             (let (w, r) = getWallet userId r;
                  covered = canCover (w_balance w) cost;
                  (_, r) = createLedgerEntry clock
                    \<lparr>li_user = userId, li_type = Charge, li_amount = cost, li_currency = plan_currency p,
                     li_reference = charge_reference per userId, li_status = Confirmed,
                     li_description = ''Usage for '' @ periodLabel per\<rparr> r;
                  (_, r) = setBalance userId (applyCharge (w_balance w) cost) r;
                  status = (if covered then CyclePaid else CycleOverdue);
                  suspended = (if covered then [] else running_ids intervals);
                  msgs = (if suspended = [] then [] else [SuspendMsg userId suspended])
                    @ [InvoiceMsg (invoice_reference per userId) userId (cp_start per) (cp_end per) cost
                         (plan_currency p) (getWalletEmail userId r)];
                  r = createCycle clock userId (cp_start per) (cp_end per) cost (plan_currency p) status r
              in ([\<lparr>oc_user = userId, oc_cost = cost, oc_status = status, oc_suspended = suspended\<rparr>], msgs, r))
           else
             ([\<lparr>oc_user = userId, oc_cost = cost, oc_status = CyclePaid, oc_suspended = []\<rparr>], [],
              createCycle clock userId (cp_start per) (cp_end per) cost (plan_currency p) CyclePaid r))"

fun bill_users ::
  "time \<Rightarrow> rate_of \<Rightarrow> period \<Rightarrow> string list \<Rightarrow> billing_repo \<Rightarrow> outcome list \<times> billing_msg list \<times> billing_repo" where
  "bill_users clock rateOf per [] r = ([], [], r)"
| "bill_users clock rateOf per (u # us) r =
     (let (o1, m1, r) = bill_user clock rateOf per u r;
          (o2, m2, r) = bill_users clock rateOf per us r
      in (o1 @ o2, m1 @ m2, r))"

definition runBillingCycle ::
  "time \<Rightarrow> period \<Rightarrow> billing_repo \<Rightarrow> outcome list \<times> billing_msg list \<times> billing_repo" where
  "runBillingCycle clock per r =
     bill_users clock (ratesOf (listPlans r)) per (listBillableUserIds r) r"

text \<open>One tick of the runner: the month before the one the clock shows.\<close>

definition cycle_tick :: "time \<Rightarrow> billing_repo \<Rightarrow> outcome list \<times> billing_msg list \<times> billing_repo" where
  "cycle_tick clock r = runBillingCycle clock (previousMonthPeriod clock) r"

section \<open>Months follow each other\<close>

lemma monthPeriodOf_index:
  "monthPeriodOf t = \<lparr>cp_start = month_start (month_index t), cp_end = month_start (month_index t + 1)\<rparr>"
  using date_utc_start [of "utc_month t" "utc_year t"] date_utc_start [of "utc_month t + 1" "utc_year t"]
    month_index_bounds(2) [of t]
  by (simp add: monthPeriodOf_def month_index_def add.assoc)

lemma monthPeriodOf_contains: "cp_start (monthPeriodOf t) \<le> t \<and> t < cp_end (monthPeriodOf t)"
  using month_index_bounds(1) [of t] by (simp add: monthPeriodOf_index)

lemma monthPeriodOf_same:
  assumes "cp_start (monthPeriodOf t) \<le> s" "s < cp_end (monthPeriodOf t)"
  shows "monthPeriodOf s = monthPeriodOf t"
proof -
  have "month_index s = month_index t"
    using assms by (intro month_index_unique) (simp_all add: monthPeriodOf_index)
  then show ?thesis by (simp add: monthPeriodOf_index)
qed

lemma previousMonth_index: "previousMonthPeriod t = \<lparr>cp_start = month_start (month_index t - 1), cp_end = month_start (month_index t)\<rparr>"
proof -
  have "month_index (month_start (month_index t) - 1) = month_index t - 1"
    using month_start_less [of "month_index t - 1" "month_index t"] by (intro month_index_unique) simp_all
  then show ?thesis by (simp add: previousMonthPeriod_def monthPeriodOf_index)
qed

lemma previousMonth_adjacent: "cp_end (previousMonthPeriod t) = cp_start (monthPeriodOf t)"
  by (simp add: previousMonth_index monthPeriodOf_index)

lemma previousMonth_before: "cp_start (previousMonthPeriod t) < cp_end (previousMonthPeriod t)"
  using month_start_less [of "month_index t - 1" "month_index t"] by (simp add: previousMonth_index)

section \<open>Costs\<close>

definition is_double :: "rat \<Rightarrow> bool" where
  "is_double x = (b64 x = x)"

lemma is_double_ops [simp]:
  "is_double (b64 x)" "is_double (jadd x y)" "is_double (jsub x y)" "is_double (jmul x y)" "is_double (jdiv x y)"
  by (simp_all add: is_double_def jadd_def jsub_def jmul_def jdiv_def)

lemma is_double_0 [simp]: "is_double 0"
  by (simp add: is_double_def)

lemma jadd_ge: "is_double x \<Longrightarrow> 0 \<le> y \<Longrightarrow> x \<le> jadd x y"
  using b64_mono [of x "x + y"] by (simp add: is_double_def jadd_def)

lemma jsub_le: "is_double x \<Longrightarrow> 0 \<le> y \<Longrightarrow> jsub x y \<le> x"
  using b64_mono [of "x - y" x] by (simp add: is_double_def jsub_def)

definition rates_ok :: "plan \<Rightarrow> rate_of \<Rightarrow> bool" where
  "rates_ok p rateOf = (0 \<le> pricePerHour p \<and> (\<forall>k v. rateOf k = Some v \<longrightarrow> 0 \<le> v))"

lemma rates_ok_rate: "rates_ok p rateOf \<Longrightarrow> 0 \<le> nullish (rateOf k) (pricePerHour p)"
  by (cases "rateOf k") (auto simp: rates_ok_def)

lemma clipIntervalHours_nonneg [simp]: "0 \<le> clipIntervalHours i per"
  by (simp add: clipIntervalHours_def Let_def)

text \<open>
  How two states of the cost loop compare: \<open>a\<close> is at least as dear as \<open>b\<close> when it has no more
  free hours left and has charged no less.
\<close>

definition acc_ok :: "rat \<times> rat \<Rightarrow> bool" where
  "acc_ok a = (0 \<le> fst a \<and> is_double (fst a) \<and> 0 \<le> snd a \<and> is_double (snd a))"

definition dearer :: "rat \<times> rat \<Rightarrow> rat \<times> rat \<Rightarrow> bool" where
  "dearer a b = (fst a \<le> fst b \<and> snd b \<le> snd a)"

lemma dearer_refl [simp]: "dearer a a" by (simp add: dearer_def)
lemma dearer_trans: "dearer a b \<Longrightarrow> dearer b c \<Longrightarrow> dearer a c" by (auto simp: dearer_def)

lemma cost_step_cases:
  "cost_step p per rateOf (f, c) i =
     (if clipIntervalHours i per \<le> 0 then (f, c)
      else (jsub f (min f (clipIntervalHours i per)),
            jadd c (jmul (jmul (jsub (clipIntervalHours i per) (min f (clipIntervalHours i per)))
              (nullish (rateOf (iv_plan i)) (pricePerHour p))) (resourceFactor (iv_limits i)))))"
  by (simp add: cost_step_def Let_def)

lemma charge_nonneg:
  assumes "rates_ok p rateOf"
  shows "0 \<le> jmul (jmul (jsub h (min f h)) (nullish (rateOf k) (pricePerHour p))) (resourceFactor l)"
  using rates_ok_rate [OF assms, of k] resourceFactor_pos [of l]
  by (intro j_nonneg) (auto simp: jsub_def intro!: b64_nonneg)

lemma cost_step_ok: "acc_ok a \<Longrightarrow> rates_ok p rateOf \<Longrightarrow> acc_ok (cost_step p per rateOf a i)"
  using charge_nonneg [of p rateOf "clipIntervalHours i per" "fst a" "iv_plan i" "iv_limits i"]
  by (cases a) (auto simp: cost_step_cases acc_ok_def jsub_def intro!: b64_nonneg)

lemma cost_step_dearer:
  assumes "acc_ok a" "rates_ok p rateOf"
  shows "dearer (cost_step p per rateOf a i) a"
proof -
  obtain f c where a: "a = (f, c)" by force
  have "jsub f (min f (clipIntervalHours i per)) \<le> f"
    using assms(1) by (intro jsub_le) (auto simp: acc_ok_def a)
  moreover have "c \<le> jadd c (jmul (jmul (jsub (clipIntervalHours i per) (min f (clipIntervalHours i per)))
      (nullish (rateOf (iv_plan i)) (pricePerHour p))) (resourceFactor (iv_limits i)))"
    using assms by (intro jadd_ge charge_nonneg) (auto simp: acc_ok_def a)
  ultimately show ?thesis by (simp add: a cost_step_cases dearer_def)
qed

lemma cost_step_mono:
  assumes "dearer a b" "rates_ok p rateOf"
  shows "dearer (cost_step p per rateOf a i) (cost_step p per rateOf b i)"
proof -
  obtain f c g d where ab: "a = (f, c)" "b = (g, d)" by (cases a, cases b) auto
  define h where "h = clipIntervalHours i per"
  define rate where "rate = nullish (rateOf (iv_plan i)) (pricePerHour p)"
  define w where "w = resourceFactor (iv_limits i)"
  have le: "f \<le> g" "d \<le> c" using assms(1) by (simp_all add: dearer_def ab)
  have r: "0 \<le> rate" "0 \<le> w"
    using rates_ok_rate [OF assms(2)] resourceFactor_pos by (simp_all add: rate_def w_def less_imp_le)
  have "f - min f h \<le> g - min g h" using le by simp
  then have 1: "jsub f (min f h) \<le> jsub g (min g h)" by (simp add: jsub_def b64_mono)
  have 2: "jsub h (min g h) \<le> jsub h (min f h)" using le by (intro jsub_mono) auto
  have 3: "0 \<le> jsub h (min g h)" by (simp add: jsub_def b64_nonneg)
  have 4: "jmul (jsub h (min g h)) rate \<le> jmul (jsub h (min f h)) rate"
    by (rule jmul_mono [OF 3 2 r(1) order_refl])
  have "jmul (jmul (jsub h (min g h)) rate) w \<le> jmul (jmul (jsub h (min f h)) rate) w"
    by (rule jmul_mono [OF _ 4 r(2) order_refl]) (simp add: 3 r)
  then have "jadd d (jmul (jmul (jsub h (min g h)) rate) w) \<le> jadd c (jmul (jmul (jsub h (min f h)) rate) w)"
    by (rule jadd_mono [OF le(2)])
  with 1 le show ?thesis
    by (simp add: ab cost_step_cases dearer_def flip: h_def rate_def w_def)
qed

lemma cost_fold_mono:
  assumes "rates_ok p rateOf"
  shows "dearer a b \<Longrightarrow> dearer (foldl (cost_step p per rateOf) a ivs) (foldl (cost_step p per rateOf) b ivs)"
  by (induction ivs arbitrary: a b) (simp_all add: cost_step_mono assms)

lemma cost_fold_ok:
  assumes "rates_ok p rateOf"
  shows "acc_ok a \<Longrightarrow> acc_ok (foldl (cost_step p per rateOf) a ivs)"
  by (induction ivs arbitrary: a) (simp_all add: cost_step_ok assms)

lemma cost_fold_subseq:
  assumes "rates_ok p rateOf"
  shows "subseq xs ys \<Longrightarrow> acc_ok a \<Longrightarrow>
    dearer (foldl (cost_step p per rateOf) a ys) (foldl (cost_step p per rateOf) a xs)"
proof (induction arbitrary: a rule: list_emb.induct)
  case (list_emb_Nil ys)
  have "dearer (foldl (cost_step p per rateOf) a ys) a" using list_emb_Nil
  proof (induction ys rule: rev_induct)
    case (snoc y ys)
    then show ?case
      using dearer_trans [OF cost_step_dearer [OF cost_fold_ok [OF assms] assms]] by simp
  qed simp
  then show ?case by simp
next
  case (list_emb_Cons xs ys y)
  have "dearer (foldl (cost_step p per rateOf) (cost_step p per rateOf a y) ys)
      (foldl (cost_step p per rateOf) a ys)"
    by (intro cost_fold_mono cost_step_dearer assms list_emb_Cons)
  from dearer_trans [OF this list_emb_Cons.IH [OF list_emb_Cons.prems]] show ?case by simp
next
  case (list_emb_Cons2 x y xs ys)
  then show ?case by (simp add: cost_step_ok assms)
qed

lemma computeCycleCost_nonneg:
  "rates_ok p rateOf \<Longrightarrow> 0 \<le> freeHoursPerMonth p \<Longrightarrow> is_double (freeHoursPerMonth p) \<Longrightarrow>
     0 \<le> computeCycleCost ivs p per rateOf"
  using cost_fold_ok [of p rateOf "(freeHoursPerMonth p, 0)" per "sort_key iv_started ivs"]
  by (auto simp: computeCycleCost_def acc_ok_def roundCurrency_round2 intro!: round2_nonneg)

lemma subseq_insort: "subseq xs (insort_key f x xs)"
  by (induction xs) (auto intro: list_emb_refl)

text \<open>The order the store returns the intervals in does not matter.\<close>

lemma sort_key_perm:
  assumes "mset xs = mset ys" "inj_on f (set xs)"
  shows "sort_key f xs = sort_key f ys"
  using sort_key_inj_key_eq [of xs "sort_key f ys" f] assms by simp

section \<open>A run bills every user once\<close>

abbreviation store_of :: "'a \<times> 'b \<times> billing_repo \<Rightarrow> billing_repo" where
  "store_of x \<equiv> snd (snd x)"

definition cycle_keys :: "billing_repo \<Rightarrow> (string \<times> time) list" where
  "cycle_keys r = map (\<lambda>c. (cy_user c, cy_start c)) (br_cycles r)"

lemma alreadyBilled_keys: "alreadyBilled per u r \<longleftrightarrow> (u, cp_start per) \<in> set (cycle_keys r)"
  by (auto simp: alreadyBilled_def listCycles_def cycle_keys_def list_ex_iff)

lemma bill_user_frame [frame_simps]:
  "br_plans (store_of (bill_user c rate per u r)) = br_plans r"
  "br_userPlans (store_of (bill_user c rate per u r)) = br_userPlans r"
  "br_deployments (store_of (bill_user c rate per u r)) = br_deployments r"
  "br_intervals (store_of (bill_user c rate per u r)) = br_intervals r"
  "br_emails (store_of (bill_user c rate per u r)) = br_emails r"
  "br_warnings (store_of (bill_user c rate per u r)) = br_warnings r"
  by (simp_all add: bill_user_def Let_def split_beta frame_simps)

lemma reads_frame:
  "br_userPlans r' = br_userPlans r \<Longrightarrow> br_plans r' = br_plans r \<Longrightarrow> getUserPlan u r' = getUserPlan u r"
  "br_intervals r' = br_intervals r \<Longrightarrow> listIntervals u r' = listIntervals u r"
  by (simp_all add: getUserPlan_def listIntervals_def cong: option.case_cong if_cong)

lemma bill_user_keys:
  "cycle_keys (store_of (bill_user c rate per u r)) =
     cycle_keys r @ (if alreadyBilled per u r then [] else [(u, cp_start per)])"
  by (simp add: bill_user_def Let_def split_beta frame_simps cycle_keys_def createCycle_def)

definition cycle_cost :: "rate_of \<Rightarrow> period \<Rightarrow> string \<Rightarrow> billing_repo \<Rightarrow> rat" where
  "cycle_cost rate per u r = computeCycleCost (listIntervals u r) (getUserPlan u r) per rate"

definition charges :: "rate_of \<Rightarrow> period \<Rightarrow> string \<Rightarrow> billing_repo \<Rightarrow> bool" where
  "charges rate per u r = (\<not> alreadyBilled per u r \<and> 0 < cycle_cost rate per u r)"

lemma bill_user_balance:
  "balance_of (store_of (bill_user c rate per u r)) =
     (if charges rate per u r then (balance_of r)(u := applyCharge (balance_of r u) (cycle_cost rate per u r))
      else balance_of r)"
  by (simp add: bill_user_def Let_def split_beta charges_def cycle_cost_def)

lemma bill_user_ledger:
  "br_ledger (store_of (bill_user c rate per u r)) =
     br_ledger r @ (if charges rate per u r then
       [fst (createLedgerEntry c \<lparr>li_user = u, li_type = Charge, li_amount = cycle_cost rate per u r,
          li_currency = plan_currency (getUserPlan u r), li_reference = charge_reference per u,
          li_status = Confirmed, li_description = ''Usage for '' @ periodLabel per\<rparr> r)] else [])"
  by (simp add: bill_user_def Let_def split_beta charges_def cycle_cost_def frame_simps createLedgerEntry_def)

lemma bill_user_wallets:
  "fst ` set (br_wallets (store_of (bill_user c rate per u r))) =
     (if charges rate per u r then insert u (fst ` set (br_wallets r)) else fst ` set (br_wallets r))"
  by (simp add: bill_user_def Let_def split_beta charges_def cycle_cost_def frame_simps wallet_keys)

lemma set_billable:
  "set (listBillableUserIds r) = iv_user ` set (br_intervals r) \<union> fst ` set (br_wallets r)
     \<union> fst ` set (br_userPlans r) \<union> (\<lambda>(k, d). bd_user d) ` set (br_deployments r)"
  by (simp add: listBillableUserIds_def Un_assoc)

lemma bill_user_billable:
  "u \<in> set (listBillableUserIds r) \<Longrightarrow>
     set (listBillableUserIds (store_of (bill_user c rate per u r))) = set (listBillableUserIds r)"
  by (auto simp: set_billable bill_user_wallets frame_simps)

lemma charges_other:
  "v \<noteq> u \<Longrightarrow> charges rate per v (store_of (bill_user c rate per u r)) = charges rate per v r"
  "cycle_cost rate per v (store_of (bill_user c rate per u r)) = cycle_cost rate per v r"
  by (simp_all add: charges_def alreadyBilled_keys bill_user_keys cycle_cost_def frame_simps
      reads_frame [of "store_of (bill_user c rate per u r)" r])

lemma bill_users_Cons:
  "store_of (bill_users c rate per (u # us) r) = store_of (bill_users c rate per us (store_of (bill_user c rate per u r)))"
  by (simp add: split_beta)

declare bill_users.simps(2) [simp del]

lemma bill_users_keys:
  "distinct us \<Longrightarrow> cycle_keys (store_of (bill_users c rate per us r)) =
     cycle_keys r @ map (\<lambda>u. (u, cp_start per)) [u \<leftarrow> us. \<not> alreadyBilled per u r]"
proof (induction us arbitrary: r)
  case (Cons u us)
  have "[v \<leftarrow> us. \<not> alreadyBilled per v (store_of (bill_user c rate per u r))] = [v \<leftarrow> us. \<not> alreadyBilled per v r]"
    using Cons.prems by (intro filter_cong) (auto simp: alreadyBilled_keys bill_user_keys)
  with Cons show ?case by (simp add: bill_users_Cons bill_user_keys)
qed simp

lemma bill_users_balance:
  "distinct us \<Longrightarrow> balance_of (store_of (bill_users c rate per us r)) v =
     (if v \<in> set us \<and> charges rate per v r then applyCharge (balance_of r v) (cycle_cost rate per v r)
      else balance_of r v)"
proof (induction us arbitrary: r)
  case (Cons u us)
  then show ?case by (cases "v = u") (auto simp: bill_users_Cons bill_user_balance charges_other)
qed simp

lemma bill_users_billable:
  "set us \<subseteq> set (listBillableUserIds r) \<Longrightarrow>
     set (listBillableUserIds (store_of (bill_users c rate per us r))) = set (listBillableUserIds r)"
  by (induction us arbitrary: r) (auto simp: bill_users_Cons bill_user_billable)

lemma bill_users_none:
  "\<forall>u \<in> set us. alreadyBilled per u r \<Longrightarrow> bill_users c rate per us r = ([], [], r)"
  by (induction us) (simp_all add: bill_users.simps(2) bill_user_def)

definition money :: "ledger_entry \<Rightarrow> ledger_type \<times> rat \<times> string \<times> ledger_status" where
  "money e = (le_type e, le_amount e, le_reference e, le_status e)"

lemma bill_users_ledger:
  "distinct us \<Longrightarrow> map money (listLedger v (store_of (bill_users c rate per us r))) =
     map money (listLedger v r) @
       (if v \<in> set us \<and> charges rate per v r
        then [(Charge, cycle_cost rate per v r, charge_reference per v, Confirmed)] else [])"
proof (induction us arbitrary: r)
  case (Cons u us)
  then show ?case
    by (cases "v = u")
       (auto simp: bill_users_Cons bill_user_ledger charges_other listLedger_def createLedgerEntry_def Let_def money_def)
qed simp

lemma run_keys:
  "cycle_keys (store_of (runBillingCycle c per r)) = cycle_keys r @
     map (\<lambda>u. (u, cp_start per)) [u \<leftarrow> listBillableUserIds r. \<not> alreadyBilled per u r]"
  unfolding runBillingCycle_def by (rule bill_users_keys) (simp add: listBillableUserIds_def)

lemma run_billable: "set (listBillableUserIds (store_of (runBillingCycle c per r))) = set (listBillableUserIds r)"
  unfolding runBillingCycle_def by (rule bill_users_billable) simp

lemma run_bills_all: "u \<in> set (listBillableUserIds r) \<Longrightarrow> alreadyBilled per u (store_of (runBillingCycle c per r))"
  by (auto simp: alreadyBilled_keys run_keys)

section \<open>Properties\<close>

text \<open>
  The billed months tile time. The month of an instant contains it, every instant of that month
  names the same month, and the month before ends exactly where it starts, so no instant is
  billed twice or never.
\<close>

theorem months_tile:
  "cp_start (monthPeriodOf t) \<le> t \<and> t < cp_end (monthPeriodOf t)
   \<and> (cp_start (monthPeriodOf t) \<le> s \<and> s < cp_end (monthPeriodOf t) \<longrightarrow> monthPeriodOf s = monthPeriodOf t)
   \<and> cp_end (previousMonthPeriod t) = cp_start (monthPeriodOf t)
   \<and> cp_start (previousMonthPeriod t) < cp_end (previousMonthPeriod t)
   \<and> monthPeriodOf (cp_start (previousMonthPeriod t)) = previousMonthPeriod t"
proof -
  have "month_index (month_start (month_index t - 1)) = month_index t - 1"
    using month_start_less [of "month_index t - 1" "month_index t"] by (intro month_index_unique) simp_all
  then have "monthPeriodOf (cp_start (previousMonthPeriod t)) = previousMonthPeriod t"
    by (simp add: previousMonth_index monthPeriodOf_index)
  then show ?thesis
    using monthPeriodOf_contains monthPeriodOf_same previousMonth_adjacent previousMonth_before by blast
qed

text \<open>Leap February 2024: the instant 2024-02-29T12:00Z and the January before it.\<close>

lemma months_tile_witness:
  "monthPeriodOf 1709208000000 = \<lparr>cp_start = 1706745600000, cp_end = 1709251200000\<rparr>
   \<and> cp_end (previousMonthPeriod 1709208000000) = cp_start (monthPeriodOf 1709208000000)
   \<and> monthPeriodOf 1706745600000 = monthPeriodOf 1709208000000"
proof -
  have e: "monthPeriodOf 1709208000000 = \<lparr>cp_start = 1706745600000, cp_end = 1709251200000\<rparr>" by code_simp
  then show ?thesis using months_tile [of 1709208000000 1706745600000] by simp
qed

text \<open>
  What a month costs does not depend on the order in which the store returns the intervals,
  is never negative, and never falls when an interval is added.
\<close>

theorem cycle_cost_sound:
  assumes "rates_ok p rateOf" "0 \<le> freeHoursPerMonth p" "is_double (freeHoursPerMonth p)"
    and "distinct (map iv_started (i # ivs))" "mset ivs = mset ivs'"
  shows "computeCycleCost ivs' p per rateOf = computeCycleCost ivs p per rateOf
    \<and> 0 \<le> computeCycleCost ivs p per rateOf
    \<and> computeCycleCost ivs p per rateOf \<le> computeCycleCost (i # ivs) p per rateOf"
proof -
  have "inj_on iv_started (set ivs)" using assms(4) by (simp add: distinct_map)
  then have "computeCycleCost ivs' p per rateOf = computeCycleCost ivs p per rateOf"
    using sort_key_perm [OF assms(5), of iv_started] by (simp add: computeCycleCost_def)
  moreover have "subseq (sort_key iv_started ivs) (sort_key iv_started (i # ivs))"
    by (simp add: subseq_insort)
  then have "dearer (foldl (cost_step p per rateOf) (freeHoursPerMonth p, 0) (sort_key iv_started (i # ivs)))
      (foldl (cost_step p per rateOf) (freeHoursPerMonth p, 0) (sort_key iv_started ivs))"
    using assms by (intro cost_fold_subseq) (simp_all add: acc_ok_def)
  then have "computeCycleCost ivs p per rateOf \<le> computeCycleCost (i # ivs) p per rateOf"
    by (simp add: computeCycleCost_def roundCurrency_round2 round2_mono dearer_def)
  ultimately show ?thesis using computeCycleCost_nonneg [OF assms(1-3)] by simp
qed

lemma cycle_cost_sound_witness:
  "let i = \<lparr>iv_id = ''1'', iv_user = ''u'', iv_deployment = ''d'', iv_plan = ''standard'', iv_limits = no_limits,
        iv_started = 0, iv_stopped = Some (300 * ms_per_hour), iv_created = 0\<rparr>;
       j = i\<lparr>iv_started := 5, iv_stopped := Some (150 * ms_per_hour)\<rparr>
   in computeCycleCost [j] default_plan \<lparr>cp_start = 0, cp_end = 720 * ms_per_hour\<rparr> (\<lambda>_. None)
        \<le> computeCycleCost [i, j] default_plan \<lparr>cp_start = 0, cp_end = 720 * ms_per_hour\<rparr> (\<lambda>_. None)"
proof -
  let ?i = "\<lparr>iv_id = ''1'', iv_user = ''u'', iv_deployment = ''d'', iv_plan = ''standard'', iv_limits = no_limits,
      iv_started = 0, iv_stopped = Some (300 * ms_per_hour), iv_created = 0\<rparr>"
  have "0 \<le> pricePerHour default_plan" by code_simp
  then have "rates_ok default_plan (\<lambda>_. None)" by (simp add: rates_ok_def)
  moreover have "0 \<le> freeHoursPerMonth default_plan" "is_double (freeHoursPerMonth default_plan)" by code_simp+
  ultimately show ?thesis
    using cycle_cost_sound [of default_plan "\<lambda>_. None" ?i "[?i\<lparr>iv_started := 5, iv_stopped := Some (150 * ms_per_hour)\<rparr>]"
        "[?i\<lparr>iv_started := 5, iv_stopped := Some (150 * ms_per_hour)\<rparr>]" "\<lparr>cp_start = 0, cp_end = 720 * ms_per_hour\<rparr>"]
    by (simp add: Let_def)
qed

text \<open>What a run decides for a user it has not billed, from the store as the run found it.\<close>

definition verdict :: "rate_of \<Rightarrow> period \<Rightarrow> billing_repo \<Rightarrow> string \<Rightarrow> outcome" where
  "verdict rate per r u =
     (let cost = cycle_cost rate per u r; covered = (cost \<le> 0 \<or> cost \<le> balance_of r u)
      in \<lparr>oc_user = u, oc_cost = cost, oc_status = (if covered then CyclePaid else CycleOverdue),
          oc_suspended = (if covered then [] else running_ids (listIntervals u r))\<rparr>)"

fun is_suspend :: "billing_msg \<Rightarrow> bool" where
  "is_suspend (SuspendMsg u ds) = True"
| "is_suspend _ = False"

definition suspensions :: "outcome list \<Rightarrow> billing_msg list" where
  "suspensions os = map (\<lambda>out. SuspendMsg (oc_user out) (oc_suspended out)) [out \<leftarrow> os. oc_suspended out \<noteq> []]"

lemma bill_user_verdict:
  "fst (bill_user c rate per u r) = (if alreadyBilled per u r then [] else [verdict rate per r u])"
  "filter is_suspend (fst (snd (bill_user c rate per u r))) = suspensions (fst (bill_user c rate per u r))"
  by (auto simp: bill_user_def Let_def split_beta verdict_def cycle_cost_def canCover_def suspensions_def)

lemma verdict_other:
  "v \<noteq> u \<Longrightarrow> verdict rate per (store_of (bill_user c rate per u r)) v = verdict rate per r v"
proof -
  assume "v \<noteq> u"
  moreover have "listIntervals v (store_of (bill_user c rate per u r)) = listIntervals v r"
    by (rule reads_frame(2)) (rule bill_user_frame)
  ultimately show ?thesis by (simp add: verdict_def charges_other bill_user_balance Let_def cong: if_cong)
qed

lemma bill_users_verdicts:
  "distinct us \<Longrightarrow> fst (bill_users c rate per us r) = map (verdict rate per r) [u \<leftarrow> us. \<not> alreadyBilled per u r]"
proof (induction us arbitrary: r)
  case (Cons u us)
  have e: "fst (bill_users c rate per (u # us) r) =
      fst (bill_user c rate per u r) @ fst (bill_users c rate per us (store_of (bill_user c rate per u r)))"
    by (simp add: bill_users.simps(2) split_beta)
  have "[v \<leftarrow> us. \<not> alreadyBilled per v (store_of (bill_user c rate per u r))] = [v \<leftarrow> us. \<not> alreadyBilled per v r]"
    using Cons.prems by (intro filter_cong) (auto simp: alreadyBilled_keys bill_user_keys)
  moreover have "map (verdict rate per (store_of (bill_user c rate per u r))) [v \<leftarrow> us. \<not> alreadyBilled per v r]
      = map (verdict rate per r) [v \<leftarrow> us. \<not> alreadyBilled per v r]"
    using Cons.prems by (auto intro!: verdict_other)
  ultimately show ?case using Cons unfolding e by (simp add: bill_user_verdict(1))
qed simp

lemma bill_users_suspensions:
  "filter is_suspend (fst (snd (bill_users c rate per us r))) = suspensions (fst (bill_users c rate per us r))"
  by (induction us arbitrary: r)
     (simp_all add: bill_users.simps(2) split_beta bill_user_verdict(2), simp_all add: suspensions_def)

text \<open>
  C2: A run of the billing cycle charges each account that has not been billed for the period what
  its runtime costs, once: the balance falls by that amount, the ledger gains exactly the one
  confirmed charge, and the account ends with one more cycle for the period. Accounts already
  billed, and accounts that owe nothing, keep their balance and their ledger.
\<close>

theorem run_charges_once:
  "let rate = ratesOf (listPlans r); cost = cycle_cost rate per u r; r' = store_of (runBillingCycle c per r);
       due = (u \<in> set (listBillableUserIds r) \<and> charges rate per u r)
   in balance_of r' u = (if due then applyCharge (balance_of r u) cost else balance_of r u)
      \<and> map money (listLedger u r') = map money (listLedger u r) @
          (if due then [(Charge, cost, charge_reference per u, Confirmed)] else [])
      \<and> count_list (cycle_keys r') (u, cp_start per) = count_list (cycle_keys r) (u, cp_start per) +
          (if u \<in> set (listBillableUserIds r) \<and> \<not> alreadyBilled per u r then 1 else 0)"
proof -
  have d: "distinct (listBillableUserIds r)" by (simp add: listBillableUserIds_def)
  have "count_list (map (\<lambda>u. (u, p)) us) (u, p) = (if u \<in> set us then 1 else 0)" if "distinct us" for us and p :: time
    using that by (induction us) auto
  then show ?thesis
    unfolding Let_def using d run_keys [of c per r]
    by (simp add: bill_users_balance [OF d] bill_users_ledger [OF d] runBillingCycle_def)
qed

text \<open>
  C3: Billing the same period again, whatever the clock shows, does nothing: no outcome, no event,
  and the store is left exactly as the first run left it. So hourly polling bills a month once.
\<close>

theorem run_twice:
  "runBillingCycle c' per (store_of (runBillingCycle c per r)) = ([], [], store_of (runBillingCycle c per r))"
proof -
  have "\<forall>u \<in> set (listBillableUserIds (store_of (runBillingCycle c per r))).
      alreadyBilled per u (store_of (runBillingCycle c per r))"
    by (auto simp: run_billable intro: run_bills_all)
  then show ?thesis unfolding runBillingCycle_def [of c'] by (rule bill_users_none)
qed

text \<open>
  A run reports one outcome for each account it bills, decided from the store as the run found
  it: overdue exactly when the cost is positive and above the balance, and then every server the
  account has running is listed. The suspensions published are exactly those of the outcomes
  that have a server to suspend.
\<close>

theorem run_verdicts:
  "fst (runBillingCycle c per r) =
     map (verdict (ratesOf (listPlans r)) per r) [u \<leftarrow> listBillableUserIds r. \<not> alreadyBilled per u r]
   \<and> filter is_suspend (fst (snd (runBillingCycle c per r))) = suspensions (fst (runBillingCycle c per r))"
  unfolding runBillingCycle_def
  by (intro conjI bill_users_verdicts bill_users_suspensions) (simp add: listBillableUserIds_def)

end
