(* ===== verification/Billing_Standing.thy ===== *)
theory Billing_Standing
  imports Billing_Cycle
begin

text \<open>
  An account's standing (\<^verbatim>\<open>standing.ts\<close>): what is left to spend, how long it lasts at the rate
  the running servers spend it, whether servers may run, and when to warn.
\<close>

record usage =
  us_hours :: rat
  us_cost :: rat

record standing =
  st_balance :: rat
  st_accrued :: rat
  st_available :: rat
  st_freeHoursLeft :: rat
  st_canRun :: bool
  st_currency :: string
  st_hoursLeft :: "rat option"
  st_runsLow :: bool

definition default_low_credit_hours :: rat where "default_low_credit_hours = 24"

text \<open>\<open>Number(raw)\<close> is a parameter: the finite number the text stands for, if it is one.\<close>

definition parseLowCreditHours :: "(string \<Rightarrow> rat option) \<Rightarrow> string option \<Rightarrow> rat" where
  "parseLowCreditHours to_number raw =
     (case raw of
        None \<Rightarrow> default_low_credit_hours
      | Some s \<Rightarrow>
          (case to_number s of
             None \<Rightarrow> default_low_credit_hours
           | Some hours \<Rightarrow> if js_trim s \<noteq> [] \<and> hours > 0 then hours else default_low_credit_hours))"

definition open_by_deployment :: "interval list \<Rightarrow> (string \<times> interval) list" where
  "open_by_deployment intervals =
     foldl (\<lambda>m i. if iv_stopped i = None then AList.update (iv_deployment i) i m else m) [] intervals"

definition burnRate :: "interval list \<Rightarrow> plan \<Rightarrow> rate_of \<Rightarrow> rat \<times> nat" where
  "burnRate intervals p rateOf =
     (let opened = open_by_deployment intervals
      in (foldl (\<lambda>perHour (k, i). jadd perHour
            (jmul (nullish (rateOf (iv_plan i)) (pricePerHour p)) (resourceFactor (iv_limits i)))) 0 opened,
          length opened))"

definition runwayHours :: "rat \<Rightarrow> rat \<Rightarrow> rat \<Rightarrow> nat \<Rightarrow> rat option" where
  "runwayHours available freeHoursLeft perHour running =
     (if running = 0 \<or> perHour \<le> 0 then None
      else let free = (if available \<ge> 0 then jdiv freeHoursLeft (of_nat running) else 0)
           in Some (jdiv (of_int (jround (jmul (jadd free (jdiv (max 0 available) perHour)) 10))) 10))"

datatype credit_step = Warn | ClearWarning | NoStep

definition lowCreditStep :: "rat option \<Rightarrow> rat \<Rightarrow> time option \<Rightarrow> credit_step" where
  "lowCreditStep hoursLeft thresholdHours warnedAt =
     (case hoursLeft of
        None \<Rightarrow> NoStep
      | Some h \<Rightarrow> if h < thresholdHours then (if warnedAt \<noteq> None then NoStep else Warn)
                  else (if warnedAt \<noteq> None then ClearWarning else NoStep))"

definition usageIn :: "interval list \<Rightarrow> plan \<Rightarrow> period \<Rightarrow> rate_of \<Rightarrow> usage" where
  "usageIn intervals p per rateOf =
     (let hours = foldl (\<lambda>sum i. jadd sum (clipIntervalHours i per)) 0 intervals
      in \<lparr>us_hours = jdiv (of_int (jround (jmul hours 1000))) 1000,
          us_cost = computeCycleCost intervals p per rateOf\<rparr>)"

definition currentPeriod :: "time \<Rightarrow> period" where
  "currentPeriod now = \<lparr>cp_start = cp_start (monthPeriodOf now), cp_end = now\<rparr>"

definition computeStanding ::
  "rat \<Rightarrow> string \<Rightarrow> interval list \<Rightarrow> billing_cycle list \<Rightarrow> plan \<Rightarrow> time \<Rightarrow> rate_of \<Rightarrow> rat option \<Rightarrow> standing" where
  "computeStanding balance cur intervals cycles p now rateOf lowCreditHours =
     (let thisMonth = usageIn intervals p (currentPeriod now) rateOf;
          previous = previousMonthPeriod now;
          previousBilled = list_ex (\<lambda>c. cy_start c = cp_start previous) cycles;
          unbilledPrevious = (if previousBilled then 0 else us_cost (usageIn intervals p previous rateOf));
          accrued = roundCurrency (jadd (us_cost thisMonth) unbilledPrevious);
          available = roundCurrency (jsub balance accrued);
          freeHoursLeft = max 0 (jdiv (of_int (jround (jmul (jsub (freeHoursPerMonth p) (us_hours thisMonth)) 1000))) 1000);
          (perHour, running) = burnRate intervals p rateOf;
          hoursLeft = runwayHours available freeHoursLeft perHour running
      in \<lparr>st_balance = balance, st_accrued = accrued, st_available = available, st_freeHoursLeft = freeHoursLeft,
          st_canRun = (available > 0 \<or> (available \<ge> 0 \<and> freeHoursLeft > 0)), st_currency = cur,
          st_hoursLeft = hoursLeft,
          st_runsLow = (case hoursLeft of None \<Rightarrow> False
                        | Some h \<Rightarrow> h < nullish lowCreditHours default_low_credit_hours)\<rparr>)"

end
