(* ===== verification/Billing_Service.thy ===== *)
theory Billing_Service
  imports Billing_Standing
begin

text \<open>
  The billing service (\<^verbatim>\<open>service.ts\<close>): runtime intervals opened and closed by bus events, the
  top-up flow with FinVault, the checks that suspend or warn an account, the plan catalogue and
  corrections by hand; and the dispatch of bus events to it (\<^verbatim>\<open>index.ts\<close>).

  Every handler takes the store and returns its answer, the events it published and the new
  store. \<open>clock\<close> is what \<open>now()\<close> returned; \<open>publish\<close> tells whether the broker took an event.
  A handler that throws returns \<open>Inl\<close> with the refusal and its HTTP status, beside the store as
  the throw left it.
\<close>

definition max_pending_topups :: nat where "max_pending_topups = 3"
definition max_adjustment :: rat where "max_adjustment = 10000"
definition reason_max :: nat where "reason_max = 300"
definition default_topup_timeout :: int where "default_topup_timeout = 30 * 60 * 1000"

datatype billing_refusal =
    NotPositive | TooManyWaiting nat | NotSent
  | BadPlan plan_problem | NoLetters | PlanExists string | NoPlan | DefaultPlanStays
  | CannotSwitch switch_problem
  | BadAmount | AmountTooLarge | NoReason | LessThanCent

type_synonym billing_error = "billing_refusal \<times> nat"
type_synonym publish = "billing_msg \<Rightarrow> bool"
type_synonym 'a handled = "'a \<times> billing_msg list \<times> billing_repo"

definition sameAmount :: "rat \<Rightarrow> rat \<Rightarrow> bool" where
  "sameAmount a b = (jround (jmul a 100) = jround (jmul b 100))"

section \<open>Runtime\<close>

definition deploymentFor :: "string \<Rightarrow> billing_repo \<Rightarrow> billed_deployment option \<times> billing_repo" where
  "deploymentFor deploymentId r =
     (case getDeployment deploymentId r of
        Some known \<Rightarrow> (Some known, r)
      | None \<Rightarrow>
          (case getLastInterval deploymentId r of
             None \<Rightarrow> (None, r)
           | Some prev \<Rightarrow>
               (let recovered = \<lparr>bd_deployment = deploymentId, bd_user = iv_user prev, bd_limits = iv_limits prev\<rparr>
                in (Some recovered, saveDeployment recovered r))))"

definition handleDeploymentCreated :: "string \<Rightarrow> string \<Rightarrow> limits option \<Rightarrow> billing_repo \<Rightarrow> billing_repo" where
  "handleDeploymentCreated deploymentId userId resourceLimits r =
     saveDeployment \<lparr>bd_deployment = deploymentId, bd_user = userId,
                     bd_limits = nullish resourceLimits no_limits\<rparr> r"

definition handleServerStarted :: "time \<Rightarrow> string \<Rightarrow> billing_repo \<Rightarrow> interval option \<times> billing_repo" where
  "handleServerStarted clock deploymentId r =
     (let (deployment, r) = deploymentFor deploymentId r
      in case deployment of
           None \<Rightarrow> (None, r)
         | Some d \<Rightarrow>
             (case getOpenInterval deploymentId r of
                Some running \<Rightarrow> (Some running, r)
              | None \<Rightarrow>
                  (let (i, r) = openInterval clock (bd_user d) deploymentId (plan_id (getUserPlan (bd_user d) r))
                         (bd_limits d) clock r
                   in (Some i, r))))"

definition handleServerStopped :: "time \<Rightarrow> string \<Rightarrow> billing_repo \<Rightarrow> interval option \<times> billing_repo" where
  "handleServerStopped clock deploymentId r = closeInterval deploymentId clock r"

section \<open>Top-ups\<close>

definition topup_reference :: "string \<Rightarrow> nat \<Rightarrow> string" where
  "topup_reference userId n = ''topup-'' @ userId @ ''-'' @ uuid n"

definition waiting_topups :: "string \<Rightarrow> billing_repo \<Rightarrow> nat" where
  "waiting_topups userId r = length [e \<leftarrow> listLedger userId r. le_type e = Topup \<and> le_status e = Pending]"

definition requestTopUp ::
  "time \<Rightarrow> publish \<Rightarrow> string \<Rightarrow> rat \<Rightarrow> string option \<Rightarrow> string option \<Rightarrow> billing_repo
     \<Rightarrow> (billing_error, string \<times> ledger_entry) result handled" where
  "requestTopUp clock publish userId amount cur customerEmail r =
     (if \<not> amount > 0 then (Inl (NotPositive, 400), [], r)
      else
        let waiting = waiting_topups userId r
        in if waiting \<ge> max_pending_topups then (Inl (TooManyWaiting waiting, 409), [], r)
           else
             let (w, r) = getWallet userId r;
                 r = (case given customerEmail of None \<Rightarrow> r | Some e \<Rightarrow> setWalletEmail userId e r);
                 c = nullish cur (w_currency w);
                 reference = topup_reference userId (br_drawn r);
                 r = r\<lparr>br_drawn := Suc (br_drawn r)\<rparr>;
                 (entry, r) = createLedgerEntry clock
                   \<lparr>li_user = userId, li_type = Topup, li_amount = amount, li_currency = c,
                    li_reference = reference, li_status = Pending,
                    li_description = ''NexusInfra credit top-up''\<rparr> r;
                 msg = PaymentRequestMsg reference userId c amount ''NexusInfra credit top-up'' (given customerEmail)
             in if \<not> publish msg then
                  (let (_, r) = transitionLedgerStatus (le_id entry) [Pending] Failed
                         (Some ''the request could not be sent to FinVault'') r
                   in (Inl (NotSent, 503), [msg], r))
                else (Inr (reference, entry), [msg], r))"

definition handlePaymentConfirmed ::
  "string \<Rightarrow> rat option \<Rightarrow> billing_repo \<Rightarrow> wallet option \<times> billing_repo" where
  "handlePaymentConfirmed reference amount r =
     (case getLedgerByReference reference r of
        None \<Rightarrow> (None, r)
      | Some entry \<Rightarrow>
          if le_type entry \<noteq> Topup then (None, r)
          else if (case amount of None \<Rightarrow> False | Some a \<Rightarrow> \<not> sameAmount a (le_amount entry)) then (None, r)
          else let (moved, r) = transitionLedgerStatus (le_id entry) [Pending, Expired] Confirmed None r
               in if \<not> moved then (None, r)
                  else let (w, r) = getWallet (le_user entry) r;
                           (w, r) = setBalance (le_user entry) (applyTopUp (w_balance w) (le_amount entry)) r
                       in (Some w, r))"

definition failure_text :: "string option \<Rightarrow> string option" where
  "failure_text reason =
     (case reason of None \<Rightarrow> None
      | Some s \<Rightarrow> if js_trim s = [] then None else Some (take reason_max (js_trim s)))"

definition handlePaymentFailed ::
  "string \<Rightarrow> string option \<Rightarrow> billing_repo \<Rightarrow> ledger_entry option \<times> billing_repo" where
  "handlePaymentFailed reference reason r =
     (case getLedgerByReference reference r of
        None \<Rightarrow> (None, r)
      | Some entry \<Rightarrow>
          if le_type entry \<noteq> Topup then (None, r)
          else let (moved, r) = transitionLedgerStatus (le_id entry) [Pending, Expired] Failed (failure_text reason) r
               in if \<not> moved then (None, r)
                  else (Some (entry\<lparr>le_status := Failed, le_failure := failure_text reason\<rparr>), r))"

fun expire_entries :: "ledger_entry list \<Rightarrow> billing_repo \<Rightarrow> ledger_entry list \<times> billing_repo" where
  "expire_entries [] r = ([], r)"
| "expire_entries (e # es) r =
     (let (moved, r) = transitionLedgerStatus (le_id e) [Pending] Expired None r;
          (rest, r) = expire_entries es r
      in (if moved then e\<lparr>le_status := Expired\<rparr> # rest else rest, r))"

definition expireStaleTopUps :: "time \<Rightarrow> int \<Rightarrow> billing_repo \<Rightarrow> ledger_entry list \<times> billing_repo" where
  "expireStaleTopUps clock timeoutMs r = expire_entries (listPendingTopUps (clock - timeoutMs) r) r"

section \<open>Usage and standing\<close>

definition getUsage :: "time \<Rightarrow> string \<Rightarrow> billing_repo \<Rightarrow> usage \<times> plan" where
  "getUsage clock userId r =
     (let p = getUserPlan userId r
      in (usageIn (listIntervals userId r) p (currentPeriod clock) (ratesOf (listPlans r)), p))"

definition getStanding :: "time \<Rightarrow> rat \<Rightarrow> string \<Rightarrow> billing_repo \<Rightarrow> standing \<times> billing_repo" where
  "getStanding clock lowCreditHours userId r =
     (let p = getUserPlan userId r; intervals = listIntervals userId r; (w, r) = getWallet userId r
      in (computeStanding (w_balance w) (w_currency w) intervals (listCycles userId r) p clock
            (ratesOf (listPlans r)) (Some lowCreditHours), r))"

definition has_running :: "string \<Rightarrow> billing_repo \<Rightarrow> bool" where
  "has_running userId r = list_ex (\<lambda>i. iv_stopped i = None) (listIntervals userId r)"

definition warn_user :: "time \<Rightarrow> publish \<Rightarrow> rat \<Rightarrow> string \<Rightarrow> billing_repo \<Rightarrow> string list handled" where
  "warn_user clock publish lowCreditHours userId r =
     (if \<not> has_running userId r then ([], [], r)
      else
        let (st, r) = getStanding clock lowCreditHours userId r
        in if \<not> st_canRun st then ([], [], r)
           else
             let step = lowCreditStep (st_hoursLeft st) lowCreditHours (getLowCreditWarnedAt userId r);
                 r = (if step = ClearWarning then setLowCreditWarnedAt userId None r else r)
             in case st_hoursLeft st of
                  None \<Rightarrow> ([], [], r)
                | Some h \<Rightarrow>
                    if step \<noteq> Warn then ([], [], r)
                    else let msg = CreditLowMsg userId h (st_available st) (st_currency st)
                         in if \<not> publish msg then ([], [msg], r)
                            else ([userId], [msg], setLowCreditWarnedAt userId (Some clock) r))"

text \<open>The loop over the accounts, whatever is done for each.\<close>

fun for_users :: "(string \<Rightarrow> billing_repo \<Rightarrow> 'a list handled) \<Rightarrow> string list \<Rightarrow> billing_repo \<Rightarrow> 'a list handled" where
  "for_users f [] r = ([], [], r)"
| "for_users f (u # us) r =
     (let (xs, ms, r) = f u r; (ys, ns, r) = for_users f us r in (xs @ ys, ms @ ns, r))"

definition warnLowCredit :: "time \<Rightarrow> publish \<Rightarrow> rat \<Rightarrow> billing_repo \<Rightarrow> string list handled" where
  "warnLowCredit clock publish lowCreditHours r =
     for_users (warn_user clock publish lowCreditHours) (listBillableUserIds r) r"

definition settle_user :: "time \<Rightarrow> rat \<Rightarrow> string \<Rightarrow> billing_repo \<Rightarrow> (string \<times> string list) list handled" where
  "settle_user clock lowCreditHours userId r =
     (let running = running_ids (listIntervals userId r)
      in if running = [] then ([], [], r)
         else let (st, r) = getStanding clock lowCreditHours userId r
              in if st_canRun st then ([], [], r)
                 else ([(userId, running)], [SuspendMsg userId running], r))"

definition settle :: "time \<Rightarrow> rat \<Rightarrow> billing_repo \<Rightarrow> (string \<times> string list) list handled" where
  "settle clock lowCreditHours r = for_users (settle_user clock lowCreditHours) (listBillableUserIds r) r"

section \<open>Plans\<close>

definition plan_from :: "string \<Rightarrow> string \<Rightarrow> plan_input \<Rightarrow> plan" where
  "plan_from i cur inp = \<lparr>plan_id = i, plan_name = in_name inp, pricePerHour = in_price inp, plan_currency = cur,
     freeHoursPerMonth = in_freeHours inp, maxServers = in_maxServers inp, maxDatabases = in_maxDatabases inp,
     maxRamMb = in_maxRamMb inp, maxBackupsPerServer = in_maxBackups inp, plan_active = in_active inp\<rparr>"

definition createPlan :: "json \<Rightarrow> billing_repo \<Rightarrow> (billing_error, plan) result \<times> billing_repo" where
  "createPlan body r =
     (case parsePlanInput body None of
        Inl e \<Rightarrow> (Inl (BadPlan e, 400), r)
      | Inr inp \<Rightarrow>
          (let i = planIdFrom (in_name inp)
           in if i = [] then (Inl (NoLetters, 400), r)
              else if getPlan i r \<noteq> None then (Inl (PlanExists i, 409), r)
              else let p = plan_from i (plan_currency default_plan) inp in (Inr p, savePlan p r)))"

definition updatePlan :: "string \<Rightarrow> json \<Rightarrow> billing_repo \<Rightarrow> (billing_error, plan) result \<times> billing_repo" where
  "updatePlan i body r =
     (case getPlan i r of
        None \<Rightarrow> (Inl (NoPlan, 404), r)
      | Some existing \<Rightarrow>
          (case parsePlanInput body (Some existing) of
             Inl e \<Rightarrow> (Inl (BadPlan e, 400), r)
           | Inr inp \<Rightarrow>
               if \<not> in_active inp \<and> retireProblem existing then (Inl (DefaultPlanStays, 409), r)
               else let p = plan_from i (plan_currency existing) inp in (Inr p, savePlan p r)))"

fun reopen_intervals :: "time \<Rightarrow> string \<Rightarrow> string \<Rightarrow> interval list \<Rightarrow> billing_repo \<Rightarrow> billing_repo" where
  "reopen_intervals clock userId planId [] r = r"
| "reopen_intervals clock userId planId (i # is) r =
     (let (_, r) = closeInterval (iv_deployment i) clock r;
          (_, r) = openInterval clock userId (iv_deployment i) planId (iv_limits i) clock r
      in reopen_intervals clock userId planId is r)"

definition changePlan :: "time \<Rightarrow> string \<Rightarrow> string \<Rightarrow> billing_repo \<Rightarrow> (billing_error, plan) result \<times> billing_repo" where
  "changePlan clock userId planId r =
     (let target = getPlan planId r; current = getUserPlan userId r
      in case switchProblem target (plan_id current) of
           Some problem \<Rightarrow> (Inl (CannotSwitch problem, if target = None then 404 else 409), r)
         | None \<Rightarrow>
             (case target of
                None \<Rightarrow> (Inl (NoPlan, 404), r)
              | Some t \<Rightarrow>
                  if plan_id t = plan_id current then (Inr t, r)
                  else let r = setUserPlan userId (plan_id t) r;
                           running = [i \<leftarrow> listIntervals userId r. iv_stopped i = None]
                       in (Inr t, reopen_intervals clock userId (plan_id t) running r)))"

section \<open>The provider's view\<close>

record account_summary =
  as_user :: string
  as_planId :: string
  as_planName :: string
  as_balance :: rat
  as_available :: rat
  as_canRun :: bool
  as_currency :: string
  as_hours :: rat
  as_cost :: rat
  as_running :: nat

definition account_of :: "time \<Rightarrow> rate_of \<Rightarrow> string \<Rightarrow> billing_repo \<Rightarrow> account_summary list handled" where
  "account_of clock rateOf userId r =
     (let p = getUserPlan userId r; intervals = listIntervals userId r; (w, r) = getWallet userId r;
          st = computeStanding (w_balance w) (w_currency w) intervals (listCycles userId r) p clock rateOf None;
          us = usageIn intervals p (currentPeriod clock) rateOf
      in ([\<lparr>as_user = userId, as_planId = plan_id p, as_planName = plan_name p, as_balance = w_balance w,
            as_available = st_available st, as_canRun = st_canRun st, as_currency = w_currency w,
            as_hours = us_hours us, as_cost = us_cost us, as_running = length (running_ids intervals)\<rparr>], [], r))"

definition listAccounts :: "time \<Rightarrow> billing_repo \<Rightarrow> account_summary list handled" where
  "listAccounts clock r = for_users (account_of clock (ratesOf (listPlans r))) (listBillableUserIds r) r"

definition adjust_reason :: "json \<Rightarrow> string" where
  "adjust_reason reason = (case reason of JStr s \<Rightarrow> take 200 (js_trim s) | _ \<Rightarrow> [])"

definition adjustCredit ::
  "time \<Rightarrow> string \<Rightarrow> json \<Rightarrow> json \<Rightarrow> string \<Rightarrow> billing_repo
     \<Rightarrow> (billing_error, wallet \<times> ledger_entry) result \<times> billing_repo" where
  "adjustCredit clock userId amount reason by_whom r =
     (case plan_number amount of
        None \<Rightarrow> (Inl (BadAmount, 400), r)
      | Some a \<Rightarrow>
          if a = 0 then (Inl (BadAmount, 400), r)
          else if \<bar>a\<bar> > max_adjustment then (Inl (AmountTooLarge, 400), r)
          else let why = adjust_reason reason; rounded = roundCurrency \<bar>a\<bar>
               in if why = [] then (Inl (NoReason, 400), r)
                  else if rounded = 0 then (Inl (LessThanCent, 400), r)
                  else
                    let (w, r) = getWallet userId r;
                        reference = ''adjust-'' @ uuid (br_drawn r);
                        r = r\<lparr>br_drawn := Suc (br_drawn r)\<rparr>;
                        (entry, r) = createLedgerEntry clock
                          \<lparr>li_user = userId, li_type = (if a > 0 then Topup else Charge), li_amount = rounded,
                           li_currency = w_currency w, li_reference = reference, li_status = Confirmed,
                           li_description = (if a > 0 then ''Credit added'' else ''Credit removed'') @ '' by ''
                             @ (if by_whom = [] then ''an administrator'' else by_whom) @ '': '' @ why\<rparr> r;
                        (updated, r) = setBalance userId
                          (roundCurrency (jadd (w_balance w) (if a > 0 then rounded else - rounded))) r
                    in (Inr (updated, entry), r))"

section \<open>The bus\<close>

text \<open>The events the queue is bound to, with the fields of the payload the handlers read.\<close>

datatype bus_event =
    DeploymentCreated string string "limits option"
  | DeploymentUpdated string string "limits option"
  | ServerStarted string
  | ServerStopped string
  | ServerCrashed string
  | PaymentConfirmed string "rat option"
  | PaymentFailed string "string option"
  | OtherEvent

fun consume :: "time \<Rightarrow> bus_event \<Rightarrow> billing_repo \<Rightarrow> billing_repo" where
  "consume clock (DeploymentCreated d u l) r = handleDeploymentCreated d u l r"
| "consume clock (DeploymentUpdated d u l) r = handleDeploymentCreated d u l r"
| "consume clock (ServerStarted d) r = snd (handleServerStarted clock d r)"
| "consume clock (ServerStopped d) r = snd (handleServerStopped clock d r)"
| "consume clock (ServerCrashed d) r = snd (handleServerStopped clock d r)"
| "consume clock (PaymentConfirmed ref a) r = snd (handlePaymentConfirmed ref a r)"
| "consume clock (PaymentFailed ref why) r = snd (handlePaymentFailed ref why r)"
| "consume clock OtherEvent r = r"

text \<open>Everything that changes the store: the bus, the HTTP handlers and the timers.\<close>

datatype billing_op =
    Consume bus_event
  | RequestTopUp publish string rat "string option" "string option"
  | ExpireTopUps int
  | RunCycle
  | Standing string
  | WarnLow publish rat
  | Settle rat
  | Accounts
  | CreatePlan json
  | UpdatePlan string json
  | ChangePlan string string
  | Adjust string json json string

fun perform :: "billing_repo \<Rightarrow> time \<times> billing_op \<Rightarrow> billing_repo" where
  "perform r (t, Consume e) = consume t e r"
| "perform r (t, RequestTopUp publish u a cur email) = snd (snd (requestTopUp t publish u a cur email r))"
| "perform r (t, ExpireTopUps ms) = snd (expireStaleTopUps t ms r)"
| "perform r (t, RunCycle) = snd (snd (cycle_tick t r))"
| "perform r (t, Standing u) = snd (getStanding t default_low_credit_hours u r)"
| "perform r (t, WarnLow publish h) = snd (snd (warnLowCredit t publish h r))"
| "perform r (t, Settle h) = snd (snd (settle t h r))"
| "perform r (t, Accounts) = snd (snd (listAccounts t r))"
| "perform r (t, CreatePlan body) = snd (createPlan body r)"
| "perform r (t, UpdatePlan i body) = snd (updatePlan i body r)"
| "perform r (t, ChangePlan u p) = snd (changePlan t u p r)"
| "perform r (t, Adjust u a why by_whom) = snd (adjustCredit t u a why by_whom r)"

end
