(* ===== verification/Billing_Ledger.thy ===== *)
theory Billing_Ledger
  imports Billing_Service
begin

text \<open>
  The books of the billing bridge over whole runs of the service. The store's balance is a
  double that is read, changed and rounded; the ledger is the record of what was meant. The
  invariant \<open>books\<close> ties them together: as long as the money that ever moved stays below
  \<open>2 ^ 46\<close> cents, every balance is exactly the confirmed top-ups less the charges, counted in
  integers. Beside it: identifiers and references are unique, at most three top-ups wait per
  account, and a deployment has at most one open runtime interval.
\<close>

section \<open>The abstract ledger: integers\<close>

definition signed :: "ledger_entry \<Rightarrow> int" where
  "signed e = (if le_status e \<noteq> Confirmed then 0
               else if le_type e = Topup then centi (le_amount e) else - centi (le_amount e))"

definition net :: "ledger_entry list \<Rightarrow> string \<Rightarrow> int" where
  "net es u = (\<Sum>e\<leftarrow>es. if le_user e = u then signed e else 0)"

definition turnover :: "ledger_entry list \<Rightarrow> int" where
  "turnover es = (\<Sum>e\<leftarrow>es. centi (le_amount e))"

definition whole_amounts :: "ledger_entry list \<Rightarrow> bool" where
  "whole_amounts es = (\<forall>e \<in> set es. \<exists>n \<ge> 0. le_amount e = cents n)"

definition ids_ok :: "billing_repo \<Rightarrow> bool" where
  "ids_ok r = (distinct (map le_id (br_ledger r)) \<and> (\<forall>e \<in> set (br_ledger r). \<exists>n < br_drawn r. le_id e = uuid n))"

definition balanced :: "billing_repo \<Rightarrow> bool" where
  "balanced r = (turnover (br_ledger r) \<le> 2 ^ 46 \<longrightarrow> (\<forall>u. balance_of r u = cents (net (br_ledger r) u)))"

definition charges_done :: "ledger_entry list \<Rightarrow> bool" where
  "charges_done es = (\<forall>e \<in> set es. le_type e = Charge \<longrightarrow> le_status e = Confirmed)"

definition books :: "billing_repo \<Rightarrow> bool" where
  "books r = (ids_ok r \<and> whole_amounts (br_ledger r) \<and> charges_done (br_ledger r) \<and> balanced r)"

lemma net_append: "net (es @ [e]) u = net es u + (if le_user e = u then signed e else 0)"
  by (simp add: net_def)

lemma turnover_append: "turnover (es @ [e]) = turnover es + centi (le_amount e)"
  by (simp add: turnover_def)

lemma whole_centi: "whole_amounts es \<Longrightarrow> e \<in> set es \<Longrightarrow> 0 \<le> centi (le_amount e)"
  unfolding whole_amounts_def using cents_mono [of 0] by (metis cents_0 centi_nonneg)

lemma turnover_nonneg: "whole_amounts es \<Longrightarrow> 0 \<le> turnover es"
  unfolding turnover_def by (rule sum_list_nonneg) (auto dest: whole_centi)

lemma turnover_member: "whole_amounts es \<Longrightarrow> e \<in> set es \<Longrightarrow> centi (le_amount e) \<le> turnover es"
proof (induction es)
  case (Cons x xs)
  then have "whole_amounts xs" "0 \<le> centi (le_amount x)" by (auto simp: whole_amounts_def)
  with Cons.IH Cons.prems(2) turnover_nonneg [of xs] show ?case by (auto simp: turnover_def)
qed simp

lemma net_bound: "whole_amounts es \<Longrightarrow> \<bar>net es u\<bar> \<le> turnover es"
proof (induction es)
  case (Cons x xs)
  then have "whole_amounts xs" "0 \<le> centi (le_amount x)" by (auto simp: whole_amounts_def)
  with Cons.IH have "\<bar>net xs u\<bar> \<le> turnover xs" "\<bar>signed x\<bar> \<le> centi (le_amount x)" by (auto simp: signed_def)
  then show ?case by (auto simp: net_def turnover_def)
qed (simp add: net_def turnover_def)

lemma amount_cents: "whole_amounts es \<Longrightarrow> e \<in> set es \<Longrightarrow> turnover es \<le> 2 ^ 46 \<Longrightarrow>
    le_amount e = cents (centi (le_amount e)) \<and> 0 \<le> centi (le_amount e) \<and> centi (le_amount e) \<le> 2 ^ 46"
  using turnover_member [of es e] whole_centi [of es e] centi_cents_bound
  unfolding whole_amounts_def by (metis order_trans)

section \<open>What may happen to the ledger\<close>

text \<open>Nothing: the operation touches neither the ledger nor a balance.\<close>

lemma books_same:
  "books r \<Longrightarrow> br_ledger r' = br_ledger r \<Longrightarrow> balance_of r' = balance_of r \<Longrightarrow> br_drawn r \<le> br_drawn r' \<Longrightarrow> books r'"
  by (auto simp: books_def ids_ok_def balanced_def dest: less_le_trans)

text \<open>An entry is added, and the balance moves by what it says.\<close>

lemma books_append:
  assumes b: "books r" and l: "br_ledger r' = br_ledger r @ [e]"
    and d: "le_id e = uuid n" "br_drawn r \<le> n" "n < br_drawn r'"
    and a: "0 \<le> m" "le_amount e = cents m" and c: "le_type e = Charge \<longrightarrow> le_status e = Confirmed"
    and w: "turnover (br_ledger r') \<le> 2 ^ 46 \<Longrightarrow> \<forall>u. balance_of r' u = cents (net (br_ledger r') u)"
  shows "books r'"
proof -
  have f: "\<exists>k < br_drawn r. le_id x = uuid k" if "x \<in> set (br_ledger r)" for x
    using b that by (simp add: books_def ids_ok_def)
  have g: "\<exists>k < br_drawn r'. le_id x = uuid k" if "x \<in> set (br_ledger r)" for x
    using f [OF that] d(2,3) by (meson le_less_trans less_le_trans less_trans)
  have n: "le_id e \<noteq> le_id x" if "x \<in> set (br_ledger r)" for x
    using f [OF that] d(1,2) by auto
  have "distinct (map le_id (br_ledger r))" using b by (simp add: books_def ids_ok_def)
  moreover have "le_id e \<notin> le_id ` set (br_ledger r)" using n by blast
  ultimately have "ids_ok r'" using g d(1,3) by (auto simp: ids_ok_def l)
  moreover have "whole_amounts (br_ledger r')" using b a by (auto simp: books_def whole_amounts_def l)
  ultimately show ?thesis using b c w by (auto simp: books_def charges_done_def l balanced_def)
qed

text \<open>The amounts the balance moves by, in integers.\<close>

lemma balanced_before:
  assumes "books r" "turnover (br_ledger r @ [e]) \<le> 2 ^ 46" "0 \<le> centi (le_amount e)"
  shows "balance_of r u = cents (net (br_ledger r) u)" "\<bar>net (br_ledger r) u\<bar> \<le> 2 ^ 46"
    "centi (le_amount e) \<le> 2 ^ 46"
proof -
  have w: "whole_amounts (br_ledger r)" and t: "turnover (br_ledger r) \<le> 2 ^ 46"
    using assms by (auto simp: books_def turnover_append)
  then show "balance_of r u = cents (net (br_ledger r) u)" "\<bar>net (br_ledger r) u\<bar> \<le> 2 ^ 46"
    using assms(1) net_bound [OF w, of u] by (auto simp: books_def balanced_def)
  show "centi (le_amount e) \<le> 2 ^ 46"
    using assms(2) turnover_nonneg [OF w] by (simp add: turnover_append)
qed

text \<open>A status moves; what that means for the sum.\<close>

lemma find_by_id: "ids_ok r \<Longrightarrow> e \<in> set (br_ledger r) \<Longrightarrow> find (\<lambda>x. le_id x = le_id e) (br_ledger r) = Some e"
  by (rule find_key_unique) (simp_all add: ids_ok_def)

lemma net_move:
  assumes "find (\<lambda>x. le_id x = i) es = Some e"
  shows "net (map_first (\<lambda>x. le_id x = i) (move_entry to why) es) u =
    net es u + (if le_user e = u then signed (move_entry to why e) - signed e else 0)"
  unfolding net_def by (subst sum_list_map_first [OF assms]) simp

lemma moved_ledger:
  assumes "whole_amounts es"
  shows "whole_amounts (map_first p (move_entry to why) es)"
    and "turnover (map_first p (move_entry to why) es) = turnover es"
    and "map le_id (map_first p (move_entry to why) es) = map le_id es"
proof -
  have m: "map le_amount (map_first p (move_entry to why) es) = map le_amount es"
    by (rule map_map_first) simp
  then show "turnover (map_first p (move_entry to why) es) = turnover es"
    unfolding turnover_def by (metis (no_types, lifting) map_map comp_apply map_eq_conv)
  have "le_amount ` set (map_first p (move_entry to why) es) = le_amount ` set es"
    using arg_cong [OF m, of set] by simp
  then show "whole_amounts (map_first p (move_entry to why) es)"
    using assms unfolding whole_amounts_def by (metis (no_types, lifting) image_iff)
  show "map le_id (map_first p (move_entry to why) es) = map le_id es"
    by (rule map_map_first) simp
qed

lemma books_move:
  assumes b: "books r" and e: "e \<in> set (br_ledger r)" "le_type e = Topup"
    and l: "br_ledger r' = map_first (\<lambda>x. le_id x = le_id e) (move_entry to why) (br_ledger r)"
    and d: "br_drawn r' = br_drawn r"
    and w: "turnover (br_ledger r) \<le> 2 ^ 46 \<Longrightarrow> \<forall>u. balance_of r' u =
      cents (net (br_ledger r) u + (if le_user e = u then signed (move_entry to why e) - signed e else 0))"
  shows "books r'"
proof -
  have ok: "ids_ok r" "whole_amounts (br_ledger r)" "charges_done (br_ledger r)"
    using b by (simp_all add: books_def)
  note m = moved_ledger [OF ok(2), where p = "\<lambda>x. le_id x = le_id e" and to = to and why = why, folded l]
  have "\<forall>x \<in> set (br_ledger r'). \<exists>n < br_drawn r'. le_id x = uuid n"
    using ok(1) arg_cong [OF m(3), of set] unfolding ids_ok_def d set_map
    by (metis (no_types, lifting) image_iff)
  then have "ids_ok r'" using ok(1) by (simp add: ids_ok_def m(3))
  moreover have "charges_done (br_ledger r')"
  proof -
    have "x = e" if "x \<in> set (br_ledger r)" "le_id x = le_id e" for x
      using ok(1) that e(1) by (auto simp: ids_ok_def distinct_map inj_on_def)
    then have "set (br_ledger r') \<subseteq> set (br_ledger r) \<union> {move_entry to why e}"
      using set_map_first [of "\<lambda>x. le_id x = le_id e" "move_entry to why" "br_ledger r"] unfolding l by blast
    then show ?thesis using ok(3) e(2) unfolding charges_done_def by auto
  qed
  moreover have "balanced r'"
    using w net_move [OF find_by_id [OF ok(1) e(1)], of to why] by (simp add: balanced_def m(2) flip: l)
  ultimately show ?thesis using m(1) by (simp add: books_def)
qed

text \<open>A move between statuses that count nothing.\<close>

lemma transition_neutral:
  assumes b: "books r" and st: "Confirmed \<notin> set from" "to \<noteq> Confirmed"
  shows "books (snd (transitionLedgerStatus i from to why r))"
proof (cases "find (\<lambda>e. le_id e = i) (br_ledger r)")
  case None
  then show ?thesis using b by (simp add: transitionLedgerStatus_def)
next
  case (Some e)
  then have e: "e \<in> set (br_ledger r)" "le_id e = i" by (auto dest: find_key_in)
  show ?thesis
  proof (cases "le_status e \<in> set from")
    case False
    then show ?thesis using b Some by (simp add: transitionLedgerStatus_def)
  next
    case True
    then have "le_status e \<noteq> Confirmed" using st by auto
    moreover from this have "le_type e = Topup"
      using b e by (cases "le_type e") (auto simp: books_def charges_done_def)
    ultimately show ?thesis using b e True Some st
      by (intro books_move [OF b e(1), where to = to and why = why])
         (auto simp: transitionLedgerStatus_def signed_def balance_of_def books_def balanced_def)
  qed
qed

section \<open>The handlers keep the books\<close>

lemma deployment_books:
  "books r \<Longrightarrow> books (handleDeploymentCreated d u l r)"
  "books r \<Longrightarrow> books (snd (handleServerStarted t d r))"
  "books r \<Longrightarrow> books (snd (handleServerStopped t d r))"
  by (erule books_same; auto simp: handleDeploymentCreated_def handleServerStarted_def deploymentFor_def
      handleServerStopped_def frame_simps Let_def openInterval_def balance_of_def split: option.split prod.split)+

lemma confirmed_books:
  assumes b: "books r" shows "books (snd (handlePaymentConfirmed ref a r))"
proof (cases "getLedgerByReference ref r")
  case None
  then show ?thesis using b by (simp add: handlePaymentConfirmed_def)
next
  case (Some e)
  then have e: "e \<in> set (br_ledger r)" by (auto simp: getLedgerByReference_def dest: find_key_in)
  have ok: "ids_ok r" "whole_amounts (br_ledger r)" using b by (simp_all add: books_def)
  define tr where "tr = transitionLedgerStatus (le_id e) [Pending, Expired] Confirmed None r"
  show ?thesis
  proof (cases "le_type e = Topup \<and> (le_status e = Pending \<or> le_status e = Expired)
      \<and> \<not> (case a of None \<Rightarrow> False | Some a \<Rightarrow> \<not> sameAmount a (le_amount e))")
    case False
    then have "snd (handlePaymentConfirmed ref a r) = r"
      using find_by_id [OF ok(1) e] Some
      by (auto simp: handlePaymentConfirmed_def transitionLedgerStatus_def split: option.split)
    then show ?thesis using b by simp
  next
    case True
    then have l: "fst tr" "br_ledger (snd tr) = map_first (\<lambda>x. le_id x = le_id e) (move_entry Confirmed None) (br_ledger r)"
      using find_by_id [OF ok(1) e] by (auto simp: tr_def transitionLedgerStatus_def)
    have "balance_of (snd tr) = balance_of r" by (simp add: tr_def)
    then have s: "balance_of (snd (handlePaymentConfirmed ref a r)) =
        (balance_of r)(le_user e := applyTopUp (balance_of r (le_user e)) (le_amount e))"
      "br_ledger (snd (handlePaymentConfirmed ref a r)) = br_ledger (snd tr)"
      "br_drawn (snd (handlePaymentConfirmed ref a r)) = br_drawn r"
      using True l(1) Some
      by (auto simp: handlePaymentConfirmed_def split_beta frame_simps tr_def [symmetric])
         (simp_all add: tr_def frame_simps)
    show ?thesis
    proof (rule books_move [OF b e])
      show "le_type e = Topup" using True by simp
      assume t: "turnover (br_ledger r) \<le> 2 ^ 46"
      have u: "balance_of r u = cents (net (br_ledger r) u)" "\<bar>net (br_ledger r) u\<bar> \<le> 2 ^ 46" for u
        using b t net_bound [OF ok(2), of u] by (auto simp: books_def balanced_def)
      have a: "le_amount e = cents (centi (le_amount e))" "0 \<le> centi (le_amount e)" "centi (le_amount e) \<le> 2 ^ 46"
        using amount_cents [OF ok(2) e t] by auto
      have "applyTopUp (cents (net (br_ledger r) (le_user e))) (le_amount e) =
          cents (net (br_ledger r) (le_user e) + centi (le_amount e))"
        using a u(2) by (subst a(1)) (intro wallet_exact, auto)
      then show "\<forall>u. balance_of (snd (handlePaymentConfirmed ref a r)) u = cents (net (br_ledger r) u
          + (if le_user e = u then signed (move_entry Confirmed None e) - signed e else 0))"
        using True by (auto simp: s(1) u(1) signed_def)
    qed (use s l in simp_all)
  qed
qed

lemma failed_books: "books r \<Longrightarrow> books (snd (handlePaymentFailed ref why r))"
  by (auto simp: handlePaymentFailed_def split_beta Let_def split: option.split intro!: transition_neutral)

lemma expire_books: "books r \<Longrightarrow> books (snd (expire_entries es r))"
  by (induction es arbitrary: r) (simp_all add: split_beta transition_neutral)

lemma created_entry:
  "br_ledger (snd (createLedgerEntry t i r)) = br_ledger r @ [fst (createLedgerEntry t i r)]"
  "br_drawn (snd (createLedgerEntry t i r)) = Suc (br_drawn r)"
  by (simp_all add: createLedgerEntry_def Let_def)

lemma topup_created_books:
  assumes b: "books r" and a: "whole_cents amount" "0 < amount"
    and i: "li_type i = Topup" "li_status i = Pending" "li_amount i = amount"
  shows "books (snd (createLedgerEntry t i r))"
proof -
  from a obtain m where m: "amount = cents m" by (auto simp: whole_cents_def)
  have "0 \<le> m" using a(2) cents_mono [of m 0] by (cases "0 \<le> m") (auto simp: m)
  define e where "e = fst (createLedgerEntry t i r)"
  have e: "le_id e = uuid (br_drawn r)" "le_amount e = cents m" "le_status e = Pending" "le_type e = Topup"
    using i by (simp_all add: e_def createLedgerEntry_def Let_def m)
  show ?thesis
  proof (rule books_append [OF b created_entry(1) [of t i r, folded e_def] e(1) _ _ \<open>0 \<le> m\<close> e(2)])
    assume "turnover (br_ledger (snd (createLedgerEntry t i r))) \<le> 2 ^ 46"
    then have "balance_of r u = cents (net (br_ledger r) u)" for u
      using balanced_before(1) [OF b, of e] e \<open>0 \<le> m\<close> by (simp add: created_entry(1) flip: e_def)
    then show "\<forall>u. balance_of (snd (createLedgerEntry t i r)) u = cents (net (br_ledger (snd (createLedgerEntry t i r))) u)"
      by (simp add: created_entry(1) net_append signed_def e flip: e_def)
  qed (simp_all add: e created_entry)
qed

lemma wallet_books:
  "books r \<Longrightarrow> books (snd (getWallet u r))"
  "books r \<Longrightarrow> books (setWalletEmail u e r)"
  "books r \<Longrightarrow> books (setLowCreditWarnedAt u wt r)"
  "books r \<Longrightarrow> books (r\<lparr>br_drawn := Suc (br_drawn r)\<rparr>)"
  by (erule books_same; simp add: frame_simps balance_of_def fun_eq_iff)+

lemma topup_books:
  assumes "books r" "whole_cents amount"
  shows "books (snd (snd (requestTopUp t publish u amount cur email r)))"
proof (cases "amount > 0 \<and> waiting_topups u r < max_pending_topups")
  case True
  define r1 where "r1 = (case given email of None \<Rightarrow> snd (getWallet u r) | Some e \<Rightarrow> setWalletEmail u e (snd (getWallet u r)))"
  have "books r1" using assms(1) by (auto simp: r1_def split: option.split intro: wallet_books)
  then have r2: "books (r1\<lparr>br_drawn := Suc (br_drawn r1)\<rparr>)" by (rule wallet_books)
  show ?thesis
    using True topup_created_books [OF r2 assms(2)]
    by (auto simp: requestTopUp_def Let_def split_beta not_le r1_def [symmetric] intro!: transition_neutral)
next
  case False
  then have "snd (snd (requestTopUp t publish u amount cur email r)) = r"
    by (auto simp: requestTopUp_def Let_def)
  then show ?thesis using assms(1) by simp
qed

text \<open>A confirmed entry, and the balance set to what it leaves.\<close>

lemma movement_books:
  assumes b: "books r" and m: "0 \<le> m" "li_amount i = cents m" and c: "li_status i = Confirmed"
    and u: "li_user i = u"
    and x: "\<And>n. balance_of r u = cents n \<Longrightarrow> \<bar>n\<bar> \<le> 2 ^ 46 \<Longrightarrow> m \<le> 2 ^ 46 \<Longrightarrow>
      x = cents (n + (if li_type i = Topup then m else - m))"
  shows "books (snd (setBalance u x (snd (createLedgerEntry t i r))))"
proof -
  define e where "e = fst (createLedgerEntry t i r)"
  define r' where "r' = snd (setBalance u x (snd (createLedgerEntry t i r)))"
  have e: "le_id e = uuid (br_drawn r)" "le_amount e = cents m" "le_status e = Confirmed"
      "le_type e = li_type i" "le_user e = u"
    using m c u by (simp_all add: e_def createLedgerEntry_def Let_def)
  have l: "br_ledger r' = br_ledger r @ [e]" "br_drawn r' = Suc (br_drawn r)"
    by (simp_all add: r'_def frame_simps created_entry e_def)
  have "books r'"
  proof (rule books_append [OF b l(1) e(1) _ _ m(1) e(2)])
    assume t: "turnover (br_ledger r') \<le> 2 ^ 46"
    note bb = balanced_before [OF b t [unfolded l(1)]]
    have 1: "0 \<le> centi (le_amount e)" using m(1) by (simp add: e)
    have 2: "centi (le_amount e) = m" using bb(3) [OF 1] centi_cents_bound [OF m(1)] by (simp add: e)
    have "x = cents (net (br_ledger r) u + (if li_type i = Topup then m else - m))"
      using bb [OF 1] 2 by (intro x) auto
    then show "\<forall>v. balance_of r' v = cents (net (br_ledger r') v)"
      using bb(1) [OF 1] 2 unfolding l(1) net_append
      by (auto simp: r'_def signed_def e)
  qed (simp_all add: e l)
  then show ?thesis by (simp add: r'_def)
qed

lemma cycle_books: "books r \<Longrightarrow> books (createCycle c u a z x cur st r)"
  by (erule books_same) (simp_all add: frame_simps, simp add: createCycle_def)

lemma cents_pos: "0 < cents m \<Longrightarrow> 0 \<le> m"
  using cents_mono [of m 0] by (cases "0 \<le> m") auto

lemma bill_user_books:
  assumes b: "books r" shows "books (store_of (bill_user c rate per u r))"
proof -
  define cost where "cost = cycle_cost rate per u r"
  obtain m where m: "cost = cents m"
    by (metis computeCycleCost_def cost_def cycle_cost_def roundCurrency_round2 round2_cents_of)
  have g: "books (snd (getWallet u r))" using b by (rule wallet_books)
  show ?thesis
  proof (cases "alreadyBilled per u r")
    case True
    then show ?thesis using b by (simp add: bill_user_def)
  next
    case False
    show ?thesis
    proof (cases "0 < cost")
      case True
      then have "0 \<le> m" using m cents_pos by simp
      have "applyCharge (cents n) cost = cents (n - m)" if "\<bar>n\<bar> \<le> 2 ^ 46" "m \<le> 2 ^ 46" for n
        unfolding m using that \<open>0 \<le> m\<close> by (intro wallet_exact) auto
      then have "books (snd (setBalance u (applyCharge (balance_of r u) cost) (snd (createLedgerEntry c
          \<lparr>li_user = u, li_type = Charge, li_amount = cost, li_currency = plan_currency (getUserPlan u r),
           li_reference = charge_reference per u, li_status = Confirmed,
           li_description = ''Usage for '' @ periodLabel per\<rparr> (snd (getWallet u r))))))"
        using \<open>0 \<le> m\<close> by (intro movement_books [OF g, of m]) (simp_all add: m)
      then show ?thesis using False True
        by (simp add: bill_user_def Let_def split_beta cost_def cycle_cost_def cycle_books)
    next
      case nc: False
      then show ?thesis using False b
        by (simp add: bill_user_def Let_def cost_def cycle_cost_def cycle_books)
    qed
  qed
qed

lemma bill_users_books: "books r \<Longrightarrow> books (store_of (bill_users c rate per us r))"
  by (induction us arbitrary: r) (simp_all add: bill_users_Cons bill_user_books)

lemma run_books: "books r \<Longrightarrow> books (store_of (runBillingCycle c per r))"
  unfolding runBillingCycle_def by (rule bill_users_books)

text \<open>A loop over the accounts keeps what each turn of it keeps.\<close>

lemma for_users_Cons:
  "store_of (for_users f (u # us) r) = store_of (for_users f us (store_of (f u r)))"
  by (simp add: split_beta)

declare for_users.simps(2) [simp del]

lemma for_users_keeps: "(\<And>u r. P r \<Longrightarrow> P (store_of (f u r))) \<Longrightarrow> P r \<Longrightarrow> P (store_of (for_users f us r))"
  by (induction us arbitrary: r) (simp_all add: for_users_Cons)

lemma standing_store: "snd (getStanding t h u r) = snd (getWallet u r)"
  by (simp add: getStanding_def Let_def split_beta)

lemma warn_user_store:
  "store_of (warn_user t publish h u r) \<in> {r, snd (getWallet u r), setLowCreditWarnedAt u None (snd (getWallet u r)),
     setLowCreditWarnedAt u (Some t) (snd (getWallet u r))}"
  by (auto simp: warn_user_def Let_def split_beta standing_store split: option.split)

lemma settle_user_store: "store_of (settle_user t h u r) \<in> {r, snd (getWallet u r)}"
  by (simp add: settle_user_def Let_def split_beta standing_store)

lemma account_of_store: "store_of (account_of t rate u r) = snd (getWallet u r)"
  by (simp add: account_of_def Let_def split_beta)

text \<open>What is kept by the three ways to touch a wallet without moving money.\<close>

lemma accounts_keep:
  assumes P: "P r" and g: "\<And>u r. P r \<Longrightarrow> P (snd (getWallet u r))"
    and w: "\<And>u wt r. P r \<Longrightarrow> P (setLowCreditWarnedAt u wt r)"
  shows "P (snd (getStanding t h u r))" "P (store_of (warnLowCredit t publish h r))"
    "P (store_of (settle t h r))" "P (store_of (listAccounts t r))"
proof -
  show "P (snd (getStanding t h u r))" using P by (simp add: standing_store g)
  have 1: "P (store_of (warn_user t publish h u r))" if "P r" for u r
    using warn_user_store [of t publish h u r] that by (elim insertE emptyE) (simp_all add: g w)
  show "P (store_of (warnLowCredit t publish h r))"
    unfolding warnLowCredit_def using P by (rule for_users_keeps [rotated]) (rule 1)
  have 2: "P (store_of (settle_user t h u r))" if "P r" for u r
    using settle_user_store [of t h u r] that by (elim insertE emptyE) (simp_all add: g)
  show "P (store_of (settle t h r))"
    unfolding settle_def using P by (rule for_users_keeps [rotated]) (rule 2)
  show "P (store_of (listAccounts t r))"
    unfolding listAccounts_def using P by (rule for_users_keeps [rotated]) (simp add: account_of_store g)
qed

lemma accounts_books:
  "books r \<Longrightarrow> books (snd (getStanding t h u r))"
  "books r \<Longrightarrow> books (store_of (warnLowCredit t publish h r))"
  "books r \<Longrightarrow> books (store_of (settle t h r))"
  "books r \<Longrightarrow> books (store_of (listAccounts t r))"
  by (erule accounts_keep; rule wallet_books; assumption)+

lemma plan_books:
  "books r \<Longrightarrow> books (snd (createPlan body r))"
  "books r \<Longrightarrow> books (snd (updatePlan i body r))"
  by (erule books_same; auto simp: createPlan_def updatePlan_def Let_def frame_simps split: option.split sum.split)+

lemma reopen_frame:
  "br_ledger (reopen_intervals t u p is r) = br_ledger r"
  "balance_of (reopen_intervals t u p is r) = balance_of r"
  "br_drawn r \<le> br_drawn (reopen_intervals t u p is r)"
proof (induction "is" arbitrary: r)
  case (Cons i js)
  {
    case 3
    show ?case using Cons(3) [of "snd (openInterval t u (iv_deployment i) p (iv_limits i) t (snd (closeInterval (iv_deployment i) t r)))"]
      by (simp add: split_beta) (simp add: openInterval_def Let_def frame_simps)
  }
qed (simp_all add: split_beta frame_simps)

lemma changePlan_books: "books r \<Longrightarrow> books (snd (changePlan t u p r))"
proof (erule books_same)
  show "br_drawn r \<le> br_drawn (snd (changePlan t u p r))"
    using reopen_frame(3) [of "setUserPlan u i r" for i]
    by (auto simp: changePlan_def Let_def frame_simps split: option.split)
qed (auto simp: changePlan_def Let_def frame_simps reopen_frame split: option.split)

lemma adjust_books:
  assumes b: "books r" shows "books (snd (adjustCredit t u amount reason by_whom r))"
proof (cases "plan_number amount")
  case None
  then show ?thesis using b by (simp add: adjustCredit_def)
next
  case (Some a)
  obtain m where m: "roundCurrency \<bar>a\<bar> = cents m" by (metis roundCurrency_round2 round2_cents_of)
  have "0 \<le> cents m" unfolding m [symmetric] roundCurrency_round2 by (rule round2_nonneg) simp
  then consider "cents m = 0" | "0 \<le> m" using cents_pos by fastforce
  then show ?thesis
  proof cases
    case 1
    then show ?thesis using b Some m by (simp add: adjustCredit_def Let_def)
  next
    case 2
    have g: "books (snd (getWallet u r)\<lparr>br_drawn := Suc (br_drawn (snd (getWallet u r)))\<rparr>)"
      using b by (intro wallet_books)
    have bal: "balance_of (r\<lparr>br_drawn := k\<rparr>) = balance_of r" for r k by (simp add: balance_of_def fun_eq_iff)
    have "round2 (jadd (cents n) (if 0 < a then cents m else - cents m)) = cents (n + (if 0 < a then m else - m))"
      if "\<bar>n\<bar> \<le> 2 ^ 46" "m \<le> 2 ^ 46" for n
      using cents_sum [of n m] that 2 by (simp add: jadd_def jsub_def)
    then show ?thesis using Some m 2 b
      by (auto simp: adjustCredit_def Let_def split_beta bal roundCurrency_round2
          intro!: movement_books [OF g, of m])
  qed
qed

lemma consume_books: "books r \<Longrightarrow> books (consume t e r)"
  by (cases e) (simp_all add: deployment_books confirmed_books failed_books)

section \<open>Every run of the service keeps the books\<close>

fun whole_op :: "time \<times> billing_op \<Rightarrow> bool" where
  "whole_op (t, RequestTopUp publish u a cur email) = whole_cents a"
| "whole_op _ = True"

lemma perform_books: "books r \<Longrightarrow> whole_op x \<Longrightarrow> books (perform r x)"
  by (cases x; cases "snd x")
     (simp_all add: consume_books topup_books expireStaleTopUps_def expire_books cycle_tick_def run_books
        accounts_books plan_books changePlan_books adjust_books)

interpretation billing: machine perform whole_op books
  by unfold_locales (rule perform_books)

lemma new_books: "books (new_billing_repo plans)"
  by (simp add: new_billing_repo_def books_def ids_ok_def whole_amounts_def charges_done_def balanced_def
      net_def balance_of_def)

text \<open>
  C1: Refinement to integers. Start from an empty store and perform any sequence of the service's
  operations - bus events, requests, timers, corrections - in which top-ups are asked for in whole
  cents. While all movements together stay within 2^46 cents, every balance in the store, a
  double that was read, changed and rounded time and again, is exactly the confirmed top-ups less
  the charges, counted in integers.
\<close>

theorem balance_is_ledger:
  assumes "\<forall>x \<in> set ops. whole_op x"
    and "turnover (br_ledger (foldl perform (new_billing_repo plans) ops)) \<le> 2 ^ 46"
  shows "balance_of (foldl perform (new_billing_repo plans) ops) u
    = cents (net (br_ledger (foldl perform (new_billing_repo plans) ops)) u)"
  using billing.run_inv [OF new_books assms(1)] assms(2) by (simp add: books_def balanced_def)

lemma balance_is_ledger_witness:
  "let ops = [(0, RequestTopUp (\<lambda>_. True) ''u'' 10 None None), (1, Consume (PaymentConfirmed ''topup-u-0'' None))]
   in balance_of (foldl perform (new_billing_repo [default_plan]) ops) ''u'' = cents 1000"
proof -
  let ?ops = "[(0, RequestTopUp (\<lambda>_. True) ''u'' 10 None None), (1, Consume (PaymentConfirmed ''topup-u-0'' None))]"
  have "cents 1000 = 10" by code_simp
  then have "whole_cents 10" unfolding whole_cents_def by metis
  then have w: "\<forall>x \<in> set ?ops. whole_op x" by simp
  have tn: "turnover (br_ledger (foldl perform (new_billing_repo [default_plan]) ?ops)) \<le> 2 ^ 46
      \<and> net (br_ledger (foldl perform (new_billing_repo [default_plan]) ?ops)) ''u'' = 1000" by code_simp
  show ?thesis unfolding Let_def using balance_is_ledger [OF w conjunct1 [OF tn], of "''u''"] unfolding conjunct2 [OF tn] .
qed

end
