(* ===== verification/Billing_Invariants.thy ===== *)
theory Billing_Invariants
  imports Billing_Ledger
begin

text \<open>
  What every operation of the billing service may do to the ledger, as a step relation, and
  what follows for whole runs: references stay unique, at most three top-ups of an account wait
  for FinVault, and a confirmed or failed entry stays as it is. Beside it: a deployment never
  has two open runtime intervals.
\<close>

section \<open>Steps of the ledger\<close>

definition tag_ref :: "string \<Rightarrow> nat \<Rightarrow> string" where
  "tag_ref a n = a @ CHR ''-'' # uuid n"

inductive ledger_step :: "billing_repo \<Rightarrow> billing_repo \<Rightarrow> bool" where
  quiet: "br_ledger r' = br_ledger r \<Longrightarrow> br_drawn r \<le> br_drawn r' \<Longrightarrow> ledger_step r r'"
| moved: "br_ledger r' = map_first (\<lambda>x. le_id x = i) (move_entry to why) (br_ledger r) \<Longrightarrow>
    find (\<lambda>x. le_id x = i) (br_ledger r) = Some e \<Longrightarrow> le_status e \<in> {Pending, Expired} \<Longrightarrow>
    to \<noteq> Pending \<Longrightarrow> br_drawn r \<le> br_drawn r' \<Longrightarrow> ledger_step r r'"
| charged: "br_ledger r' = br_ledger r @ [e] \<Longrightarrow> le_type e = Charge \<Longrightarrow> le_status e = Confirmed \<Longrightarrow>
    starts_with (le_reference e) ''charge-'' \<Longrightarrow> br_drawn r \<le> br_drawn r' \<Longrightarrow> ledger_step r r'"
| adjusted: "br_ledger r' = br_ledger r @ [e] \<Longrightarrow> le_status e = Confirmed \<Longrightarrow>
    le_reference e = tag_ref ''adjust'' n \<Longrightarrow> br_drawn r \<le> n \<Longrightarrow> n < br_drawn r' \<Longrightarrow> ledger_step r r'"
| requested: "br_ledger r' = br_ledger r @ [e] \<Longrightarrow> le_type e = Topup \<Longrightarrow> le_status e = Pending \<Longrightarrow>
    le_reference e = tag_ref (''topup-'' @ le_user e) n \<Longrightarrow> br_drawn r \<le> n \<Longrightarrow> n < br_drawn r' \<Longrightarrow>
    waiting_topups (le_user e) r < max_pending_topups \<Longrightarrow> ledger_step r r'"

inductive_cases ledger_stepE: "ledger_step r r'"

abbreviation ledger_path :: "billing_repo \<Rightarrow> billing_repo \<Rightarrow> bool" where
  "ledger_path \<equiv> ledger_step\<^sup>*\<^sup>*"

lemma path_quiet: "br_ledger r' = br_ledger r \<Longrightarrow> br_drawn r \<le> br_drawn r' \<Longrightarrow> ledger_path r r'"
  by (rule r_into_rtranclp) (rule quiet)

lemma path_transition:
  assumes "set from \<subseteq> {Pending, Expired}" "to \<noteq> Pending"
  shows "ledger_path r (snd (transitionLedgerStatus i from to why r))"
proof (cases "find (\<lambda>e. le_id e = i) (br_ledger r)")
  case None
  then show ?thesis by (simp add: transitionLedgerStatus_def)
next
  case (Some e)
  show ?thesis
  proof (cases "le_status e \<in> set from")
    case True
    then show ?thesis
      using Some assms by (intro r_into_rtranclp moved [OF _ Some]) (auto simp: transitionLedgerStatus_def)
  qed (simp add: transitionLedgerStatus_def Some)
qed

lemma path_wallet:
  "ledger_path r (snd (getWallet u r))" "ledger_path r (snd (setBalance u b r))"
  "ledger_path r (setWalletEmail u e r)" "ledger_path r (setLowCreditWarnedAt u wt r)"
  by (simp_all add: path_quiet frame_simps)

lemma path_trans: "ledger_path r s \<Longrightarrow> ledger_path s t \<Longrightarrow> ledger_path r t"
  by (rule rtranclp_trans)

lemma deployment_path:
  "ledger_path r (handleDeploymentCreated d u l r)"
  "ledger_path r (snd (handleServerStarted t d r))"
  "ledger_path r (snd (handleServerStopped t d r))"
  by (rule path_quiet; auto simp: handleDeploymentCreated_def handleServerStarted_def deploymentFor_def
      handleServerStopped_def frame_simps Let_def openInterval_def split: option.split prod.split)+

lemma payment_path:
  "ledger_path r (snd (handlePaymentConfirmed ref a r))"
  "ledger_path r (snd (handlePaymentFailed ref why r))"
proof -
  have t: "ledger_path r (snd (transitionLedgerStatus i [Pending, Expired] to w r))" if "to \<noteq> Pending" for i to w
    using that by (intro path_transition) simp_all
  have "ledger_path r (snd (setBalance u b (snd (getWallet v (snd (transitionLedgerStatus i [Pending, Expired] Confirmed w r))))))"
    for u b v i w
    by (rule path_trans [OF path_trans [OF t path_wallet(1)] path_wallet(2)]) simp
  with t show "ledger_path r (snd (handlePaymentConfirmed ref a r))"
    by (simp add: handlePaymentConfirmed_def Let_def split_beta split: option.split)
  from t show "ledger_path r (snd (handlePaymentFailed ref why r))"
    by (simp add: handlePaymentFailed_def Let_def split_beta split: option.split)
qed

lemma expire_path: "ledger_path r (snd (expire_entries es r))"
proof (induction es arbitrary: r)
  case (Cons e es)
  have "ledger_path r (snd (transitionLedgerStatus (le_id e) [Pending] Expired None r))"
    by (rule path_transition) simp_all
  then show ?case using path_trans [OF _ Cons.IH] by (simp add: split_beta)
qed simp

lemma topup_path: "ledger_path r (snd (snd (requestTopUp t publish u a cur email r)))"
proof (cases "a > 0 \<and> waiting_topups u r < max_pending_topups")
  case True
  define r1 where "r1 = (case given email of None \<Rightarrow> snd (getWallet u r) | Some e \<Rightarrow> setWalletEmail u e (snd (getWallet u r)))"
  define r2 where "r2 = r1\<lparr>br_drawn := Suc (br_drawn r1)\<rparr>"
  have f: "br_ledger r1 = br_ledger r" "br_drawn r1 = br_drawn r"
    by (auto simp: r1_def frame_simps split: option.split)
  have "ledger_path r (snd (createLedgerEntry t
      \<lparr>li_user = u, li_type = Topup, li_amount = a, li_currency = c,
       li_reference = topup_reference u (br_drawn r1), li_status = Pending, li_description = d\<rparr> r2))" for c d
    using True by (intro r_into_rtranclp requested [where n = "br_drawn r"])
      (auto simp: createLedgerEntry_def Let_def r2_def f topup_reference_def tag_ref_def)
  then show ?thesis
    using True by (auto simp: requestTopUp_def Let_def split_beta not_le
        intro: path_trans [OF _ path_transition] simp flip: r1_def r2_def)
next
  case False
  then show ?thesis by (auto simp: requestTopUp_def Let_def)
qed

lemma charge_reference_starts: "starts_with (charge_reference per u) ''charge-''"
  unfolding charge_reference_def by (rule starts_with_append)

lemma bill_user_drawn: "br_drawn r \<le> br_drawn (store_of (bill_user c rate per u r))"
  by (simp add: bill_user_def Let_def split_beta frame_simps createCycle_def createLedgerEntry_def)

lemma bill_user_path: "ledger_path r (store_of (bill_user c rate per u r))"
proof (cases "charges rate per u r")
  case True
  show ?thesis
    by (rule r_into_rtranclp, rule charged [OF _ _ _ _ bill_user_drawn])
      (use True in \<open>simp add: bill_user_ledger\<close>, simp_all add: createLedgerEntry_def Let_def charge_reference_starts)
next
  case False
  then show ?thesis by (intro path_quiet) (simp_all add: bill_user_ledger bill_user_drawn)
qed

lemma bill_users_path: "ledger_path r (store_of (bill_users c rate per us r))"
  by (induction us arbitrary: r) (auto simp: bill_users_Cons intro: path_trans [OF bill_user_path])

lemma accounts_path:
  "ledger_path r (snd (getStanding t h u r))" "ledger_path r (store_of (warnLowCredit t publish h r))"
  "ledger_path r (store_of (settle t h r))" "ledger_path r (store_of (listAccounts t r))"
  by (rule accounts_keep [where P = "ledger_path r"]; blast intro: path_trans path_wallet)+

lemma plan_path:
  "ledger_path r (snd (createPlan body r))" "ledger_path r (snd (updatePlan i body r))"
  "ledger_path r (snd (changePlan t u p r))"
  by (rule path_quiet; auto simp: createPlan_def updatePlan_def changePlan_def Let_def frame_simps reopen_frame
      split: option.split sum.split intro: order_trans [OF _ reopen_frame(3)])+

lemma adjust_path: "ledger_path r (snd (adjustCredit t u amount reason by_whom r))"
proof -
  have "ledger_path r (snd (createLedgerEntry t i (snd (getWallet u r)\<lparr>br_drawn := Suc (br_drawn r)\<rparr>)))"
    if "li_reference i = ''adjust-'' @ uuid (br_drawn r)" "li_status i = Confirmed" for i
    using that by (intro r_into_rtranclp adjusted [where n = "br_drawn r"])
      (auto simp: createLedgerEntry_def Let_def frame_simps tag_ref_def)
  then have "ledger_path r (snd (setBalance v x (snd (createLedgerEntry t i (snd (getWallet u r)\<lparr>br_drawn := Suc (br_drawn r)\<rparr>)))))"
    if "li_reference i = ''adjust-'' @ uuid (br_drawn r)" "li_status i = Confirmed" for v x i
    using that path_trans [OF _ path_wallet(2)] by blast
  then show ?thesis
    by (simp add: adjustCredit_def Let_def split_beta frame_simps split: option.split)
qed

lemma perform_path: "ledger_path r (perform r x)"
proof (cases x)
  case (Pair t oper)
  have "ledger_path r (consume t e r)" for e
    by (cases e) (simp_all add: deployment_path payment_path)
  then show ?thesis unfolding Pair
    by (cases oper) (simp_all add: topup_path expireStaleTopUps_def expire_path cycle_tick_def runBillingCycle_def
        bill_users_path accounts_path plan_path adjust_path)
qed

section \<open>What a run never breaks\<close>

definition waits_ok :: "billing_repo \<Rightarrow> bool" where
  "waits_ok r = (\<forall>u. waiting_topups u r \<le> max_pending_topups)"

definition tagged :: "string \<Rightarrow> bool" where
  "tagged ref = (take 1 ref \<noteq> ''c'')"

definition ref_ok :: "nat \<Rightarrow> string \<Rightarrow> ledger_type \<Rightarrow> bool" where
  "ref_ok k ref ty = (if tagged ref then \<exists>a. \<exists>n < k. ref = tag_ref a n else ty = Charge)"

definition refs_ok :: "billing_repo \<Rightarrow> bool" where
  "refs_ok r =
     (distinct (filter tagged (map le_reference (br_ledger r)))
      \<and> (\<forall>(ref, ty) \<in> set (map (\<lambda>e. (le_reference e, le_type e)) (br_ledger r)). ref_ok (br_drawn r) ref ty))"

lemma ref_ok_mono: "ref_ok k ref ty \<Longrightarrow> k \<le> k' \<Longrightarrow> ref_ok k' ref ty"
  unfolding ref_ok_def by (meson less_le_trans)

lemma tag_ref_inject: "tag_ref a m = tag_ref b n \<Longrightarrow> m = n"
  unfolding tag_ref_def by (drule last_part_inject) (simp_all add: uuid_no_dash)

lemma waiting_moved:
  "to \<noteq> Pending \<Longrightarrow> length [e \<leftarrow> map_first p (move_entry to why) es. le_user e = u \<and> le_type e = Topup \<and> le_status e = Pending]
     \<le> length [e \<leftarrow> es. le_user e = u \<and> le_type e = Topup \<and> le_status e = Pending]"
  by (induction es) auto

lemma waiting_eq: "waiting_topups u r = length [e \<leftarrow> br_ledger r. le_user e = u \<and> le_type e = Topup \<and> le_status e = Pending]"
  by (simp add: waiting_topups_def listLedger_def conj_ac)

lemma step_waits: "ledger_step r r' \<Longrightarrow> waits_ok r \<Longrightarrow> waits_ok r'"
proof (induction rule: ledger_step.induct)
  case (moved r' i to why r e)
  show ?case unfolding waits_ok_def
  proof
    fix u
    have "waiting_topups u r' \<le> waiting_topups u r"
      unfolding waiting_eq moved(1) by (rule waiting_moved [OF moved(4)])
    then show "waiting_topups u r' \<le> max_pending_topups" using moved(6) by (auto simp: waits_ok_def intro: order_trans)
  qed
qed (auto simp: waits_ok_def waiting_eq)

lemma refs_append:
  assumes ok: "refs_ok r" and l: "br_ledger r' = br_ledger r @ [e]"
    and n: "le_reference e = tag_ref a n" "br_drawn r \<le> n" "n < br_drawn r'" "tagged (le_reference e)"
  shows "refs_ok r'"
proof -
  have new: "le_reference e \<noteq> le_reference x" if x: "x \<in> set (br_ledger r)" "tagged (le_reference x)" for x
  proof
    assume "le_reference e = le_reference x"
    moreover have "ref_ok (br_drawn r) (le_reference x) (le_type x)" using ok x(1) by (auto simp: refs_ok_def)
    then obtain b m where "le_reference x = tag_ref b m" "m < br_drawn r" using x(2) by (auto simp: ref_ok_def)
    ultimately show False using n tag_ref_inject [of a n b m] by simp
  qed
  have "ref_ok (br_drawn r') (le_reference e) (le_type e)" unfolding ref_ok_def using n by metis
  moreover have "ref_ok (br_drawn r') (le_reference x) (le_type x)" if "x \<in> set (br_ledger r)" for x
  proof (rule ref_ok_mono)
    show "ref_ok (br_drawn r) (le_reference x) (le_type x)" using ok that by (auto simp: refs_ok_def)
    show "br_drawn r \<le> br_drawn r'" using n(2,3) by simp
  qed
  moreover have "le_reference e \<notin> set (filter tagged (map le_reference (br_ledger r)))"
  proof
    assume "le_reference e \<in> set (filter tagged (map le_reference (br_ledger r)))"
    then obtain x where "x \<in> set (br_ledger r)" "le_reference e = le_reference x" by auto
    then show False using new [of x] n(4) by simp
  qed
  ultimately show ?thesis using ok by (auto simp: refs_ok_def l)
qed

lemma step_refs: "ledger_step r r' \<Longrightarrow> refs_ok r \<Longrightarrow> refs_ok r'"
proof (induction rule: ledger_step.induct)
  case (quiet r' r)
  then show ?case by (auto simp: refs_ok_def intro: ref_ok_mono)
next
  case (moved r' i to why r e)
  have m: "map (\<lambda>e. (le_reference e, le_type e)) (br_ledger r') = map (\<lambda>e. (le_reference e, le_type e)) (br_ledger r)"
    unfolding moved(1) by (rule map_map_first) simp
  have m2: "map le_reference (br_ledger r') = map le_reference (br_ledger r)"
    unfolding moved(1) by (rule map_map_first) simp
  show ?case using moved(5,6) unfolding refs_ok_def m m2 by (auto intro: ref_ok_mono)
next
  case (charged r' r e)
  have "\<not> tagged (le_reference e)" using charged(4) by (auto simp: starts_with_iff tagged_def)
  then show ?case using charged by (auto simp: refs_ok_def ref_ok_def [of _ "le_reference e"] intro: ref_ok_mono)
next
  case (adjusted r' r e n)
  then show ?case by (intro refs_append [of r r' e _ n]) (auto simp: tagged_def tag_ref_def)
next
  case (requested r' r e n)
  then show ?case by (intro refs_append [of r r' e _ n]) (auto simp: tagged_def tag_ref_def)
qed

definition final :: "billing_repo \<Rightarrow> (string \<times> ledger_status) set" where
  "final r = {(i, st). ledger_status_of r i = Some st \<and> st \<in> {Confirmed, Failed}}"

lemma step_final: "ledger_step r r' \<Longrightarrow> final r \<subseteq> final r'"
proof (induction rule: ledger_step.induct)
  case (moved r' i to why r e)
  have o: "find (\<lambda>x. le_id x = j) (br_ledger r') = find (\<lambda>x. le_id x = j) (br_ledger r)" if "j \<noteq> i" for j
    unfolding moved(1) using that by (intro find_map_first_other) auto
  show ?case
  proof
    fix x assume x: "x \<in> final r"
    then have "fst x \<noteq> i" using moved(2,3) by (auto simp: final_def ledger_status_of_def)
    then show "x \<in> final r'" using x o [of "fst x"] by (auto simp: final_def ledger_status_of_def)
  qed
qed (auto simp: final_def ledger_status_of_def find_append)

lemma path_keeps:
  assumes "ledger_path r r'"
  shows "(waits_ok r \<longrightarrow> waits_ok r') \<and> (refs_ok r \<longrightarrow> refs_ok r') \<and> final r \<subseteq> final r'"
  using assms
proof (induction rule: rtranclp_induct)
  case (step y z)
  then show ?case using step_waits [OF step(2)] step_refs [OF step(2)] step_final [OF step(2)] by blast
qed simp

definition sound_refs :: "billing_repo \<Rightarrow> bool" where
  "sound_refs r = (waits_ok r \<and> refs_ok r)"

interpretation refs: growing_machine perform "\<lambda>_. True" sound_refs final
proof
  fix r x
  show "sound_refs r \<Longrightarrow> sound_refs (perform r x)"
    using path_keeps [OF perform_path, of r x] by (simp add: sound_refs_def)
  show "final r \<subseteq> final (perform r x)"
    using path_keeps [OF perform_path, of r x] by simp
qed

lemma new_sound_refs: "sound_refs (new_billing_repo plans)"
  by (simp add: sound_refs_def waits_ok_def refs_ok_def waiting_eq new_billing_repo_def)

section \<open>One open interval per deployment\<close>

definition open_count :: "string \<Rightarrow> billing_repo \<Rightarrow> nat" where
  "open_count d r = length (filter (is_open d) (br_intervals r))"

definition one_open :: "billing_repo \<Rightarrow> bool" where
  "one_open r = (\<forall>d. open_count d r \<le> 1)"

lemma filter_first: "(\<And>x. \<not> p (f x)) \<Longrightarrow> length (filter p (map_first p f xs)) = length (filter p xs) - 1"
  by (induction xs) auto

lemma open_count_open:
  "open_count e (snd (openInterval c u d p l t r)) = open_count e r + (if e = d then 1 else 0)"
  by (simp add: open_count_def openInterval_def Let_def is_open_def)

lemma open_count_none: "getOpenInterval d r = None \<longleftrightarrow> open_count d r = 0"
  by (auto simp: getOpenInterval_def open_count_def find_None_iff filter_empty_conv)

lemma open_count_close:
  "open_count e (snd (closeInterval d t r)) = open_count e r - (if e = d then 1 else 0)"
proof (cases "getOpenInterval d r")
  case None
  then show ?thesis using open_count_none [of d r] by (simp add: closeInterval_def)
next
  case (Some i)
  have "length (filter (is_open e) (map_first (is_open d) (iv_stopped_update (\<lambda>_. Some t)) (rev (br_intervals r))))
      = length (filter (is_open e) (rev (br_intervals r))) - (if e = d then 1 else 0)"
  proof (cases "e = d")
    case True
    then show ?thesis by (simp add: filter_first is_open_def)
  next
    case False
    then show ?thesis by (subst filter_map_first) (auto simp: is_open_def)
  qed
  then show ?thesis by (simp add: closeInterval_def Some open_count_def flip: rev_filter)
qed

lemma one_open_same: "br_intervals r' = br_intervals r \<Longrightarrow> one_open r \<Longrightarrow> one_open r'"
  by (simp add: one_open_def open_count_def)

lemma reopen_open: "one_open r \<Longrightarrow> one_open (reopen_intervals t u p is r)"
proof (induction "is" arbitrary: r)
  case (Cons i js)
  have "one_open (snd (openInterval t u (iv_deployment i) p (iv_limits i) t (snd (closeInterval (iv_deployment i) t r))))"
    using Cons.prems by (auto simp: one_open_def open_count_open open_count_close)
  then show ?case using Cons.IH by (simp add: split_beta)
qed simp

lemma runtime_open:
  "one_open r \<Longrightarrow> one_open (handleDeploymentCreated d u l r)"
  "one_open r \<Longrightarrow> one_open (snd (handleServerStopped t d r))"
  "one_open r \<Longrightarrow> one_open (snd (handleServerStarted t d r))"
  "one_open r \<Longrightarrow> one_open (snd (changePlan t u p r))"
proof -
  show "one_open r \<Longrightarrow> one_open (handleDeploymentCreated d u l r)"
    by (erule one_open_same [rotated]) (simp add: handleDeploymentCreated_def frame_simps)
  show "one_open r \<Longrightarrow> one_open (snd (handleServerStopped t d r))"
    by (auto simp: handleServerStopped_def one_open_def open_count_close)
  show "one_open r \<Longrightarrow> one_open (snd (changePlan t u p r))"
    by (auto simp: changePlan_def Let_def frame_simps split: option.split
        intro!: reopen_open one_open_same [of "setUserPlan _ _ r" r])
  assume r: "one_open r"
  have "one_open (snd (deploymentFor d r))"
    using r by (rule one_open_same [rotated]) (auto simp: deploymentFor_def frame_simps Let_def split: option.split)
  then show "one_open (snd (handleServerStarted t d r))"
    using open_count_none [of d "snd (deploymentFor d r)"]
    by (auto simp: handleServerStarted_def Let_def split_beta one_open_def open_count_open split: option.split)
qed

lemma money_intervals [frame_simps]:
  "br_intervals (snd (handlePaymentConfirmed ref a r)) = br_intervals r"
  "br_intervals (snd (handlePaymentFailed ref why r)) = br_intervals r"
  "br_intervals (snd (snd (requestTopUp t publish u x cur email r))) = br_intervals r"
  "br_intervals (snd (expire_entries es r)) = br_intervals r"
  "br_intervals (store_of (bill_users c rate per us r)) = br_intervals r"
  "br_intervals (snd (createPlan body r)) = br_intervals r"
  "br_intervals (snd (updatePlan i body r)) = br_intervals r"
  "br_intervals (snd (adjustCredit t u amount reason by_whom r)) = br_intervals r"
proof -
  show "br_intervals (snd (expire_entries es r)) = br_intervals r"
    by (induction es arbitrary: r) (simp_all add: split_beta frame_simps)
  show "br_intervals (store_of (bill_users c rate per us r)) = br_intervals r"
    by (induction us arbitrary: r) (simp_all add: bill_users_Cons frame_simps)
qed (simp_all add: handlePaymentConfirmed_def handlePaymentFailed_def requestTopUp_def createPlan_def updatePlan_def
  adjustCredit_def Let_def split_beta frame_simps split: option.split sum.split)

lemma perform_open: "one_open r \<Longrightarrow> one_open (perform r x)"
proof (cases x)
  case (Pair t oper)
  assume r: "one_open r"
  have c: "one_open (consume t e r)" for e
    using r by (cases e) (simp_all add: runtime_open one_open_same [OF money_intervals(1)] one_open_same [OF money_intervals(2)])
  have a: "one_open (snd (getStanding t h u r))" "one_open (store_of (warnLowCredit t publish h r))"
    "one_open (store_of (settle t h r))" "one_open (store_of (listAccounts t r))" for h u publish
    by (rule accounts_keep [where P = one_open], rule r; erule one_open_same [rotated]; simp add: frame_simps)+
  show ?thesis unfolding Pair using r
    by (cases oper) (simp_all add: c a runtime_open expireStaleTopUps_def cycle_tick_def runBillingCycle_def
        one_open_same [OF money_intervals(3)] one_open_same [OF money_intervals(4)] one_open_same [OF money_intervals(5)]
        one_open_same [OF money_intervals(6)] one_open_same [OF money_intervals(7)] one_open_same [OF money_intervals(8)])
qed

interpretation meters: machine perform "\<lambda>_. True" one_open
  by unfold_locales (rule perform_open)

section \<open>Properties\<close>

text \<open>
  C5: A top-up that was confirmed or failed stays so: whatever the service does later, the entry's
  status does not change again, so a confirmation is credited at most once and a failed top-up
  is never credited.
\<close>

theorem settled_stays:
  assumes "ledger_status_of (foldl perform (new_billing_repo plans) before) i = Some st"
    and "st = Confirmed \<or> st = Failed"
  shows "ledger_status_of (foldl perform (new_billing_repo plans) (before @ later)) i = Some st"
proof -
  have "sound_refs (foldl perform (new_billing_repo plans) before)"
    using refs.run_inv [OF new_sound_refs] by simp
  then have "final (foldl perform (new_billing_repo plans) before) \<subseteq> final (foldl perform (new_billing_repo plans) (before @ later))"
    using refs.run_level by simp
  then show ?thesis using assms by (auto simp: final_def)
qed

lemma settled_stays_witness:
  "ledger_status_of (foldl perform (new_billing_repo [])
     ([(0, RequestTopUp (\<lambda>_. True) ''u'' 10 None None), (1, Consume (PaymentConfirmed ''topup-u-0'' None))]
      @ [(2, Consume (PaymentFailed ''topup-u-0'' None)), (3, ExpireTopUps 0)])) ''1'' = Some Confirmed"
  by (rule settled_stays) (code_simp, simp)

text \<open>
  References and limits. In every state the service reaches, at most three top-ups of an account
  wait for FinVault, and a reference names one top-up: looking a top-up's reference up finds that
  very entry.
\<close>

theorem references_unique:
  "waiting_topups u (foldl perform (new_billing_repo plans) ops) \<le> 3
   \<and> (e \<in> set (br_ledger (foldl perform (new_billing_repo plans) ops)) \<and> le_type e = Topup \<longrightarrow>
        getLedgerByReference (le_reference e) (foldl perform (new_billing_repo plans) ops) = Some e)"
proof -
  let ?r = "foldl perform (new_billing_repo plans) ops"
  have ok: "waits_ok ?r" "refs_ok ?r"
    using refs.run_inv [OF new_sound_refs, of ops plans] by (simp_all add: sound_refs_def)
  have "find (\<lambda>x. le_reference x = le_reference e) es = Some e"
    if "distinct (filter tagged (map le_reference es))" "e \<in> set es" "tagged (le_reference e)" for es
    using that by (induction es) (auto split: if_splits)
  moreover have "tagged (le_reference e)" if "e \<in> set (br_ledger ?r)" "le_type e = Topup"
    using ok(2) that by (auto simp: refs_ok_def ref_ok_def split: if_splits)
  ultimately show ?thesis using ok by (auto simp: waits_ok_def max_pending_topups_def refs_ok_def getLedgerByReference_def)
qed

lemma references_unique_witness:
  "let r = foldl perform (new_billing_repo []) [(0, RequestTopUp (\<lambda>_. True) ''u'' 10 None None), (1, RequestTopUp (\<lambda>_. True) ''u'' 5 None None)]
   in getLedgerByReference ''topup-u-2'' r = Some (br_ledger r ! 1)"
proof -
  let ?ops = "[(0, RequestTopUp (\<lambda>_. True) ''u'' 10 None None), (1, RequestTopUp (\<lambda>_. True) ''u'' 5 None None)]"
  let ?r = "foldl perform (new_billing_repo []) ?ops"
  have "length (br_ledger ?r) = 2" "le_reference (br_ledger ?r ! 1) = ''topup-u-2''"
    "le_type (br_ledger ?r ! 1) = Topup" by code_simp+
  then show ?thesis unfolding Let_def
    using references_unique [of "''u''" "[]" ?ops "br_ledger ?r ! 1"] nth_mem [of 1 "br_ledger ?r"] by simp
qed

text \<open>
  C6: In every state the service reaches, a deployment has at most one open runtime interval, however
  often its start is reported and whatever plan switches happen in between: no hour is metered twice.
\<close>

theorem one_open_interval:
  "length [i \<leftarrow> br_intervals (foldl perform (new_billing_repo plans) ops). iv_deployment i = d \<and> iv_stopped i = None] \<le> 1"
proof -
  have "one_open (new_billing_repo plans)" by (simp add: one_open_def open_count_def new_billing_repo_def)
  from meters.run_inv [OF this, of ops] show ?thesis by (simp add: one_open_def open_count_def is_open_def [abs_def])
qed

end
