(* ===== verification/Billing_Checks.thy ===== *)
theory Billing_Checks
  imports Billing_Invariants
begin

text \<open>
  What the single operations of the billing service promise: a confirmation delivered twice
  changes nothing the second time, exactly the stale top-ups expire, exactly the accounts that
  may not run are suspended, a warning is sent once per dip, a plan switch meters every
  millisecond once, and the default plan is always on offer.
\<close>

section \<open>Confirmations\<close>

lemma find_ref_moved:
  "map_option (\<lambda>e. (le_id e, le_type e, le_amount e, le_user e))
      (find (\<lambda>e. le_reference e = ref) (map_first (\<lambda>x. le_id x = i) (move_entry to why) es)) =
   map_option (\<lambda>e. (le_id e, le_type e, le_amount e, le_user e)) (find (\<lambda>e. le_reference e = ref) es)"
  by (induction es) auto

lemma confirm_unmoved:
  assumes "getLedgerByReference ref r = Some e" "\<not> fst (transitionLedgerStatus (le_id e) [Pending, Expired] Confirmed None r)"
  shows "snd (handlePaymentConfirmed ref a r) = r"
proof -
  have "snd (transitionLedgerStatus (le_id e) [Pending, Expired] Confirmed None r) = r"
    using assms(2) by (auto simp: transitionLedgerStatus_def split: option.split if_splits)
  then show ?thesis using assms by (simp add: handlePaymentConfirmed_def Let_def split_beta)
qed

text \<open>
  C4: A confirmation delivered twice - an at-least-once broker may do that - leaves the store exactly
  as the first delivery left it, whatever the store and the payload.
\<close>

theorem confirm_idempotent:
  "snd (handlePaymentConfirmed ref a (snd (handlePaymentConfirmed ref a r))) = snd (handlePaymentConfirmed ref a r)"
proof (cases "getLedgerByReference ref r")
  case None
  then show ?thesis by (simp add: handlePaymentConfirmed_def)
next
  case (Some e)
  let ?tr = "transitionLedgerStatus (le_id e) [Pending, Expired] Confirmed None r"
  let ?r = "snd (handlePaymentConfirmed ref a r)"
  show ?thesis
  proof (cases "le_type e = Topup \<and> fst ?tr \<and> \<not> (case a of None \<Rightarrow> False | Some a \<Rightarrow> \<not> sameAmount a (le_amount e))")
    case False
    have "?r = r"
    proof (cases "fst ?tr")
      case True
      with False show ?thesis by (auto simp: handlePaymentConfirmed_def Some)
    qed (rule confirm_unmoved [OF Some])
    then show ?thesis by simp
  next
    case True
    then have l: "br_ledger ?r = br_ledger (snd ?tr)"
      using Some by (simp add: handlePaymentConfirmed_def Let_def split_beta frame_simps)
    have "\<exists>e'. find (\<lambda>x. le_id x = le_id e) (br_ledger r) = Some e'"
      using True by (auto simp: transitionLedgerStatus_def split: option.splits)
    then have m: "br_ledger (snd ?tr) = map_first (\<lambda>x. le_id x = le_id e) (move_entry Confirmed None) (br_ledger r)"
      using True by (auto simp: transitionLedgerStatus_def split: if_splits)
    obtain e' where e': "getLedgerByReference ref ?r = Some e'" "le_id e' = le_id e"
      using find_ref_moved [of ref "le_id e" Confirmed None "br_ledger r"] Some
      by (auto simp: getLedgerByReference_def l m)
    have "ledger_status_of ?r = ledger_status_of (snd ?tr)" by (simp add: ledger_status_of_def fun_eq_iff l)
    then have "\<not> fst (transitionLedgerStatus (le_id e') [Pending, Expired] Confirmed None ?r)"
      using True ledger.move_twice [of Confirmed "[Pending, Expired]" "le_id e" None r None]
      by (simp add: e' ledger.move_ok)
    then show ?thesis using confirm_unmoved [OF e'(1)] by simp
  qed
qed

section \<open>Expiry\<close>

definition stale :: "time \<Rightarrow> ledger_entry \<Rightarrow> bool" where
  "stale cutoff e = (le_type e = Topup \<and> le_status e = Pending \<and> le_created e < cutoff)"

lemma expire_entries_map:
  "ids_ok r \<Longrightarrow> distinct es \<Longrightarrow> set es \<subseteq> set (br_ledger r) \<Longrightarrow> \<forall>e \<in> set es. le_status e = Pending \<Longrightarrow>
     br_ledger (snd (expire_entries es r)) = map (\<lambda>e. if e \<in> set es then e\<lparr>le_status := Expired\<rparr> else e) (br_ledger r)
     \<and> fst (expire_entries es r) = map (\<lambda>e. e\<lparr>le_status := Expired\<rparr>) es"
proof (induction es arbitrary: r)
  case (Cons e es)
  let ?f = "\<lambda>x. if le_id x = le_id e then x\<lparr>le_status := Expired\<rparr> else x"
  define tr where "tr = transitionLedgerStatus (le_id e) [Pending] Expired None r"
  have e: "e \<in> set (br_ledger r)" "le_status e = Pending" using Cons.prems by auto
  have d: "distinct (map le_id (br_ledger r))" using Cons.prems(1) by (simp add: ids_ok_def)
  have same: "x = e" if "x \<in> set (br_ledger r)" "le_id x = le_id e" for x
    using d that e(1) by (auto simp: distinct_map inj_on_def)
  have m: "move_entry Expired None x = x\<lparr>le_status := Expired\<rparr>" for x by (simp add: move_entry_def)
  have tr: "fst tr" "br_ledger (snd tr) = map ?f (br_ledger r)" "br_drawn (snd tr) = br_drawn r"
    using find_by_id [OF Cons.prems(1) e(1)] e(2)
    by (simp_all add: tr_def transitionLedgerStatus_def map_first_key [OF d] m)
  have "map le_id (br_ledger (snd tr)) = map le_id (br_ledger r)" unfolding tr by simp
  then have ids: "ids_ok (snd tr)" using Cons.prems(1) unfolding ids_ok_def tr(3)
    by (metis (no_types, lifting) image_iff list.set_map)
  have "x \<in> set (br_ledger (snd tr))" if "x \<in> set es" for x
  proof -
    have x: "x \<in> set (br_ledger r)" "x \<noteq> e" using Cons.prems(2,3) that by auto
    then have "le_id x \<noteq> le_id e" using same by blast
    then have "x = ?f x" by simp
    then show ?thesis unfolding tr set_map using x(1) by (rule image_eqI)
  qed
  then have IH: "br_ledger (snd (expire_entries es (snd tr))) =
      map (\<lambda>e. if e \<in> set es then e\<lparr>le_status := Expired\<rparr> else e) (br_ledger (snd tr))"
    "fst (expire_entries es (snd tr)) = map (\<lambda>e. e\<lparr>le_status := Expired\<rparr>) es"
    using Cons.IH [OF ids] Cons.prems by auto
  have "e\<lparr>le_status := Expired\<rparr> \<notin> set es" using Cons.prems(4) by fastforce
  then have "map (\<lambda>x. if x \<in> set es then x\<lparr>le_status := Expired\<rparr> else x) (map ?f (br_ledger r)) =
      map (\<lambda>x. if x \<in> set (e # es) then x\<lparr>le_status := Expired\<rparr> else x) (br_ledger r)"
    using same Cons.prems(2) by auto
  then show ?case using IH tr by (simp add: split_beta flip: tr_def)
qed simp

text \<open>
  The expiry of stale top-ups changes the status of exactly the top-ups that are pending and were
  asked for before the cutoff, to expired; every other entry and every balance stays, and the answer
  lists exactly the expired ones. Afterwards none is left to expire.
\<close>

theorem expire_exact:
  assumes "ids_ok r"
  shows "br_ledger (snd (expireStaleTopUps t ms r)) =
      map (\<lambda>e. if stale (t - ms) e then e\<lparr>le_status := Expired\<rparr> else e) (br_ledger r)
    \<and> fst (expireStaleTopUps t ms r) = map (\<lambda>e. e\<lparr>le_status := Expired\<rparr>) [e \<leftarrow> br_ledger r. stale (t - ms) e]
    \<and> balance_of (snd (expireStaleTopUps t ms r)) = balance_of r
    \<and> listPendingTopUps (t - ms) (snd (expireStaleTopUps t ms r)) = []"
proof -
  let ?es = "listPendingTopUps (t - ms) r"
  have es: "?es = [e \<leftarrow> br_ledger r. stale (t - ms) e]" by (simp add: listPendingTopUps_def stale_def)
  have "distinct (br_ledger r)" using assms by (auto simp: ids_ok_def distinct_map)
  then have pe: "distinct ?es" "set ?es \<subseteq> set (br_ledger r)" "\<forall>e \<in> set ?es. le_status e = Pending"
    by (auto simp: es stale_def)
  have m: "br_ledger (snd (expireStaleTopUps t ms r)) =
      map (\<lambda>e. if e \<in> set ?es then e\<lparr>le_status := Expired\<rparr> else e) (br_ledger r)"
    "fst (expireStaleTopUps t ms r) = map (\<lambda>e. e\<lparr>le_status := Expired\<rparr>) ?es"
    unfolding expireStaleTopUps_def by (use expire_entries_map [OF assms pe] in simp_all)
  have b: "balance_of (snd (expire_entries es r)) = balance_of r" for es
    by (induction es arbitrary: r) (simp_all add: split_beta)
  have l: "br_ledger (snd (expireStaleTopUps t ms r)) =
      map (\<lambda>e. if stale (t - ms) e then e\<lparr>le_status := Expired\<rparr> else e) (br_ledger r)"
    unfolding m es by auto
  have "listPendingTopUps (t - ms) (snd (expireStaleTopUps t ms r)) = []"
    unfolding listPendingTopUps_def l by (auto simp: filter_empty_conv stale_def)
  then show ?thesis using l m(2) b unfolding es expireStaleTopUps_def by blast
qed

lemma expire_exact_witness:
  "map le_status (br_ledger (snd (expireStaleTopUps 5000 1000 (foldl perform (new_billing_repo [])
     [(0, RequestTopUp (\<lambda>_. True) ''u'' 10 None None), (4500, RequestTopUp (\<lambda>_. True) ''u'' 5 None None)]))))
   = [Expired, Pending]"
proof -
  let ?r = "foldl perform (new_billing_repo []) [(0, RequestTopUp (\<lambda>_. True) ''u'' 10 None None),
    (4500, RequestTopUp (\<lambda>_. True) ''u'' 5 None None)]"
  have i: "map le_id (br_ledger ?r) = [uuid 1, uuid 3]" "br_drawn ?r = 4"
    "map (stale (5000 - 1000)) (br_ledger ?r) = [True, False]" "map le_status (br_ledger ?r) = [Pending, Pending]"
    by code_simp+
  then obtain a b where ab: "br_ledger ?r = [a, b]" by (auto simp: map_eq_Cons_conv)
  have f: "le_id a = uuid 1" "le_id b = uuid 3" "stale (5000 - 1000) a" "\<not> stale (5000 - 1000) b" "le_status b = Pending"
    using i(1,3,4) unfolding ab by simp_all
  have "ids_ok ?r" unfolding ids_ok_def ab i(2) by (simp add: f)
  from expire_exact [OF this, of 5000 1000] show ?thesis unfolding ab using f by simp
qed

section \<open>Plan switches\<close>

text \<open>The milliseconds metered for a user up to \<open>now\<close>.\<close>

definition metered :: "time \<Rightarrow> string \<Rightarrow> billing_repo \<Rightarrow> int" where
  "metered now u r = (\<Sum>i\<leftarrow>listIntervals u r. nullish (iv_stopped i) now - iv_started i)"

lemma metered_alt: "metered now u r = (\<Sum>i\<leftarrow>br_intervals r. if iv_user i = u then nullish (iv_stopped i) now - iv_started i else 0)"
  unfolding metered_def listIntervals_def by (rule sum_list_map_filter')

lemma metered_close: "metered t u (snd (closeInterval d t r)) = metered t u r"
proof (cases "getOpenInterval d r")
  case None
  then show ?thesis by (simp add: closeInterval_def)
next
  case (Some i)
  then have i: "iv_stopped i = None" by (auto simp: getOpenInterval_def is_open_def dest: find_Some_mem)
  let ?g = "\<lambda>i. if iv_user i = u then nullish (iv_stopped i) t - iv_started i else 0"
  have "sum_list (map ?g (map_first (is_open d) (iv_stopped_update (\<lambda>_. Some t)) (rev (br_intervals r)))) =
      sum_list (map ?g (rev (br_intervals r)))"
    using Some i by (subst sum_list_map_first) (auto simp: getOpenInterval_def)
  then show ?thesis
    by (simp add: metered_alt closeInterval_def Some sum_list_rev flip: rev_map)
qed

lemma metered_open: "metered t u (snd (openInterval c v d p l t r)) = metered t u r"
  by (simp add: metered_alt openInterval_def Let_def)

lemma metered_reopen: "metered t u (reopen_intervals t v p is r) = metered t u r"
  by (induction "is" arbitrary: r) (simp_all add: split_beta metered_close metered_open)

text \<open>Where one server has one open interval, closing it by its server changes just that interval.\<close>

lemma map_first_unique:
  "length (filter p xs) \<le> 1 \<Longrightarrow> map_first p f xs = map (\<lambda>x. if p x then f x else x) xs"
proof (induction xs)
  case (Cons x xs)
  show ?case
  proof (cases "p x")
    case True
    then have "filter p xs = []" using Cons.prems by simp
    then have "map (\<lambda>x. if p x then f x else x) xs = xs" by (intro map_idI) (auto simp: filter_empty_conv)
    then show ?thesis using True by simp
  qed (use Cons in simp)
qed simp

definition ended :: "time \<Rightarrow> (interval \<Rightarrow> bool) \<Rightarrow> interval list \<Rightarrow> interval list" where
  "ended t p is = map (\<lambda>i. if p i \<and> iv_stopped i = None then i\<lparr>iv_stopped := Some t\<rparr> else i) is"

lemma close_exact:
  assumes "one_open r"
  shows "br_intervals (snd (closeInterval d t r)) = ended t (\<lambda>i. iv_deployment i = d) (br_intervals r)"
proof -
  have u: "length (filter (is_open d) (br_intervals r)) \<le> 1" using assms by (simp add: one_open_def open_count_def)
  show ?thesis
  proof (cases "getOpenInterval d r")
    case None
    then have "\<not> is_open d i" if "i \<in> set (br_intervals r)" for i
      using that by (auto simp: getOpenInterval_def find_None_iff)
    then show ?thesis using None by (auto simp: closeInterval_def ended_def is_open_def intro!: map_idI [symmetric])
  next
    case (Some i)
    have "length (filter (is_open d) (rev (br_intervals r))) \<le> 1" using u by (simp flip: rev_filter)
    then show ?thesis
      by (simp add: closeInterval_def Some map_first_unique ended_def is_open_def rev_map)
  qed
qed

text \<open>The interval that takes the place of a running one.\<close>

definition renewed :: "time \<Rightarrow> string \<Rightarrow> string \<Rightarrow> nat \<times> interval \<Rightarrow> interval" where
  "renewed t u plan ni =
     \<lparr>iv_id = uuid (fst ni), iv_user = u, iv_deployment = iv_deployment (snd ni), iv_plan = plan,
      iv_limits = iv_limits (snd ni), iv_started = t, iv_stopped = None, iv_created = t\<rparr>"

lemma ended_ended: "ended t p (ended t q is) = ended t (\<lambda>i. p i \<or> q i) is"
  if "\<And>i. p (i\<lparr>iv_stopped := Some t\<rparr>) = p i" "\<And>i. q (i\<lparr>iv_stopped := Some t\<rparr>) = q i"
  using that by (auto simp: ended_def)

lemma reopen_exact:
  assumes "one_open r" "distinct (map iv_deployment is)"
  shows "br_intervals (reopen_intervals t u p is r) =
      ended t (\<lambda>i. iv_deployment i \<in> iv_deployment ` set is) (br_intervals r) @ map (renewed t u p) (enumerate (br_drawn r) is)
    \<and> br_userPlans (reopen_intervals t u p is r) = br_userPlans r"
  using assms
proof (induction "is" arbitrary: r)
  case Nil
  then show ?case by (simp add: ended_def)
next
  case (Cons j js)
  let ?c = "snd (closeInterval (iv_deployment j) t r)"
  let ?r = "snd (openInterval t u (iv_deployment j) p (iv_limits j) t ?c)"
  have o: "one_open ?r" using Cons.prems(1) by (auto simp: one_open_def open_count_open open_count_close)
  have c: "br_intervals ?c = ended t (\<lambda>i. iv_deployment i = iv_deployment j) (br_intervals r)" "br_drawn ?c = br_drawn r"
      "br_userPlans ?c = br_userPlans r"
    using close_exact [OF Cons.prems(1)] by (simp_all add: closeInterval_def split: option.split)
  have r: "br_intervals ?r = br_intervals ?c @ [renewed t u p (br_drawn r, j)]" "br_drawn ?r = Suc (br_drawn r)"
      "br_userPlans ?r = br_userPlans r"
    by (simp_all add: openInterval_def Let_def renewed_def c)
  have new: "ended t (\<lambda>i. iv_deployment i \<in> iv_deployment ` set js) [renewed t u p (br_drawn r, j)] = [renewed t u p (br_drawn r, j)]"
    using Cons.prems(2) by (auto simp: ended_def renewed_def)
  have app: "ended t q (xs @ ys) = ended t q xs @ ended t q ys" for q xs ys by (simp add: ended_def)
  have "ended t (\<lambda>i. iv_deployment i \<in> iv_deployment ` set js) (br_intervals ?c) =
      ended t (\<lambda>i. iv_deployment i \<in> iv_deployment ` set (j # js)) (br_intervals r)"
    unfolding c by (subst ended_ended) (auto intro: arg_cong [where f = "\<lambda>q. ended t q (br_intervals r)"])
  then show ?case
    using Cons.IH [OF o] Cons.prems(2) new by (simp add: split_beta r app)
qed

lemma open_distinct:
  assumes "one_open r" shows "distinct (map iv_deployment (filter (\<lambda>i. iv_stopped i = None) (br_intervals r)))"
proof -
  have "distinct (map iv_deployment xs)" if "\<forall>d. length (filter (\<lambda>i. iv_deployment i = d) xs) \<le> 1" for xs :: "interval list"
    using that
  proof (induction xs)
    case (Cons x xs)
    have "length (filter (\<lambda>i. iv_deployment i = iv_deployment x) (x # xs)) \<le> 1" using Cons.prems by blast
    then have "iv_deployment x \<notin> iv_deployment ` set xs" by (auto simp: filter_empty_conv)
    moreover have "\<forall>d. length (filter (\<lambda>i. iv_deployment i = d) xs) \<le> 1"
    proof
      fix d show "length (filter (\<lambda>i. iv_deployment i = d) xs) \<le> 1" using Cons.prems [rule_format, of d] by (simp split: if_splits)
    qed
    ultimately show ?case using Cons.IH by simp
  qed simp
  moreover have "filter (\<lambda>i. iv_deployment i = d) (filter (\<lambda>i. iv_stopped i = None) (br_intervals r)) = filter (is_open d) (br_intervals r)" for d
    by (simp add: is_open_def [abs_def] conj_commute)
  then have "\<forall>d. length (filter (\<lambda>i. iv_deployment i = d) (filter (\<lambda>i. iv_stopped i = None) (br_intervals r))) \<le> 1"
    using assms by (simp add: one_open_def open_count_def)
  ultimately show ?thesis by blast
qed

definition running_of :: "string \<Rightarrow> billing_repo \<Rightarrow> interval list" where
  "running_of u r = filter (\<lambda>i. iv_user i = u \<and> iv_stopped i = None) (br_intervals r)"

text \<open>
  C7: Switching plans moves the account and meters every millisecond once. A refused switch, and one
  to the plan the account has, change nothing. An accepted one records the new plan for the account
  and for no other; it ends every running interval of the account at the switch, leaves all others as
  they are, and starts, for each server that ran and in the same order, one interval at that moment
  under the new plan with the same limits. So the running time metered for each account up to the
  switch is unchanged.
\<close>

theorem switch_meters_once:
  assumes "one_open r"
  shows "metered t v (snd (changePlan t u p r)) = metered t v r
    \<and> (case changePlan t u p r of
         (Inl e, r') \<Rightarrow> r' = r
       | (Inr target, r') \<Rightarrow>
           getPlan p r = Some target
           \<and> (if plan_id target = plan_id (getUserPlan u r) then r' = r
              else br_userPlans r' = AList.update u (plan_id target) (br_userPlans r)
                \<and> br_intervals r' = ended t (\<lambda>i. iv_user i = u) (br_intervals r)
                    @ map (renewed t u (plan_id target)) (enumerate (br_drawn r) (running_of u r))))"
proof -
  have s: "metered t v (setUserPlan u x r) = metered t v r" for x by (simp add: metered_alt frame_simps)
  have m: "metered t v (snd (changePlan t u p r)) = metered t v r"
    by (auto simp: changePlan_def Let_def metered_reopen s split: option.split)
  have run: "running_of u r = filter (\<lambda>i. iv_user i = u) (filter (\<lambda>i. iv_stopped i = None) (br_intervals r))"
    by (simp add: running_of_def conj_commute)
  have d: "distinct (map iv_deployment (running_of u r))"
    unfolding run using open_distinct [OF assms] by (rule distinct_map_filter)
  have same: "ended t (\<lambda>i. iv_deployment i \<in> iv_deployment ` set (running_of u r)) (br_intervals r) = ended t (\<lambda>i. iv_user i = u) (br_intervals r)"
  proof -
    have "(iv_deployment i \<in> iv_deployment ` set (running_of u r)) = (iv_user i = u)"
      if i: "i \<in> set (br_intervals r)" "iv_stopped i = None" for i
    proof
      assume "iv_deployment i \<in> iv_deployment ` set (running_of u r)"
      then obtain k where k: "k \<in> set (br_intervals r)" "iv_stopped k = None" "iv_user k = u" "iv_deployment k = iv_deployment i"
        by (auto simp: running_of_def)
      then have "k = i" using open_distinct [OF assms] i by (auto simp: distinct_map dest: inj_onD)
      then show "iv_user i = u" using k(3) by simp
    qed (use i in \<open>auto simp: running_of_def\<close>)
    then show ?thesis by (auto simp: ended_def)
  qed
  have r: "br_intervals (reopen_intervals t u x (running_of u r) (setUserPlan u x r)) = ended t (\<lambda>i. iv_user i = u) (br_intervals r)
        @ map (renewed t u x) (enumerate (br_drawn r) (running_of u r))
      \<and> br_userPlans (reopen_intervals t u x (running_of u r) (setUserPlan u x r)) = AList.update u x (br_userPlans r)" for x
  proof -
    have "one_open (setUserPlan u x r)" using assms by (rule one_open_same [rotated]) (simp add: frame_simps)
    from reopen_exact [OF this d, of t u x] show ?thesis by (simp add: setUserPlan_def same)
  qed
  have l: "[i \<leftarrow> listIntervals u (setUserPlan u x r). iv_stopped i = None] = running_of u r" for x
    by (simp add: listIntervals_def setUserPlan_def running_of_def conj_commute)
  show ?thesis
    using m r by (auto simp: changePlan_def Let_def l split: option.splits)
qed

lemma switch_meters_once_witness:
  "let cheap = default_plan\<lparr>plan_id := ''cheap''\<rparr>;
       r = foldl perform (new_billing_repo [default_plan, cheap])
         [(0, Consume (DeploymentCreated ''d'' ''u'' None)), (10, Consume (ServerStarted ''d''))];
       r' = snd (changePlan 50 ''u'' ''cheap'' r)
   in metered 50 ''u'' r' = 40
     \<and> map (\<lambda>i. (iv_plan i, iv_started i, iv_stopped i)) (br_intervals r') = [(plan_id default_plan, 10, Some 50), (''cheap'', 50, None)]"
proof -
  let ?cheap = "default_plan\<lparr>plan_id := ''cheap''\<rparr>"
  let ?r = "foldl perform (new_billing_repo [default_plan, ?cheap])
    [(0, Consume (DeploymentCreated ''d'' ''u'' None)), (10, Consume (ServerStarted ''d''))]"
  have "one_open (new_billing_repo [default_plan, ?cheap])"
    by (simp add: one_open_def open_count_def new_billing_repo_def)
  then have o: "one_open ?r" by (intro meters.run_inv) simp_all
  have e: "metered 50 ''u'' ?r = 40
      \<and> map (\<lambda>i. (iv_plan i, iv_started i, iv_stopped i)) (br_intervals (snd (changePlan 50 ''u'' ''cheap'' ?r)))
         = [(plan_id default_plan, 10, Some 50), (''cheap'', 50, None)]"
    by code_simp
  have "metered 50 ''u'' (snd (changePlan 50 ''u'' ''cheap'' ?r)) = metered 50 ''u'' ?r"
    using switch_meters_once [OF o, of 50 "''u''" "''u''" "''cheap''"] by (rule conjunct1)
  then show ?thesis unfolding Let_def using e by simp
qed

section \<open>Suspensions and warnings\<close>

lemma getWallet_after:
  "fst (getWallet v (snd (getWallet u r))) = fst (getWallet v r)"
  by (auto simp: getWallet_def Let_def split: option.split)

lemma standing_after:
  "fst (getStanding t h v (snd (getWallet u r))) = fst (getStanding t h v r)"
  "listIntervals v (snd (getWallet u r)) = listIntervals v r"
proof -
  let ?r = "snd (getWallet u r)"
  have f: "getUserPlan v ?r = getUserPlan v r" "listIntervals v ?r = listIntervals v r"
    by (rule reads_frame; simp add: frame_simps)+
  then show "listIntervals v ?r = listIntervals v r" by simp
  have "listCycles v ?r = listCycles v r" "listPlans ?r = listPlans r" "br_cycles (snd (getWallet v ?r)) = br_cycles r"
    by (simp_all add: listCycles_def listPlans_def frame_simps)
  then show "fst (getStanding t h v ?r) = fst (getStanding t h v r)"
    by (simp add: getStanding_def Let_def split_beta f getWallet_after listCycles_def listPlans_def frame_simps)
qed

definition broke :: "time \<Rightarrow> rat \<Rightarrow> billing_repo \<Rightarrow> string \<Rightarrow> bool" where
  "broke t h r u = (running_ids (listIntervals u r) \<noteq> [] \<and> \<not> st_canRun (fst (getStanding t h u r)))"

lemma settle_user_exact:
  "fst (settle_user t h u r) = (if broke t h r u then [(u, running_ids (listIntervals u r))] else [])"
  "fst (snd (settle_user t h u r)) = (if broke t h r u then [SuspendMsg u (running_ids (listIntervals u r))] else [])"
  by (auto simp: settle_user_def Let_def split_beta broke_def)

lemma settle_users_exact:
  "fst (for_users (settle_user t h) us r) = map (\<lambda>u. (u, running_ids (listIntervals u r))) [u \<leftarrow> us. broke t h r u]
   \<and> fst (snd (for_users (settle_user t h) us r)) = map (\<lambda>u. SuspendMsg u (running_ids (listIntervals u r))) [u \<leftarrow> us. broke t h r u]"
proof (induction us arbitrary: r)
  case (Cons u us)
  have "listIntervals v (store_of (settle_user t h u r)) = listIntervals v r"
    "broke t h (store_of (settle_user t h u r)) v = broke t h r v" for v
    using settle_user_store [of t h u r] by (auto simp: standing_after broke_def)
  then show ?case
    using Cons.IH [of "store_of (settle_user t h u r)"]
    by (simp add: for_users.simps(2) split_beta settle_user_exact)
qed simp

text \<open>
  Settling suspends exactly the accounts that have a server running and may not run, once each, with
  every server they have running, and publishes exactly those suspensions; no money moves and no
  interval changes.
\<close>

theorem settle_exact:
  "fst (settle t h r) = map (\<lambda>u. (u, running_ids (listIntervals u r))) [u \<leftarrow> listBillableUserIds r. broke t h r u]
   \<and> fst (snd (settle t h r)) = map (\<lambda>u. SuspendMsg u (running_ids (listIntervals u r))) [u \<leftarrow> listBillableUserIds r. broke t h r u]
   \<and> balance_of (store_of (settle t h r)) = balance_of r \<and> br_ledger (store_of (settle t h r)) = br_ledger r
   \<and> br_intervals (store_of (settle t h r)) = br_intervals r"
proof -
  have "balance_of (store_of (settle t h r)) = balance_of r \<and> br_ledger (store_of (settle t h r)) = br_ledger r
      \<and> br_intervals (store_of (settle t h r)) = br_intervals r"
    by (rule accounts_keep(3)) (simp_all add: frame_simps)
  then show ?thesis using settle_users_exact [of t h "listBillableUserIds r" r] unfolding settle_def by blast
qed

text \<open>Whether an account would be warned now.\<close>

definition to_warn :: "time \<Rightarrow> rat \<Rightarrow> billing_repo \<Rightarrow> string \<Rightarrow> bool" where
  "to_warn t h r u = (has_running u r \<and> st_canRun (fst (getStanding t h u r))
     \<and> lowCreditStep (st_hoursLeft (fst (getStanding t h u r))) h (getLowCreditWarnedAt u r) = Warn)"

lemma warn_user_fst: "fst (warn_user t (\<lambda>_. True) h u r) = (if to_warn t h r u then [u] else [])"
proof -
  have w: "getLowCreditWarnedAt u (snd (getWallet u r)) = getLowCreditWarnedAt u r"
    by (simp add: getLowCreditWarnedAt_def frame_simps)
  show ?thesis
    by (auto simp: warn_user_def Let_def split_beta to_warn_def standing_store w lowCreditStep_def split: option.split)
qed

lemma warned_store:
  "store_of (warn_user t (\<lambda>_. True) h u r) =
     (if has_running u r then
        (if to_warn t h r u then setLowCreditWarnedAt u (Some t) (snd (getWallet u r))
         else if st_canRun (fst (getStanding t h u r))
           \<and> lowCreditStep (st_hoursLeft (fst (getStanding t h u r))) h (getLowCreditWarnedAt u r) = ClearWarning
         then setLowCreditWarnedAt u None (snd (getWallet u r)) else snd (getWallet u r))
      else r)"
proof -
  have w: "getLowCreditWarnedAt u (snd (getWallet u r)) = getLowCreditWarnedAt u r"
    by (simp add: getLowCreditWarnedAt_def frame_simps)
  show ?thesis
    by (auto simp: warn_user_def Let_def split_beta to_warn_def standing_store w lowCreditStep_def split: option.split)
qed

lemma getWallet_cong: "br_wallets r = br_wallets s \<Longrightarrow> fst (getWallet v r) = fst (getWallet v s)"
  by (simp add: getWallet_def Let_def split: option.split)

lemma warning_after:
  "getLowCreditWarnedAt v (setLowCreditWarnedAt u wt r) = (if v = u then wt else getLowCreditWarnedAt v r)"
  "fst (getStanding t h v (setLowCreditWarnedAt u wt r)) = fst (getStanding t h v r)"
  "has_running v (setLowCreditWarnedAt u wt r) = has_running v r"
proof -
  let ?r = "setLowCreditWarnedAt u wt r"
  show "getLowCreditWarnedAt v ?r = (if v = u then wt else getLowCreditWarnedAt v r)"
    by (auto simp: getLowCreditWarnedAt_def setLowCreditWarnedAt_def Let_def frame_simps split: option.split)
  have "br_wallets ?r = br_wallets (snd (getWallet u r))" by (simp add: setLowCreditWarnedAt_def Let_def)
  then have w: "fst (getWallet v ?r) = fst (getWallet v r)"
    using getWallet_cong [of ?r "snd (getWallet u r)" v] getWallet_after [of v u r] by simp
  have f: "getUserPlan v ?r = getUserPlan v r" "listIntervals v ?r = listIntervals v r"
    by (rule reads_frame; simp add: frame_simps)+
  then show "has_running v ?r = has_running v r" by (simp add: has_running_def)
  show "fst (getStanding t h v ?r) = fst (getStanding t h v r)"
    by (simp add: getStanding_def Let_def split_beta f w listCycles_def listPlans_def frame_simps)
qed

lemma wallet_after [simp]:
  "has_running v (snd (getWallet u r)) = has_running v r"
  "getLowCreditWarnedAt v (snd (getWallet u r)) = getLowCreditWarnedAt v r"
  by (simp_all add: has_running_def standing_after getLowCreditWarnedAt_def frame_simps)

lemma to_warn_other:
  "v \<noteq> u \<Longrightarrow> to_warn t h (store_of (warn_user t (\<lambda>_. True) h u r)) v = to_warn t h r v"
  by (simp add: warned_store to_warn_def warning_after standing_after)

lemma to_warn_done: "\<not> to_warn t h (store_of (warn_user t (\<lambda>_. True) h u r)) u"
  by (auto simp: warned_store to_warn_def warning_after standing_after lowCreditStep_def split: option.splits if_splits)

lemma warn_users_done:
  "distinct us \<Longrightarrow> fst (for_users (warn_user t (\<lambda>_. True) h) us r) = [u \<leftarrow> us. to_warn t h r u]
   \<and> (\<forall>v. to_warn t h (store_of (for_users (warn_user t (\<lambda>_. True) h) us r)) v \<longleftrightarrow> v \<notin> set us \<and> to_warn t h r v)"
proof (induction us arbitrary: r)
  case (Cons u us)
  let ?r = "store_of (warn_user t (\<lambda>_. True) h u r)"
  have o: "to_warn t h ?r v = (v \<noteq> u \<and> to_warn t h r v)" for v
    using to_warn_other to_warn_done by (cases "v = u") auto
  have "[v \<leftarrow> us. to_warn t h ?r v] = [v \<leftarrow> us. to_warn t h r v]"
    using Cons.prems by (intro filter_cong) (auto simp: o)
  then show ?case using Cons.IH [of ?r] Cons.prems o
    by (auto simp: for_users.simps(2) split_beta warn_user_fst)
qed simp

text \<open>
  A warning is sent once per dip. While the broker takes the events, a check warns exactly the
  accounts with a server running that may run, whose credit lasts less than the threshold and that
  have not been warned; the same check again warns nobody.
\<close>

theorem warn_once:
  "fst (warnLowCredit t (\<lambda>_. True) h r) = [u \<leftarrow> listBillableUserIds r. to_warn t h r u]
   \<and> fst (warnLowCredit t (\<lambda>_. True) h (store_of (warnLowCredit t (\<lambda>_. True) h r))) = []"
proof -
  let ?r = "store_of (warnLowCredit t (\<lambda>_. True) h r)"
  have d: "distinct (listBillableUserIds s)" for s by (simp add: listBillableUserIds_def)
  have i: "br_intervals ?r = br_intervals r" by (rule accounts_keep(2)) (simp_all add: frame_simps)
  have "u \<in> set (listBillableUserIds r)" if "to_warn t h ?r u" for u
  proof -
    from that have "has_running u r" using i by (simp add: to_warn_def has_running_def listIntervals_def)
    then show ?thesis by (auto simp: set_billable has_running_def listIntervals_def list_ex_iff)
  qed
  moreover have "\<forall>v. to_warn t h ?r v \<longleftrightarrow> v \<notin> set (listBillableUserIds r) \<and> to_warn t h r v"
    using warn_users_done [OF d [of r], of t h r] unfolding warnLowCredit_def by blast
  ultimately have "[u \<leftarrow> listBillableUserIds ?r. to_warn t h ?r u] = []" by (auto simp: filter_empty_conv)
  then show ?thesis
    using warn_users_done [OF d [of r], of t h r] warn_users_done [OF d [of ?r], of t h ?r]
    unfolding warnLowCredit_def by simp
qed

end
