(* ===== verification/Orch_Types.thy ===== *)
theory Orch_Types
  imports Pricing
begin

text \<open>
  The records of the orchestrator (\<^verbatim>\<open>orchestrator/src/types.ts\<close>) and the state of its
  repository as the in-memory store keeps it (\<^verbatim>\<open>orchestrator/src/repository.ts\<close>): one
  insertion-ordered map per table. Fields the source types as strings and checks when they are
  used (roles, statuses of shares) are strings here; the closed unions are datatypes.
\<close>

datatype deployment_status = Pending_d | Running | Stopped | Crashed | Failed_d

record user =
  u_id :: string
  u_email :: string
  u_displayName :: string
  u_passwordHash :: string
  u_platformRole :: string
  u_createdAt :: time
  u_totpSecret :: "string option"
  u_totpEnabledAt :: "time option"
  u_emailVerifiedAt :: "time option"

datatype node_connection = Direct | Outbound

record node =
  nd_id :: string
  nd_name :: string
  nd_location :: "string option"
  nd_ipAddress :: "string option"
  nd_agentUrl :: "string option"
  nd_lastHeartbeat :: time
  nd_cpuPercent :: "rat option"
  nd_cpuCores :: "rat option"
  nd_ramUsedMb :: "rat option"
  nd_ramTotalMb :: "rat option"
  nd_diskUsedGb :: "rat option"
  nd_diskTotalGb :: "rat option"
  nd_maintenance :: bool
  nd_portRangeStart :: "int option"
  nd_portRangeEnd :: "int option"
  nd_connection :: node_connection

record port_allocation =
  pa_id :: string
  pa_nodeId :: string
  pa_port :: int
  pa_deploymentId :: string
  pa_primary :: bool
  pa_createdAt :: time

record channel =
  ch_id :: string
  ch_userId :: string
  ch_kind :: string
  ch_target :: string
  ch_format :: string
  ch_events :: "string list"
  ch_secret :: "string option"
  ch_allowPrivate :: bool
  ch_enabled :: bool
  ch_lastDeliveryAt :: "time option"
  ch_lastError :: "string option"
  ch_createdAt :: time

datatype delivery_status = DPending | DSent | DFailed

record delivery =
  dl_id :: string
  dl_channelId :: string
  dl_event :: string
  dl_payload :: string
  dl_status :: delivery_status
  dl_attempts :: nat
  dl_nextAttemptAt :: time
  dl_lastError :: "string option"
  dl_createdAt :: time
  dl_sentAt :: "time option"

record retention =
  rt_keepLast :: "nat option"
  rt_keepDays :: "nat option"

record server_config =
  sc_id :: string
  sc_userId :: string
  sc_teamId :: "string option"
  sc_name :: string
  sc_dockerImage :: string
  sc_ports :: "(string \<times> string) list"
  sc_env :: "(string \<times> string) list"
  sc_resourceLimits :: limits
  sc_autoRestart :: bool
  sc_dataPath :: "string option"
  sc_persistPaths :: "string list"
  sc_backupRetention :: retention
  sc_type :: string
  sc_createdAt :: time

record deployment =
  dp_id :: string
  dp_serverConfigId :: string
  dp_nodeId :: "string option"
  dp_containerId :: "string option"
  dp_status :: deployment_status
  dp_startedAt :: "time option"
  dp_stoppedAt :: "time option"
  dp_createdAt :: time
  dp_suspendedAt :: "time option"
  dp_suspendedReason :: "string option"

text \<open>\<open>DeploymentView\<close>: a deployment joined with what a list shows of its config.\<close>

record deployment_view = deployment +
  dv_name :: string
  dv_dockerImage :: string
  dv_userId :: string
  dv_teamId :: "string option"
  dv_type :: string
  dv_resourceLimits :: limits
  dv_autoRestart :: bool

record deployment_event =
  ev_id :: string
  ev_deploymentId :: string
  ev_event :: string
  ev_message :: string
  ev_timestamp :: time

record deployment_detail = deployment_view +
  dd_events :: "deployment_event list"
  dd_ports :: "(string \<times> string) list"
  dd_env :: "(string \<times> string) list"
  dd_persistPaths :: "string list"
  dd_backupRetention :: retention

record server_database =
  db_id :: string
  db_deploymentId :: string
  db_engine :: string
  db_name :: string
  db_username :: string
  db_password :: string
  db_host :: string
  db_port :: int
  db_containerId :: "string option"
  db_status :: string
  db_createdAt :: time

record server_backup =
  bk_id :: string
  bk_deploymentId :: string
  bk_name :: string
  bk_path :: string
  bk_ref :: string
  bk_sizeBytes :: rat
  bk_status :: string
  bk_createdAt :: time
  bk_offsite :: "string option"

record team =
  tm_id :: string
  tm_name :: string
  tm_ownerId :: string
  tm_createdAt :: time

record team_member =
  mb_id :: string
  mb_teamId :: string
  mb_userId :: string
  mb_role :: string
  mb_createdAt :: time

record subuser =
  su_id :: string
  su_deploymentId :: string
  su_email :: string
  su_userId :: "string option"
  su_status :: string
  su_role :: string
  su_createdAt :: time

record schedule =
  sd_id :: string
  sd_deploymentId :: string
  sd_name :: string
  sd_cron :: string
  sd_action :: string
  sd_enabled :: bool
  sd_lastRunAt :: "time option"
  sd_createdAt :: time

record session =
  ss_id :: string
  ss_userId :: string
  ss_createdAt :: time
  ss_lastSeenAt :: time
  ss_userAgent :: "string option"
  ss_ipAddress :: "string option"

text \<open>A password reset or an email confirmation, kept under the digest of its token.\<close>

record one_time_link =
  ol_userId :: string
  ol_expiresAt :: time
  ol_usedAt :: "time option"

record api_token =
  at_id :: string
  at_userId :: string
  at_name :: string
  at_tokenHash :: string
  at_scopes :: string
  at_createdAt :: time
  at_lastUsedAt :: "time option"
  at_expiresAt :: "time option"

record recovery_code =
  rc_userId :: string
  rc_codeHash :: string

record orch =
  o_users :: "(string \<times> user) list"
  o_teams :: "(string \<times> team) list"
  o_members :: "(string \<times> team_member) list"
  o_nodes :: "(string \<times> node) list"
  o_ports :: "(string \<times> port_allocation) list"
  o_channels :: "(string \<times> channel) list"
  o_deliveries :: "(string \<times> delivery) list"
  o_configs :: "(string \<times> server_config) list"
  o_deployments :: "(string \<times> deployment) list"
  o_events :: "deployment_event list"
  o_databases :: "(string \<times> server_database) list"
  o_backups :: "(string \<times> server_backup) list"
  o_schedules :: "(string \<times> schedule) list"
  o_subusers :: "(string \<times> subuser) list"
  o_sessions :: "(string \<times> session) list"
  o_resets :: "(string \<times> one_time_link) list"
  o_verifications :: "(string \<times> one_time_link) list"
  o_apiTokens :: "(string \<times> api_token) list"
  o_recovery :: "(string \<times> recovery_code) list"
  o_linkHashes :: "(string \<times> string) list"
  o_drawn :: nat

definition new_orch :: orch where
  "new_orch = \<lparr>o_users = [], o_teams = [], o_members = [], o_nodes = [], o_ports = [], o_channels = [],
     o_deliveries = [], o_configs = [], o_deployments = [], o_events = [], o_databases = [], o_backups = [],
     o_schedules = [], o_subusers = [], o_sessions = [], o_resets = [], o_verifications = [],
     o_apiTokens = [], o_recovery = [], o_linkHashes = [], o_drawn = 0\<rparr>"

section \<open>Patches\<close>

text \<open>
  A field that may be absent, or present and \<open>null\<close>: \<open>None\<close> leaves the value, \<open>Some v\<close> sets it.
\<close>

record status_patch =
  sp_status :: "deployment_status option"
  sp_nodeId :: "string option option"
  sp_containerId :: "string option option"
  sp_startedAt :: "time option option"
  sp_stoppedAt :: "time option option"
  sp_suspendedAt :: "time option option"
  sp_suspendedReason :: "string option option"

definition no_patch :: status_patch where
  "no_patch = \<lparr>sp_status = None, sp_nodeId = None, sp_containerId = None, sp_startedAt = None,
     sp_stoppedAt = None, sp_suspendedAt = None, sp_suspendedReason = None\<rparr>"

record config_patch =
  cp_name :: "string option"
  cp_dockerImage :: "string option"
  cp_ports :: "(string \<times> string) list option"
  cp_env :: "(string \<times> string) list option"
  cp_resourceLimits :: "limits option"
  cp_autoRestart :: "bool option"
  cp_persistPaths :: "string list option"
  cp_backupRetention :: "retention option"

record node_beat =
  nb_id :: string
  nb_name :: "string option"
  nb_location :: "string option option"
  nb_ipAddress :: "string option"
  nb_agentUrl :: "string option"
  nb_lastHeartbeat :: time
  nb_cpuPercent :: "rat option"
  nb_cpuCores :: "rat option"
  nb_ramUsedMb :: "rat option"
  nb_ramTotalMb :: "rat option"
  nb_diskUsedGb :: "rat option"
  nb_diskTotalGb :: "rat option"
  nb_connection :: "node_connection option"

record node_registration =
  nr_id :: string
  nr_name :: "string option"
  nr_location :: "string option option"
  nr_agentUrl :: "string option option"
  nr_maintenance :: "bool option"
  nr_portRange :: "(int \<times> int) option option"
  nr_connection :: "node_connection option"

record new_server =
  ns_userId :: string
  ns_teamId :: "string option"
  ns_name :: string
  ns_dockerImage :: string
  ns_ports :: "(string \<times> string) list option"
  ns_env :: "(string \<times> string) list option"
  ns_resourceLimits :: "limits option"
  ns_autoRestart :: "bool option"
  ns_dataPath :: "string option"
  ns_persistPaths :: "string list option"
  ns_type :: "string option"

record transfer_input =
  tr_deploymentId :: string
  tr_newOwnerId :: string
  tr_retainedShare :: "(string \<times> string \<times> string) option"
  tr_dropShareId :: "string option"

end
