(* ===== verification/Orch_Repo.thy ===== *)
theory Orch_Repo
  imports Orch_Types "HOL-Library.Multiset"
begin

text \<open>
  The orchestrator's repository, method by method, as the in-memory store implements it
  (\<^verbatim>\<open>orchestrator/src/repository.ts\<close>). \<open>clock\<close> is \<open>new Date()\<close>; identifiers are drawn from
  \<open>o_drawn\<close>. A method that throws returns \<open>Inl\<close>.
\<close>

text \<open>\<open>[...map.values()]\<close>, \<open>for (const [k, v] of map) if (p) map.delete(k)\<close>, and the same with \<open>set\<close>.\<close>

definition vals :: "('k \<times> 'v) list \<Rightarrow> 'v list" where
  "vals m = map snd m"

definition drop_where :: "('v \<Rightarrow> bool) \<Rightarrow> ('k \<times> 'v) list \<Rightarrow> ('k \<times> 'v) list" where
  "drop_where p m = filter (\<lambda>(k, v). \<not> p v) m"

definition update_where :: "('v \<Rightarrow> bool) \<Rightarrow> ('v \<Rightarrow> 'v) \<Rightarrow> ('k \<times> 'v) list \<Rightarrow> ('k \<times> 'v) list" where
  "update_where p f m = map (\<lambda>(k, v). (k, if p v then f v else v)) m"

lemma vals_drop_where [simp]: "vals (drop_where p m) = filter (\<lambda>v. \<not> p v) (vals m)"
  by (induction m) (auto simp: vals_def drop_where_def)

lemma vals_update_where [simp]: "vals (update_where p f m) = map (\<lambda>v. if p v then f v else v) (vals m)"
  by (simp add: vals_def update_where_def comp_def case_prod_unfold)

lemma map_of_update_where: "map_of (update_where p f m) k = map_option (\<lambda>v. if p v then f v else v) (map_of m k)"
  by (induction m) (auto simp: update_where_def)

lemma keys_update_where [simp]: "map fst (update_where p f m) = map fst m"
  by (simp add: update_where_def comp_def case_prod_unfold)

lemma update_where_mem:
  "(k, w) \<in> set (update_where p f m) \<longleftrightarrow> (\<exists>v. (k, v) \<in> set m \<and> w = (if p v then f v else v))"
  by (force simp: update_where_def)

text \<open>Sorting newest first: \<open>sort((a, b) => b.at.localeCompare(a.at))\<close>, which is stable.\<close>

definition newest_first :: "('a \<Rightarrow> time) \<Rightarrow> 'a list \<Rightarrow> 'a list" where
  "newest_first key xs = sort_key (\<lambda>x. - key x) xs"

text \<open>
  A table whose keys were drawn below \<open>n\<close>, each row kept under its own id. What an update, a
  removal and a search do to the lookups of such a table.
\<close>

definition table :: "('v \<Rightarrow> string) \<Rightarrow> (string \<times> 'v) list \<Rightarrow> nat \<Rightarrow> bool" where
  "table ident m n = (distinct (map fst m) \<and> (\<forall>k v. map_of m k = Some v \<longrightarrow> ident v = k \<and> (\<exists>i < n. k = uuid i)))"

lemma table_Nil [simp]: "table ident [] n"
  by (simp add: table_def)

lemma table_ident: "table ident m n \<Longrightarrow> map_of m k = Some v \<Longrightarrow> ident v = k"
  by (simp add: table_def)

lemma table_fresh: "table ident m n \<Longrightarrow> map_of m (uuid n) = None"
  unfolding table_def by (cases "map_of m (uuid n)") fastforce+

lemma table_mono: "table ident m n \<Longrightarrow> n \<le> n' \<Longrightarrow> table ident m n'"
  unfolding table_def by (meson less_le_trans)

lemma table_insert: "table ident m n \<Longrightarrow> ident v = uuid n \<Longrightarrow> table ident (AList.update (uuid n) v m) (Suc n)"
  unfolding table_def
  by (auto simp: distinct_update split: if_splits) (meson less_SucI)

lemma table_update:
  "table ident m n \<Longrightarrow> map_of m k = Some v \<Longrightarrow> ident w = k \<Longrightarrow> table ident (AList.update k w m) n"
  by (auto simp: table_def distinct_update split: if_splits)

lemma map_of_filter_distinct:
  "distinct (map fst m) \<Longrightarrow>
     map_of (filter q m) k = (case map_of m k of None \<Rightarrow> None | Some v \<Rightarrow> if q (k, v) then Some v else None)"
  by (induction m) (auto split: option.split simp: map_of_eq_None_iff image_iff)

lemma map_of_drop_where:
  "distinct (map fst m) \<Longrightarrow>
     map_of (drop_where p m) k = (case map_of m k of None \<Rightarrow> None | Some v \<Rightarrow> if p v then None else Some v)"
  by (simp add: drop_where_def map_of_filter_distinct split: option.split)

lemma distinct_filter_keys: "distinct (map fst m) \<Longrightarrow> distinct (map fst (filter q m))"
  by (induction m) auto

lemma table_filter: "table ident m n \<Longrightarrow> table ident (filter q m) n"
  by (auto simp: table_def map_of_filter_distinct distinct_filter_keys split: option.splits if_splits)

lemma table_delete: "table ident m n \<Longrightarrow> table ident (AList.delete k m) n"
  by (simp add: AList.delete_eq table_filter)

lemma table_drop_where: "table ident m n \<Longrightarrow> table ident (drop_where p m) n"
  by (simp add: drop_where_def table_filter)

lemma table_update_where:
  "table ident m n \<Longrightarrow> (\<And>v. ident (f v) = ident v) \<Longrightarrow> table ident (update_where p f m) n"
  by (auto simp: table_def map_of_update_where)

lemma mem_vals: "distinct (map fst m) \<Longrightarrow> v \<in> set (vals m) \<longleftrightarrow> (\<exists>k. map_of m k = Some v)"
  by (force simp: vals_def)

lemma find_vals_Some:
  assumes "table ident m n" "find p (vals m) = Some v"
  shows "map_of m (ident v) = Some v \<and> p v"
  using assms find_Some_mem [OF assms(2)] by (auto simp: table_def mem_vals)

lemma find_vals_None:
  "table ident m n \<Longrightarrow> find p (vals m) = None \<longleftrightarrow> (\<forall>k v. map_of m k = Some v \<longrightarrow> \<not> p v)"
  by (auto simp: find_None_iff table_def mem_vals)

text \<open>At most one row per value of \<open>key\<close>.\<close>

definition one_per :: "('v \<Rightarrow> 'b) \<Rightarrow> (string \<times> 'v) list \<Rightarrow> bool" where
  "one_per key m = (\<forall>k v k' v'. map_of m k = Some v \<longrightarrow> map_of m k' = Some v' \<longrightarrow> key v = key v' \<longrightarrow> k = k')"

lemma one_per_Nil [simp]: "one_per key []"
  by (simp add: one_per_def)

lemma one_perD: "one_per key m \<Longrightarrow> map_of m k = Some v \<Longrightarrow> map_of m k' = Some v' \<Longrightarrow> key v = key v' \<Longrightarrow> k = k'"
  unfolding one_per_def by blast

lemma one_per_update:
  assumes "one_per key m" "\<And>k v. map_of m k = Some v \<Longrightarrow> key v = key w \<Longrightarrow> k = i"
  shows "one_per key (AList.update i w m)"
  unfolding one_per_def
proof (intro allI impI)
  fix k v k' v'
  assume a: "map_of (AList.update i w m) k = Some v" "map_of (AList.update i w m) k' = Some v'" "key v = key v'"
  consider "k = i" "k' = i" | "k = i" "k' \<noteq> i" | "k \<noteq> i" "k' = i" | "k \<noteq> i" "k' \<noteq> i" by blast
  then show "k = k'"
  proof cases
    case 2
    then show ?thesis using a assms(2) [of k' v'] by simp
  next
    case 3
    then show ?thesis using a assms(2) [of k v] by simp
  next
    case 4
    then show ?thesis using a one_perD [OF assms(1), of k v k' v'] by simp
  qed simp
qed

lemma one_per_filter: "distinct (map fst m) \<Longrightarrow> one_per key m \<Longrightarrow> one_per key (filter q m)"
proof -
  assume d: "distinct (map fst m)" and one: "one_per key m"
  have "map_of m k = Some v" if "map_of (filter q m) k = Some v" for k v
    using that by (simp add: map_of_filter_distinct [OF d] split: option.splits if_splits)
  then show ?thesis using one unfolding one_per_def by blast
qed

lemma one_per_update_where:
  assumes "one_per key m" "\<And>v. key (f v) = key v"
  shows "one_per key (update_where p f m)"
  unfolding one_per_def
proof (intro allI impI)
  fix k v k' v'
  assume a: "map_of (update_where p f m) k = Some v" "map_of (update_where p f m) k' = Some v'" "key v = key v'"
  obtain x y where "map_of m k = Some x" "map_of m k' = Some y" "key x = key v" "key y = key v'"
    using a(1,2) assms(2) by (auto simp: map_of_update_where split: if_splits)
  then show "k = k'" using one_perD [OF assms(1), of k x k' y] a(3) by simp
qed

section \<open>Accounts\<close>

definition createUser :: "time \<Rightarrow> string \<Rightarrow> string \<Rightarrow> string \<Rightarrow> string \<Rightarrow> string \<Rightarrow> time option \<Rightarrow> orch \<Rightarrow> user \<times> orch" where
  "createUser clock i email displayName passwordHash platformRole verified r =
     (let u = \<lparr>u_id = i, u_email = email, u_displayName = displayName, u_passwordHash = passwordHash,
        u_platformRole = platformRole, u_createdAt = clock, u_totpSecret = None, u_totpEnabledAt = None,
        u_emailVerifiedAt = verified\<rparr>
      in (u, r\<lparr>o_users := AList.update i u (o_users r)\<rparr>))"

definition getUser :: "string \<Rightarrow> orch \<Rightarrow> user option" where
  "getUser i r = map_of (o_users r) i"

definition getUserByEmail :: "string \<Rightarrow> orch \<Rightarrow> user option" where
  "getUserByEmail email r = find (\<lambda>u. u_email u = email) (vals (o_users r))"

definition listUsers :: "orch \<Rightarrow> user list" where "listUsers r = vals (o_users r)"
definition countUsers :: "orch \<Rightarrow> nat" where "countUsers r = length (o_users r)"

definition setUserPassword :: "string \<Rightarrow> string \<Rightarrow> orch \<Rightarrow> user option \<times> orch" where
  "setUserPassword i passwordHash r =
     (case map_of (o_users r) i of None \<Rightarrow> (None, r)
      | Some u \<Rightarrow> let u = u\<lparr>u_passwordHash := passwordHash\<rparr> in (Some u, r\<lparr>o_users := AList.update i u (o_users r)\<rparr>))"

section \<open>Teams\<close>

definition createTeam :: "time \<Rightarrow> string \<Rightarrow> string \<Rightarrow> string \<Rightarrow> orch \<Rightarrow> team \<times> orch" where
  "createTeam clock i name ownerId r =
     (let t = \<lparr>tm_id = i, tm_name = name, tm_ownerId = ownerId, tm_createdAt = clock\<rparr>
      in (t, r\<lparr>o_teams := AList.update i t (o_teams r)\<rparr>))"

definition getTeam :: "string \<Rightarrow> orch \<Rightarrow> team option" where
  "getTeam i r = map_of (o_teams r) i"

definition listTeamsForUser :: "string \<Rightarrow> orch \<Rightarrow> team list" where
  "listTeamsForUser userId r =
     (let memberOf = mb_teamId ` set (filter (\<lambda>m. mb_userId m = userId) (vals (o_members r)))
      in [t \<leftarrow> vals (o_teams r). tm_ownerId t = userId \<or> tm_id t \<in> memberOf])"

definition deleteTeam :: "string \<Rightarrow> orch \<Rightarrow> orch" where
  "deleteTeam i r = r\<lparr>o_members := drop_where (\<lambda>m. mb_teamId m = i) (o_members r),
     o_configs := update_where (\<lambda>c. sc_teamId c = Some i) (sc_teamId_update (\<lambda>_. None)) (o_configs r),
     o_teams := AList.delete i (o_teams r)\<rparr>"

definition getTeamMember :: "string \<Rightarrow> string \<Rightarrow> orch \<Rightarrow> team_member option" where
  "getTeamMember teamId userId r = find (\<lambda>m. mb_teamId m = teamId \<and> mb_userId m = userId) (vals (o_members r))"

definition addTeamMember :: "time \<Rightarrow> string \<Rightarrow> string \<Rightarrow> string \<Rightarrow> orch \<Rightarrow> team_member \<times> orch" where
  "addTeamMember clock teamId userId role r =
     (let existing = getTeamMember teamId userId r;
          m = \<lparr>mb_id = (case existing of None \<Rightarrow> uuid (o_drawn r) | Some e \<Rightarrow> mb_id e), mb_teamId = teamId,
            mb_userId = userId, mb_role = role,
            mb_createdAt = (case existing of None \<Rightarrow> clock | Some e \<Rightarrow> mb_createdAt e)\<rparr>
      in (m, r\<lparr>o_members := AList.update (mb_id m) m (o_members r), o_drawn := Suc (o_drawn r)\<rparr>))"

text \<open>A member with the email and the name of the account behind it.\<close>

definition listTeamMembers :: "string \<Rightarrow> orch \<Rightarrow> (team_member \<times> string \<times> string) list" where
  "listTeamMembers teamId r =
     map (\<lambda>m. case map_of (o_users r) (mb_userId m) of
            None \<Rightarrow> (m, '''', mb_userId m) | Some u \<Rightarrow> (m, u_email u, u_displayName u))
       [m \<leftarrow> vals (o_members r). mb_teamId m = teamId]"

definition removeTeamMember :: "string \<Rightarrow> string \<Rightarrow> orch \<Rightarrow> orch" where
  "removeTeamMember teamId userId r =
     r\<lparr>o_members := drop_where (\<lambda>m. mb_teamId m = teamId \<and> mb_userId m = userId) (o_members r)\<rparr>"

definition setServerTeam :: "string \<Rightarrow> string option \<Rightarrow> orch \<Rightarrow> orch" where
  "setServerTeam serverConfigId teamId r =
     (case map_of (o_configs r) serverConfigId of None \<Rightarrow> r
      | Some c \<Rightarrow> r\<lparr>o_configs := AList.update serverConfigId (c\<lparr>sc_teamId := teamId\<rparr>) (o_configs r)\<rparr>)"

section \<open>Nodes\<close>

definition upsertNode :: "node_beat \<Rightarrow> orch \<Rightarrow> node \<times> orch" where
  "upsertNode b r =
     (let existing = map_of (o_nodes r) (nb_id b);
          old = (\<lambda>f. case existing of None \<Rightarrow> None | Some n \<Rightarrow> f n);
          n = \<lparr>nd_id = nb_id b,
            nd_name = nullish (nb_name b) (case existing of None \<Rightarrow> nb_id b | Some e \<Rightarrow> nd_name e),
            nd_location = nullish (nb_location b) (old nd_location),
            nd_ipAddress = orElse (nb_ipAddress b) (old nd_ipAddress),
            nd_agentUrl = orElse (nb_agentUrl b) (old nd_agentUrl),
            nd_lastHeartbeat = nb_lastHeartbeat b,
            nd_cpuPercent = orElse (nb_cpuPercent b) (case existing of None \<Rightarrow> None | Some e \<Rightarrow> nd_cpuPercent e),
            nd_cpuCores = orElse (nb_cpuCores b) (case existing of None \<Rightarrow> None | Some e \<Rightarrow> nd_cpuCores e),
            nd_ramUsedMb = orElse (nb_ramUsedMb b) (case existing of None \<Rightarrow> None | Some e \<Rightarrow> nd_ramUsedMb e),
            nd_ramTotalMb = orElse (nb_ramTotalMb b) (case existing of None \<Rightarrow> None | Some e \<Rightarrow> nd_ramTotalMb e),
            nd_diskUsedGb = orElse (nb_diskUsedGb b) (case existing of None \<Rightarrow> None | Some e \<Rightarrow> nd_diskUsedGb e),
            nd_diskTotalGb = orElse (nb_diskTotalGb b) (case existing of None \<Rightarrow> None | Some e \<Rightarrow> nd_diskTotalGb e),
            nd_maintenance = (case existing of None \<Rightarrow> False | Some e \<Rightarrow> nd_maintenance e),
            nd_portRangeStart = (case existing of None \<Rightarrow> None | Some e \<Rightarrow> nd_portRangeStart e),
            nd_portRangeEnd = (case existing of None \<Rightarrow> None | Some e \<Rightarrow> nd_portRangeEnd e),
            nd_connection = nullish (nb_connection b) (case existing of None \<Rightarrow> Direct | Some e \<Rightarrow> nd_connection e)\<rparr>
      in (n, r\<lparr>o_nodes := AList.update (nb_id b) n (o_nodes r)\<rparr>))"

text \<open>\<open>localeCompare\<close> on node ids is a parameter: a rank of strings.\<close>

definition listNodes :: "(string \<Rightarrow> nat) \<Rightarrow> orch \<Rightarrow> node list" where
  "listNodes collate r = sort_key (\<lambda>n. collate (nd_id n)) (vals (o_nodes r))"

definition registerNode :: "node_registration \<Rightarrow> orch \<Rightarrow> node \<times> orch" where
  "registerNode inp r =
     (let range_start = (\<lambda>p. map_option fst p); range_end = (\<lambda>p. map_option snd p);
          n = (case map_of (o_nodes r) (nr_id inp) of
            Some e \<Rightarrow>
              e\<lparr>nd_name := nullish (nr_name inp) (nd_name e),
                nd_location := nullish (nr_location inp) (nd_location e),
                nd_agentUrl := nullish (nr_agentUrl inp) (nd_agentUrl e),
                nd_maintenance := nullish (nr_maintenance inp) (nd_maintenance e),
                nd_connection := nullish (nr_connection inp) (nd_connection e),
                nd_portRangeStart := (case nr_portRange inp of None \<Rightarrow> nd_portRangeStart e | Some p \<Rightarrow> range_start p),
                nd_portRangeEnd := (case nr_portRange inp of None \<Rightarrow> nd_portRangeEnd e | Some p \<Rightarrow> range_end p)\<rparr>
          | None \<Rightarrow>
              \<lparr>nd_id = nr_id inp, nd_name = nullish (nr_name inp) (nr_id inp), nd_location = nullish (nr_location inp) None,
               nd_ipAddress = None, nd_agentUrl = nullish (nr_agentUrl inp) None, nd_lastHeartbeat = 0,
               nd_cpuPercent = None, nd_cpuCores = None, nd_ramUsedMb = None, nd_ramTotalMb = None,
               nd_diskUsedGb = None, nd_diskTotalGb = None, nd_maintenance = nullish (nr_maintenance inp) False,
               nd_portRangeStart = range_start (nullish (nr_portRange inp) None),
               nd_portRangeEnd = range_end (nullish (nr_portRange inp) None),
               nd_connection = nullish (nr_connection inp) Direct\<rparr>)
      in (n, r\<lparr>o_nodes := AList.update (nr_id inp) n (o_nodes r)\<rparr>))"

definition deleteNode :: "string \<Rightarrow> orch \<Rightarrow> orch" where
  "deleteNode i r = r\<lparr>o_deployments := update_where (\<lambda>d. dp_nodeId d = Some i) (dp_nodeId_update (\<lambda>_. None)) (o_deployments r),
     o_ports := drop_where (\<lambda>a. pa_nodeId a = i) (o_ports r),
     o_nodes := AList.delete i (o_nodes r), o_linkHashes := AList.delete i (o_linkHashes r)\<rparr>"

definition setNodeLinkTokenHash :: "string \<Rightarrow> string \<Rightarrow> orch \<Rightarrow> orch" where
  "setNodeLinkTokenHash i hash r =
     (if map_of (o_nodes r) i \<noteq> None then r\<lparr>o_linkHashes := AList.update i hash (o_linkHashes r)\<rparr> else r)"

definition getNodeLinkTokenHash :: "string \<Rightarrow> orch \<Rightarrow> string option" where
  "getNodeLinkTokenHash i r = map_of (o_linkHashes r) i"

section \<open>Sessions, one-time links, API tokens, second factors\<close>

definition createSession :: "time \<Rightarrow> string \<Rightarrow> string option \<Rightarrow> string option \<Rightarrow> orch \<Rightarrow> session \<times> orch" where
  "createSession clock userId userAgent ipAddress r =
     (let s = \<lparr>ss_id = uuid (o_drawn r), ss_userId = userId, ss_createdAt = clock, ss_lastSeenAt = clock,
            ss_userAgent = userAgent, ss_ipAddress = ipAddress\<rparr>
      in (s, r\<lparr>o_sessions := AList.update (ss_id s) s (o_sessions r), o_drawn := Suc (o_drawn r)\<rparr>))"

definition getSession :: "string \<Rightarrow> orch \<Rightarrow> session option" where
  "getSession i r = map_of (o_sessions r) i"

definition listSessions :: "string \<Rightarrow> orch \<Rightarrow> session list" where
  "listSessions userId r = newest_first ss_lastSeenAt [s \<leftarrow> vals (o_sessions r). ss_userId s = userId]"

definition deleteSession :: "string \<Rightarrow> orch \<Rightarrow> orch" where
  "deleteSession i r = r\<lparr>o_sessions := AList.delete i (o_sessions r)\<rparr>"

definition deleteSessionsForUser :: "string \<Rightarrow> string option \<Rightarrow> orch \<Rightarrow> orch" where
  "deleteSessionsForUser userId exceptId r =
     r\<lparr>o_sessions := filter (\<lambda>(i, s). \<not> (ss_userId s = userId \<and> Some i \<noteq> exceptId)) (o_sessions r)\<rparr>"

definition touchSession :: "string \<Rightarrow> time \<Rightarrow> orch \<Rightarrow> orch" where
  "touchSession i t r =
     (case map_of (o_sessions r) i of None \<Rightarrow> r
      | Some s \<Rightarrow> r\<lparr>o_sessions := AList.update i (s\<lparr>ss_lastSeenAt := t\<rparr>) (o_sessions r)\<rparr>)"

text \<open>
  Password resets and email confirmations are kept the same way: recording a link drops the
  account's unused ones, claiming it marks it used.
\<close>

definition record_link :: "string \<Rightarrow> string \<Rightarrow> time \<Rightarrow> (string \<times> one_time_link) list \<Rightarrow> (string \<times> one_time_link) list" where
  "record_link userId tokenHash expiresAt m =
     AList.update tokenHash \<lparr>ol_userId = userId, ol_expiresAt = expiresAt, ol_usedAt = None\<rparr>
       (drop_where (\<lambda>l. ol_userId l = userId \<and> ol_usedAt l = None) m)"

definition claim_link :: "string \<Rightarrow> time \<Rightarrow> (string \<times> one_time_link) list \<Rightarrow> string option \<times> (string \<times> one_time_link) list" where
  "claim_link tokenHash now m =
     (case map_of m tokenHash of
        None \<Rightarrow> (None, m)
      | Some l \<Rightarrow> if ol_usedAt l \<noteq> None \<or> ol_expiresAt l \<le> now then (None, m)
                  else (Some (ol_userId l), AList.update tokenHash (l\<lparr>ol_usedAt := Some now\<rparr>) m))"

definition createPasswordReset :: "string \<Rightarrow> string \<Rightarrow> time \<Rightarrow> orch \<Rightarrow> orch" where
  "createPasswordReset userId tokenHash expiresAt r =
     r\<lparr>o_resets := record_link userId tokenHash expiresAt (o_resets r)\<rparr>"

definition consumePasswordReset :: "string \<Rightarrow> time \<Rightarrow> orch \<Rightarrow> string option \<times> orch" where
  "consumePasswordReset tokenHash now r =
     (let (u, m) = claim_link tokenHash now (o_resets r) in (u, r\<lparr>o_resets := m\<rparr>))"

definition createEmailVerification :: "string \<Rightarrow> string \<Rightarrow> time \<Rightarrow> orch \<Rightarrow> orch" where
  "createEmailVerification userId tokenHash expiresAt r =
     r\<lparr>o_verifications := record_link userId tokenHash expiresAt (o_verifications r)\<rparr>"

definition consumeEmailVerification :: "string \<Rightarrow> time \<Rightarrow> orch \<Rightarrow> string option \<times> orch" where
  "consumeEmailVerification tokenHash now r =
     (let (u, m) = claim_link tokenHash now (o_verifications r) in (u, r\<lparr>o_verifications := m\<rparr>))"

definition setUserEmailVerified :: "string \<Rightarrow> time \<Rightarrow> orch \<Rightarrow> orch" where
  "setUserEmailVerified i t r =
     (case map_of (o_users r) i of None \<Rightarrow> r
      | Some u \<Rightarrow> if u_emailVerifiedAt u = None
                  then r\<lparr>o_users := AList.update i (u\<lparr>u_emailVerifiedAt := Some t\<rparr>) (o_users r)\<rparr> else r)"

definition createApiToken :: "time \<Rightarrow> string \<Rightarrow> string \<Rightarrow> string \<Rightarrow> string \<Rightarrow> time option \<Rightarrow> orch \<Rightarrow> api_token \<times> orch" where
  "createApiToken clock userId name tokenHash scopes expiresAt r =
     (let t = \<lparr>at_id = uuid (o_drawn r), at_userId = userId, at_name = name, at_tokenHash = tokenHash,
            at_scopes = scopes, at_createdAt = clock, at_lastUsedAt = None, at_expiresAt = expiresAt\<rparr>
      in (t, r\<lparr>o_apiTokens := AList.update (at_id t) t (o_apiTokens r), o_drawn := Suc (o_drawn r)\<rparr>))"

definition getApiTokenByHash :: "string \<Rightarrow> orch \<Rightarrow> api_token option" where
  "getApiTokenByHash tokenHash r = find (\<lambda>t. at_tokenHash t = tokenHash) (vals (o_apiTokens r))"

definition listApiTokens :: "string \<Rightarrow> orch \<Rightarrow> api_token list" where
  "listApiTokens userId r = sort_key at_createdAt [t \<leftarrow> vals (o_apiTokens r). at_userId t = userId]"

definition getApiToken :: "string \<Rightarrow> orch \<Rightarrow> api_token option" where
  "getApiToken i r = map_of (o_apiTokens r) i"

definition deleteApiToken :: "string \<Rightarrow> orch \<Rightarrow> orch" where
  "deleteApiToken i r = r\<lparr>o_apiTokens := AList.delete i (o_apiTokens r)\<rparr>"

definition touchApiToken :: "string \<Rightarrow> time \<Rightarrow> orch \<Rightarrow> orch" where
  "touchApiToken i t r =
     (case map_of (o_apiTokens r) i of None \<Rightarrow> r
      | Some k \<Rightarrow> r\<lparr>o_apiTokens := AList.update i (k\<lparr>at_lastUsedAt := Some t\<rparr>) (o_apiTokens r)\<rparr>)"

definition setUserTotp :: "string \<Rightarrow> string option \<Rightarrow> time option \<Rightarrow> orch \<Rightarrow> user option \<times> orch" where
  "setUserTotp i secret enabledAt r =
     (case map_of (o_users r) i of None \<Rightarrow> (None, r)
      | Some u \<Rightarrow> let u = u\<lparr>u_totpSecret := secret, u_totpEnabledAt := enabledAt\<rparr>
                  in (Some u, r\<lparr>o_users := AList.update i u (o_users r)\<rparr>))"

fun add_codes :: "string \<Rightarrow> string list \<Rightarrow> orch \<Rightarrow> orch" where
  "add_codes userId [] r = r"
| "add_codes userId (h # hs) r =
     add_codes userId hs (r\<lparr>o_recovery := AList.update (uuid (o_drawn r)) \<lparr>rc_userId = userId, rc_codeHash = h\<rparr> (o_recovery r),
                            o_drawn := Suc (o_drawn r)\<rparr>)"

definition replaceRecoveryCodes :: "string \<Rightarrow> string list \<Rightarrow> orch \<Rightarrow> orch" where
  "replaceRecoveryCodes userId codeHashes r =
     add_codes userId codeHashes (r\<lparr>o_recovery := drop_where (\<lambda>c. rc_userId c = userId) (o_recovery r)\<rparr>)"

definition consumeRecoveryCode :: "string \<Rightarrow> string \<Rightarrow> orch \<Rightarrow> bool \<times> orch" where
  "consumeRecoveryCode userId codeHash r =
     (case find (\<lambda>(k, c). rc_userId c = userId \<and> rc_codeHash c = codeHash) (o_recovery r) of
        None \<Rightarrow> (False, r)
      | Some (k, c) \<Rightarrow> (True, r\<lparr>o_recovery := AList.delete k (o_recovery r)\<rparr>))"

definition countRecoveryCodes :: "string \<Rightarrow> orch \<Rightarrow> nat" where
  "countRecoveryCodes userId r = length [c \<leftarrow> vals (o_recovery r). rc_userId c = userId]"

section \<open>Servers\<close>

definition no_retention :: retention where
  "no_retention = \<lparr>rt_keepLast = None, rt_keepDays = None\<rparr>"

definition createServerConfig :: "time \<Rightarrow> new_server \<Rightarrow> orch \<Rightarrow> server_config \<times> orch" where
  "createServerConfig clock inp r =
     (let c = \<lparr>sc_id = uuid (o_drawn r), sc_userId = ns_userId inp, sc_teamId = ns_teamId inp, sc_name = ns_name inp,
            sc_dockerImage = ns_dockerImage inp, sc_ports = nullish (ns_ports inp) [], sc_env = nullish (ns_env inp) [],
            sc_resourceLimits = nullish (ns_resourceLimits inp) no_limits,
            sc_autoRestart = nullish (ns_autoRestart inp) False, sc_dataPath = ns_dataPath inp,
            sc_persistPaths = nullish (ns_persistPaths inp) [], sc_backupRetention = no_retention,
            sc_type = nullish (ns_type inp) ''generic'', sc_createdAt = clock\<rparr>
      in (c, r\<lparr>o_configs := AList.update (sc_id c) c (o_configs r), o_drawn := Suc (o_drawn r)\<rparr>))"

definition createDeployment :: "time \<Rightarrow> string \<Rightarrow> string option \<Rightarrow> orch \<Rightarrow> deployment \<times> orch" where
  "createDeployment clock serverConfigId nodeId r =
     (let d = \<lparr>dp_id = uuid (o_drawn r), dp_serverConfigId = serverConfigId, dp_nodeId = nodeId, dp_containerId = None,
            dp_status = Pending_d, dp_startedAt = None, dp_stoppedAt = None, dp_createdAt = clock,
            dp_suspendedAt = None, dp_suspendedReason = None\<rparr>
      in (d, r\<lparr>o_deployments := AList.update (dp_id d) d (o_deployments r), o_drawn := Suc (o_drawn r)\<rparr>))"

definition patch_deployment :: "status_patch \<Rightarrow> deployment \<Rightarrow> deployment" where
  "patch_deployment p d =
     d\<lparr>dp_status := nullish (sp_status p) (dp_status d), dp_nodeId := nullish (sp_nodeId p) (dp_nodeId d),
       dp_containerId := nullish (sp_containerId p) (dp_containerId d),
       dp_startedAt := nullish (sp_startedAt p) (dp_startedAt d), dp_stoppedAt := nullish (sp_stoppedAt p) (dp_stoppedAt d),
       dp_suspendedAt := nullish (sp_suspendedAt p) (dp_suspendedAt d),
       dp_suspendedReason := nullish (sp_suspendedReason p) (dp_suspendedReason d)\<rparr>"

definition updateDeploymentStatus :: "string \<Rightarrow> status_patch \<Rightarrow> orch \<Rightarrow> deployment option \<times> orch" where
  "updateDeploymentStatus i p r =
     (case map_of (o_deployments r) i of None \<Rightarrow> (None, r)
      | Some d \<Rightarrow> let d = patch_deployment p d in (Some d, r\<lparr>o_deployments := AList.update i d (o_deployments r)\<rparr>))"

definition appendDeploymentEvent :: "time \<Rightarrow> string \<Rightarrow> string \<Rightarrow> string \<Rightarrow> orch \<Rightarrow> orch" where
  "appendDeploymentEvent clock deploymentId event message r =
     r\<lparr>o_events := o_events r @ [\<lparr>ev_id = uuid (o_drawn r), ev_deploymentId = deploymentId, ev_event = event,
         ev_message = message, ev_timestamp = clock\<rparr>], o_drawn := Suc (o_drawn r)\<rparr>"

definition toView :: "orch \<Rightarrow> deployment \<Rightarrow> deployment_view option" where
  "toView r d =
     (case map_of (o_configs r) (dp_serverConfigId d) of None \<Rightarrow> None
      | Some c \<Rightarrow> Some (deployment.extend d \<lparr>dv_name = sc_name c, dv_dockerImage = sc_dockerImage c,
          dv_userId = sc_userId c, dv_teamId = sc_teamId c, dv_type = sc_type c,
          dv_resourceLimits = sc_resourceLimits c, dv_autoRestart = sc_autoRestart c\<rparr>))"

definition listDeployments :: "orch \<Rightarrow> deployment_view list" where
  "listDeployments r = newest_first dp_createdAt (List.map_filter (toView r) (vals (o_deployments r)))"

definition listDeploymentsForUser :: "string \<Rightarrow> orch \<Rightarrow> deployment_view list" where
  "listDeploymentsForUser userId r =
     (let sharedWith = su_deploymentId ` set [s \<leftarrow> vals (o_subusers r). su_userId s = Some userId \<and> su_status s = ''active''];
          myTeams = mb_teamId ` set [m \<leftarrow> vals (o_members r). mb_userId m = userId]
      in [d \<leftarrow> listDeployments r. dv_userId d = userId \<or> dp_id d \<in> sharedWith
            \<or> (case dv_teamId d of None \<Rightarrow> False | Some t \<Rightarrow> t \<in> myTeams)])"

definition getDeployment_o :: "string \<Rightarrow> orch \<Rightarrow> deployment_detail option" where
  "getDeployment_o i r =
     (case map_of (o_deployments r) i of None \<Rightarrow> None
      | Some d \<Rightarrow>
          (case (toView r d, map_of (o_configs r) (dp_serverConfigId d)) of
             (Some v, Some c) \<Rightarrow> Some (deployment_view.extend v
               \<lparr>dd_events = sort_key ev_timestamp [e \<leftarrow> o_events r. ev_deploymentId e = i], dd_ports = sc_ports c,
                dd_env = sc_env c, dd_persistPaths = sc_persistPaths c, dd_backupRetention = sc_backupRetention c\<rparr>)
           | _ \<Rightarrow> None))"

definition deleteDeployment :: "string \<Rightarrow> orch \<Rightarrow> orch" where
  "deleteDeployment i r =
     (case map_of (o_deployments r) i of None \<Rightarrow> r
      | Some d \<Rightarrow> r\<lparr>o_events := [e \<leftarrow> o_events r. ev_deploymentId e \<noteq> i],
          o_databases := drop_where (\<lambda>x. db_deploymentId x = i) (o_databases r),
          o_backups := drop_where (\<lambda>x. bk_deploymentId x = i) (o_backups r),
          o_schedules := drop_where (\<lambda>x. sd_deploymentId x = i) (o_schedules r),
          o_subusers := drop_where (\<lambda>x. su_deploymentId x = i) (o_subusers r),
          o_ports := drop_where (\<lambda>x. pa_deploymentId x = i) (o_ports r),
          o_deployments := AList.delete i (o_deployments r),
          o_configs := AList.delete (dp_serverConfigId d) (o_configs r)\<rparr>)"

definition patch_config :: "config_patch \<Rightarrow> server_config \<Rightarrow> server_config" where
  "patch_config p c =
     c\<lparr>sc_name := nullish (cp_name p) (sc_name c), sc_dockerImage := nullish (cp_dockerImage p) (sc_dockerImage c),
       sc_ports := nullish (cp_ports p) (sc_ports c), sc_env := nullish (cp_env p) (sc_env c),
       sc_resourceLimits := nullish (cp_resourceLimits p) (sc_resourceLimits c),
       sc_autoRestart := nullish (cp_autoRestart p) (sc_autoRestart c),
       sc_persistPaths := nullish (cp_persistPaths p) (sc_persistPaths c),
       sc_backupRetention := nullish (cp_backupRetention p) (sc_backupRetention c)\<rparr>"

definition getDeploymentConfig :: "string \<Rightarrow> orch \<Rightarrow> server_config option" where
  "getDeploymentConfig deploymentId r =
     (case map_of (o_deployments r) deploymentId of None \<Rightarrow> None
      | Some d \<Rightarrow> map_of (o_configs r) (dp_serverConfigId d))"

definition updateDeploymentConfig :: "string \<Rightarrow> config_patch \<Rightarrow> orch \<Rightarrow> server_config option \<times> orch" where
  "updateDeploymentConfig deploymentId p r =
     (case getDeploymentConfig deploymentId r of None \<Rightarrow> (None, r)
      | Some c \<Rightarrow> let n = patch_config p c in (Some n, r\<lparr>o_configs := AList.update (sc_id c) n (o_configs r)\<rparr>))"

section \<open>Shares\<close>

definition getSubuserFor :: "string \<Rightarrow> string \<Rightarrow> orch \<Rightarrow> subuser option" where
  "getSubuserFor deploymentId email r =
     find (\<lambda>s. su_deploymentId s = deploymentId \<and> su_email s = email) (vals (o_subusers r))"

definition createSubuser ::
  "time \<Rightarrow> string \<Rightarrow> string \<Rightarrow> string \<Rightarrow> string option \<Rightarrow> string option \<Rightarrow> orch \<Rightarrow> subuser \<times> orch" where
  "createSubuser clock deploymentId email role userId status r =
     (let existing = getSubuserFor deploymentId email r;
          s = \<lparr>su_id = (case existing of None \<Rightarrow> uuid (o_drawn r) | Some e \<Rightarrow> su_id e),
            su_deploymentId = deploymentId, su_email = email,
            su_userId = orElse userId (case existing of None \<Rightarrow> None | Some e \<Rightarrow> su_userId e),
            su_status = nullish status (case existing of None \<Rightarrow> ''pending'' | Some e \<Rightarrow> su_status e),
            su_role = role,
            su_createdAt = (case existing of None \<Rightarrow> clock | Some e \<Rightarrow> su_createdAt e)\<rparr>
      in (s, r\<lparr>o_subusers := AList.update (su_id s) s (o_subusers r), o_drawn := Suc (o_drawn r)\<rparr>))"

definition listSubusers :: "string \<Rightarrow> orch \<Rightarrow> subuser list" where
  "listSubusers deploymentId r = sort_key su_createdAt [s \<leftarrow> vals (o_subusers r). su_deploymentId s = deploymentId]"

definition getSubuser :: "string \<Rightarrow> orch \<Rightarrow> subuser option" where
  "getSubuser i r = map_of (o_subusers r) i"

definition claimSubuserInvites :: "string \<Rightarrow> string \<Rightarrow> orch \<Rightarrow> nat \<times> orch" where
  "claimSubuserInvites userId email r =
     (let mine = (\<lambda>s. su_email s = email \<and> su_status s \<noteq> ''active'')
      in (length (filter mine (vals (o_subusers r))),
          r\<lparr>o_subusers := update_where mine (\<lambda>s. s\<lparr>su_userId := Some userId, su_status := ''active''\<rparr>) (o_subusers r)\<rparr>))"

definition updateSubuserRole :: "string \<Rightarrow> string \<Rightarrow> orch \<Rightarrow> subuser option \<times> orch" where
  "updateSubuserRole i role r =
     (case map_of (o_subusers r) i of None \<Rightarrow> (None, r)
      | Some s \<Rightarrow> let s = s\<lparr>su_role := role\<rparr> in (Some s, r\<lparr>o_subusers := AList.update i s (o_subusers r)\<rparr>))"

definition deleteSubuser :: "string \<Rightarrow> orch \<Rightarrow> orch" where
  "deleteSubuser i r = r\<lparr>o_subusers := AList.delete i (o_subusers r)\<rparr>"

definition transferDeploymentOwner :: "time \<Rightarrow> transfer_input \<Rightarrow> orch \<Rightarrow> server_config option \<times> orch" where
  "transferDeploymentOwner clock inp r =
     (case getDeploymentConfig (tr_deploymentId inp) r of None \<Rightarrow> (None, r)
      | Some c \<Rightarrow>
          let n = c\<lparr>sc_userId := tr_newOwnerId inp\<rparr>;
              r = r\<lparr>o_configs := AList.update (sc_id c) n (o_configs r)\<rparr>;
              r = (case tr_dropShareId inp of None \<Rightarrow> r | Some i \<Rightarrow> if i = [] then r else deleteSubuser i r);
              r = (case tr_retainedShare inp of None \<Rightarrow> r
                   | Some (email, userId, role) \<Rightarrow>
                       snd (createSubuser clock (tr_deploymentId inp) email role (Some userId) (Some ''active'') r))
          in (Some n, r))"

section \<open>Databases, backups, schedules\<close>

definition createDatabase ::
  "time \<Rightarrow> string \<Rightarrow> string \<Rightarrow> string \<Rightarrow> string \<Rightarrow> string \<Rightarrow> string \<Rightarrow> int \<Rightarrow> string option \<Rightarrow> orch \<Rightarrow> server_database \<times> orch" where
  "createDatabase clock deploymentId engine name username password host port containerId r =
     (let d = \<lparr>db_id = uuid (o_drawn r), db_deploymentId = deploymentId, db_engine = engine, db_name = name,
            db_username = username, db_password = password, db_host = host, db_port = port,
            db_containerId = containerId, db_status = ''running'', db_createdAt = clock\<rparr>
      in (d, r\<lparr>o_databases := AList.update (db_id d) d (o_databases r), o_drawn := Suc (o_drawn r)\<rparr>))"

definition listDatabases :: "string \<Rightarrow> orch \<Rightarrow> server_database list" where
  "listDatabases deploymentId r = sort_key db_createdAt [d \<leftarrow> vals (o_databases r). db_deploymentId d = deploymentId]"

definition getDatabase :: "string \<Rightarrow> orch \<Rightarrow> server_database option" where
  "getDatabase i r = map_of (o_databases r) i"

definition deleteDatabase :: "string \<Rightarrow> orch \<Rightarrow> orch" where
  "deleteDatabase i r = r\<lparr>o_databases := AList.delete i (o_databases r)\<rparr>"

definition createBackup ::
  "time \<Rightarrow> string \<Rightarrow> string \<Rightarrow> string \<Rightarrow> string \<Rightarrow> rat \<Rightarrow> string option \<Rightarrow> orch \<Rightarrow> server_backup \<times> orch" where
  "createBackup clock deploymentId name path ref sizeBytes offsite r =
     (let b = \<lparr>bk_id = uuid (o_drawn r), bk_deploymentId = deploymentId, bk_name = name, bk_path = path, bk_ref = ref,
            bk_sizeBytes = sizeBytes, bk_status = ''ready'', bk_createdAt = clock, bk_offsite = offsite\<rparr>
      in (b, r\<lparr>o_backups := AList.update (bk_id b) b (o_backups r), o_drawn := Suc (o_drawn r)\<rparr>))"

definition listBackups :: "string \<Rightarrow> orch \<Rightarrow> server_backup list" where
  "listBackups deploymentId r = newest_first bk_createdAt [b \<leftarrow> vals (o_backups r). bk_deploymentId b = deploymentId]"

definition getBackup :: "string \<Rightarrow> orch \<Rightarrow> server_backup option" where
  "getBackup i r = map_of (o_backups r) i"

definition deleteBackup :: "string \<Rightarrow> orch \<Rightarrow> orch" where
  "deleteBackup i r = r\<lparr>o_backups := AList.delete i (o_backups r)\<rparr>"

definition createSchedule :: "time \<Rightarrow> string \<Rightarrow> string \<Rightarrow> string \<Rightarrow> string \<Rightarrow> bool option \<Rightarrow> orch \<Rightarrow> schedule \<times> orch" where
  "createSchedule clock deploymentId name cron action enabled r =
     (let s = \<lparr>sd_id = uuid (o_drawn r), sd_deploymentId = deploymentId, sd_name = name, sd_cron = cron,
            sd_action = action, sd_enabled = nullish enabled True, sd_lastRunAt = None, sd_createdAt = clock\<rparr>
      in (s, r\<lparr>o_schedules := AList.update (sd_id s) s (o_schedules r), o_drawn := Suc (o_drawn r)\<rparr>))"

definition listSchedules :: "string \<Rightarrow> orch \<Rightarrow> schedule list" where
  "listSchedules deploymentId r = sort_key sd_createdAt [s \<leftarrow> vals (o_schedules r). sd_deploymentId s = deploymentId]"

definition listAllSchedules :: "orch \<Rightarrow> schedule list" where
  "listAllSchedules r = vals (o_schedules r)"

definition getSchedule :: "string \<Rightarrow> orch \<Rightarrow> schedule option" where
  "getSchedule i r = map_of (o_schedules r) i"

definition updateSchedule ::
  "string \<Rightarrow> string option \<Rightarrow> string option \<Rightarrow> string option \<Rightarrow> bool option \<Rightarrow> time option option \<Rightarrow> orch \<Rightarrow> schedule option \<times> orch" where
  "updateSchedule i name cron action enabled lastRunAt r =
     (case map_of (o_schedules r) i of None \<Rightarrow> (None, r)
      | Some s \<Rightarrow>
          let s = s\<lparr>sd_name := nullish name (sd_name s), sd_cron := nullish cron (sd_cron s),
                sd_action := nullish action (sd_action s), sd_enabled := nullish enabled (sd_enabled s),
                sd_lastRunAt := nullish lastRunAt (sd_lastRunAt s)\<rparr>
          in (Some s, r\<lparr>o_schedules := AList.update i s (o_schedules r)\<rparr>))"

definition deleteSchedule :: "string \<Rightarrow> orch \<Rightarrow> orch" where
  "deleteSchedule i r = r\<lparr>o_schedules := AList.delete i (o_schedules r)\<rparr>"

section \<open>Host ports\<close>

definition listPortAllocations :: "string option \<Rightarrow> string option \<Rightarrow> orch \<Rightarrow> port_allocation list" where
  "listPortAllocations nodeId deploymentId r =
     sort_key pa_port [a \<leftarrow> vals (o_ports r). (case given nodeId of None \<Rightarrow> True | Some n \<Rightarrow> pa_nodeId a = n)
       \<and> (case given deploymentId of None \<Rightarrow> True | Some d \<Rightarrow> pa_deploymentId a = d)]"

text \<open>\<open>PortConflictError\<close>, with the port and the node.\<close>

datatype port_conflict = PortConflict int string

definition port_clash :: "string \<Rightarrow> string \<Rightarrow> orch \<Rightarrow> int \<Rightarrow> bool" where
  "port_clash deploymentId nodeId r p =
     list_ex (\<lambda>a. pa_nodeId a = nodeId \<and> pa_port a = p \<and> pa_deploymentId a \<noteq> deploymentId) (vals (o_ports r))"

fun add_ports :: "time \<Rightarrow> string \<Rightarrow> string \<Rightarrow> int option \<Rightarrow> int list \<Rightarrow> orch \<Rightarrow> port_allocation list \<times> orch" where
  "add_ports clock deploymentId nodeId keep [] r = ([], r)"
| "add_ports clock deploymentId nodeId keep (p # ps) r =
     (let a = \<lparr>pa_id = uuid (o_drawn r), pa_nodeId = nodeId, pa_port = p, pa_deploymentId = deploymentId,
            pa_primary = (keep = Some p), pa_createdAt = clock\<rparr>;
          (as, r) = add_ports clock deploymentId nodeId keep ps
            (r\<lparr>o_ports := AList.update (pa_id a) a (o_ports r), o_drawn := Suc (o_drawn r)\<rparr>)
      in (a # as, r))"

definition primary_port :: "string \<Rightarrow> orch \<Rightarrow> int option" where
  "primary_port deploymentId r =
     map_option pa_port (find pa_primary [a \<leftarrow> vals (o_ports r). pa_deploymentId a = deploymentId])"

definition keep_primary :: "int option \<Rightarrow> int list \<Rightarrow> int option" where
  "keep_primary primary ports =
     (case primary of
        Some p \<Rightarrow> if p \<in> set ports then Some p else (case ports of [] \<Rightarrow> None | q # _ \<Rightarrow> Some q)
      | None \<Rightarrow> (case ports of [] \<Rightarrow> None | q # _ \<Rightarrow> Some q))"

definition replacePortAllocations ::
  "time \<Rightarrow> string \<Rightarrow> string option \<Rightarrow> int list \<Rightarrow> orch \<Rightarrow> (port_conflict, port_allocation list) result \<times> orch" where
  "replacePortAllocations clock deploymentId nodeId ports r =
     (case (case given nodeId of None \<Rightarrow> None | Some n \<Rightarrow> map_option (\<lambda>p. PortConflict p n) (find (port_clash deploymentId n r) ports)) of
        Some e \<Rightarrow> (Inl e, r)
      | None \<Rightarrow>
          let keep = keep_primary (primary_port deploymentId r) ports;
              r = r\<lparr>o_ports := filter (\<lambda>(k, a). k \<notin> pa_id ` set [a \<leftarrow> vals (o_ports r). pa_deploymentId a = deploymentId]) (o_ports r)\<rparr>
          in case given nodeId of
               None \<Rightarrow> (Inr [], r)
             | Some n \<Rightarrow> let (as, r) = add_ports clock deploymentId n keep ports r in (Inr as, r))"

definition setPrimaryPort :: "string \<Rightarrow> int \<Rightarrow> orch \<Rightarrow> bool \<times> orch" where
  "setPrimaryPort deploymentId p r =
     (let mine = [a \<leftarrow> vals (o_ports r). pa_deploymentId a = deploymentId]
      in if \<not> list_ex (\<lambda>a. pa_port a = p) mine then (False, r)
         else (True, r\<lparr>o_ports := foldl (\<lambda>m a. AList.update (pa_id a) (a\<lparr>pa_primary := (pa_port a = p)\<rparr>) m) (o_ports r) mine\<rparr>))"

section \<open>Notifications\<close>

definition createNotificationChannel ::
  "time \<Rightarrow> string \<Rightarrow> string \<Rightarrow> string \<Rightarrow> string \<Rightarrow> string list \<Rightarrow> string option \<Rightarrow> bool \<Rightarrow> bool \<Rightarrow> orch \<Rightarrow> channel \<times> orch" where
  "createNotificationChannel clock userId kind target format evs secret allowPrivate enabled r =
     (let c = \<lparr>ch_id = uuid (o_drawn r), ch_userId = userId, ch_kind = kind, ch_target = target, ch_format = format,
            ch_events = evs, ch_secret = secret, ch_allowPrivate = allowPrivate, ch_enabled = enabled,
            ch_lastDeliveryAt = None, ch_lastError = None, ch_createdAt = clock\<rparr>
      in (c, r\<lparr>o_channels := AList.update (ch_id c) c (o_channels r), o_drawn := Suc (o_drawn r)\<rparr>))"

definition listNotificationChannels :: "string list \<Rightarrow> orch \<Rightarrow> channel list" where
  "listNotificationChannels userIds r = [c \<leftarrow> vals (o_channels r). ch_userId c \<in> set userIds]"

definition getNotificationChannel :: "string \<Rightarrow> orch \<Rightarrow> channel option" where
  "getNotificationChannel i r = map_of (o_channels r) i"

definition updateNotificationChannel ::
  "string \<Rightarrow> string list option \<Rightarrow> bool option \<Rightarrow> time option option \<Rightarrow> string option option \<Rightarrow> orch \<Rightarrow> channel option \<times> orch" where
  "updateNotificationChannel i evs enabled lastDeliveryAt lastError r =
     (case map_of (o_channels r) i of None \<Rightarrow> (None, r)
      | Some c \<Rightarrow>
          let c = c\<lparr>ch_events := nullish evs (ch_events c), ch_enabled := nullish enabled (ch_enabled c),
                ch_lastDeliveryAt := nullish lastDeliveryAt (ch_lastDeliveryAt c),
                ch_lastError := nullish lastError (ch_lastError c)\<rparr>
          in (Some c, r\<lparr>o_channels := AList.update i c (o_channels r)\<rparr>))"

definition deleteNotificationChannel :: "string \<Rightarrow> orch \<Rightarrow> orch" where
  "deleteNotificationChannel i r = r\<lparr>o_channels := AList.delete i (o_channels r),
     o_deliveries := drop_where (\<lambda>d. dl_channelId d = i) (o_deliveries r)\<rparr>"

fun enqueueDeliveries :: "time \<Rightarrow> (string \<times> string \<times> string) list \<Rightarrow> orch \<Rightarrow> delivery list \<times> orch" where
  "enqueueDeliveries clock [] r = ([], r)"
| "enqueueDeliveries clock ((channelId, event, payload) # rows) r =
     (let d = \<lparr>dl_id = uuid (o_drawn r), dl_channelId = channelId, dl_event = event, dl_payload = payload,
            dl_status = DPending, dl_attempts = 0, dl_nextAttemptAt = clock, dl_lastError = None,
            dl_createdAt = clock, dl_sentAt = None\<rparr>;
          (ds, r) = enqueueDeliveries clock rows
            (r\<lparr>o_deliveries := AList.update (dl_id d) d (o_deliveries r), o_drawn := Suc (o_drawn r)\<rparr>)
      in (d # ds, r))"

definition listDueDeliveries :: "time \<Rightarrow> nat \<Rightarrow> orch \<Rightarrow> delivery list" where
  "listDueDeliveries now limit r =
     take limit (sort_key dl_nextAttemptAt [d \<leftarrow> vals (o_deliveries r). dl_status d = DPending \<and> dl_nextAttemptAt d \<le> now])"

definition claimDelivery :: "string \<Rightarrow> nat \<Rightarrow> orch \<Rightarrow> bool \<times> orch" where
  "claimDelivery i attempts r =
     (case map_of (o_deliveries r) i of None \<Rightarrow> (False, r)
      | Some d \<Rightarrow> if dl_status d \<noteq> DPending \<or> dl_attempts d \<noteq> attempts then (False, r)
                  else (True, r\<lparr>o_deliveries := AList.update i (d\<lparr>dl_attempts := attempts + 1\<rparr>) (o_deliveries r)\<rparr>))"

record delivery_patch =
  lp_status :: "delivery_status option"
  lp_attempts :: "nat option"
  lp_nextAttemptAt :: "time option"
  lp_lastError :: "string option option"
  lp_sentAt :: "time option option"

definition updateDelivery :: "string \<Rightarrow> delivery_patch \<Rightarrow> orch \<Rightarrow> orch" where
  "updateDelivery i p r =
     (case map_of (o_deliveries r) i of None \<Rightarrow> r
      | Some d \<Rightarrow> r\<lparr>o_deliveries := AList.update i
          (d\<lparr>dl_status := nullish (lp_status p) (dl_status d), dl_attempts := nullish (lp_attempts p) (dl_attempts d),
             dl_nextAttemptAt := nullish (lp_nextAttemptAt p) (dl_nextAttemptAt d),
             dl_lastError := nullish (lp_lastError p) (dl_lastError d), dl_sentAt := nullish (lp_sentAt p) (dl_sentAt d)\<rparr>)
          (o_deliveries r)\<rparr>)"

definition listDeliveries :: "string \<Rightarrow> nat \<Rightarrow> orch \<Rightarrow> delivery list" where
  "listDeliveries channelId limit r =
     take limit (newest_first dl_createdAt [d \<leftarrow> rev (vals (o_deliveries r)). dl_channelId d = channelId])"

end
