(* ===== verification/Accounts.thy ===== *)
theory Accounts
  imports Access
begin

text \<open>
  Accounts (\<^verbatim>\<open>users.ts\<close>): the rules an address and a password meet, and the service that creates
  accounts, checks and changes passwords and repairs the first administrator. The digest of the
  passwords is bcrypt's, not part of the sources: \<open>hash\<close> and \<open>compare\<close> are parameters.
\<close>

section \<open>Rules\<close>

definition platform_roles :: "string list" where
  "platform_roles = [''owner'', ''admin'', ''user'']"

definition isPlatformRole :: "json \<Rightarrow> bool" where
  "isPlatformRole v = (case v of JStr s \<Rightarrow> s \<in> set platform_roles | _ \<Rightarrow> False)"

definition unusable_hash :: string where "unusable_hash = ''!''"
definition min_password :: nat where "min_password = 8"

definition verifyPassword :: "(string \<Rightarrow> string \<Rightarrow> bool) \<Rightarrow> string \<Rightarrow> string \<Rightarrow> bool" where
  "verifyPassword compare password h = (if h = [] \<or> h = unusable_hash then False else compare password h)"

definition normalizeEmail :: "string \<Rightarrow> string" where
  "normalizeEmail email = js_lower (js_trim email)"

text \<open>\<open>[^\s@]+@[^\s@]+\.[^\s@]+\<close>, and the same up to a domain of \<open>local\<close>.\<close>

definition plain_part :: "string \<Rightarrow> bool" where
  "plain_part s = (s \<noteq> [] \<and> (\<forall>c \<in> set s. \<not> js_space c \<and> c \<noteq> CHR ''@''))"

definition local_part :: "string \<Rightarrow> string" where
  "local_part s = takeWhile (\<lambda>c. c \<noteq> CHR ''@'') s"

definition isEmail :: "string \<Rightarrow> bool" where
  "isEmail v =
     (let s = js_trim v; l = local_part s; d = drop (length l + 1) s
      in length l < length s \<and> plain_part l \<and> plain_part d \<and> CHR ''.'' \<in> set (butlast (tl d)))"

definition isValidEmail :: "string \<Rightarrow> bool" where
  "isValidEmail v =
     (isEmail v \<or> (let s = js_trim v; l = local_part s in plain_part l \<and> s = l @ ''@local''))"

datatype password_problem = PasswordMissing | PasswordShort

definition passwordProblem :: "json \<Rightarrow> password_problem option" where
  "passwordProblem v =
     (case v of
        JStr s \<Rightarrow> if s = [] then Some PasswordMissing
                  else if length s < min_password then Some PasswordShort else None
      | _ \<Rightarrow> Some PasswordMissing)"

definition canSelfRegister :: "bool \<Rightarrow> bool" where
  "canSelfRegister hosted = hosted"

record public_user =
  pu_id :: string
  pu_email :: string
  pu_displayName :: string
  pu_platformRole :: string
  pu_createdAt :: time
  pu_twoFactorEnabled :: bool
  pu_emailVerified :: bool

definition toPublicUser :: "user \<Rightarrow> public_user" where
  "toPublicUser u =
     \<lparr>pu_id = u_id u, pu_email = u_email u, pu_displayName = u_displayName u,
      pu_platformRole = (if isPlatformRole (JStr (u_platformRole u)) then u_platformRole u else ''user''),
      pu_createdAt = u_createdAt u, pu_twoFactorEnabled = (u_totpEnabledAt u \<noteq> None),
      pu_emailVerified = (u_emailVerifiedAt u \<noteq> None)\<rparr>"

section \<open>The service\<close>

record register_input =
  ri_email :: string
  ri_password :: json
  ri_displayName :: "string option"
  ri_platformRole :: "string option"
  ri_verified :: bool

datatype user_refusal =
    InvalidEmail | BadPassword password_problem | EmailTaken | UserNotFound | CurrentIncorrect

fun user_refusal_status :: "user_refusal \<Rightarrow> nat" where
  "user_refusal_status InvalidEmail = 400"
| "user_refusal_status (BadPassword p) = 400"
| "user_refusal_status EmailTaken = 409"
| "user_refusal_status UserNotFound = 404"
| "user_refusal_status CurrentIncorrect = 401"

definition json_string :: "json \<Rightarrow> string" where
  "json_string v = (case v of JStr s \<Rightarrow> s | _ \<Rightarrow> [])"

definition display_name :: "string option \<Rightarrow> string \<Rightarrow> string" where
  "display_name name default_name = (case map_option js_trim name of None \<Rightarrow> default_name | Some n \<Rightarrow> if n = [] then default_name else n)"

definition register :: "(string \<Rightarrow> string) \<Rightarrow> time \<Rightarrow> register_input \<Rightarrow> orch \<Rightarrow> (user_refusal, user) result \<times> orch" where
  "register hash clock inp r =
     (let email = normalizeEmail (ri_email inp)
      in if \<not> isValidEmail email then (Inl InvalidEmail, r)
         else case passwordProblem (ri_password inp) of
           Some p \<Rightarrow> (Inl (BadPassword p), r)
         | None \<Rightarrow>
             if getUserByEmail email r \<noteq> None then (Inl EmailTaken, r)
             else
               let (i, r) = draw r;
                   (u, r) = createUser clock i email (display_name (ri_displayName inp) (local_part email))
                     (hash (json_string (ri_password inp))) (nullish (ri_platformRole inp) ''user'')
                     (if ri_verified inp then Some clock else None) r;
                   (_, r) = claimSubuserInvites (u_id u) (u_email u) r
               in (Inr u, r))"

definition authenticate :: "(string \<Rightarrow> string \<Rightarrow> bool) \<Rightarrow> json \<Rightarrow> json \<Rightarrow> orch \<Rightarrow> user option \<times> orch" where
  "authenticate compare identifier password r =
     (case (identifier, password) of
        (JStr i, JStr pw) \<Rightarrow>
          (case orElse (getUserByEmail (normalizeEmail i) r) (getUser (js_trim i) r) of
             None \<Rightarrow> (None, r)
           | Some u \<Rightarrow>
               if \<not> verifyPassword compare pw (u_passwordHash u) then (None, r)
               else (Some u, snd (claimSubuserInvites (u_id u) (u_email u) r)))
      | _ \<Rightarrow> (None, r))"

definition changePassword ::
  "(string \<Rightarrow> string) \<Rightarrow> (string \<Rightarrow> string \<Rightarrow> bool) \<Rightarrow> string \<Rightarrow> string \<Rightarrow> json \<Rightarrow> orch \<Rightarrow> (user_refusal, user) result \<times> orch" where
  "changePassword hash compare userId cur nxt r =
     (case getUser userId r of
        None \<Rightarrow> (Inl UserNotFound, r)
      | Some u \<Rightarrow>
          if \<not> verifyPassword compare cur (u_passwordHash u) then (Inl CurrentIncorrect, r)
          else case passwordProblem nxt of
            Some p \<Rightarrow> (Inl (BadPassword p), r)
          | None \<Rightarrow>
              (case setUserPassword userId (hash (json_string nxt)) r of
                 (None, r) \<Rightarrow> (Inl UserNotFound, r)
               | (Some u, r) \<Rightarrow> (Inr u, r)))"

definition resetPassword :: "(string \<Rightarrow> string) \<Rightarrow> string \<Rightarrow> json \<Rightarrow> orch \<Rightarrow> (user_refusal, user) result \<times> orch" where
  "resetPassword hash userId nxt r =
     (case passwordProblem nxt of
        Some p \<Rightarrow> (Inl (BadPassword p), r)
      | None \<Rightarrow>
          (case setUserPassword userId (hash (json_string nxt)) r of
             (None, r) \<Rightarrow> (Inl UserNotFound, r)
           | (Some u, r) \<Rightarrow> (Inr u, r)))"

datatype bootstrap = Created | PasswordSet | Exists

definition bootstrapOwner :: "(string \<Rightarrow> string) \<Rightarrow> time \<Rightarrow> string \<Rightarrow> string \<Rightarrow> string option \<Rightarrow> orch \<Rightarrow> bootstrap \<times> orch" where
  "bootstrapOwner hash clock address password displayName r =
     (let email = normalizeEmail address
      in case getUserByEmail email r of
           Some e \<Rightarrow>
             if u_passwordHash e \<noteq> unusable_hash then (Exists, r)
             else (PasswordSet, snd (setUserPassword (u_id e) (hash password) r))
         | None \<Rightarrow>
             if countUsers r > 0 then (Exists, r)
             else
               let (i, r) = draw r
               in (Created, snd (createUser clock i email (display_name displayName ''Administrator'') (hash password)
                    ''owner'' (Some clock) r)))"

definition confirmPassword :: "(string \<Rightarrow> string \<Rightarrow> bool) \<Rightarrow> string \<Rightarrow> json \<Rightarrow> orch \<Rightarrow> bool" where
  "confirmPassword compare userId password r =
     (case (getUser userId r, password) of
        (Some u, JStr pw) \<Rightarrow> if pw = [] then False else verifyPassword compare pw (u_passwordHash u)
      | _ \<Rightarrow> False)"

end
