(* ===== verification/Sharing.thy ===== *)
theory Sharing
  imports Accounts
begin

text \<open>
  Sharing one server: the subuser routes and the handing-over of a server (\<^verbatim>\<open>api.ts\<close>,
  \<^verbatim>\<open>transfer.ts\<close>), and the list of servers a caller sees.

  The lemmas: over every run of registrations, sign-ins, invitations, role changes, revocations,
  transfers and team operations, a share is bound to the account with its address and names a role
  that can be granted; from that, a caller's list holds exactly the servers the guard opens to
  them, and a transfer changes the access of nobody but the two owners.
\<close>

section \<open>Handing a server over\<close>

record transfer_plan =
  tp_newOwnerId :: string
  tp_retainedShare :: "(string \<times> string \<times> string) option"
  tp_dropShareId :: "string option"
  tp_auditMessage :: string

definition planTransfer ::
  "(string \<times> string) option \<Rightarrow> (string \<times> string) \<Rightarrow> json \<Rightarrow> string option \<Rightarrow> transfer_plan reply" where
  "planTransfer currentOwner newOwner retainRole existingShare =
     (if map_option fst currentOwner = Some (fst newOwner) then Inl (400, ''that account already owns this server'')
      else
        let keeps = (retainRole \<noteq> JUndef \<and> retainRole \<noteq> JNull \<and> retainRole \<noteq> JStr [])
        in if keeps \<and> \<not> isGrantableRole retainRole then Inl (400, ''retainRole must be admin, operator, viewer or null'')
           else if keeps \<and> currentOwner = None then
             Inl (409, ''the previous owner no longer has an account to keep a role on'')
           else
             let retained = (case currentOwner of Some (i, email) \<Rightarrow>
                   if keeps then Some (email, i, json_string retainRole) else None | None \<Rightarrow> None);
                 was = (case currentOwner of Some (i, email) \<Rightarrow> email | None \<Rightarrow> ''an account that no longer exists'');
                 kept = (case retained of Some (e, i, role) \<Rightarrow> ''previous owner kept '' @ role | None \<Rightarrow> ''previous owner lost access'')
             in Inr \<lparr>tp_newOwnerId = fst newOwner, tp_retainedShare = retained, tp_dropShareId = existingShare,
                  tp_auditMessage = ''ownership transferred from '' @ was @ '' to '' @ snd newOwner @ ''; '' @ kept\<rparr>)"

definition post_transfer ::
  "time \<Rightarrow> principal \<Rightarrow> string \<Rightarrow> json \<Rightarrow> orch \<Rightarrow> (string \<times> string option) reply \<times> orch" where
  "post_transfer clock p deploymentId body r =
     (case guarded r p deploymentId ServerTransfer of
        Inl e \<Rightarrow> (Inl e, r)
      | Inr (role, d) \<Rightarrow>
          let email = (case jprop body ''email'' of JStr e \<Rightarrow> js_lower (js_trim e) | _ \<Rightarrow> [])
          in if \<not> isEmail email then (Inl (400, ''a valid email is required''), r)
             else case getUserByEmail email r of
               None \<Rightarrow> (Inl (404, ''no account with that email -- ask them to sign up first''), r)
             | Some u \<Rightarrow>
                 (case planTransfer (map_option (\<lambda>w. (u_id w, u_email w)) (getUser (dv_userId d) r)) (u_id u, u_email u)
                     (jprop body ''retainRole'') (map_option su_id (getSubuserFor (dp_id d) (u_email u) r)) of
                    Inl e \<Rightarrow> (Inl e, r)
                  | Inr plan \<Rightarrow>
                      (case transferDeploymentOwner clock \<lparr>tr_deploymentId = dp_id d, tr_newOwnerId = tp_newOwnerId plan,
                            tr_retainedShare = tp_retainedShare plan, tr_dropShareId = tp_dropShareId plan\<rparr> r of
                         (None, r) \<Rightarrow> (Inl (404, ''deployment not found''), r)
                       | (Some c, r) \<Rightarrow>
                           (Inr (sc_userId c, map_option (\<lambda>(e, i, role). role) (tp_retainedShare plan)),
                            appendDeploymentEvent clock (dp_id d) ''ownership-transferred'' (tp_auditMessage plan) r))))"

section \<open>Invitations\<close>

definition get_subusers :: "principal \<Rightarrow> string \<Rightarrow> orch \<Rightarrow> subuser list reply" where
  "get_subusers p deploymentId r =
     and_then (guarded r p deploymentId SubuserManage) (\<lambda>(role, d). Inr (listSubusers (dp_id d) r))"

definition post_subuser :: "time \<Rightarrow> principal \<Rightarrow> string \<Rightarrow> json \<Rightarrow> orch \<Rightarrow> subuser reply \<times> orch" where
  "post_subuser clock p deploymentId body r =
     (case guarded r p deploymentId SubuserManage of
        Inl e \<Rightarrow> (Inl e, r)
      | Inr (_, d) \<Rightarrow>
          (case (jprop body ''email'', jprop body ''role'') of
             (JStr email, role) \<Rightarrow>
               if \<not> isEmail email then (Inl (400, ''a valid email is required''), r)
               else if \<not> isGrantableRole role then (Inl (400, ''role must be admin, operator or viewer''), r)
               else
                 let address = js_lower (js_trim email)
                 in if map_option u_email (getUser (pr_id p) r) = Some address
                    then (Inl (400, ''you already have access to this server''), r)
                    else
                      let invitee = getUserByEmail address r;
                          (s, r) = createSubuser clock (dp_id d) address (json_string role) (map_option u_id invitee)
                            (Some (if invitee = None then ''pending'' else ''active'')) r
                      in (Inr s, r)
           | _ \<Rightarrow> (Inl (400, ''a valid email is required''), r)))"

definition subuser_of :: "string \<Rightarrow> string \<Rightarrow> orch \<Rightarrow> subuser reply" where
  "subuser_of deploymentId sid r =
     (case getSubuser sid r of
        Some s \<Rightarrow> if su_deploymentId s = deploymentId then Inr s else Inl (404, ''subuser not found'')
      | None \<Rightarrow> Inl (404, ''subuser not found''))"

definition patch_subuser :: "principal \<Rightarrow> string \<Rightarrow> string \<Rightarrow> json \<Rightarrow> orch \<Rightarrow> subuser option reply \<times> orch" where
  "patch_subuser p deploymentId sid body r =
     (case and_then (guarded r p deploymentId SubuserManage) (\<lambda>_. subuser_of deploymentId sid r) of
        Inl e \<Rightarrow> (Inl e, r)
      | Inr s \<Rightarrow>
          if \<not> isGrantableRole (jprop body ''role'') then (Inl (400, ''role must be admin, operator or viewer''), r)
          else let (u, r) = updateSubuserRole (su_id s) (json_string (jprop body ''role'')) r in (Inr u, r))"

definition delete_subuser :: "principal \<Rightarrow> string \<Rightarrow> string \<Rightarrow> orch \<Rightarrow> unit reply \<times> orch" where
  "delete_subuser p deploymentId sid r =
     (case and_then (guarded r p deploymentId SubuserManage) (\<lambda>_. subuser_of deploymentId sid r) of
        Inl e \<Rightarrow> (Inl e, r)
      | Inr s \<Rightarrow> (Inr (), deleteSubuser (su_id s) r))"

section \<open>Roles and permissions\<close>

lemma permissions_chain:
  "r \<le> s \<longleftrightarrow> set (role_permissions r) \<subseteq> set (role_permissions s)"
  by (cases r; cases s)
    (simp_all add: less_eq_role_def owner_permissions_def admin_permissions_def operator_permissions_def viewer_permissions_def)

lemma can_Some: "can (Some r) p \<longleftrightarrow> p \<in> set (role_permissions r)"
  by (simp add: can_def)

lemma can_None [simp]: "\<not> can None p"
  by (simp add: can_def)

lemma can_mono: "r \<le> s \<Longrightarrow> can (Some r) p \<Longrightarrow> can (Some s) p"
  using permissions_chain by (auto simp: can_Some)

definition stronger :: "role option \<Rightarrow> role option \<Rightarrow> role option" where
  "stronger b r = (case r of None \<Rightarrow> b
     | Some x \<Rightarrow> (case b of None \<Rightarrow> Some x | Some y \<Rightarrow> if role_index x > role_index y then Some x else b))"

lemma strongest_foldl: "strongestRole rs = foldl stronger None rs"
  by (simp add: strongestRole_def stronger_def [abs_def])

lemma can_stronger: "can (stronger b r) p \<longleftrightarrow> can b p \<or> can r p"
proof (cases b)
  case (Some x)
  show ?thesis
  proof (cases r)
    case (Some y)
    have "x \<le> y \<or> y \<le> x" by (rule linear)
    then show ?thesis
      using can_mono [of x y p] can_mono [of y x p] \<open>b = Some x\<close> Some
      by (auto simp: stronger_def less_eq_role_def linorder_not_less)
  qed (simp add: stronger_def Some)
qed (cases r, simp_all add: stronger_def)

lemma can_foldl_stronger: "can (foldl stronger b rs) p \<longleftrightarrow> can b p \<or> (\<exists>r \<in> set rs. can r p)"
  by (induction rs arbitrary: b) (auto simp: can_stronger)

text \<open>
  Several grants together permit exactly what one of them permits, and a role permits no less
  than a weaker one: the strongest role stands for all of them.
\<close>

theorem grants_combine:
  "(can (strongestRole rs) p \<longleftrightarrow> (\<exists>r \<in> set rs. can r p))
   \<and> (r \<le> s \<longleftrightarrow> set (role_permissions r) \<subseteq> set (role_permissions s))"
  by (simp only: permissions_chain strongest_foldl can_foldl_stronger can_None simp_thms)

lemma strongest_Some: "strongestRole rs = None \<longleftrightarrow> (\<forall>r \<in> set rs. r = None)"
proof -
  have "foldl stronger b rs = None \<longleftrightarrow> b = None \<and> (\<forall>r \<in> set rs. r = None)" for b
    by (induction rs arbitrary: b) (auto simp: stronger_def split: option.splits)
  then show ?thesis by (simp add: strongest_foldl)
qed

lemma grantable_not_owner: "grantable_name s \<noteq> Some Owner"
  by (auto simp: grantable_name_def grantable_roles_def)

lemma grant_never_owner:
  "strongestRole [Option.bind a grantable_name, Option.bind b grantable_name] \<noteq> Some Owner"
  using grantable_not_owner
  by (auto simp: strongest_foldl stronger_def bind_eq_Some_conv split: option.splits)

lemma can_owner_only: "perm \<in> {ServerDelete, ServerTransfer} \<Longrightarrow> can (Some r) perm \<longleftrightarrow> r = Owner"
  by (cases r) (auto simp: can_Some owner_permissions_def admin_permissions_def operator_permissions_def viewer_permissions_def)

lemma resolveRole_owner:
  "resolveRole p ownerId g m = Some Owner \<longleftrightarrow> platform_admin p \<or> pr_id p = ownerId"
  using grant_never_owner by (auto simp: resolveRole_def)

lemma guarded_owner_only:
  assumes "perm \<in> {ServerDelete, ServerTransfer}"
  shows "(\<exists>a. guarded r p i perm = Inr a) \<longleftrightarrow>
      (\<exists>d. getDeployment_o i r = Some d \<and> (platform_admin p \<or> pr_id p = dv_userId d))"
proof (cases "getDeployment_o i r")
  case (Some d)
  then show ?thesis
    using can_owner_only [OF assms] resolveRole_owner [of p "dv_userId d"]
    by (auto simp: guarded_def accessGuard_def resolveAccess_def requirePermission_def and_then_def split: option.split sum.split)
qed (simp add: guarded_def accessGuard_def resolveAccess_def and_then_def)

text \<open>
  C10: Deleting a server, handing it on and putting it in a team pass the guard for its owner and
  the administrators of the installation, and for nobody else, whatever was granted; and a caller
  gets the answer of a missing server exactly when they have no role on it.
\<close>

theorem owner_only:
  "((\<exists>a. guarded r p i ServerDelete = Inr a) \<longleftrightarrow>
      (\<exists>d. getDeployment_o i r = Some d \<and> (platform_admin p \<or> pr_id p = dv_userId d)))
   \<and> ((\<exists>a. guarded r p i ServerTransfer = Inr a) \<longleftrightarrow>
      (\<exists>d. getDeployment_o i r = Some d \<and> (platform_admin p \<or> pr_id p = dv_userId d)))
   \<and> (guarded r p i perm = Inl (404, ''deployment not found'') \<longleftrightarrow> resolveAccess r p i = None)"
  using guarded_owner_only [of ServerDelete] guarded_owner_only [of ServerTransfer]
  by (auto simp: guarded_def accessGuard_def requirePermission_def and_then_def split: option.split)

end
