(* ===== verification/Sharing_Runs.thy ===== *)
theory Sharing_Runs
  imports Sharing
begin

text \<open>
  Runs of the operations on accounts, shares and teams, and what holds in every state they reach:
  addresses and ids name one account, a server has one share per address, an active share is bound
  to the account with its address, and every granted role is one that can be granted.
\<close>

section \<open>The invariant\<close>

definition accounts_ok :: "orch \<Rightarrow> bool" where
  "accounts_ok r = (table u_id (o_users r) (o_drawn r) \<and> one_per u_email (o_users r))"

abbreviation share_place :: "subuser \<Rightarrow> string \<times> string" where
  "share_place s \<equiv> (su_deploymentId s, su_email s)"

definition share_good :: "(string \<times> user) list \<Rightarrow> subuser \<Rightarrow> bool" where
  "share_good users s =
     (grantable_name (su_role s) \<noteq> None
      \<and> (su_status s = ''active'' \<longrightarrow>
          (\<exists>i u. map_of users i = Some u \<and> u_email u = su_email s \<and> su_userId s = Some i)))"

definition sharing_ok :: "orch \<Rightarrow> bool" where
  "sharing_ok r =
     (accounts_ok r \<and> table su_id (o_subusers r) (o_drawn r) \<and> one_per share_place (o_subusers r)
      \<and> (\<forall>k s. map_of (o_subusers r) k = Some s \<longrightarrow> share_good (o_users r) s)
      \<and> (\<forall>m \<in> set (vals (o_members r)). grantable_name (mb_role m) \<noteq> None))"

lemma sharing_okE:
  assumes "sharing_ok r"
  shows "accounts_ok r" "table su_id (o_subusers r) (o_drawn r)" "one_per share_place (o_subusers r)"
    "map_of (o_subusers r) k = Some s \<Longrightarrow> share_good (o_users r) s"
    "m \<in> set (vals (o_members r)) \<Longrightarrow> grantable_name (mb_role m) \<noteq> None"
  using assms by (auto simp: sharing_ok_def)

lemma sharing_ok_start: "sharing_ok new_orch"
  by (simp add: sharing_ok_def accounts_ok_def new_orch_def vals_def)

lemma sharing_okI:
  assumes "accounts_ok r" "table su_id (o_subusers r) (o_drawn r)" "one_per share_place (o_subusers r)"
    "\<And>k s. map_of (o_subusers r) k = Some s \<Longrightarrow> share_good (o_users r) s"
    "\<And>m. m \<in> set (vals (o_members r)) \<Longrightarrow> grantable_name (mb_role m) \<noteq> None"
  shows "sharing_ok r"
  using assms by (simp add: sharing_ok_def)

section \<open>One operation of the store at a time\<close>

lemma accounts_ok_frame: "accounts_ok r \<Longrightarrow> o_users r' = o_users r \<Longrightarrow> o_drawn r \<le> o_drawn r' \<Longrightarrow> accounts_ok r'"
  by (auto simp: accounts_ok_def intro: table_mono)

text \<open>Fewer shares, fewer members, the same accounts.\<close>

lemma sharing_ok_fewer:
  assumes "sharing_ok r" "o_users r' = o_users r" "o_subusers r' = filter q (o_subusers r)"
    "set (vals (o_members r')) \<subseteq> set (vals (o_members r))" "o_drawn r \<le> o_drawn r'"
  shows "sharing_ok r'"
proof (rule sharing_okI)
  have d: "distinct (map fst (o_subusers r))" using assms(1) by (simp add: sharing_ok_def table_def)
  show "accounts_ok r'" using assms by (auto simp: sharing_ok_def intro: accounts_ok_frame)
  show "table su_id (o_subusers r') (o_drawn r')"
    using table_mono [OF table_filter [OF sharing_okE(2) [OF assms(1)]] assms(5)] by (simp add: assms(3))
  show "one_per share_place (o_subusers r')"
    using one_per_filter [OF d sharing_okE(3) [OF assms(1)]] by (simp add: assms(3))
  show "share_good (o_users r') s" if "map_of (o_subusers r') k = Some s" for k s
    using that sharing_okE(4) [OF assms(1)] 
    by (simp add: assms(2,3) map_of_filter_distinct [OF d] split: option.splits if_splits)
  show "grantable_name (mb_role m) \<noteq> None" if "m \<in> set (vals (o_members r'))" for m
    using that assms(4) sharing_okE(5) [OF assms(1)] by blast
qed

lemma sharing_ok_frame:
  assumes "sharing_ok r" "o_users r' = o_users r" "o_subusers r' = o_subusers r" "o_members r' = o_members r"
    "o_drawn r \<le> o_drawn r'"
  shows "sharing_ok r'"
  using assms by (intro sharing_ok_fewer [of r r' "\<lambda>_. True"]) simp_all

lemma share_good_mono:
  "share_good m s \<Longrightarrow> (\<And>k u. map_of m k = Some u \<Longrightarrow> map_of m' k = Some u) \<Longrightarrow> share_good m' s"
  unfolding share_good_def by blast

lemma sharing_ok_user:
  assumes "sharing_ok r" and fresh: "getUserByEmail (u_email u) r = None" and u: "u_id u = uuid (o_drawn r)"
    and r': "o_users r' = AList.update (uuid (o_drawn r)) u (o_users r)" "o_drawn r' = Suc (o_drawn r)"
      "o_subusers r' = o_subusers r" "o_members r' = o_members r"
  shows "sharing_ok r'"
proof (rule sharing_okI)
  have a: "one_per u_email (o_users r)" and t: "table u_id (o_users r) (o_drawn r)"
    using assms(1) by (simp_all add: sharing_ok_def accounts_ok_def)
  have none: "u_email v \<noteq> u_email u" if "map_of (o_users r) k = Some v" for k v
    using fresh that by (simp add: getUserByEmail_def find_vals_None [OF t])
  have "one_per u_email (o_users r')"
    unfolding r' using a none by (auto intro!: one_per_update)
  then show "accounts_ok r'" using table_insert [OF t u] by (simp add: accounts_ok_def r')
  show "table su_id (o_subusers r') (o_drawn r')"
    using table_mono [OF sharing_okE(2) [OF assms(1)]] by (simp add: r')
  show "one_per share_place (o_subusers r')" using sharing_okE(3) [OF assms(1)] by (simp add: r')
  show "share_good (o_users r') s" if "map_of (o_subusers r') k = Some s" for k s
    using that table_fresh [OF t] share_good_mono [OF sharing_okE(4) [OF assms(1)]]
    by (fastforce simp: r')
  show "grantable_name (mb_role m) \<noteq> None" if "m \<in> set (vals (o_members r'))" for m
    using that sharing_okE(5) [OF assms(1)] by (simp add: r')
qed

lemma sharing_ok_claim:
  assumes "sharing_ok r" "map_of (o_users r) i = Some u" "u_email u = email"
  shows "sharing_ok (snd (claimSubuserInvites i email r))"
proof (rule sharing_okI)
  let ?p = "\<lambda>s. su_email s = email \<and> su_status s \<noteq> ''active''"
  let ?f = "\<lambda>s. s\<lparr>su_userId := Some i, su_status := ''active''\<rparr>"
  let ?r = "snd (claimSubuserInvites i email r)"
  have r: "o_subusers ?r = update_where ?p ?f (o_subusers r)" "o_users ?r = o_users r" "o_members ?r = o_members r"
    "o_drawn ?r = o_drawn r"
    by (simp_all add: claimSubuserInvites_def Let_def)
  show "accounts_ok ?r" using sharing_okE(1) [OF assms(1)] by (simp add: accounts_ok_def r)
  show "table su_id (o_subusers ?r) (o_drawn ?r)"
    unfolding r using sharing_okE(2) [OF assms(1)] by (rule table_update_where) simp
  show "one_per share_place (o_subusers ?r)"
    unfolding r using sharing_okE(3) [OF assms(1)] by (rule one_per_update_where) simp
  show "share_good (o_users ?r) w" if w: "map_of (o_subusers ?r) k = Some w" for k w
  proof -
    obtain s where s: "map_of (o_subusers r) k = Some s" "w = (if ?p s then ?f s else s)"
      using w unfolding r map_of_update_where by auto
    show ?thesis using sharing_okE(4) [OF assms(1) s(1)] assms(2,3) unfolding r s(2) by (auto simp: share_good_def)
  qed
  show "grantable_name (mb_role m) \<noteq> None" if "m \<in> set (vals (o_members ?r))" for m
    using that sharing_okE(5) [OF assms(1)] by (simp add: r)
qed

text \<open>Writing one share.\<close>

lemma sharing_ok_put:
  assumes "sharing_ok r" and good: "share_good (o_users r) s"
    and id: "su_id s = uuid (o_drawn r) \<or> (\<exists>old. map_of (o_subusers r) (su_id s) = Some old)"
    and only: "\<And>k t. map_of (o_subusers r) k = Some t \<Longrightarrow> share_place t = share_place s \<Longrightarrow> k = su_id s"
    and r': "r' = r\<lparr>o_subusers := AList.update (su_id s) s (o_subusers r), o_drawn := n\<rparr>"
    and n: "o_drawn r \<le> n" "su_id s = uuid (o_drawn r) \<Longrightarrow> n = Suc (o_drawn r)"
  shows "sharing_ok r'"
proof (rule sharing_okI)
  have t: "table su_id (o_subusers r) (o_drawn r)" using assms(1) by (simp add: sharing_ok_def)
  show "table su_id (o_subusers r') (o_drawn r')"
  proof (cases "su_id s = uuid (o_drawn r)")
    case True
    then show ?thesis using table_insert [OF t, of s] n by (simp add: r')
  next
    case False
    then obtain old where "map_of (o_subusers r) (su_id s) = Some old" using id by blast
    from table_mono [OF table_update [OF t this]] show ?thesis using n(1) by (simp add: r')
  qed
  show "one_per share_place (o_subusers r')"
    unfolding r' using sharing_okE(3) [OF assms(1)] only by (auto intro!: one_per_update)
  show "accounts_ok r'" using accounts_ok_frame [OF sharing_okE(1) [OF assms(1)]] n(1) by (simp add: r')
  show "share_good (o_users r') w" if "map_of (o_subusers r') k = Some w" for k w
    using that good sharing_okE(4) [OF assms(1)] by (simp add: r' split: if_splits)
  show "grantable_name (mb_role m) \<noteq> None" if "m \<in> set (vals (o_members r'))" for m
    using that sharing_okE(5) [OF assms(1)] by (simp add: r')
qed

lemma getSubuserFor_Some:
  assumes "table su_id (o_subusers r) n" "getSubuserFor d e r = Some s"
  shows "map_of (o_subusers r) (su_id s) = Some s" "su_deploymentId s = d" "su_email s = e"
  using find_vals_Some [OF assms(1), of _ s] assms(2) by (auto simp: getSubuserFor_def)

lemma sharing_ok_createSubuser:
  assumes "sharing_ok r" "grantable_name role \<noteq> None"
    and st: "st \<noteq> ''active'' \<or> (\<exists>i u. map_of (o_users r) i = Some u \<and> u_email u = e \<and> who = Some i)"
  shows "sharing_ok (snd (createSubuser t d e role who (Some st) r))"
proof -
  have tb: "table su_id (o_subusers r) (o_drawn r)" using assms(1) by (simp add: sharing_ok_def)
  define s where "s = fst (createSubuser t d e role who (Some st) r)"
  have r': "snd (createSubuser t d e role who (Some st) r) =
      r\<lparr>o_subusers := AList.update (su_id s) s (o_subusers r), o_drawn := Suc (o_drawn r)\<rparr>"
    by (simp add: createSubuser_def s_def Let_def)
  have s: "share_place s = (d, e)" "su_role s = role" "su_status s = st"
    "who = Some i \<Longrightarrow> su_userId s = Some i"
    "su_id s = (case getSubuserFor d e r of None \<Rightarrow> uuid (o_drawn r) | Some x \<Rightarrow> su_id x)" for i
    by (simp_all add: s_def createSubuser_def Let_def)
  have good: "share_good (o_users r) s" using assms(2) st s by (auto simp: share_good_def)
  have id: "su_id s = uuid (o_drawn r) \<or> (\<exists>old. map_of (o_subusers r) (su_id s) = Some old)"
    using s(5) getSubuserFor_Some [OF tb] by (cases "getSubuserFor d e r") auto
  have only: "k = su_id s" if x: "map_of (o_subusers r) k = Some x" "share_place x = share_place s" for k x
  proof (cases "getSubuserFor d e r")
    case None
    then show ?thesis using x s(1) by (auto simp: getSubuserFor_def find_vals_None [OF tb])
  next
    case (Some y)
    then show ?thesis
      using x s(1,5) getSubuserFor_Some [OF tb Some] one_perD [OF sharing_okE(3) [OF assms(1)] x(1), of "su_id y" y]
      by simp
  qed
  show ?thesis by (rule sharing_ok_put [OF assms(1) good id only r']) simp_all
qed

lemma sharing_ok_updateRole:
  assumes "sharing_ok r" "grantable_name role \<noteq> None"
  shows "sharing_ok (snd (updateSubuserRole i role r))"
proof (cases "map_of (o_subusers r) i")
  case (Some s)
  let ?s = "s\<lparr>su_role := role\<rparr>"
  have t: "table su_id (o_subusers r) (o_drawn r)" using assms(1) by (simp add: sharing_ok_def)
  have i: "su_id ?s = i" using table_ident [OF t Some] by simp
  have e: "snd (updateSubuserRole i role r) = r\<lparr>o_subusers := AList.update (su_id ?s) ?s (o_subusers r), o_drawn := o_drawn r\<rparr>"
    by (simp only: i) (simp add: updateSubuserRole_def Some Let_def)
  have good: "share_good (o_users r) ?s"
    using sharing_okE(4) [OF assms(1) Some] assms(2) by (simp add: share_good_def)
  have id: "su_id ?s = uuid (o_drawn r) \<or> (\<exists>old. map_of (o_subusers r) (su_id ?s) = Some old)"
    using Some by (simp only: i) simp
  have only: "k = su_id ?s" if "map_of (o_subusers r) k = Some x" "share_place x = share_place ?s" for k x
    using that one_perD [OF sharing_okE(3) [OF assms(1)] that(1) Some] unfolding i by simp
  have ne: "su_id ?s = uuid (o_drawn r) \<Longrightarrow> o_drawn r = Suc (o_drawn r)"
    using table_fresh [OF t] Some unfolding i by simp
  show ?thesis by (rule sharing_ok_put [OF assms(1) good id only e order_refl ne])
qed (simp add: updateSubuserRole_def assms(1))

lemma vals_update_subset: "set (vals (AList.update k v m)) \<subseteq> insert v (set (vals m))"
  by (induction m) (auto simp: vals_def)

lemma sharing_ok_member:
  assumes "sharing_ok r" "grantable_name role \<noteq> None"
  shows "sharing_ok (snd (addTeamMember t team who role r))" (is "sharing_ok ?r")
proof (rule sharing_okI)
  have r: "o_users ?r = o_users r" "o_subusers ?r = o_subusers r" "o_drawn ?r = Suc (o_drawn r)"
    by (simp_all add: addTeamMember_def Let_def)
  show "accounts_ok ?r" using accounts_ok_frame [OF sharing_okE(1) [OF assms(1)]] by (simp add: r)
  show "table su_id (o_subusers ?r) (o_drawn ?r)" using table_mono [OF sharing_okE(2) [OF assms(1)]] by (simp add: r)
  show "one_per share_place (o_subusers ?r)" using sharing_okE(3) [OF assms(1)] by (simp add: r)
  show "share_good (o_users ?r) s" if "map_of (o_subusers ?r) k = Some s" for k s
    using that sharing_okE(4) [OF assms(1)] by (simp add: r)
  show "grantable_name (mb_role m) \<noteq> None" if "m \<in> set (vals (o_members ?r))" for m
    using that sharing_okE(5) [OF assms(1)] assms(2) vals_update_subset
    by (fastforce simp: addTeamMember_def Let_def)
qed


section \<open>The handlers\<close>

lemma grantable_json: "isGrantableRole v \<Longrightarrow> grantable_name (json_string v) \<noteq> None"
  by (auto simp: isGrantableRole_def json_string_def split: json.splits)

lemma getUser_table: "sharing_ok r \<Longrightarrow> getUser i r = Some u \<Longrightarrow> map_of (o_users r) (u_id u) = Some u \<and> u_id u = i"
  using table_ident [of u_id "o_users r"] by (auto simp: getUser_def sharing_ok_def accounts_ok_def)

lemma getUserByEmail_table:
  "sharing_ok r \<Longrightarrow> getUserByEmail e r = Some u \<Longrightarrow> map_of (o_users r) (u_id u) = Some u \<and> u_email u = e"
  using find_vals_Some [of u_id "o_users r" "o_drawn r" _ u]
  by (auto simp: getUserByEmail_def sharing_ok_def accounts_ok_def)

lemma register_ok: "sharing_ok r \<Longrightarrow> sharing_ok (snd (register hash t inp r))"
proof -
  assume r: "sharing_ok r"
  let ?e = "normalizeEmail (ri_email inp)"
  define u where "u = \<lparr>u_id = uuid (o_drawn r), u_email = ?e,
    u_displayName = display_name (ri_displayName inp) (local_part ?e), u_passwordHash = hash (json_string (ri_password inp)),
    u_platformRole = nullish (ri_platformRole inp) ''user'', u_createdAt = t, u_totpSecret = None, u_totpEnabledAt = None,
    u_emailVerifiedAt = (if ri_verified inp then Some t else None)\<rparr>"
  define r' where "r' = snd (createUser t (uuid (o_drawn r)) ?e (u_displayName u) (u_passwordHash u) (u_platformRole u)
    (u_emailVerifiedAt u) (snd (draw r)))"
  have r': "o_users r' = AList.update (uuid (o_drawn r)) u (o_users r)" "o_drawn r' = Suc (o_drawn r)"
      "o_subusers r' = o_subusers r" "o_members r' = o_members r"
    by (simp_all add: r'_def createUser_def draw_def Let_def u_def)
  show ?thesis
  proof (cases "isValidEmail ?e \<and> passwordProblem (ri_password inp) = None \<and> getUserByEmail ?e r = None")
    case True
    have "snd (register hash t inp r) = snd (claimSubuserInvites (uuid (o_drawn r)) ?e r')"
      using True by (simp add: register_def Let_def draw_def createUser_def split_beta r'_def u_def)
    moreover have "sharing_ok r'"
      using sharing_ok_user [OF r _ _ r'] True by (simp add: u_def)
    then have "sharing_ok (snd (claimSubuserInvites (uuid (o_drawn r)) ?e r'))"
      by (rule sharing_ok_claim [where u = u]) (simp_all add: r' u_def)
    ultimately show ?thesis by simp
  next
    case False
    then show ?thesis using r by (auto simp: register_def Let_def split: option.splits)
  qed
qed

lemma authenticate_ok: "sharing_ok r \<Longrightarrow> sharing_ok (snd (authenticate compare i pw r))"
proof -
  assume r: "sharing_ok r"
  have "sharing_ok (snd (claimSubuserInvites (u_id u) (u_email u) r))"
    if "orElse (getUserByEmail (normalizeEmail x) r) (getUser (js_trim x) r) = Some u" for x u
    using that getUserByEmail_table [OF r, of "normalizeEmail x" u] getUser_table [OF r, of "js_trim x" u]
    by (intro sharing_ok_claim [OF r, where u = u]) (auto simp: orElse_def split: option.splits)
  then show ?thesis using r by (auto simp: authenticate_def split: json.split option.split)
qed

lemma setUserPassword_ok:
  assumes "sharing_ok r"
  shows "sharing_ok (snd (setUserPassword i h r))"
proof (cases "map_of (o_users r) i")
  case (Some u)
  let ?u = "u\<lparr>u_passwordHash := h\<rparr>"
  have r: "snd (setUserPassword i h r) = r\<lparr>o_users := AList.update i ?u (o_users r)\<rparr>"
    by (simp add: setUserPassword_def Some Let_def)
  have t: "table u_id (o_users r) (o_drawn r)" and e: "one_per u_email (o_users r)"
    using assms by (simp_all add: sharing_ok_def accounts_ok_def)
  have "one_per u_email (AList.update i ?u (o_users r))"
    using e one_perD [OF e _ Some] by (auto intro!: one_per_update)
  moreover have "table u_id (AList.update i ?u (o_users r)) (o_drawn r)"
    using table_update [OF t Some, of ?u] table_ident [OF t Some] by simp
  moreover have "share_good (AList.update i ?u (o_users r)) s" if "share_good (o_users r) s" for s
  proof -
    have "\<exists>i' w. map_of (AList.update i ?u (o_users r)) i' = Some w \<and> u_email w = u_email v \<and> su_userId s = Some i'"
      if "map_of (o_users r) j = Some v" "su_userId s = Some j" for j v
      using that Some by (cases "j = i") auto
    then show ?thesis using that unfolding share_good_def by metis
  qed
  ultimately show ?thesis using assms unfolding r by (auto simp: sharing_ok_def accounts_ok_def)
qed (simp add: setUserPassword_def assms)

lemma resetPassword_ok: "sharing_ok r \<Longrightarrow> sharing_ok (snd (resetPassword hash i pw r))"
  using setUserPassword_ok [of r i "hash (json_string pw)"]
  by (auto simp: resetPassword_def split: option.split prod.split)

lemma bootstrap_ok:
  assumes "sharing_ok r"
  shows "sharing_ok (snd (bootstrapOwner hash t a pw n r))"
proof -
  let ?e = "normalizeEmail a" and ?n = "display_name n ''Administrator''"
  define r' where "r' = snd (createUser t (uuid (o_drawn r)) ?e ?n (hash pw) ''owner'' (Some t) (snd (draw r)))"
  have "sharing_ok r'" if "getUserByEmail ?e r = None"
    by (rule sharing_ok_user [OF assms, where u = "\<lparr>u_id = uuid (o_drawn r), u_email = ?e,
      u_displayName = ?n, u_passwordHash = hash pw, u_platformRole = ''owner'', u_createdAt = t, u_totpSecret = None,
      u_totpEnabledAt = None, u_emailVerifiedAt = Some t\<rparr>"])
      (simp_all add: that r'_def createUser_def draw_def Let_def)
  then show ?thesis
    using assms setUserPassword_ok [OF assms]
    by (auto simp: bootstrapOwner_def Let_def split_beta draw_def r'_def split: option.split)
qed

lemma post_subuser_ok: "sharing_ok r \<Longrightarrow> sharing_ok (snd (post_subuser t p d body r))"
proof -
  assume r: "sharing_ok r"
  have "sharing_ok (snd (createSubuser t i a (json_string v) (map_option u_id (getUserByEmail a r))
      (Some (if getUserByEmail a r = None then ''pending'' else ''active'')) r))" if "isGrantableRole v" for i a v
    using getUserByEmail_table [OF r, of a] grantable_json [OF that]
    by (intro sharing_ok_createSubuser [OF r]) auto
  then show ?thesis
    using r by (auto simp: post_subuser_def Let_def split_beta split: sum.split json.split)
qed

lemma patch_subuser_ok: "sharing_ok r \<Longrightarrow> sharing_ok (snd (patch_subuser p d i body r))"
  by (auto simp: patch_subuser_def Let_def split_beta intro!: sharing_ok_updateRole grantable_json split: sum.split)

lemma sharing_ok_deleteSubuser: "sharing_ok r \<Longrightarrow> sharing_ok (deleteSubuser i r)"
  by (rule sharing_ok_fewer [of r _ "\<lambda>(k, _). i \<noteq> k"]) (simp_all add: deleteSubuser_def AList.delete_eq)

lemma delete_subuser_ok: "sharing_ok r \<Longrightarrow> sharing_ok (snd (delete_subuser p d i r))"
  by (auto simp: delete_subuser_def intro!: sharing_ok_deleteSubuser split: sum.split)

lemma transferDeploymentOwner_ok:
  assumes r: "sharing_ok r"
    and kept: "\<And>e i role. tr_retainedShare inp = Some (e, i, role) \<Longrightarrow>
      grantable_name role \<noteq> None \<and> (\<exists>u. map_of (o_users r) i = Some u \<and> u_email u = e)"
  shows "sharing_ok (snd (transferDeploymentOwner t inp r))"
proof (cases "getDeploymentConfig (tr_deploymentId inp) r")
  case (Some c)
  define r1 where "r1 = r\<lparr>o_configs := AList.update (sc_id c) (c\<lparr>sc_userId := tr_newOwnerId inp\<rparr>) (o_configs r)\<rparr>"
  define r2 where "r2 = (case tr_dropShareId inp of None \<Rightarrow> r1 | Some i \<Rightarrow> if i = [] then r1 else deleteSubuser i r1)"
  have "sharing_ok r1" by (rule sharing_ok_frame [OF r]) (simp_all add: r1_def)
  then have r2: "sharing_ok r2" "o_users r2 = o_users r"
    using sharing_ok_deleteSubuser [of r1] by (auto simp: r2_def r1_def deleteSubuser_def split: option.split)
  have "snd (transferDeploymentOwner t inp r) =
      (case tr_retainedShare inp of None \<Rightarrow> r2
       | Some (e, i, role) \<Rightarrow> snd (createSubuser t (tr_deploymentId inp) e role (Some i) (Some ''active'') r2))"
    unfolding r2_def r1_def by (simp add: transferDeploymentOwner_def Some Let_def)
  then show ?thesis
    using r2 kept by (auto split: option.split intro!: sharing_ok_createSubuser)
qed (simp add: transferDeploymentOwner_def r)

lemma planTransfer_kept:
  "planTransfer cur new v s = Inr plan \<Longrightarrow> tp_retainedShare plan = Some (e, i, role) \<Longrightarrow>
     cur = Some (i, e) \<and> grantable_name role \<noteq> None"
  by (auto simp: planTransfer_def Let_def dest: grantable_json split: if_splits option.splits)

text \<open>The transfer the route asks for, once nothing refuses it.\<close>

definition transfer_request :: "orch \<Rightarrow> deployment_detail \<Rightarrow> user \<Rightarrow> json \<Rightarrow> transfer_plan reply" where
  "transfer_request r d u v =
     planTransfer (map_option (\<lambda>w. (u_id w, u_email w)) (getUser (dv_userId d) r)) (u_id u, u_email u) v
       (map_option su_id (getSubuserFor (dp_id d) (u_email u) r))"

definition transfer_of :: "deployment_detail \<Rightarrow> transfer_plan \<Rightarrow> transfer_input" where
  "transfer_of d plan = \<lparr>tr_deploymentId = dp_id d, tr_newOwnerId = tp_newOwnerId plan,
     tr_retainedShare = tp_retainedShare plan, tr_dropShareId = tp_dropShareId plan\<rparr>"

lemma post_transfer_cases:
  obtains e where "post_transfer t p i body r = (Inl e, r)"
  | d u plan role s where "guarded r p i ServerTransfer = Inr (role, d)"
      "getUserByEmail (js_lower (js_trim (json_string (jprop body ''email'')))) r = Some u"
      "transfer_request r d u (jprop body ''retainRole'') = Inr plan"
      "snd (post_transfer t p i body r) =
        (case transferDeploymentOwner t (transfer_of d plan) r of
           (None, s) \<Rightarrow> s | (Some c, s) \<Rightarrow> appendDeploymentEvent t (dp_id d) ''ownership-transferred'' (tp_auditMessage plan) s)"
      "fst (post_transfer t p i body r) =
        (case fst (transferDeploymentOwner t (transfer_of d plan) r) of
           None \<Rightarrow> Inl (404, ''deployment not found'')
         | Some c \<Rightarrow> Inr (sc_userId c, map_option (\<lambda>(e, i, role). role) (tp_retainedShare plan)))"
proof (cases "guarded r p i ServerTransfer")
  case (Inl e)
  then show ?thesis using that(1) by (simp add: post_transfer_def)
next
  case (Inr a)
  obtain role d where a: "guarded r p i ServerTransfer = Inr (role, d)" using Inr by (cases a) auto
  let ?e = "js_lower (js_trim (json_string (jprop body ''email'')))"
  have e: "(case jprop body ''email'' of JStr e \<Rightarrow> js_lower (js_trim e) | _ \<Rightarrow> []) = ?e"
    by (simp add: json_string_def js_lower_def js_trim_def strip_def split: json.split)
  note body = post_transfer_def [of t p i body r, unfolded a e sum.case prod.case Let_def]
  show ?thesis
  proof (cases "isEmail ?e")
    case False
    then show ?thesis using that(1) body by simp
  next
    case True
    show ?thesis
    proof (cases "getUserByEmail ?e r")
      case None
      then show ?thesis using that(1) body True by simp
    next
      case u: (Some u)
      show ?thesis
      proof (cases "transfer_request r d u (jprop body ''retainRole'')")
        case (Inl e)
        then show ?thesis using that(1) body True u by (simp add: transfer_request_def)
      next
        case (Inr plan)
        then have "post_transfer t p i body r =
            (case transferDeploymentOwner t (transfer_of d plan) r of
               (None, r) \<Rightarrow> (Inl (404, ''deployment not found''), r)
             | (Some c, r) \<Rightarrow>
                 (Inr (sc_userId c, map_option (\<lambda>(e, i, role). role) (tp_retainedShare plan)),
                  appendDeploymentEvent t (dp_id d) ''ownership-transferred'' (tp_auditMessage plan) r))"
          using body True u by (simp add: transfer_request_def transfer_of_def)
        then show ?thesis using that(2) [OF a u Inr] by (simp split: prod.split option.split)
      qed
    qed
  qed
qed

lemma post_transfer_ok: "sharing_ok r \<Longrightarrow> sharing_ok (snd (post_transfer t p i body r))"
proof (rule post_transfer_cases [of t p i body r])
  fix d u plan and role :: role
  assume r: "sharing_ok r" and plan: "transfer_request r d u (jprop body ''retainRole'') = Inr plan"
    and snd: "snd (post_transfer t p i body r) =
      (case transferDeploymentOwner t (transfer_of d plan) r of
         (None, s) \<Rightarrow> s | (Some c, s) \<Rightarrow> appendDeploymentEvent t (dp_id d) ''ownership-transferred'' (tp_auditMessage plan) s)"
  have "sharing_ok (snd (transferDeploymentOwner t (transfer_of d plan) r))"
    using planTransfer_kept [OF plan [unfolded transfer_request_def]] getUser_table [OF r, of "dv_userId d"]
    by (intro transferDeploymentOwner_ok [OF r]) (fastforce simp: transfer_of_def)
  moreover have "sharing_ok (appendDeploymentEvent t i ev msg s)" if "sharing_ok s" for s i ev msg
    by (rule sharing_ok_frame [OF that]) (simp_all add: appendDeploymentEvent_def)
  ultimately show ?thesis by (auto simp: snd split: prod.split option.split)
qed simp_all

section \<open>Runs\<close>

datatype share_op =
    Register time register_input
  | SignIn json json
  | ResetPassword string json
  | Bootstrap time string string "string option"
  | Invite time principal string json
  | ChangeShare principal string string json
  | RevokeShare principal string string
  | Transfer time principal string json
  | MakeTeam time principal json
  | DissolveTeam principal string
  | AddMember time principal string json
  | ChangeMember time principal string string json
  | RemoveMember principal string string
  | AttachTeam principal string json
  | NewServer time new_server "string option"
  | Report string status_patch
  | RemoveServer string

fun share_step :: "(string \<Rightarrow> string) \<Rightarrow> (string \<Rightarrow> string \<Rightarrow> bool) \<Rightarrow> orch \<Rightarrow> share_op \<Rightarrow> orch" where
  "share_step hash compare r (Register t inp) = snd (register hash t inp r)"
| "share_step hash compare r (SignIn i pw) = snd (authenticate compare i pw r)"
| "share_step hash compare r (ResetPassword i pw) = snd (resetPassword hash i pw r)"
| "share_step hash compare r (Bootstrap t a pw n) = snd (bootstrapOwner hash t a pw n r)"
| "share_step hash compare r (Invite t p i body) = snd (post_subuser t p i body r)"
| "share_step hash compare r (ChangeShare p i sid body) = snd (patch_subuser p i sid body r)"
| "share_step hash compare r (RevokeShare p i sid) = snd (delete_subuser p i sid r)"
| "share_step hash compare r (Transfer t p i body) = snd (post_transfer t p i body r)"
| "share_step hash compare r (MakeTeam t p body) = snd (post_teams t p body r)"
| "share_step hash compare r (DissolveTeam p i) = snd (delete_team p i r)"
| "share_step hash compare r (AddMember t p i body) = snd (post_member t p i body r)"
| "share_step hash compare r (ChangeMember t p i who body) = snd (patch_member t p i who body r)"
| "share_step hash compare r (RemoveMember p i who) = snd (delete_member p i who r)"
| "share_step hash compare r (AttachTeam p i body) = snd (patch_server_team p i body r)"
| "share_step hash compare r (NewServer t inp n) =
     (let (c, r) = createServerConfig t (inp\<lparr>ns_teamId := None\<rparr>) r in snd (createDeployment t (sc_id c) n r))"
| "share_step hash compare r (Report i patch) = snd (updateDeploymentStatus i patch r)"
| "share_step hash compare r (RemoveServer i) = deleteDeployment i r"

lemma team_handlers_ok:
  assumes "sharing_ok r"
  shows "sharing_ok (snd (post_teams t p body r))" "sharing_ok (snd (delete_team p i r))"
    "sharing_ok (snd (post_member t p i body r))" "sharing_ok (snd (patch_member t p i who body r))"
    "sharing_ok (snd (delete_member p i who r))" "sharing_ok (snd (patch_server_team p i body r))"
proof -
  have frame: "sharing_ok s" if "o_users s = o_users r" "o_subusers s = o_subusers r"
      "set (vals (o_members s)) \<subseteq> set (vals (o_members r))" "o_drawn r \<le> o_drawn s" for s
    using sharing_ok_fewer [OF assms, of s "\<lambda>_. True"] that by simp
  have team: "sharing_ok (deleteTeam j r)" "sharing_ok (removeTeamMember j w r)" for j w
    by (auto intro!: frame simp: deleteTeam_def removeTeamMember_def)
  have "sharing_ok (setServerTeam c g r)" for c g
    by (rule frame) (auto simp: setServerTeam_def split: option.split)
  then show "sharing_ok (snd (patch_server_team p i body r))"
    using assms by (simp add: patch_server_team_def split: sum.split option.split prod.split)
  show "sharing_ok (snd (post_teams t p body r))"
    by (rule frame) (simp_all add: post_teams_def Let_def draw_def createTeam_def split_beta)
  show "sharing_ok (snd (delete_team p i r))" "sharing_ok (snd (delete_member p i who r))"
    using assms team by (simp_all add: delete_team_def delete_member_def split: sum.split)
  show "sharing_ok (snd (post_member t p i body r))" "sharing_ok (snd (patch_member t p i who body r))"
    using assms sharing_ok_member [OF assms]
    by (auto simp: post_member_def patch_member_def split_beta split: sum.split json.split option.split)
qed

lemma share_step_ok:
  assumes "sharing_ok r"
  shows "sharing_ok (share_step hash compare r e)"
proof (cases e)
  case (NewServer t inp n)
  then show ?thesis
    by (auto intro!: sharing_ok_frame [OF assms] simp: createServerConfig_def createDeployment_def Let_def)
next
  case (Report i patch)
  then show ?thesis
    using assms
    by (auto intro!: sharing_ok_frame [OF assms] simp: updateDeploymentStatus_def Let_def split: option.split)
next
  case (RemoveServer i)
  show ?thesis
  proof (cases "map_of (o_deployments r) i")
    case (Some d)
    have s: "o_subusers (deleteDeployment i r) = filter (\<lambda>(k, x). su_deploymentId x \<noteq> i) (o_subusers r)"
      by (simp add: deleteDeployment_def Some drop_where_def)
    show ?thesis unfolding RemoveServer share_step.simps
      by (rule sharing_ok_fewer [OF assms _ s]) (simp_all add: deleteDeployment_def Some)
  qed (simp add: RemoveServer deleteDeployment_def assms)
qed (simp_all add: assms register_ok authenticate_ok resetPassword_ok bootstrap_ok post_subuser_ok patch_subuser_ok
       delete_subuser_ok post_transfer_ok team_handlers_ok)

section \<open>Servers and teams\<close>

text \<open>Deployments and teams lie under their own ids, and no member belongs to a nameless team.\<close>

definition places_ok :: "orch \<Rightarrow> bool" where
  "places_ok r = (table dp_id (o_deployments r) (o_drawn r) \<and> table tm_id (o_teams r) (o_drawn r)
     \<and> (\<forall>m \<in> set (vals (o_members r)). mb_teamId m \<noteq> []))"

lemma places_ok_frame:
  assumes "places_ok r" "o_deployments r' = o_deployments r" "o_teams r' = o_teams r"
    "set (vals (o_members r')) \<subseteq> set (vals (o_members r))" "o_drawn r \<le> o_drawn r'"
  shows "places_ok r'"
  using assms by (auto simp: places_ok_def intro: table_mono)

lemma uuid_nonempty [simp]: "uuid n \<noteq> []"
  by (simp add: uuid_def)

lemma teamGuard_id:
  assumes "places_ok r" "teamGuard r p i = Inr (rel, t)"
  shows "tm_id t = i \<and> tm_id t \<noteq> []"
proof -
  have "map_of (o_teams r) i = Some t"
    using assms(2) by (auto simp: teamGuard_def teamAccessFor_def getTeam_def Let_def split: option.splits)
  then show ?thesis using assms(1) unfolding places_ok_def table_def by (metis uuid_nonempty)
qed

lemma places_ok_member:
  assumes "places_ok r" "team \<noteq> []"
  shows "places_ok (snd (addTeamMember t team who role r))"
  using assms vals_update_subset
  by (fastforce simp: places_ok_def addTeamMember_def Let_def intro: table_mono)

lemma places_same:
  "o_deployments (snd (createSubuser t d e role who st r)) = o_deployments r"
  "o_teams (snd (createSubuser t d e role who st r)) = o_teams r"
  "o_members (snd (createSubuser t d e role who st r)) = o_members r"
  "o_drawn (snd (createSubuser t d e role who st r)) = Suc (o_drawn r)"
  "o_deployments (snd (claimSubuserInvites i e r)) = o_deployments r"
  "o_teams (snd (claimSubuserInvites i e r)) = o_teams r"
  "o_members (snd (claimSubuserInvites i e r)) = o_members r"
  "o_drawn (snd (claimSubuserInvites i e r)) = o_drawn r"
  "o_deployments (deleteSubuser i r) = o_deployments r" "o_teams (deleteSubuser i r) = o_teams r"
  "o_members (deleteSubuser i r) = o_members r" "o_drawn (deleteSubuser i r) = o_drawn r"
  by (simp_all add: createSubuser_def claimSubuserInvites_def deleteSubuser_def Let_def)

lemma places_password: "places_ok r \<Longrightarrow> places_ok (snd (setUserPassword i h r))"
  by (rule places_ok_frame [of r]) (auto simp: setUserPassword_def Let_def split: option.split)

lemma places_transfer: "places_ok r \<Longrightarrow> places_ok (snd (transferDeploymentOwner t inp r))"
  by (rule places_ok_frame [of r])
    (auto simp: transferDeploymentOwner_def Let_def places_same split: option.split)

lemma places_step:
  assumes r: "places_ok r"
  shows "places_ok (share_step hash compare r e)"
proof (cases e)
  case (Register t inp)
  show ?thesis unfolding Register
    by (rule places_ok_frame [OF r])
      (auto simp: register_def Let_def draw_def createUser_def split_beta places_same split: option.split)
next
  case (SignIn i pw)
  show ?thesis unfolding SignIn
    by (rule places_ok_frame [OF r]) (auto simp: authenticate_def places_same split: json.split option.split)
next
  case (ResetPassword i pw)
  then show ?thesis using r places_password [OF r, of i "hash (json_string pw)"]
    by (auto simp: resetPassword_def split: option.split prod.split)
next
  case (Bootstrap t a pw n)
  have "places_ok (snd (createUser t j x y z w v (snd (draw r))))" for j x y z w v
    by (rule places_ok_frame [OF r]) (simp_all add: createUser_def draw_def Let_def)
  then show ?thesis using r places_password [OF r]
    by (auto simp: Bootstrap bootstrapOwner_def Let_def split_beta split: option.split)
next
  case (Invite t p i body)
  show ?thesis unfolding Invite
    by (rule places_ok_frame [OF r])
      (auto simp: post_subuser_def Let_def split_beta places_same split: json.split sum.split)
next
  case (ChangeShare p i sid body)
  show ?thesis unfolding ChangeShare
    by (rule places_ok_frame [OF r])
      (auto simp: patch_subuser_def updateSubuserRole_def Let_def split_beta split: option.split sum.split)
next
  case (RevokeShare p i sid)
  show ?thesis unfolding RevokeShare
    by (rule places_ok_frame [OF r]) (auto simp: delete_subuser_def places_same split: sum.split)
next
  case (Transfer t p i body)
  have audit: "places_ok (appendDeploymentEvent t j ev msg s)" if "places_ok s" for s j ev msg
    by (rule places_ok_frame [OF that]) (simp_all add: appendDeploymentEvent_def)
  show ?thesis
  proof (rule post_transfer_cases [of t p i body r])
    fix d plan
    assume "snd (post_transfer t p i body r) =
      (case transferDeploymentOwner t (transfer_of d plan) r of
         (None, s) \<Rightarrow> s | (Some c, s) \<Rightarrow> appendDeploymentEvent t (dp_id d) ''ownership-transferred'' (tp_auditMessage plan) s)"
    then show ?thesis using places_transfer [OF r, of t "transfer_of d plan"] audit
      by (auto simp: Transfer split: prod.split option.split)
  qed (simp add: Transfer r)
next
  case (MakeTeam t p body)
  have "table tm_id (AList.update (uuid (o_drawn r)) \<lparr>tm_id = uuid (o_drawn r), tm_name = nm, tm_ownerId = w, tm_createdAt = t\<rparr>
      (o_teams r)) (Suc (o_drawn r))" for nm w
    using r by (intro table_insert) (simp_all add: places_ok_def)
  then show ?thesis using r
    by (auto simp: MakeTeam post_teams_def Let_def draw_def createTeam_def split_beta places_ok_def intro: table_mono)
next
  case (DissolveTeam p i)
  have "places_ok (deleteTeam j r)" for j
    using r by (auto simp: deleteTeam_def places_ok_def intro: table_delete)
  then show ?thesis using r by (simp add: DissolveTeam delete_team_def split: sum.split)
next
  case (AddMember t p i body)
  then show ?thesis using r
    by (auto simp: post_member_def and_then_def split_beta split: sum.split sum.split_asm json.split option.split if_splits
        intro!: places_ok_member dest: teamGuard_id)
next
  case (ChangeMember t p i who body)
  then show ?thesis using r
    by (auto simp: patch_member_def and_then_def split_beta split: sum.split sum.split_asm json.split option.split if_splits
        intro!: places_ok_member dest: teamGuard_id)
next
  case (RemoveMember p i who)
  have "places_ok (removeTeamMember j who r)" for j
    by (rule places_ok_frame [OF r]) (auto simp: removeTeamMember_def)
  then show ?thesis using r by (simp add: RemoveMember delete_member_def split: sum.split)
next
  case (AttachTeam p i body)
  have "places_ok (setServerTeam c g r)" for c g
    by (rule places_ok_frame [OF r]) (auto simp: setServerTeam_def split: option.split)
  then show ?thesis using r by (simp add: AttachTeam patch_server_team_def split: sum.split option.split prod.split)
next
  case (NewServer t inp n)
  show ?thesis using r unfolding NewServer
    by (auto simp: places_ok_def createServerConfig_def createDeployment_def Let_def intro!: table_insert intro: table_mono)
next
  case (Report i patch)
  show ?thesis
  proof (cases "map_of (o_deployments r) i")
    case (Some d)
    have "table dp_id (o_deployments r) (o_drawn r)" using r by (simp add: places_ok_def)
    from table_update [OF this Some, of "patch_deployment patch d"] table_ident [OF this Some]
    show ?thesis using r
      by (simp add: Report updateDeploymentStatus_def Some Let_def places_ok_def patch_deployment_def)
  qed (simp add: Report updateDeploymentStatus_def r)
next
  case (RemoveServer i)
  show ?thesis using r unfolding RemoveServer
    by (auto simp: deleteDeployment_def places_ok_def intro: table_delete split: option.split)
qed

definition share_state :: "orch \<Rightarrow> bool" where
  "share_state r = (sharing_ok r \<and> places_ok r)"

interpretation sharing: machine "share_step hash compare" "\<lambda>_. True" share_state
  by unfold_locales (simp add: share_state_def share_step_ok places_step)

lemma share_state_start: "share_state new_orch"
  by (simp add: share_state_def sharing_ok_start) (simp add: places_ok_def new_orch_def vals_def)

section \<open>The list and the guard\<close>

lemma toView_fields: "toView r d = Some v \<Longrightarrow> dp_id v = dp_id d"
  by (auto simp: toView_def deployment.defs split: option.splits)

lemma set_newest_first [simp]: "set (newest_first key xs) = set xs"
  by (simp add: newest_first_def)

lemma set_map_filter: "set (List.map_filter f xs) = {y. \<exists>x \<in> set xs. f x = Some y}"
  by (auto simp: List.map_filter_def) force

lemma listDeployments_mem:
  "places_ok r \<Longrightarrow> v \<in> set (listDeployments r) \<longleftrightarrow>
     (\<exists>d. map_of (o_deployments r) (dp_id v) = Some d \<and> toView r d = Some v)"
  using toView_fields
  by (fastforce simp: listDeployments_def set_map_filter mem_vals places_ok_def table_def)

lemma getDeployment_view:
  "getDeployment_o i r = Some d \<Longrightarrow>
     \<exists>x v. map_of (o_deployments r) i = Some x \<and> toView r x = Some v \<and> dv_userId d = dv_userId v \<and> dv_teamId d = dv_teamId v
       \<and> dp_id d = dp_id v"
  by (auto simp: getDeployment_o_def deployment_view.defs split: option.splits)

lemma getDeployment_exists:
  "map_of (o_deployments r) i = Some x \<Longrightarrow> toView r x = Some v \<Longrightarrow> \<exists>d. getDeployment_o i r = Some d"
  by (auto simp: getDeployment_o_def toView_def split: option.splits)

lemma bound_share_iff:
  assumes s: "sharing_ok r" and u: "getUser (pr_id p) r = Some u"
  shows "Option.bind (map_option su_role (bound_share p d r)) grantable_name \<noteq> None \<longleftrightarrow>
    (\<exists>s \<in> set (vals (o_subusers r)). su_deploymentId s = d \<and> su_userId s = Some (pr_id p) \<and> su_status s = ''active'')"
proof
  assume "Option.bind (map_option su_role (bound_share p d r)) grantable_name \<noteq> None"
  then obtain x where "getSubuserFor d (u_email u) r = Some x" "su_status x = ''active''" "su_userId x = Some (pr_id p)"
    by (auto simp: bound_share_def u split: option.splits if_splits)
  then show "\<exists>s \<in> set (vals (o_subusers r)). su_deploymentId s = d \<and> su_userId s = Some (pr_id p) \<and> su_status s = ''active''"
    by (auto simp: getSubuserFor_def dest!: find_Some_mem)
next
  assume "\<exists>s \<in> set (vals (o_subusers r)). su_deploymentId s = d \<and> su_userId s = Some (pr_id p) \<and> su_status s = ''active''"
  then obtain k x where x: "map_of (o_subusers r) k = Some x" "su_deploymentId x = d" "su_userId x = Some (pr_id p)"
      "su_status x = ''active''"
    using sharing_okE(2) [OF s] by (auto simp: mem_vals table_def)
  have t: "table su_id (o_subusers r) (o_drawn r)" using sharing_okE(2) [OF s] .
  have g: "share_good (o_users r) x" using sharing_okE(4) [OF s x(1)] .
  then have e: "su_email x = u_email u" using u x(3,4) by (auto simp: share_good_def getUser_def)
  have "getSubuserFor d (u_email u) r \<noteq> None"
    unfolding getSubuserFor_def find_vals_None [OF t] using x(1,2) e by blast
  then obtain y where y: "getSubuserFor d (u_email u) r = Some y" by blast
  from one_perD [OF sharing_okE(3) [OF s] x(1) getSubuserFor_Some(1) [OF t y]] getSubuserFor_Some [OF t y] x e
  have "y = x" by simp
  then have "bound_share p d r = Some x" using u y x by (simp add: bound_share_def)
  then show "Option.bind (map_option su_role (bound_share p d r)) grantable_name \<noteq> None"
    using g by (auto simp: share_good_def)
qed

lemma team_iff:
  assumes s: "sharing_ok r" "places_ok r"
  shows "Option.bind (map_option mb_role (team_of_caller p g r)) grantable_name \<noteq> None \<longleftrightarrow>
    (case g of None \<Rightarrow> False | Some t \<Rightarrow> t \<in> mb_teamId ` set [m \<leftarrow> vals (o_members r). mb_userId m = pr_id p])"
proof (cases g)
  case (Some t)
  show ?thesis
  proof (cases "\<exists>m \<in> set (vals (o_members r)). mb_teamId m = t \<and> mb_userId m = pr_id p")
    case True
    then have "t \<noteq> []" using s(2) by (auto simp: places_ok_def)
    moreover obtain m where m: "getTeamMember t (pr_id p) r = Some m"
      using True by (cases "getTeamMember t (pr_id p) r") (auto simp: getTeamMember_def find_None_iff)
    then have "m \<in> set (vals (o_members r))" by (auto simp: getTeamMember_def dest!: find_Some_mem)
    then have "grantable_name (mb_role m) \<noteq> None" using sharing_okE(5) [OF s(1)] by blast
    ultimately show ?thesis using True m by (auto simp: Some team_of_caller_def given_def)
  next
    case False
    then have "getTeamMember t (pr_id p) r = None" by (auto simp: getTeamMember_def find_None_iff)
    then show ?thesis using False by (auto simp: Some team_of_caller_def given_def)
  qed
qed (simp add: team_of_caller_def given_def)

lemma resolveRole_iff:
  "\<not> platform_admin p \<Longrightarrow>
     resolveRole p ownerId g m \<noteq> None \<longleftrightarrow>
       pr_id p = ownerId \<or> Option.bind g grantable_name \<noteq> None \<or> Option.bind m grantable_name \<noteq> None"
  using strongest_Some [of "[Option.bind g grantable_name, Option.bind m grantable_name]"]
  by (simp add: resolveRole_def del: not_None_eq)

lemma visible_if:
  assumes s: "share_state r" and u: "getUser (pr_id p) r = Some u" and p: "\<not> platform_admin p"
  shows "i \<in> dp_id ` set (listDeploymentsForUser (pr_id p) r) \<longleftrightarrow> resolveAccess r p i \<noteq> None"
proof -
  have sh: "sharing_ok r" and pl: "places_ok r" using s by (simp_all add: share_state_def)
  have role: "resolveRole p w (map_option su_role (bound_share p d r)) (map_option mb_role (team_of_caller p g r)) \<noteq> None \<longleftrightarrow>
      w = pr_id p \<or> d \<in> su_deploymentId ` set [s \<leftarrow> vals (o_subusers r). su_userId s = Some (pr_id p) \<and> su_status s = ''active'']
      \<or> (case g of None \<Rightarrow> False | Some t \<Rightarrow> t \<in> mb_teamId ` set [m \<leftarrow> vals (o_members r). mb_userId m = pr_id p])" for w d g
    unfolding resolveRole_iff [OF p] bound_share_iff [OF sh u] team_iff [OF sh pl] by (auto simp: image_iff)
  show ?thesis
  proof
    assume "i \<in> dp_id ` set (listDeploymentsForUser (pr_id p) r)"
    then obtain v where v0: "v \<in> set (listDeploymentsForUser (pr_id p) r)" "dp_id v = i" by blast
    have v: "v \<in> set (listDeployments r)" "dp_id v = i"
      "resolveRole p (dv_userId v) (map_option su_role (bound_share p (dp_id v) r)) (map_option mb_role (team_of_caller p (dv_teamId v) r)) \<noteq> None"
      unfolding role using v0 by (simp_all add: listDeploymentsForUser_def Let_def cong: option.case_cong)
    then obtain x where x: "map_of (o_deployments r) i = Some x" "toView r x = Some v"
      using listDeployments_mem [OF pl] by auto
    obtain d where d: "getDeployment_o i r = Some d" using getDeployment_exists [OF x] by blast
    from getDeployment_view [OF d] x have "dv_userId d = dv_userId v" "dv_teamId d = dv_teamId v" "dp_id d = dp_id v" by auto
    then show "resolveAccess r p i \<noteq> None" using v(3) by (auto simp: resolveAccess_def d)
  next
    assume "resolveAccess r p i \<noteq> None"
    then obtain d where d: "getDeployment_o i r = Some d"
      "resolveRole p (dv_userId d) (map_option su_role (bound_share p (dp_id d) r)) (map_option mb_role (team_of_caller p (dv_teamId d) r)) \<noteq> None"
      by (auto simp: resolveAccess_def split: option.splits)
    from getDeployment_view [OF d(1)] obtain x v where x: "map_of (o_deployments r) i = Some x" "toView r x = Some v"
      "dv_userId d = dv_userId v" "dv_teamId d = dv_teamId v" "dp_id d = dp_id v" by blast
    have "dp_id v = i" using toView_fields [OF x(2)] x(1) pl by (auto simp: places_ok_def table_def)
    moreover have "v \<in> set (listDeployments r)" using listDeployments_mem [OF pl] x(1,2) \<open>dp_id v = i\<close> by auto
    ultimately have "v \<in> set (listDeploymentsForUser (pr_id p) r)"
      using d(2) by (simp add: listDeploymentsForUser_def Let_def role x(3-5) del: not_None_eq cong: option.case_cong)
    then show "i \<in> dp_id ` set (listDeploymentsForUser (pr_id p) r)" using \<open>dp_id v = i\<close> by blast
  qed
qed

text \<open>
  C11: In every state that registrations, sign-ins, invitations, transfers and team operations
  reach, the servers in a caller's list are exactly those the guard opens to them.
\<close>

theorem visible_exact:
  assumes "getUser (pr_id p) (foldl (share_step hash compare) new_orch ops) \<noteq> None" "\<not> platform_admin p"
  shows "dp_id ` set (listDeploymentsForUser (pr_id p) (foldl (share_step hash compare) new_orch ops)) =
    {i. resolveAccess (foldl (share_step hash compare) new_orch ops) p i \<noteq> None}"
  using visible_if [OF sharing.run_inv [OF share_state_start] _ assms(2)] assms(1) by blast

definition sample_person :: register_input where
  "sample_person = \<lparr>ri_email = ''ann@x.y'', ri_password = JStr ''longenough'', ri_displayName = None,
     ri_platformRole = None, ri_verified = False\<rparr>"

definition sample_caller :: principal where
  "sample_caller = \<lparr>pr_id = uuid 0, pr_platformRole = ''user''\<rparr>"

lemma sample_known:
  "getUser (pr_id sample_caller) (foldl (share_step id (=)) new_orch [Register 1 sample_person]) \<noteq> None"
  by (code_simp)

lemma visible_exact_witness:
  "dp_id ` set (listDeploymentsForUser (uuid 0) (foldl (share_step id (=)) new_orch [Register 1 sample_person])) =
    {i. resolveAccess (foldl (share_step id (=)) new_orch [Register 1 sample_person]) sample_caller i \<noteq> None}"
  using visible_exact [OF sample_known] by (simp add: sample_caller_def platform_admin_def)

section \<open>An invitation to the owner survives a transfer\<close>

text \<open>
  A server administrator can invite the owner's own address: only the inviter's address is refused.
  Handing the server on without a role for the previous owner drops no such share, so the audit
  trail says that access was lost while the guard still opens the server.
\<close>

definition person :: "string \<Rightarrow> register_input" where
  "person e = \<lparr>ri_email = e, ri_password = JStr ''longenough'', ri_displayName = None,
     ri_platformRole = None, ri_verified = False\<rparr>"

definition caller :: "nat \<Rightarrow> principal" where
  "caller n = \<lparr>pr_id = uuid n, pr_platformRole = ''user''\<rparr>"

definition invitation :: "string \<Rightarrow> string \<Rightarrow> json" where
  "invitation e role = JObj [(''email'', JStr e), (''role'', JStr role)]"

definition handover :: orch where
  "handover = foldl (share_step id (=)) new_orch
     [Register 1 (person ''a@x.y''), Register 2 (person ''b@x.y''), Register 3 (person ''c@x.y''),
      NewServer 4 \<lparr>ns_userId = uuid 0, ns_teamId = None, ns_name = ''s'', ns_dockerImage = ''i'', ns_ports = None,
        ns_env = None, ns_resourceLimits = None, ns_autoRestart = None, ns_dataPath = None, ns_persistPaths = None,
        ns_type = None\<rparr> None,
      Invite 5 (caller 0) (uuid 4) (invitation ''b@x.y'' ''admin''),
      Invite 6 (caller 1) (uuid 4) (invitation ''a@x.y'' ''viewer''),
      Transfer 7 (caller 0) (uuid 4) (JObj [(''email'', JStr ''c@x.y''), (''retainRole'', JNull)])]"

lemma old_owner_keeps_access:
  "map_option fst (resolveAccess handover (caller 0) (uuid 4)) = Some Viewer
   \<and> map ev_message (o_events handover) = [''ownership transferred from a@x.y to c@x.y; previous owner lost access'']"
  by code_simp

end
