(* ===== verification/Nodes.thy ===== *)
theory Nodes
  imports Orch_Repo "HOL-Library.List_Lexorder" "HOL-Library.Char_ord"
begin

text \<open>
  The fleet: liveness from heartbeats (\<^verbatim>\<open>nodeRegistry.ts\<close>), placement
  (\<^verbatim>\<open>nodeSelection.ts\<close>), what a node has promised (\<^verbatim>\<open>capacity.ts\<close>), the memory of a server and
  the heap inside it (\<^verbatim>\<open>memory.ts\<close>), and the memory a plan allows (\<^verbatim>\<open>entitlements.ts\<close>).
  Numbers that the source rounds with \<open>Math.round\<close> are integers; the arithmetic before the
  rounding is binary64's.

  The lemmas: the chosen node is the best eligible one whatever the order of the list, a heartbeat
  never loses what a node reported before, and the heap derived from a memory cap fits it, and is
  as large as fits up to one megabyte.
\<close>

section \<open>Health and heartbeats\<close>

datatype node_health = Healthy | Degraded | Offline

definition degraded_ms :: int where "degraded_ms = 3000"
definition offline_ms :: int where "offline_ms = 10000"

definition nodeHealth :: "node \<Rightarrow> time \<Rightarrow> node_health" where
  "nodeHealth n now =
     (let age = now - nd_lastHeartbeat n
      in if age \<ge> offline_ms then Offline else if age \<ge> degraded_ms then Degraded else Healthy)"

record resources =
  rs_cpuPercent :: "rat option"
  rs_cpuCores :: "rat option"
  rs_ramUsedMb :: "rat option"
  rs_ramTotalMb :: "rat option"
  rs_diskUsedGb :: "rat option"
  rs_diskTotalGb :: "rat option"

record heartbeat =
  hb_nodeId :: "string option"
  hb_timestamp :: "time option"
  hb_agentUrl :: "string option"
  hb_connection :: "string option"
  hb_resources :: "resources option"

definition beat_of :: "time \<Rightarrow> string \<Rightarrow> heartbeat \<Rightarrow> node_beat" where
  "beat_of clock nodeId h =
     (let res = (\<lambda>f. case hb_resources h of None \<Rightarrow> None | Some s \<Rightarrow> f s)
      in \<lparr>nb_id = nodeId, nb_name = None, nb_location = None, nb_ipAddress = None, nb_agentUrl = hb_agentUrl h,
          nb_lastHeartbeat = nullish (hb_timestamp h) clock,
          nb_cpuPercent = res rs_cpuPercent, nb_cpuCores = res rs_cpuCores, nb_ramUsedMb = res rs_ramUsedMb,
          nb_ramTotalMb = res rs_ramTotalMb, nb_diskUsedGb = res rs_diskUsedGb, nb_diskTotalGb = res rs_diskTotalGb,
          nb_connection = (if hb_connection h = Some ''outbound'' then Some Outbound else None)\<rparr>)"

definition handleHeartbeat :: "time \<Rightarrow> heartbeat \<Rightarrow> orch \<Rightarrow> orch" where
  "handleHeartbeat clock h r =
     (case given (hb_nodeId h) of None \<Rightarrow> r | Some nodeId \<Rightarrow> snd (upsertNode (beat_of clock nodeId h) r))"

section \<open>Placement\<close>

definition nodeLoad :: "node \<Rightarrow> rat" where
  "nodeLoad n =
     jadd (case nd_cpuPercent n of Some c \<Rightarrow> jdiv c 100 | None \<Rightarrow> 1 / 2)
       (case (nd_ramTotalMb n, nd_ramUsedMb n) of
          (Some t, Some u) \<Rightarrow> if t > 0 then jdiv u t else 1 / 2 | _ \<Rightarrow> 1 / 2)"

definition eligible :: "time \<Rightarrow> node \<Rightarrow> bool" where
  "eligible now n = (nodeHealth n now = Healthy \<and> \<not> nd_maintenance n)"

definition better :: "node \<Rightarrow> node \<Rightarrow> node" where
  "better best c =
     (if nodeLoad c < nodeLoad best then c
      else if nodeLoad c = nodeLoad best \<and> nd_id c < nd_id best then c else best)"

definition selectNode :: "node list \<Rightarrow> time \<Rightarrow> node option" where
  "selectNode nodes now =
     (case filter (eligible now) nodes of [] \<Rightarrow> None | n # ns \<Rightarrow> Some (foldl better n ns))"

section \<open>Capacity\<close>

record node_capacity =
  nc_ramTotalMb :: "rat option"
  nc_ramCommittedMb :: int
  nc_ramUsedMb :: "rat option"
  nc_cpuCoresTotal :: "rat option"
  nc_cpuCoresCommitted :: rat
  nc_cpuUsedPercent :: "rat option"

definition positive :: "rat option \<Rightarrow> rat option" where
  "positive x = (case x of Some v \<Rightarrow> if v > 0 then Some v else None | None \<Rightarrow> None)"

text \<open>A percentage of what the node has.\<close>

definition share_of :: "rat \<Rightarrow> rat \<Rightarrow> rat" where
  "share_of percent tot = jmul (jdiv percent 100) tot"

definition committedRamMb :: "limits \<Rightarrow> rat option \<Rightarrow> int" where
  "committedRamMb l tot =
     (case positive (ramMb l) of Some m \<Rightarrow> jround m
      | None \<Rightarrow> (case (positive (ramPercent l), positive tot) of (Some p, Some t) \<Rightarrow> jround (share_of p t) | _ \<Rightarrow> 0))"

definition committedCpuCores :: "limits \<Rightarrow> rat option \<Rightarrow> rat" where
  "committedCpuCores l ncores =
     (case positive (cpuCores l) of Some c \<Rightarrow> c
      | None \<Rightarrow> (case (positive (cpuPercent l), positive ncores) of (Some p, Some t) \<Rightarrow> share_of p t | _ \<Rightarrow> 0))"

definition cores :: "rat \<Rightarrow> rat" where
  "cores n = jdiv (of_int (jround (jmul n 100))) 100"

definition nodeCapacity :: "node \<Rightarrow> deployment_view list \<Rightarrow> node_capacity" where
  "nodeCapacity n ds =
     (let here = [d \<leftarrow> ds. dp_nodeId d = Some (nd_id n)]
      in \<lparr>nc_ramTotalMb = nd_ramTotalMb n,
          nc_ramCommittedMb = sum_list (map (\<lambda>d. committedRamMb (dv_resourceLimits d) (nd_ramTotalMb n)) here),
          nc_ramUsedMb = nd_ramUsedMb n,
          nc_cpuCoresTotal = nd_cpuCores n,
          nc_cpuCoresCommitted = cores (foldl (\<lambda>s d. jadd s (committedCpuCores (dv_resourceLimits d) (nd_cpuCores n))) 0 here),
          nc_cpuUsedPercent = nd_cpuPercent n\<rparr>)"

definition availableRamMb :: "node_capacity \<Rightarrow> rat option" where
  "availableRamMb c = map_option (\<lambda>t. max 0 (jsub t (of_int (nc_ramCommittedMb c)))) (nc_ramTotalMb c)"

definition availableCpuCores :: "node_capacity \<Rightarrow> rat option" where
  "availableCpuCores c = map_option (\<lambda>t. cores (max 0 (jsub t (nc_cpuCoresCommitted c)))) (nc_cpuCoresTotal c)"

definition isOverCommitted :: "node_capacity \<Rightarrow> bool" where
  "isOverCommitted c =
     ((case nc_ramTotalMb c of None \<Rightarrow> False | Some t \<Rightarrow> of_int (nc_ramCommittedMb c) > t)
      \<or> (case nc_cpuCoresTotal c of None \<Rightarrow> False | Some t \<Rightarrow> nc_cpuCoresCommitted c > t))"

section \<open>Memory\<close>

text \<open>
  \<open>^(\d+(?:\.\d+)?)\s*([gmk])?b?$\<close> without regard to case: the digits, an optional fraction,
  spaces, a unit, a \<open>b\<close>.
\<close>

definition memory_unit :: "string \<Rightarrow> char option \<times> string" where
  "memory_unit s =
     (case s of [] \<Rightarrow> (None, [])
      | c # rest \<Rightarrow> if js_lower_char c \<in> set ''gmk'' then (Some (js_lower_char c), rest) else (None, s))"

definition parse_amount :: "string \<Rightarrow> (rat \<times> string) option" where
  "parse_amount s =
     (let a = takeWhile digit s; rest = dropWhile digit s
      in if a = [] then None
         else case rest of
           [] \<Rightarrow> Some (b64 (of_nat (digits_val a)), [])
         | c # ds \<Rightarrow>
             if c \<noteq> CHR ''.'' then Some (b64 (of_nat (digits_val a)), rest)
             else
               let f = takeWhile digit ds
               in if f = [] then None
                  else Some (b64 (of_nat (digits_val (a @ f)) / 10 ^ length f), dropWhile digit ds))"

definition parseMemoryMb :: "string \<Rightarrow> int option" where
  "parseMemoryMb value =
     (case parse_amount (js_trim value) of
        None \<Rightarrow> None
      | Some (amount, rest) \<Rightarrow>
          (let (u, tail) = memory_unit (dropWhile js_space rest)
           in if \<not> (tail = [] \<or> map js_lower_char tail = ''b'') then None
              else if amount \<le> 0 \<or> amount \<ge> 2 ^ 1024 then None
              else if u = Some (CHR ''g'') then Some (jround (jmul amount 1024))
              else if u = Some (CHR ''k'') then Some (jround (jdiv amount 1024))
              else Some (jround amount)))"

definition containerMemoryMb :: "limits \<Rightarrow> rat option \<Rightarrow> int option" where
  "containerMemoryMb l tot =
     (case positive (ramMb l) of Some m \<Rightarrow> Some (jround m)
      | None \<Rightarrow> (case (positive (ramPercent l), positive tot) of (Some p, Some t) \<Rightarrow> Some (jround (share_of p t)) | _ \<Rightarrow> None))"

definition jvmOverheadMb :: "int \<Rightarrow> int" where
  "jvmOverheadMb heap = max 512 (jround (jmul (of_int heap) (1 / 4)))"

definition largestHeapForCap :: "int \<Rightarrow> int" where
  "largestHeapForCap cap =
     (let proportional = \<lfloor>jdiv (jmul (of_int cap) 4) 5\<rfloor>
      in if jvmOverheadMb proportional > 512 then max 0 proportional else max 0 (cap - 512))"

definition min_usable_heap :: int where "min_usable_heap = 512"

datatype heap_problem = CapTooSmall int int int int | LowerHeap int int int int int

text \<open>The heap, what it needs, the overhead, the cap, and the heap to suggest.\<close>

definition heapBudgetProblem :: "int \<Rightarrow> int \<Rightarrow> heap_problem option" where
  "heapBudgetProblem heap cap =
     (let overhead = jvmOverheadMb heap; needed = heap + overhead
      in if needed \<le> cap then None
         else let largest = largestHeapForCap cap
              in if largest < min_usable_heap then Some (CapTooSmall heap needed overhead cap)
                 else Some (LowerHeap heap needed overhead cap largest))"

definition derivedHeapMb :: "int option \<Rightarrow> string option \<Rightarrow> int option" where
  "derivedHeapMb cap explicit =
     (if (case explicit of None \<Rightarrow> False | Some s \<Rightarrow> js_trim s \<noteq> []) then None
      else case cap of
        None \<Rightarrow> None
      | Some c \<Rightarrow> if c \<le> 0 then None
                  else let heap = largestHeapForCap c in if heap \<ge> min_usable_heap then Some heap else None)"

definition formatHeapMb :: "int \<Rightarrow> string" where
  "formatHeapMb heap = (if heap < 0 then CHR ''-'' # show_nat (nat (- heap)) else show_nat (nat heap)) @ ''M''"

section \<open>What a plan allows\<close>

record entitlements =
  en_planId :: string
  en_planName :: string
  en_maxServers :: "rat option"
  en_maxDatabases :: "rat option"
  en_maxRamMb :: "rat option"
  en_maxBackups :: "rat option"
  en_charging :: charging_model

record entitlement_usage =
  eu_servers :: nat
  eu_databases :: nat
  eu_ramMb :: int
  eu_uncapped :: nat

definition serverRamMb :: "limits \<Rightarrow> string option \<Rightarrow> node list \<Rightarrow> int" where
  "serverRamMb l nodeId nodes =
     committedRamMb l (case find (\<lambda>n. Some (nd_id n) = nodeId) nodes of None \<Rightarrow> None | Some n \<Rightarrow> nd_ramTotalMb n)"

definition usageFor :: "string \<Rightarrow> deployment_view list \<Rightarrow> node list \<Rightarrow> nat \<Rightarrow> string option \<Rightarrow> entitlement_usage" where
  "usageFor userId ds nodes databases exceptId =
     (let own = [d \<leftarrow> ds. dv_userId d = userId \<and> Some (dp_id d) \<noteq> exceptId];
          sizes = map (\<lambda>d. serverRamMb (dv_resourceLimits d) (dp_nodeId d) nodes) own
      in \<lparr>eu_servers = length own, eu_databases = databases,
          eu_ramMb = sum_list (filter (\<lambda>mb. mb > 0) sizes), eu_uncapped = length (filter (\<lambda>mb. \<not> mb > 0) sizes)\<rparr>)"

datatype ram_problem = NeedsLimit rat | TooLarge int rat rat

definition ramProblem :: "entitlements option \<Rightarrow> entitlement_usage \<Rightarrow> int \<Rightarrow> ram_problem option" where
  "ramProblem e usage mb =
     (case Option.bind e en_maxRamMb of
        None \<Rightarrow> None
      | Some m \<Rightarrow>
          if \<not> mb > 0 then Some (NeedsLimit m)
          else let left = max 0 (jsub m (of_int (eu_ramMb usage)))
               in if of_int mb > left then Some (TooLarge mb left m) else None)"

definition ramChangeProblem :: "entitlements option \<Rightarrow> entitlement_usage \<Rightarrow> int \<Rightarrow> int \<Rightarrow> ram_problem option" where
  "ramChangeProblem e others before after =
     (if Option.bind e en_maxRamMb = None then None
      else if \<not> (if after \<le> 0 then before > 0 else before > 0 \<and> after > before) then None
      else ramProblem e others after)"

section \<open>Where an agent is\<close>

definition normalizeAgentUrl :: "string \<Rightarrow> string" where
  "normalizeAgentUrl url = rev (dropWhile (\<lambda>c. c = CHR ''/'') (rev (js_trim url)))"

text \<open>\<open>link\<close> is the base URL of a node's agent link.\<close>

definition resolveAgentUrl :: "(string \<Rightarrow> string) \<Rightarrow> node option \<Rightarrow> string \<Rightarrow> string" where
  "resolveAgentUrl link n fallback =
     (case n of
        None \<Rightarrow> normalizeAgentUrl fallback
      | Some n \<Rightarrow>
          if nd_connection n = Outbound \<and> nd_id n \<noteq> [] then link (nd_id n)
          else (case nd_agentUrl n of
                  Some own \<Rightarrow> if js_trim own \<noteq> [] then normalizeAgentUrl own else normalizeAgentUrl fallback
                | None \<Rightarrow> normalizeAgentUrl fallback))"

section \<open>The chosen node\<close>

text \<open>The order a placement follows: load first, then the id.\<close>

definition beats :: "node \<Rightarrow> node \<Rightarrow> bool" where
  "beats c n = (nodeLoad c < nodeLoad n \<or> nodeLoad c = nodeLoad n \<and> nd_id c < nd_id n)"

lemma better_def': "better b c = (if beats c b then c else b)"
  by (simp add: better_def beats_def)

lemma beats_trans: "beats a b \<Longrightarrow> beats b c \<Longrightarrow> beats a c"
  by (auto simp: beats_def)

lemma beats_irrefl [simp]: "\<not> beats a a"
  by (simp add: beats_def)

lemma not_beats_trans: "\<not> beats b a \<Longrightarrow> \<not> beats c b \<Longrightarrow> \<not> beats c a"
  by (auto simp: beats_def)

lemma foldl_better:
  "foldl better b ns \<in> insert b (set ns) \<and> (\<forall>n \<in> insert b (set ns). \<not> beats n (foldl better b ns))"
proof (induction ns arbitrary: b)
  case (Cons n ns)
  let ?b = "better b n"
  let ?w = "foldl better ?b ns"
  have "?b = n \<or> ?b = b" by (simp add: better_def')
  then have "?w \<in> insert b (set (n # ns))" using Cons.IH [of ?b] by auto
  moreover have "\<not> beats ?b ?w" using Cons.IH [of ?b] by simp
  then have "\<not> beats b ?w \<and> \<not> beats n ?w"
    using beats_trans [of n b ?w] not_beats_trans [of b ?w n]
    by (cases "beats n b") (auto simp: better_def')
  ultimately show ?case using Cons.IH [of ?b] by simp
qed simp

text \<open>
  C12: A server is placed on a node exactly when a healthy node outside maintenance exists; the node
  is one of those, no other is less loaded, or equally loaded with a smaller id, and the order in
  which the nodes are listed does not matter.
\<close>

theorem selectNode_best:
  "(case selectNode nodes now of
      None \<Rightarrow> filter (eligible now) nodes = []
    | Some n \<Rightarrow> n \<in> set nodes \<and> eligible now n \<and> filter (\<lambda>c. eligible now c \<and> beats c n) nodes = [])
   \<and> (mset nodes' = mset nodes \<and> distinct (map nd_id nodes) \<longrightarrow> selectNode nodes' now = selectNode nodes now)"
proof
  have char: "case selectNode ns now of
      None \<Rightarrow> filter (eligible now) ns = []
    | Some n \<Rightarrow> n \<in> set ns \<and> eligible now n \<and> filter (\<lambda>c. eligible now c \<and> beats c n) ns = []" for ns
  proof (cases "filter (eligible now) ns")
    case (Cons a as)
    have "set (a # as) = {c \<in> set ns. eligible now c}" using Cons by (metis set_filter)
    then show ?thesis using foldl_better [of a as]
      by (auto simp: selectNode_def Cons filter_empty_conv)
  qed (simp add: selectNode_def)
  show "case selectNode nodes now of
      None \<Rightarrow> filter (eligible now) nodes = []
    | Some n \<Rightarrow> n \<in> set nodes \<and> eligible now n \<and> filter (\<lambda>c. eligible now c \<and> beats c n) nodes = []" by (rule char)
  show "mset nodes' = mset nodes \<and> distinct (map nd_id nodes) \<longrightarrow> selectNode nodes' now = selectNode nodes now"
  proof
    assume m: "mset nodes' = mset nodes \<and> distinct (map nd_id nodes)"
    then have s: "set nodes' = set nodes" by (metis set_mset_mset)
    show "selectNode nodes' now = selectNode nodes now"
    proof (cases "selectNode nodes now")
      case None
      then show ?thesis using char [of nodes] char [of nodes'] s
        by (cases "selectNode nodes' now") (auto simp: filter_empty_conv)
    next
      case (Some n)
      then obtain n' where n': "selectNode nodes' now = Some n'"
        using char [of nodes] char [of nodes'] s by (cases "selectNode nodes' now") (auto simp: filter_empty_conv)
      have "n \<in> set nodes" "n' \<in> set nodes" "\<not> beats n n'" "\<not> beats n' n"
        using char [of nodes] char [of nodes'] s by (auto simp: Some n' filter_empty_conv)
      moreover from this have "nd_id n = nd_id n'" by (auto simp: beats_def)
      ultimately have "n = n'" using m by (metis distinct_map inj_onD)
      then show ?thesis by (simp add: Some n')
    qed
  qed
qed

definition node_at :: "string \<Rightarrow> time \<Rightarrow> rat \<Rightarrow> node" where
  "node_at i seen load = \<lparr>nd_id = i, nd_name = i, nd_location = None, nd_ipAddress = None, nd_agentUrl = None,
     nd_lastHeartbeat = seen, nd_cpuPercent = Some load, nd_cpuCores = None, nd_ramUsedMb = None, nd_ramTotalMb = None,
     nd_diskUsedGb = None, nd_diskTotalGb = None, nd_maintenance = False, nd_portRangeStart = None,
     nd_portRangeEnd = None, nd_connection = Direct\<rparr>"

lemma selectNode_best_witness:
  "selectNode [node_at ''b'' 0 10, node_at ''a'' 0 10] 2000 = selectNode [node_at ''a'' 0 10, node_at ''b'' 0 10] 2000"
  using selectNode_best [where nodes = "[node_at ''a'' 0 10, node_at ''b'' 0 10]" and now = 2000 and nodes' = "[node_at ''b'' 0 10, node_at ''a'' 0 10]"]
  by (simp add: node_at_def)

section \<open>What a heartbeat keeps\<close>

text \<open>
  A heartbeat refreshes the liveness and replaces exactly the figures it carries: the name, the
  place, the maintenance flag and the port pool of a registered node stay, and so does every figure
  the heartbeat leaves out; no other node changes.
\<close>

theorem heartbeat_keeps:
  "hb_nodeId h = Some i \<Longrightarrow> i \<noteq> [] \<Longrightarrow> map_of (o_nodes r) i = Some n \<Longrightarrow>
     \<exists>n'. map_of (o_nodes (handleHeartbeat clock h r)) = (map_of (o_nodes r))(i \<mapsto> n')
       \<and> nd_lastHeartbeat n' = nullish (hb_timestamp h) clock
       \<and> (nd_name n', nd_location n', nd_maintenance n', (nd_portRangeStart n', nd_portRangeEnd n')) = (nd_name n, nd_location n, nd_maintenance n, (nd_portRangeStart n, nd_portRangeEnd n))
       \<and> nd_agentUrl n' = orElse (hb_agentUrl h) (nd_agentUrl n)
       \<and> (hb_resources h = None \<longrightarrow> (nd_cpuPercent n', nd_ramUsedMb n', nd_ramTotalMb n') = (nd_cpuPercent n, nd_ramUsedMb n, nd_ramTotalMb n))"
  by (auto simp: handleHeartbeat_def given_def upsertNode_def beat_of_def Let_def)

lemma heartbeat_keeps_witness:
  "\<exists>n'. map_of (o_nodes (handleHeartbeat 5 \<lparr>hb_nodeId = Some ''a'', hb_timestamp = None, hb_agentUrl = None,
      hb_connection = None, hb_resources = None\<rparr> (new_orch\<lparr>o_nodes := [(''a'', node_at ''a'' 0 10)]\<rparr>))) = [''a'' \<mapsto> n']
    \<and> nd_lastHeartbeat n' = 5 \<and> nd_cpuPercent n' = Some 10"
proof -
  let ?h = "\<lparr>hb_nodeId = Some ''a'', hb_timestamp = None, hb_agentUrl = None, hb_connection = None, hb_resources = None\<rparr>"
  let ?r = "new_orch\<lparr>o_nodes := [(''a'', node_at ''a'' 0 10)]\<rparr>"
  have "hb_nodeId ?h = Some ''a''" "''a'' \<noteq> []" "map_of (o_nodes ?r) ''a'' = Some (node_at ''a'' 0 10)" by simp_all
  from heartbeat_keeps [OF this, of 5] show ?thesis by (auto simp: node_at_def)
qed

section \<open>The derived heap\<close>

lemma b64_quarter:
  assumes "0 \<le> h" "h \<le> 2 ^ 50"
  shows "b64 (of_int h / 4) = of_int h / 4"
proof (cases "h = 0")
  case False
  let ?y = "of_int h / 4 :: rat"
  have y: "0 < ?y" using assms False by simp
  have "(of_int h :: rat) \<le> of_int (2 ^ 50)" using assms(2) by (simp only: of_int_le_iff)
  then have "?y < 2 powi (50 + 1)" by simp
  from ilog2_le [OF y this] have e: "b64_exp ?y \<le> - 2" using y by (simp add: b64_exp_def)
  have "?y = of_int h * 2 powi (- 2)" by (simp add: power_int_def power2_eq_square)
  from b64_multiple [OF e this] show ?thesis .
qed simp

lemma overhead_int:
  assumes "0 \<le> h" "h \<le> 2 ^ 50"
  shows "jvmOverheadMb h = max 512 ((h + 2) div 4)"
proof -
  have "of_int h / 4 + 1 / 2 = (of_int (h + 2) / of_int 4 :: rat)" by (simp add: add_divide_distrib)
  then have "jround (of_int h / 4) = (h + 2) div 4" unfolding jround_def by (simp only: floor_divide_of_int_eq)
  moreover have "jmul (of_int h) (1 / 4) = of_int h / 4" using b64_quarter [OF assms] by (simp add: jmul_def)
  ultimately show ?thesis unfolding jvmOverheadMb_def by (simp only:)
qed

lemma floor_b64_fifth:
  assumes "0 \<le> a" "a \<le> 2 ^ 42"
  shows "\<lfloor>b64 (of_int a / 5)\<rfloor> = a div 5"
proof -
  let ?x = "of_int a / 5 :: rat"
  define q m where "q = a div 5" and "m = a mod 5"
  have a: "a = 5 * q + m" "0 \<le> m" "m < 5" by (simp_all add: q_def m_def)
  have x: "?x = of_int q + of_int m / 5" unfolding a(1) by (simp add: add_divide_distrib)
  have q: "0 \<le> q" "q \<le> 2 ^ 42" using assms by (auto simp: q_def)
  show ?thesis
  proof (cases "m = 0")
    case True
    then have "b64 ?x = of_int q" using x b64_exact_int [of q] q by simp
    then show ?thesis by (simp add: q_def)
  next
    case False
    then have m: "1 \<le> (of_int m :: rat)" "(of_int m :: rat) \<le> 4" using a by simp_all
    have "(of_int a :: rat) \<le> of_int (2 ^ 42)" using assms(2) by (simp only: of_int_le_iff)
    then have "\<bar>?x\<bar> / 2 ^ 53 + 1 / 2 ^ 60 < 1 / 10" using assms(1) by simp
    then have "\<bar>b64 ?x - ?x\<bar> < 1 / 10" using b64_err [of ?x] by linarith
    then have "of_int q \<le> b64 ?x \<and> b64 ?x < of_int q + 1" using m x by linarith
    then show ?thesis unfolding q_def [symmetric] by (simp add: floor_eq_iff)
  qed
qed

lemma largest_int:
  assumes "0 < c" "c \<le> 2 ^ 40"
  shows "largestHeapForCap c = (let p = (4 * c) div 5 in if max 512 ((p + 2) div 4) > 512 then max 0 p else max 0 (c - 512))"
proof -
  have "jmul (of_int c) 4 = of_int (4 * c)" using b64_exact_int [of "4 * c"] assms by (simp add: jmul_def mult.commute)
  then have p: "\<lfloor>jdiv (jmul (of_int c) 4) 5\<rfloor> = (4 * c) div 5"
    using floor_b64_fifth [of "4 * c"] assms by (simp add: jdiv_def)
  have "jvmOverheadMb ((4 * c) div 5) = max 512 (((4 * c) div 5 + 2) div 4)"
    using assms by (intro overhead_int) auto
  then show ?thesis by (simp add: largestHeapForCap_def p Let_def)
qed

lemma problem_iff:
  "0 \<le> h \<Longrightarrow> h \<le> 2 ^ 50 \<Longrightarrow> heapBudgetProblem h c = None \<longleftrightarrow> h + max 512 ((h + 2) div 4) \<le> c"
  by (simp add: heapBudgetProblem_def overhead_int Let_def)

lemma heap_cases:
  fixes c :: int
  assumes "0 < c" "h = (let p = (4 * c) div 5 in if max 512 ((p + 2) div 4) > 512 then max 0 p else max 0 (c - 512))"
    "512 \<le> h"
  shows "h \<le> c" "h + max 512 ((h + 2) div 4) \<le> c \<longleftrightarrow> c \<noteq> 2562" "c < h + 2 + max 512 ((h + 4) div 4)"
proof -
  define p where "p = (4 * c) div 5"
  have p: "5 * p \<le> 4 * c" "4 * c < 5 * p + 5" unfolding p_def by presburger+
  have h: "h = (if (p + 2) div 4 > 512 then p else c - 512)"
    using assms(2,3) by (auto simp: Let_def p_def [symmetric] split: if_splits)
  define u where "u = (p + 2) div 4"
  have u: "4 * u \<le> p + 2" "p + 2 < 4 * u + 4" unfolding u_def by presburger+
  show "h \<le> c" using h p assms(1) by (auto split: if_splits)
  show "h + max 512 ((h + 2) div 4) \<le> c \<longleftrightarrow> c \<noteq> 2562"
  proof (cases "u > 512")
    case True
    then have "h = p" using h by (simp add: u_def)
    moreover have "p + u \<le> c" "c \<noteq> 2562" using p u True by presburger+
    ultimately show ?thesis using True by (simp add: u_def)
  next
    case False
    then have hc: "h = c - 512" using h by (simp add: u_def)
    have "c \<le> 2562" using p u False by presburger
    then have "(c - 510) div 4 \<le> 512 \<longleftrightarrow> c \<noteq> 2562" by presburger
    then show ?thesis by (simp add: hc)
  qed
  show "c < h + 2 + max 512 ((h + 4) div 4)"
  proof (cases "u > 512")
    case True
    then have "h = p" using h by (simp add: u_def)
    moreover have "c < p + 2 + (p + 4) div 4" using p by presburger
    ultimately show ?thesis by simp
  next
    case False
    then have "h = c - 512" using h by (simp add: u_def)
    then show ?thesis by simp
  qed
qed

text \<open>
  The heap derived from a memory cap passes the budget check at every cap but 2562 MB, where
  the two rules round differently and the derived heap is refused; and it is the largest that fits,
  to one megabyte. (Caps up to a terabyte times a million.)
\<close>

theorem derived_heap_fits:
  "0 < c \<Longrightarrow> c \<le> 2 ^ 40 \<Longrightarrow> derivedHeapMb (Some c) explicit = Some h \<Longrightarrow>
     (heapBudgetProblem h c = None \<longleftrightarrow> c \<noteq> 2562) \<and> heapBudgetProblem (h + 2) c \<noteq> None"
proof -
  assume c: "0 < c" "c \<le> 2 ^ 40" and d: "derivedHeapMb (Some c) explicit = Some h"
  have h: "h = largestHeapForCap c" "512 \<le> h"
    using c d by (auto simp: derivedHeapMb_def min_usable_heap_def Let_def split: if_splits option.splits)
  note cases = heap_cases [OF c(1) h(1) [unfolded largest_int [OF c]] h(2)]
  have "h \<le> 2 ^ 40" using cases(1) c(2) by simp
  then show ?thesis using cases h(2) problem_iff [of h c] problem_iff [of "h + 2" c] by (simp add: add.commute)
qed

lemma derived_heap_fits_witness:
  "heapBudgetProblem 3276 4096 = None \<and> heapBudgetProblem 2050 2562 \<noteq> None"
proof -
  have "derivedHeapMb (Some 4096) None = Some 3276" "derivedHeapMb (Some 2562) None = Some 2050"
    by (simp_all add: derivedHeapMb_def largest_int min_usable_heap_def Let_def)
  then show ?thesis using derived_heap_fits [of 4096 None 3276] derived_heap_fits [of 2562 None 2050] by simp
qed

section \<open>Writing and reading a heap\<close>

lemma show_nat_all_digits: "\<forall>c \<in> set (show_nat n). digit c"
  using show_nat_digits by blast

lemma digit_not_space: "digit c \<Longrightarrow> \<not> js_space c"
  by (auto simp: digit_def js_space_def Let_def)

lemma trim_show_unit: "\<not> js_space u \<Longrightarrow> js_trim (show_nat n @ [u]) = show_nat n @ [u]"
  unfolding js_trim_def
  using show_nat_all_digits [of n] show_nat_nonempty [of n] digit_not_space
  by (intro strip_id) (auto simp: hd_append)

text \<open>
  The heap written into a server's environment is read back as the same number of megabytes.
\<close>

theorem heap_roundtrip:
  "0 < h \<Longrightarrow> h \<le> 2 ^ 53 \<Longrightarrow> parseMemoryMb (formatHeapMb h) = Some h"
proof -
  assume h: "0 < h" "h \<le> 2 ^ 53"
  have u: "\<not> js_space (CHR ''M'')" "\<not> digit (CHR ''M'')" by (simp_all add: js_space_def digit_def Let_def)
  have f: "formatHeapMb h = show_nat (nat h) @ [CHR ''M'']" using h by (simp add: formatHeapMb_def)
  have "takeWhile digit (show_nat (nat h) @ [CHR ''M'']) = show_nat (nat h)"
    "dropWhile digit (show_nat (nat h) @ [CHR ''M'']) = [CHR ''M'']"
    using show_nat_all_digits [of "nat h"] u(2) by (simp_all add: takeWhile_append dropWhile_append)
  moreover have "b64 (of_nat (nat h)) = of_int h" using b64_exact_int [of h] h by simp
  ultimately have "parse_amount (show_nat (nat h) @ [CHR ''M'']) = Some (of_int h, [CHR ''M''])"
    by (simp add: parse_amount_def Let_def)
  moreover have "\<not> (of_int h :: rat) \<ge> 2 ^ 1024"
  proof -
    have "(of_int h :: rat) \<le> of_int (2 ^ 53)" using h(2) by (simp only: of_int_le_iff)
    moreover have "(of_int (2 ^ 53) :: rat) < 2 ^ 1024" by simp
    ultimately show ?thesis by linarith
  qed
  moreover have "memory_unit (dropWhile js_space [CHR ''M'']) = (Some (CHR ''m''), [])"
    by code_simp
  ultimately show ?thesis using h by (simp add: f trim_show_unit u(1) parseMemoryMb_def Let_def)
qed

lemma heap_roundtrip_witness: "parseMemoryMb (formatHeapMb 3276) = Some 3276"
  using heap_roundtrip [of 3276] by simp

end
