(* ===== verification/Js_Text.thy ===== *)
theory Js_Text
  imports Prelude
begin

text \<open>
  Strings beyond the prelude: cutting at a separator and joining again, parts of strings.
\<close>

section \<open>Cutting and joining\<close>

lemma js_split_plain: "c \<notin> set a \<Longrightarrow> js_split c a = [a]"
  by (induction a) auto

lemma js_split_append: "c \<notin> set a \<Longrightarrow> js_split c (a @ c # s) = a # js_split c s"
  by (induction a) auto

text \<open>\<open>parts.join(c)\<close>.\<close>

fun js_join :: "string \<Rightarrow> string list \<Rightarrow> string" where
  "js_join c [] = []"
| "js_join c [p] = p"
| "js_join c (p # q # ps) = p @ c @ js_join c (q # ps)"

lemma js_join_Cons: "ps \<noteq> [] \<Longrightarrow> js_join c (p # ps) = p @ c @ js_join c ps"
  by (cases ps) simp_all

lemma js_split_join:
  "ps \<noteq> [] \<Longrightarrow> list_all (\<lambda>p. c \<notin> set p) ps \<Longrightarrow> js_split c (js_join [c] ps) = ps"
proof (induction ps)
  case (Cons p ps)
  then show ?case by (cases ps) (auto simp: js_split_plain js_split_append)
qed simp

lemma js_join_split: "js_join [c] (js_split c s) = s"
proof (induction s)
  case (Cons x s)
  obtain y ys where s: "js_split c s = y # ys" by (cases "js_split c s") auto
  then show ?case using Cons by (cases ys) (auto simp: js_join_Cons)
qed simp

lemma set_js_join: "set (js_join c ps) \<subseteq> set c \<union> \<Union> (set ` set ps)"
  by (induction ps rule: js_join.induct) auto

lemma js_split_chars: "p \<in> set (js_split c s) \<Longrightarrow> set p \<subseteq> set s"
  by (induction s arbitrary: p) (fastforce split: list.splits if_splits)+

end
