(* ===== verification/Notify.thy ===== *)
theory Notify
  imports Sharing_Runs Nodes Js_Text
begin

text \<open>
  Notifications: what may be announced and where (\<^verbatim>\<open>notify.ts\<close>), the queue of deliveries and its
  drain (\<^verbatim>\<open>notifier.ts\<close>) and an account's channels (\<^verbatim>\<open>notificationRoutes.ts\<close>).

  The HTTP client, the mail server, HMAC, JSON text, URLs and host names are in
  \<open>notifier_context\<close>; what a request answers may depend on the attempt.

  The lemmas: a delivery in the queue is settled after at most seven drains that find it due, and is
  sent successfully at most once by one drain after another; two drains at the same time may both
  send it. The test for private addresses and a form of loopback address it lets through.
\<close>

section \<open>What may be announced\<close>

definition server_events :: "string list" where "server_events = [''server.crashed'', ''server.suspended'']"
definition node_events :: "string list" where "node_events = [''node.offline'', ''node.recovered'']"
definition account_events :: "string list" where "account_events = [''credit.low'']"
definition notification_events :: "string list" where
  "notification_events = server_events @ account_events @ node_events"

definition eventsFor :: "bool \<Rightarrow> bool \<Rightarrow> string list" where
  "eventsFor admin hosted =
     filter (\<lambda>e. (admin \<or> e \<notin> set node_events) \<and> (hosted \<or> e \<notin> set account_events)) notification_events"

definition webhook_formats :: "string list" where "webhook_formats = [''json'', ''discord'', ''slack'']"

record notification =
  no_event :: string
  no_occurredAt :: time
  no_summary :: string
  no_server :: "(string \<times> string) option"
  no_node :: "(string \<times> string) option"
  no_details :: "json option"

record notifier_context =
  nx_json :: "notification \<Rightarrow> string"
  nx_parse :: "string \<Rightarrow> (string, notification) result"
  nx_quote :: "string \<Rightarrow> string"
  nx_hmac :: "string \<Rightarrow> string \<Rightarrow> string"
  nx_post :: "nat \<Rightarrow> string \<Rightarrow> string \<Rightarrow> (string \<times> string) list \<Rightarrow> bool \<Rightarrow> (string, nat) result"
  nx_mail :: "nat \<Rightarrow> string \<Rightarrow> string \<Rightarrow> string \<Rightarrow> string option"
  nx_email :: bool

text \<open>The middle dot of a message is written \<open>-\<close>.\<close>

definition webhookBody :: "notifier_context \<Rightarrow> notification \<Rightarrow> string \<Rightarrow> string" where
  "webhookBody nx n format =
     (if format = ''discord'' then ''{\"content\":'' @ nx_quote nx (''**NexusInfra** - '' @ no_summary n) @ ''}''
      else if format = ''slack'' then ''{\"text\":'' @ nx_quote nx (''*NexusInfra* - '' @ no_summary n) @ ''}''
      else nx_json nx n)"

definition signBody :: "notifier_context \<Rightarrow> string \<Rightarrow> string \<Rightarrow> string" where
  "signBody nx secret body = ''sha256='' @ nx_hmac nx secret body"

definition backoff_ms :: "int list" where
  "backoff_ms = [30000, 2 * 60000, 10 * 60000, 30 * 60000, 2 * 3600000, 12 * 3600000]"

definition nextAttemptDelayMs :: "nat \<Rightarrow> int option" where
  "nextAttemptDelayMs attempts =
     (if 1 \<le> attempts \<and> attempts \<le> length backoff_ms then Some (backoff_ms ! (attempts - 1)) else None)"

section \<open>Private addresses\<close>

text \<open>\<open>isIP\<close> of Node: dotted decimal, or groups of hexadecimal with at most one gap.\<close>

definition octet :: "string \<Rightarrow> nat option" where
  "octet s =
     (if s \<noteq> [] \<and> list_all digit s \<and> length s \<le> 3 \<and> (hd s = CHR ''0'' \<longrightarrow> length s = 1) \<and> digits_val s \<le> 255
      then Some (digits_val s) else None)"

definition ip4 :: "string \<Rightarrow> nat list option" where
  "ip4 s =
     (let os = map octet (js_split (CHR ''.'') s)
      in if length os = 4 \<and> list_all (\<lambda>x. x \<noteq> None) os then Some (map the os) else None)"

definition hex_digit :: "char \<Rightarrow> bool" where
  "hex_digit c = (digit c \<or> js_lower_char c \<in> set ''abcdef'')"

text \<open>How many of the eight groups a part of an address stands for; a dotted tail stands for two.\<close>

fun ip6_groups :: "string list \<Rightarrow> nat option" where
  "ip6_groups [] = Some 0"
| "ip6_groups [g] =
     (if ip4 g \<noteq> None then Some 2
      else if 1 \<le> length g \<and> length g \<le> 4 \<and> list_all hex_digit g then Some 1 else None)"
| "ip6_groups (g # h # gs) =
     (if 1 \<le> length g \<and> length g \<le> 4 \<and> list_all hex_digit g then map_option Suc (ip6_groups (h # gs)) else None)"

definition ip6_part :: "string \<Rightarrow> nat option" where
  "ip6_part s = (if s = [] then Some 0 else ip6_groups (js_split (CHR '':'') s))"

text \<open>What stands before and after the first \<open>::\<close>.\<close>

fun cut_gap :: "string \<Rightarrow> (string \<times> string) option" where
  "cut_gap [] = None"
| "cut_gap [c] = None"
| "cut_gap (c # d # s) =
     (if c = CHR '':'' \<and> d = CHR '':'' then Some ([], s)
      else map_option (\<lambda>(a, b). (c # a, b)) (cut_gap (d # s)))"

definition ip6 :: "string \<Rightarrow> bool" where
  "ip6 s =
     (let a = takeWhile (\<lambda>c. c \<noteq> CHR ''%'') s; zone = drop (length a) s
      in (zone = [] \<or> length zone > 1)
         \<and> (case cut_gap a of
              None \<Rightarrow> a \<noteq> [] \<and> ip6_part a = Some 8
            | Some (x, y) \<Rightarrow>
                (case (ip6_part x, ip6_part y) of
                   (Some m, Some n) \<Rightarrow> m + n \<le> 7 \<and> CHR ''.'' \<notin> set x
                 | _ \<Rightarrow> False)))"

definition private4 :: "nat list \<Rightarrow> bool" where
  "private4 os =
     (let a = os ! 0; b = os ! 1
      in a = 0 \<or> a = 10 \<or> a = 127 \<or> (a = 100 \<and> 64 \<le> b \<and> b \<le> 127) \<or> (a = 169 \<and> b = 254)
         \<or> (a = 172 \<and> 16 \<le> b \<and> b \<le> 31) \<or> (a = 192 \<and> b = 168) \<or> a \<ge> 224)"

text \<open>\<open>^::ffff:(\d+\.\d+\.\d+\.\d+)$\<close> without regard to case.\<close>

definition mapped4 :: "string \<Rightarrow> string option" where
  "mapped4 s =
     (let p = ''::ffff:''; rest = drop (length p) s; parts = js_split (CHR ''.'') rest
      in if js_lower (take (length p) s) = p \<and> length parts = 4 \<and> list_all (\<lambda>x. x \<noteq> [] \<and> list_all digit x) parts
         then Some rest else None)"

definition private_address :: "string \<Rightarrow> bool" where
  "private_address s =
     (case ip4 s of
        Some os \<Rightarrow> private4 os
      | None \<Rightarrow>
          if ip6 s then js_lower s = ''::'' \<or> js_lower s = ''::1''
            \<or> list_ex (\<lambda>p. starts_with (js_lower s) p) [''fe8'', ''fe9'', ''fea'', ''feb'', ''fc'', ''fd'']
          else True)"

definition isPrivateAddress :: "string \<Rightarrow> bool" where
  "isPrivateAddress s = (case mapped4 s of Some v \<Rightarrow> private_address v | None \<Rightarrow> private_address s)"


section \<open>Channels\<close>

record parsed_url =
  ur_protocol :: string
  ur_href :: string
  ur_hostname :: string

record channel_input =
  ci_kind :: string
  ci_target :: string
  ci_format :: string
  ci_events :: "string list"

datatype channel_problem =
    NoEventChosen | UnknownEvent json | NodeEventsForAdmins | OwnAddressOnly | BadFormat_c | NotAUrl | NotHttp | BadKind

text \<open>
  The events of the request: each known in this edition, and a node event only for an administrator.
\<close>

fun chosen_events :: "string list \<Rightarrow> bool \<Rightarrow> json list \<Rightarrow> (channel_problem, string list) result" where
  "chosen_events known admin [] = Inr []"
| "chosen_events known admin (v # vs) =
     (case v of
        JStr e \<Rightarrow>
          if e \<notin> set known then Inl (UnknownEvent v)
          else if e \<in> set node_events \<and> \<not> admin then Inl NodeEventsForAdmins
          else and_then (chosen_events known admin vs) (\<lambda>es. Inr (e # es))
      | _ \<Rightarrow> Inl (UnknownEvent v))"

text \<open>\<open>url\<close> is \<open>new URL\<close>, with \<open>None\<close> where it throws; \<open>text\<close> is \<open>String\<close>.\<close>

definition parseChannelInput ::
  "(string \<Rightarrow> parsed_url option) \<Rightarrow> (json \<Rightarrow> string) \<Rightarrow> json \<Rightarrow> string \<Rightarrow> string \<Rightarrow> bool \<Rightarrow> (channel_problem, channel_input) result" where
  "parseChannelInput url text input email platformRole hosted =
     (let admin = (platformRole = ''admin'' \<or> platformRole = ''owner'')
      in case jprop input ''events'' of
           JArr (v # vs) \<Rightarrow>
             and_then (chosen_events (eventsFor True hosted) admin (v # vs)) (\<lambda>es.
               let chosen = js_unique es; target = jprop input ''target''
               in if jprop input ''kind'' = JStr ''email'' then
                    let to = (case target of JStr s \<Rightarrow> if js_trim s \<noteq> [] then js_lower (js_trim s) else email | _ \<Rightarrow> email)
                    in if to \<noteq> js_lower email then Inl OwnAddressOnly
                       else Inr \<lparr>ci_kind = ''email'', ci_target = to, ci_format = ''json'', ci_events = chosen\<rparr>
                  else if jprop input ''kind'' = JStr ''webhook'' then
                    (case (case jprop input ''format'' of JUndef \<Rightarrow> Some ''json''
                           | JStr f \<Rightarrow> if f \<in> set webhook_formats then Some f else None | _ \<Rightarrow> None) of
                       None \<Rightarrow> Inl BadFormat_c
                     | Some format \<Rightarrow>
                         (case url (if target \<in> {JUndef, JNull} then [] else text target) of
                            None \<Rightarrow> Inl NotAUrl
                          | Some u \<Rightarrow>
                              if ur_protocol u \<noteq> ''https:'' \<and> ur_protocol u \<noteq> ''http:'' then Inl NotHttp
                              else Inr \<lparr>ci_kind = ''webhook'', ci_target = ur_href u, ci_format = format, ci_events = chosen\<rparr>))
                  else Inl BadKind)
         | _ \<Rightarrow> Inl NoEventChosen)"

section \<open>News of the fleet\<close>

datatype news = WentOffline | CameBack

text \<open>The changes since the last look, and what this look saw.\<close>

fun nodeTransitions ::
  "(string \<times> node_health) list \<Rightarrow> node list \<Rightarrow> time \<Rightarrow> (string \<times> string \<times> news) list \<times> (string \<times> node_health) list" where
  "nodeTransitions previous [] now = ([], [])"
| "nodeTransitions previous (n # ns) now =
     (let health = nodeHealth n now; (changes, next) = nodeTransitions previous ns now;
          was = map_of previous (nd_id n);
          here = (case was of None \<Rightarrow> []
            | Some w \<Rightarrow>
                (if health = Offline \<and> w \<noteq> Offline then [(nd_id n, nd_name n, WentOffline)] else [])
                @ (if health = Healthy \<and> w = Offline then [(nd_id n, nd_name n, CameBack)] else []))
      in (here @ changes, (nd_id n, health) # next))"

section \<open>Who hears\<close>

text \<open>The owner, the active shares, the team's owner and members.\<close>

definition peopleWithAccess :: "string \<Rightarrow> orch \<Rightarrow> ((string \<times> string) \<times> string list) option" where
  "peopleWithAccess deploymentId r =
     (case getDeployment_o deploymentId r of
        None \<Rightarrow> None
      | Some d \<Rightarrow>
          let shares = List.map_filter (\<lambda>s. if su_status s = ''active'' then given (su_userId s) else None) (listSubusers (dp_id d) r);
              team = (case given (dv_teamId d) of None \<Rightarrow> []
                | Some t \<Rightarrow> (case getTeam t r of None \<Rightarrow> [] | Some tm \<Rightarrow> [tm_ownerId tm])
                    @ map (\<lambda>(m, _). mb_userId m) (listTeamMembers t r))
          in Some ((dp_id d, dv_name d), js_unique (dv_userId d # shares @ team)))"

definition enqueue :: "notifier_context \<Rightarrow> time \<Rightarrow> string list \<Rightarrow> notification \<Rightarrow> orch \<Rightarrow> nat \<times> orch" where
  "enqueue nx clock userIds n r =
     (let cs = filter (\<lambda>c. ch_enabled c \<and> no_event n \<in> set (ch_events c)) (listNotificationChannels userIds r)
      in if cs = [] then (0, r)
         else (length cs, snd (enqueueDeliveries clock (map (\<lambda>c. (ch_id c, no_event n, nx_json nx n)) cs) r)))"

definition notifyServer :: "notifier_context \<Rightarrow> time \<Rightarrow> string \<Rightarrow> notification \<Rightarrow> orch \<Rightarrow> nat \<times> orch" where
  "notifyServer nx clock deploymentId n r =
     (case peopleWithAccess deploymentId r of
        None \<Rightarrow> (0, r)
      | Some (server, userIds) \<Rightarrow>
          enqueue nx clock userIds
            (n\<lparr>no_summary := snd server @ '' '' @ no_summary n, no_server := Some server, no_occurredAt := clock\<rparr>) r)"

definition notifyAdmins :: "notifier_context \<Rightarrow> time \<Rightarrow> notification \<Rightarrow> orch \<Rightarrow> nat \<times> orch" where
  "notifyAdmins nx clock n r =
     enqueue nx clock (map u_id (filter (\<lambda>u. u_platformRole u = ''admin'' \<or> u_platformRole u = ''owner'') (listUsers r)))
       (n\<lparr>no_occurredAt := clock\<rparr>) r"

definition notifyAccount :: "notifier_context \<Rightarrow> time \<Rightarrow> string \<Rightarrow> notification \<Rightarrow> orch \<Rightarrow> nat \<times> orch" where
  "notifyAccount nx clock userId n r = enqueue nx clock [userId] (n\<lparr>no_occurredAt := clock\<rparr>) r"

section \<open>Delivery\<close>

datatype send_failure = Permanent string | Transient string

definition failure_text :: "send_failure \<Rightarrow> string" where
  "failure_text e = (case e of Permanent m \<Rightarrow> m | Transient m \<Rightarrow> m)"

definition answered :: "nat \<Rightarrow> string" where "answered status = ''the endpoint answered '' @ show_nat status"

definition mail_text :: "notification \<Rightarrow> string" where
  "mail_text n =
     js_join [CHR 0x0A] ([no_summary n, []] @ (case no_server n of None \<Rightarrow> [] | Some s \<Rightarrow> [''Server: '' @ snd s])
       @ (case no_node n of None \<Rightarrow> [] | Some m \<Rightarrow> [''Node: '' @ snd m]) @ [''When: '' @ iso (no_occurredAt n)])"

text \<open>\<open>k\<close> counts the attempt.\<close>

definition send :: "notifier_context \<Rightarrow> nat \<Rightarrow> channel \<Rightarrow> notification \<Rightarrow> string \<Rightarrow> send_failure option" where
  "send nx k c n deliveryId =
     (if ch_kind c = ''email'' then
        if \<not> nx_email nx then Some (Permanent ''email is not configured on this installation'')
        else map_option Transient (nx_mail nx k (ch_target c) (''[NexusInfra] '' @ no_summary n) (mail_text n))
      else
        let body = webhookBody nx n (ch_format c);
            headers = [(''content-type'', ''application/json''), (''user-agent'', ''NexusInfra-Notifier''),
                (''x-nexusinfra-event'', no_event n), (''x-nexusinfra-delivery'', deliveryId)]
              @ (case given (ch_secret c) of None \<Rightarrow> [] | Some s \<Rightarrow> [(''x-nexusinfra-signature'', signBody nx s body)])
        in case nx_post nx k (ch_target c) body headers (ch_allowPrivate c) of
             Inl e \<Rightarrow> Some (Transient e)
           | Inr status \<Rightarrow>
               if 200 \<le> status \<and> status < 300 then None
               else if 400 \<le> status \<and> status < 500 \<and> status \<noteq> 408 \<and> status \<noteq> 429 then Some (Permanent (answered status))
               else Some (Transient (answered status)))"

datatype send_outcome = Sent | Retrying | GaveUp

definition no_delivery_patch :: delivery_patch where
  "no_delivery_patch = \<lparr>lp_status = None, lp_attempts = None, lp_nextAttemptAt = None, lp_lastError = None, lp_sentAt = None\<rparr>"

text \<open>What becomes of a claimed delivery, \<open>attempts\<close> counting this one.\<close>

definition settle_claimed ::
  "notifier_context \<Rightarrow> time \<Rightarrow> channel \<Rightarrow> delivery \<Rightarrow> nat \<Rightarrow> orch \<Rightarrow> (string \<times> send_outcome) list \<times> orch" where
  "settle_claimed nx now c d attempts r =
     (case (case nx_parse nx (dl_payload d) of Inl e \<Rightarrow> Some (Transient e) | Inr n \<Rightarrow> send nx attempts c n (dl_id d)) of
        None \<Rightarrow>
          ([(dl_id d, Sent)],
           snd (updateNotificationChannel (ch_id c) None None (Some (Some now)) (Some None)
             (updateDelivery (dl_id d) (no_delivery_patch\<lparr>lp_status := Some DSent, lp_attempts := Some attempts,
                lp_sentAt := Some (Some now), lp_lastError := Some None\<rparr>) r)))
      | Some e \<Rightarrow>
          let message = failure_text e;
              delay = (case e of Permanent _ \<Rightarrow> None | Transient _ \<Rightarrow> nextAttemptDelayMs attempts);
              p = no_delivery_patch\<lparr>lp_attempts := Some attempts, lp_lastError := Some (Some message)\<rparr>
          in ([(dl_id d, if delay = None then GaveUp else Retrying)],
              snd (updateNotificationChannel (ch_id c) None None None (Some (Some message))
                (updateDelivery (dl_id d)
                  (case delay of None \<Rightarrow> p\<lparr>lp_status := Some DFailed\<rparr> | Some ms \<Rightarrow> p\<lparr>lp_nextAttemptAt := Some (now + ms)\<rparr>) r))))"

definition deliver :: "notifier_context \<Rightarrow> time \<Rightarrow> delivery \<Rightarrow> orch \<Rightarrow> (string \<times> send_outcome) list \<times> orch" where
  "deliver nx now d r =
     (case getNotificationChannel (dl_channelId d) r of
        Some c \<Rightarrow>
          if \<not> ch_enabled c then
            ([], updateDelivery (dl_id d) (no_delivery_patch\<lparr>lp_status := Some DFailed,
               lp_lastError := Some (Some ''the channel was removed or turned off'')\<rparr>) r)
          else
            (case claimDelivery (dl_id d) (dl_attempts d) r of
               (False, r) \<Rightarrow> ([], r)
             | (True, r) \<Rightarrow> settle_claimed nx now c d (dl_attempts d + 1) r)
      | None \<Rightarrow>
          ([], updateDelivery (dl_id d) (no_delivery_patch\<lparr>lp_status := Some DFailed,
             lp_lastError := Some (Some ''the channel was removed or turned off'')\<rparr>) r))"

fun deliver_each :: "notifier_context \<Rightarrow> time \<Rightarrow> delivery list \<Rightarrow> orch \<Rightarrow> (string \<times> send_outcome) list \<times> orch" where
  "deliver_each nx now [] r = ([], r)"
| "deliver_each nx now (d # ds) r =
     (let (o1, r) = deliver nx now d r; (o2, r) = deliver_each nx now ds r in (o1 @ o2, r))"

definition batch :: nat where "batch = 50"

definition drainOnce :: "notifier_context \<Rightarrow> time \<Rightarrow> orch \<Rightarrow> (string \<times> send_outcome) list \<times> orch" where
  "drainOnce nx now r = deliver_each nx now (listDueDeliveries now batch r) r"


section \<open>One delivery in one drain\<close>

abbreviation half_day :: int where "half_day \<equiv> 43200000"

text \<open>What a drain may make of a pending delivery, and what it logs of it.\<close>

definition moved :: "time \<Rightarrow> delivery \<Rightarrow> delivery \<Rightarrow> send_outcome list \<Rightarrow> bool" where
  "moved now d d' es =
     (dl_id d' = dl_id d
      \<and> (dl_status d' \<noteq> DPending \<and> es \<in> {[], [Sent], [GaveUp]}
         \<or> dl_status d' = DPending \<and> es = [Retrying] \<and> dl_attempts d' = Suc (dl_attempts d) \<and> dl_attempts d' \<le> 6
           \<and> dl_nextAttemptAt d' \<le> now + half_day))"

text \<open>A change of the queue in one row.\<close>

definition row_changed :: "string \<Rightarrow> delivery \<Rightarrow> orch \<Rightarrow> orch \<Rightarrow> bool" where
  "row_changed i d r s =
     (map_of (o_deliveries s) = (map_of (o_deliveries r))(i \<mapsto> d) \<and> map fst (o_deliveries s) = map fst (o_deliveries r)
      \<and> o_drawn s = o_drawn r)"

lemma key_mem: "map_of m k = Some v \<Longrightarrow> k \<in> fst ` set m"
  by (metis map_of_eq_None_iff option.simps(3))

definition patched :: "delivery_patch \<Rightarrow> delivery \<Rightarrow> delivery" where
  "patched p d =
     d\<lparr>dl_status := nullish (lp_status p) (dl_status d), dl_attempts := nullish (lp_attempts p) (dl_attempts d),
       dl_nextAttemptAt := nullish (lp_nextAttemptAt p) (dl_nextAttemptAt d), dl_lastError := nullish (lp_lastError p) (dl_lastError d),
       dl_sentAt := nullish (lp_sentAt p) (dl_sentAt d)\<rparr>"

lemma updateDelivery_row:
  "map_of (o_deliveries r) i = Some d \<Longrightarrow> row_changed i (patched p d) r (updateDelivery i p r)"
  by (simp add: updateDelivery_def row_changed_def key_mem patched_def)

lemma updateChannel_queue [simp]:
  "o_deliveries (snd (updateNotificationChannel i e b t m r)) = o_deliveries r"
  "o_drawn (snd (updateNotificationChannel i e b t m r)) = o_drawn r"
  by (simp_all add: updateNotificationChannel_def Let_def split: option.split)

lemma row_changed_channel: "row_changed i d r (snd (updateNotificationChannel j e b t m s)) = row_changed i d r s"
  by (simp add: row_changed_def)

lemma row_changed_twice: "row_changed i d r s \<Longrightarrow> row_changed i d' s u \<Longrightarrow> row_changed i d' r u"
  by (simp add: row_changed_def)

lemma claim_row:
  "map_of (o_deliveries r) (dl_id d) = Some d \<Longrightarrow> dl_status d = DPending \<Longrightarrow>
     \<exists>s. claimDelivery (dl_id d) (dl_attempts d) r = (True, s) \<and> row_changed (dl_id d) (d\<lparr>dl_attempts := dl_attempts d + 1\<rparr>) r s"
  by (simp add: claimDelivery_def row_changed_def key_mem)

lemma delay_bound: "nextAttemptDelayMs k = Some ms \<Longrightarrow> k \<le> 6 \<and> ms \<le> half_day"
proof -
  assume a: "nextAttemptDelayMs k = Some ms"
  then have k: "1 \<le> k" "k \<le> 6" "ms = backoff_ms ! (k - 1)"
    by (auto simp: nextAttemptDelayMs_def backoff_ms_def split: if_splits)
  then have "ms \<in> set backoff_ms" using nth_mem [of "k - 1" backoff_ms] by (simp add: backoff_ms_def)
  then show ?thesis using k(2) by (auto simp: backoff_ms_def)
qed

lemma settle_row:
  assumes "map_of (o_deliveries r) (dl_id d) = Some (d\<lparr>dl_attempts := k\<rparr>)" "k = Suc (dl_attempts d)" "dl_status d = DPending"
    "settle_claimed nx now c d k r = (es, s)"
  shows "\<exists>d'. row_changed (dl_id d) d' r s \<and> moved now d d' (map snd es) \<and> fst ` set es \<subseteq> {dl_id d}"
proof -
  let ?e = "case nx_parse nx (dl_payload d) of Inl e \<Rightarrow> Some (Transient e) | Inr n \<Rightarrow> send nx k c n (dl_id d)"
  have "\<exists>p. row_changed (dl_id d) (patched p (d\<lparr>dl_attempts := k\<rparr>)) r s \<and> fst ` set es \<subseteq> {dl_id d}
    \<and> moved now d (patched p (d\<lparr>dl_attempts := k\<rparr>)) (map snd es)"
  proof (cases ?e)
    case None
    let ?p = "no_delivery_patch\<lparr>lp_status := Some DSent, lp_attempts := Some k, lp_sentAt := Some (Some now), lp_lastError := Some None\<rparr>"
    have "moved now d (patched ?p (d\<lparr>dl_attempts := k\<rparr>)) [Sent]" by (simp add: moved_def patched_def no_delivery_patch_def)
    then show ?thesis
      using assms(4) updateDelivery_row [OF assms(1), of ?p] unfolding settle_claimed_def None
      by (intro exI [of _ ?p]) (auto simp: row_changed_channel)
  next
    case (Some e)
    define delay where "delay = (case e of Permanent _ \<Rightarrow> None | Transient _ \<Rightarrow> nextAttemptDelayMs k)"
    let ?q = "no_delivery_patch\<lparr>lp_attempts := Some k, lp_lastError := Some (Some (failure_text e))\<rparr>"
    let ?p = "case delay of None \<Rightarrow> ?q\<lparr>lp_status := Some DFailed\<rparr> | Some ms \<Rightarrow> ?q\<lparr>lp_nextAttemptAt := Some (now + ms)\<rparr>"
    have "k \<le> 6 \<and> ms \<le> half_day" if "delay = Some ms" for ms
      using that delay_bound by (auto simp: delay_def split: send_failure.splits)
    then have "moved now d (patched ?p (d\<lparr>dl_attempts := k\<rparr>)) [if delay = None then GaveUp else Retrying]"
      using assms(2,3) by (auto simp: moved_def patched_def no_delivery_patch_def split: option.split)
    then show ?thesis
      using assms(4) updateDelivery_row [OF assms(1), of ?p] unfolding settle_claimed_def Some delay_def [symmetric] Let_def
      by (intro exI [of _ ?p]) (auto simp: row_changed_channel delay_def [symmetric])
  qed
  then show ?thesis by blast
qed

lemma deliver_row:
  assumes "map_of (o_deliveries r) (dl_id d) = Some d" "dl_status d = DPending" "deliver nx now d r = (es, s)"
  shows "\<exists>d'. row_changed (dl_id d) d' r s \<and> moved now d d' (map snd es) \<and> fst ` set es \<subseteq> {dl_id d}"
proof (cases "\<exists>c. getNotificationChannel (dl_channelId d) r = Some c \<and> ch_enabled c")
  case True
  then obtain c where c: "getNotificationChannel (dl_channelId d) r = Some c" "ch_enabled c" by blast
  obtain s1 where s1: "claimDelivery (dl_id d) (dl_attempts d) r = (True, s1)"
      "row_changed (dl_id d) (d\<lparr>dl_attempts := dl_attempts d + 1\<rparr>) r s1"
    using claim_row [OF assms(1,2)] by blast
  have "settle_claimed nx now c d (dl_attempts d + 1) s1 = (es, s)" using assms(3) by (simp add: deliver_def c s1(1))
  moreover have "map_of (o_deliveries s1) (dl_id d) = Some (d\<lparr>dl_attempts := dl_attempts d + 1\<rparr>)"
    using s1(2) by (simp add: row_changed_def)
  ultimately obtain d' where "row_changed (dl_id d) d' s1 s" "moved now d d' (map snd es)" "fst ` set es \<subseteq> {dl_id d}"
    using settle_row [of s1 d "dl_attempts d + 1" nx now c es s] assms(2) by auto
  then show ?thesis using row_changed_twice [OF s1(2)] by blast
next
  case False
  let ?p = "no_delivery_patch\<lparr>lp_status := Some DFailed, lp_lastError := Some (Some ''the channel was removed or turned off'')\<rparr>"
  have "(es, s) = ([], updateDelivery (dl_id d) ?p r)"
    using assms(3) False by (auto simp: deliver_def split: option.splits if_splits)
  then show ?thesis using updateDelivery_row [OF assms(1), of ?p]
    by (auto simp: moved_def no_delivery_patch_def patched_def)
qed


section \<open>A drain, and a run of drains\<close>

abbreviation of_row :: "string \<Rightarrow> (string \<times> send_outcome) list \<Rightarrow> send_outcome list" where
  "of_row i es \<equiv> map snd (filter (\<lambda>e. fst e = i) es)"

definition queue_ok :: "orch \<Rightarrow> bool" where
  "queue_ok r = table dl_id (o_deliveries r) (o_drawn r)"

lemma row_changed_ok: "row_changed i d r s \<Longrightarrow> dl_id d = i \<Longrightarrow> map_of (o_deliveries r) i \<noteq> None \<Longrightarrow> queue_ok r \<Longrightarrow> queue_ok s"
  by (auto simp: queue_ok_def table_def row_changed_def map_of_eq_None_iff split: if_splits) 

text \<open>What a drain leaves of one row: itself, or what \<open>moved\<close> allows when it was due.\<close>

definition drained :: "time \<Rightarrow> bool \<Rightarrow> delivery \<Rightarrow> delivery \<Rightarrow> send_outcome list \<Rightarrow> bool" where
  "drained now chosen d d' es = (if chosen then moved now d d' es else d' = d \<and> es = [])"

text \<open>The rows after some deliveries of a list: what is claimed of each.\<close>

definition all_rows :: "time \<Rightarrow> delivery list \<Rightarrow> orch \<Rightarrow> (string \<times> send_outcome) list \<Rightarrow> orch \<Rightarrow> bool" where
  "all_rows now ds r es s =
     (map fst (o_deliveries s) = map fst (o_deliveries r) \<and> fst ` set es \<subseteq> dl_id ` set ds
      \<and> (\<forall>i d. map_of (o_deliveries r) i = Some d \<longrightarrow>
          (\<exists>d'. map_of (o_deliveries s) i = Some d' \<and> drained now (d \<in> set ds) d d' (of_row i es))))"

lemma of_row_none: "i \<notin> fst ` set es \<Longrightarrow> of_row i es = []"
  by (auto simp: filter_empty_conv)

lemma of_row_all: "fst ` set es \<subseteq> {i} \<Longrightarrow> of_row i es = map snd es"
  by (subst filter_True) auto

lemma map_of_same: "map_of m i = Some d \<Longrightarrow> map_of m i = Some e \<Longrightarrow> d = e"
  by simp

lemma all_rows_Cons:
  assumes ok: "queue_ok r" and x: "map_of (o_deliveries r) (dl_id x) = Some x" "dl_id x \<notin> dl_id ` set xs"
    and x': "row_changed (dl_id x) x' r r1" "moved now x x' (map snd es1)" "fst ` set es1 \<subseteq> {dl_id x}"
    and rest: "all_rows now xs r1 es2 s"
  shows "all_rows now (x # xs) r (es1 @ es2) s"
  unfolding all_rows_def
proof (intro conjI allI impI)
  have ids: "fst ` set es2 \<subseteq> dl_id ` set xs" using rest by (simp add: all_rows_def)
  show "map fst (o_deliveries s) = map fst (o_deliveries r)" using rest x'(1) by (simp add: all_rows_def row_changed_def)
  show "fst ` set (es1 @ es2) \<subseteq> dl_id ` set (x # xs)" using ids x'(3) by (simp add: image_Un) blast
  fix i d assume d: "map_of (o_deliveries r) i = Some d"
  have step: "map_of (o_deliveries r1) j = Some e \<Longrightarrow>
      \<exists>d'. map_of (o_deliveries s) j = Some d' \<and> drained now (e \<in> set xs) e d' (of_row j es2)" for j e
    using rest by (simp add: all_rows_def)
  show "\<exists>d'. map_of (o_deliveries s) i = Some d' \<and> drained now (d \<in> set (x # xs)) d d' (of_row i (es1 @ es2))"
  proof (cases "i = dl_id x")
    case True
    have dx: "d = x" using d [unfolded True] x(1) by (rule map_of_same)
    have none: "of_row i es2 = []" unfolding True by (rule of_row_none [OF contra_subsetD [OF ids x(2)]])
    have mine: "of_row i es1 = map snd es1" using x'(3) unfolding True by (rule of_row_all)
    have "dl_id x' = dl_id x" using x'(2) by (simp add: moved_def)
    then have "x' \<notin> set xs" using x(2) by (metis image_eqI)
    moreover have "map_of (o_deliveries r1) i = Some x'" using x'(1) True by (simp add: row_changed_def)
    ultimately have "map_of (o_deliveries s) i = Some x'" using step [of i x'] by (simp add: drained_def)
    then show ?thesis using x'(2) unfolding filter_append map_append none mine dx
      by (simp add: drained_def)
  next
    case False
    have "dl_id d = i" using d ok by (simp add: queue_ok_def table_ident)
    then have "d \<in> set (x # xs) \<longleftrightarrow> d \<in> set xs" using False by auto
    moreover have "of_row i es1 = []" using contra_subsetD [OF x'(3)] False by (intro of_row_none) simp
    moreover have "map_of (o_deliveries r1) i = Some d" using d x'(1) False by (simp add: row_changed_def)
    ultimately show ?thesis using step [of i d] unfolding filter_append map_append by simp
  qed
qed

lemma deliver_each_rows:
  assumes "queue_ok r" "distinct (map dl_id ds)"
    "\<forall>d \<in> set ds. map_of (o_deliveries r) (dl_id d) = Some d \<and> dl_status d = DPending"
    "deliver_each nx now ds r = (es, s)"
  shows "queue_ok s \<and> all_rows now ds r es s"
  using assms
proof (induction ds arbitrary: r es)
  case Nil
  then show ?case by (simp add: drained_def all_rows_def)
next
  case (Cons x xs)
  obtain es1 r1 where one: "deliver nx now x r = (es1, r1)" by (cases "deliver nx now x r")
  obtain es2 where rest: "deliver_each nx now xs r1 = (es2, s)" "es = es1 @ es2"
    using Cons.prems(4) by (auto simp: one split: prod.splits)
  have x: "map_of (o_deliveries r) (dl_id x) = Some x" "dl_status x = DPending" using Cons.prems(3) by simp_all
  obtain x' where x': "row_changed (dl_id x) x' r r1" "moved now x x' (map snd es1)" "fst ` set es1 \<subseteq> {dl_id x}"
    using deliver_row [OF x one] by blast
  have new: "dl_id x \<notin> dl_id ` set xs" "distinct (map dl_id xs)" using Cons.prems(2) by simp_all
  have "dl_id x' = dl_id x" using x'(2) by (simp add: moved_def)
  then have ok1: "queue_ok r1" using row_changed_ok [OF x'(1) _ _ Cons.prems(1)] x(1) by simp
  have "\<forall>d \<in> set xs. map_of (o_deliveries r1) (dl_id d) = Some d \<and> dl_status d = DPending"
  proof
    fix d assume d: "d \<in> set xs"
    then have "dl_id d \<noteq> dl_id x" using new(1) by (metis image_eqI)
    then show "map_of (o_deliveries r1) (dl_id d) = Some d \<and> dl_status d = DPending"
      using Cons.prems(3) d x'(1) by (simp add: row_changed_def)
  qed
  from Cons.IH [OF ok1 new(2) this rest(1)] all_rows_Cons [OF Cons.prems(1) x(1) new(1) x'] rest(2)
  show ?case by blast
qed

lemma vals_distinct: "table ident m n \<Longrightarrow> distinct (map ident (vals m))"
proof -
  assume t: "table ident m n"
  then have "map ident (vals m) = map fst m"
    by (auto simp: vals_def table_def intro!: map_cong)
  then show ?thesis using t by (simp add: table_def)
qed

lemma distinct_map_filtered: "distinct (map f xs) \<Longrightarrow> distinct (map f (filter P xs))"
  by (induction xs) auto

lemma sort_nonempty: "xs \<noteq> [] \<Longrightarrow> sort_key f xs \<noteq> []"
  using length_sort [of f xs] by (cases "sort_key f xs") auto

lemma due_rows:
  assumes "queue_ok r"
  shows "distinct (map dl_id (listDueDeliveries now n r))"
    "d \<in> set (listDueDeliveries now n r) \<Longrightarrow> map_of (o_deliveries r) (dl_id d) = Some d \<and> dl_status d = DPending \<and> dl_nextAttemptAt d \<le> now"
    "0 < n \<Longrightarrow> map_of (o_deliveries r) i = Some d \<Longrightarrow> dl_status d = DPending \<Longrightarrow> dl_nextAttemptAt d \<le> now
      \<Longrightarrow> listDueDeliveries now n r \<noteq> []"
proof -
  let ?due = "filter (\<lambda>d. dl_status d = DPending \<and> dl_nextAttemptAt d \<le> now) (vals (o_deliveries r))"
  have "distinct (map dl_id (vals (o_deliveries r)))" using assms vals_distinct unfolding queue_ok_def by blast
  then have "distinct (map dl_id ?due)" by (rule distinct_map_filtered)
  then have "distinct (map dl_id (sort_key dl_nextAttemptAt ?due))"
    by (simp add: distinct_map)
  then show "distinct (map dl_id (listDueDeliveries now n r))" by (simp add: listDueDeliveries_def take_map [symmetric])
  show "d \<in> set (listDueDeliveries now n r) \<Longrightarrow> map_of (o_deliveries r) (dl_id d) = Some d \<and> dl_status d = DPending \<and> dl_nextAttemptAt d \<le> now"
    using assms by (auto simp: listDueDeliveries_def queue_ok_def table_def mem_vals dest!: in_set_takeD)
  assume a: "0 < n" "map_of (o_deliveries r) i = Some d" "dl_status d = DPending" "dl_nextAttemptAt d \<le> now"
  have "d \<in> set (vals (o_deliveries r))" using a(2) assms by (auto simp: mem_vals queue_ok_def table_def)
  then have "?due \<noteq> []" using a(3,4) by (auto simp: filter_empty_conv)
  then have "sort_key dl_nextAttemptAt ?due \<noteq> []" using sort_nonempty by blast
  then show "listDueDeliveries now n r \<noteq> []" using a(1) by (simp add: listDueDeliveries_def)
qed

text \<open>One drain, of every delivery in the queue.\<close>

lemma drain_rows:
  assumes "queue_ok r" "drainOnce nx now r = (es, s)"
  shows "queue_ok s" "all_rows now (listDueDeliveries now batch r) r es s"
  using deliver_each_rows [OF assms(1) due_rows(1) [OF assms(1)] _ assms(2) [unfolded drainOnce_def]] due_rows(2) [OF assms(1)]
  by blast+

text \<open>Each drain has its own transports and time; what it does is logged in order.\<close>

fun drains :: "(notifier_context \<times> time) list \<Rightarrow> orch \<Rightarrow> (string \<times> send_outcome) list \<times> orch" where
  "drains [] r = ([], r)"
| "drains ((nx, now) # ts) r =
     (let (es, r) = drainOnce nx now r; (fs, r) = drains ts r in (es @ fs, r))"

definition attempts_left :: "delivery \<Rightarrow> nat" where
  "attempts_left d = (if dl_status d = DPending then Suc (6 - dl_attempts d) else 0)"

definition queue_left :: "orch \<Rightarrow> nat" where "queue_left r = sum_list (map attempts_left (vals (o_deliveries r)))"

definition all_due :: "time \<Rightarrow> orch \<Rightarrow> bool" where
  "all_due now r = list_all (\<lambda>d. dl_status d = DPending \<longrightarrow> dl_nextAttemptAt d \<le> now) (vals (o_deliveries r))"

lemma drained_left:
  assumes "drained now b d d' es" "b \<Longrightarrow> dl_status d = DPending"
  shows "attempts_left d' \<le> attempts_left d" "b \<Longrightarrow> attempts_left d' < attempts_left d"
  using assms by (auto simp: drained_def moved_def attempts_left_def split: if_splits)

lemma vals_keys: "table ident m n \<Longrightarrow> vals m = map (\<lambda>k. the (map_of m k)) (map fst m)"
  by (auto simp: vals_def table_def)

lemma sum_list_strict:
  assumes "\<And>x. x \<in> set xs \<Longrightarrow> f x \<le> (g x :: nat)" "y \<in> set xs" "f y < g y"
  shows "sum_list (map f xs) < sum_list (map g xs)"
  using assms
proof (induction xs)
  case (Cons x xs)
  have tail: "sum_list (map f xs) \<le> sum_list (map g xs)" using Cons.prems(1) by (intro sum_list_mono) simp
  show ?case
  proof (cases "y = x")
    case True
    then show ?thesis using tail Cons.prems(3) by simp
  next
    case False
    then have "sum_list (map f xs) < sum_list (map g xs)" using Cons by (intro Cons.IH) simp_all
    then show ?thesis using Cons.prems(1) [of x] by simp
  qed
qed simp

lemma drain_left:
  assumes "queue_ok r" "drainOnce nx now r = (es, s)" "all_due now r" "queue_left r \<noteq> 0"
  shows "queue_left s < queue_left r"
proof -
  let ?due = "listDueDeliveries now batch r" and ?f = "\<lambda>m k. attempts_left (the (map_of m k))"
  note rows = drain_rows [OF assms(1,2)]
  have keys: "queue_left u = sum_list (map (?f (o_deliveries u)) (map fst (o_deliveries u)))" if "queue_ok u" for u
    using that unfolding queue_left_def queue_ok_def by (subst vals_keys) (simp_all add: o_def)
  have same: "map fst (o_deliveries s) = map fst (o_deliveries r)" using rows(2) by (simp add: all_rows_def)
  have each: "\<exists>d'. map_of (o_deliveries s) k = Some d' \<and> drained now (d \<in> set ?due) d d' (of_row k es)"
    if "map_of (o_deliveries r) k = Some d" for k d using rows(2) that by (simp add: all_rows_def)
  have "\<exists>d \<in> set (vals (o_deliveries r)). attempts_left d \<noteq> 0"
    using assms(4) by (auto simp: queue_left_def)
  then obtain i d where d: "map_of (o_deliveries r) i = Some d" "dl_status d = DPending"
    using assms(1) by (auto simp: mem_vals queue_ok_def table_def attempts_left_def split: if_splits)
  moreover have "dl_nextAttemptAt d \<le> now"
    using d assms(1,3) by (auto simp: all_due_def list_all_iff mem_vals queue_ok_def table_def)
  ultimately have "?due \<noteq> []" using due_rows(3) [OF assms(1), of batch i d now] by (simp add: batch_def)
  then obtain x where x: "x \<in> set ?due" by (cases ?due) auto
  then have px: "map_of (o_deliveries r) (dl_id x) = Some x" "dl_status x = DPending" using due_rows(2) [OF assms(1)] by blast+
  show ?thesis unfolding keys [OF assms(1)] keys [OF rows(1)] same
  proof (rule sum_list_strict [where y = "dl_id x"])
    show "dl_id x \<in> set (map fst (o_deliveries r))" using key_mem [OF px(1)] by simp
    show "?f (o_deliveries s) (dl_id x) < ?f (o_deliveries r) (dl_id x)"
      using each [OF px(1)] drained_left(2) [of now True x] x px by auto
    fix k assume "k \<in> set (map fst (o_deliveries r))"
    then obtain e where "map_of (o_deliveries r) k = Some e" by (metis map_of_eq_None_iff not_None_eq set_map)
    then show "?f (o_deliveries s) k \<le> ?f (o_deliveries r) k" using each [of k e] drained_left(1) [of now _ e] due_rows(2) [OF assms(1)] by fastforce
  qed
qed

lemma drain_due:
  assumes "queue_ok r" "drainOnce nx now r = (es, s)" "all_due now r" "now + half_day \<le> later"
  shows "all_due later s"
proof -
  have "dl_nextAttemptAt d' \<le> later" if d': "map_of (o_deliveries s) i = Some d'" "dl_status d' = DPending" for i d'
  proof -
    note rows = drain_rows [OF assms(1,2)]
    have "map_of (o_deliveries r) i \<noteq> None"
      using d'(1) rows(2) key_mem unfolding all_rows_def map_of_eq_None_iff by (metis set_map)
    then obtain d where d: "map_of (o_deliveries r) i = Some d" by blast
    then have "drained now (d \<in> set (listDueDeliveries now batch r)) d d' (of_row i es)"
      using rows(2) d'(1) by (fastforce simp: all_rows_def)
    moreover have "dl_status d = DPending \<Longrightarrow> dl_nextAttemptAt d \<le> now"
      using d assms(1,3) by (auto simp: all_due_def list_all_iff mem_vals queue_ok_def table_def)
    ultimately show ?thesis using d'(2) assms(4) by (auto simp: drained_def moved_def split: if_splits)
  qed
  then show ?thesis using drain_rows(1) [OF assms(1,2)]
    by (auto simp: all_due_def list_all_iff mem_vals queue_ok_def table_def)
qed

lemma drain_idle: "queue_left r = 0 \<Longrightarrow> drainOnce nx now r = ([], r)"
proof -
  assume "queue_left r = 0"
  then have "\<forall>d \<in> set (vals (o_deliveries r)). dl_status d \<noteq> DPending"
    by (auto simp: queue_left_def attempts_left_def split: if_splits)
  then have "filter (\<lambda>d. dl_status d = DPending \<and> dl_nextAttemptAt d \<le> now) (vals (o_deliveries r)) = []"
    by (simp add: filter_empty_conv)
  then show ?thesis by (simp add: drainOnce_def listDueDeliveries_def)
qed

lemma drains_left:
  assumes "queue_ok r" "all_due (hd (map snd ts)) r" "sorted_wrt (\<lambda>t u. t + half_day \<le> u) (map snd ts)" "queue_left r \<le> length ts"
  shows "queue_left (snd (drains ts r)) = 0"
  using assms
proof (induction ts arbitrary: r)
  case (Cons e ts)
  obtain nx now where e: "e = (nx, now)" by (cases e)
  obtain es s where s: "drainOnce nx now r = (es, s)" by (cases "drainOnce nx now r")
  have due: "all_due now r" using Cons.prems(2) by (simp add: e)
  have ok: "queue_ok s" using drain_rows(1) [OF Cons.prems(1) s] .
  have less: "queue_left s \<le> length ts"
    using drain_left [OF Cons.prems(1) s due] drain_idle [of r nx now] s Cons.prems(4) by (cases "queue_left r = 0") auto
  have "queue_left (snd (drains ts s)) = 0"
  proof (cases ts)
    case Nil
    then show ?thesis using less by simp
  next
    case (Cons e' ts')
    then have "all_due (hd (map snd ts)) s"
      using drain_due [OF Cons.prems(1) s due] Cons.prems(3) by (simp add: e)
    then show ?thesis using Cons.IH [OF ok _ _ less] Cons.prems(3) by simp
  qed
  then show ?case by (simp add: e s prod.case_eq_if Let_def)
qed simp

text \<open>What the log holds of one row.\<close>

definition row_story :: "delivery \<Rightarrow> send_outcome list \<Rightarrow> bool" where
  "row_story d es =
     (\<exists>k rest. es = replicate k Retrying @ rest \<and> k \<le> 6 - dl_attempts d \<and> rest \<in> {[], [Sent], [GaveUp]}
        \<and> (dl_status d \<noteq> DPending \<longrightarrow> es = []))"

lemma row_story_step:
  assumes "drained now b d d' es" "b \<Longrightarrow> dl_status d = DPending" "row_story d' fs"
  shows "row_story d (es @ fs)"
proof (cases b)
  case False
  then show ?thesis using assms(1,3) by (simp add: drained_def)
next
  case True
  then have m: "moved now d d' es" and p: "dl_status d = DPending" using assms(1,2) by (simp_all add: drained_def)
  show ?thesis
  proof (cases "dl_status d' = DPending")
    case False
    then have "fs = []" "es \<in> {[], [Sent], [GaveUp]}" using m assms(3) by (auto simp: row_story_def moved_def)
    then show ?thesis using p by (auto simp: row_story_def intro!: exI [of _ 0])
  next
    case True
    then have es: "es = [Retrying]" "dl_attempts d' = Suc (dl_attempts d)" "dl_attempts d' \<le> 6" using m by (auto simp: moved_def)
    obtain k rest where "fs = replicate k Retrying @ rest" "k \<le> 6 - dl_attempts d'" "rest \<in> {[], [Sent], [GaveUp]}"
      using assms(3) by (auto simp: row_story_def)
    then show ?thesis using es p by (auto simp: row_story_def intro!: exI [of _ "Suc k"])
  qed
qed

lemma drains_story:
  "queue_ok r \<Longrightarrow> map_of (o_deliveries r) i = Some d \<Longrightarrow> row_story d (of_row i (fst (drains ts r)))"
proof (induction ts arbitrary: r d)
  case Nil
  then show ?case by (simp add: row_story_def)
next
  case (Cons e ts)
  obtain nx now where e: "e = (nx, now)" by (cases e)
  obtain es s where s: "drainOnce nx now r = (es, s)" by (cases "drainOnce nx now r")
  note rows = drain_rows [OF Cons.prems(1) s]
  obtain d' where d': "map_of (o_deliveries s) i = Some d'"
      "drained now (d \<in> set (listDueDeliveries now batch r)) d d' (of_row i es)"
    using rows(2) Cons.prems(2) unfolding all_rows_def by blast
  have "row_story d (of_row i es @ of_row i (fst (drains ts s)))"
    using row_story_step [OF d'(2) _ Cons.IH [OF rows(1) d'(1)]] due_rows(2) [OF Cons.prems(1)] by blast
  then show ?case by (simp add: e s prod.case_eq_if Let_def)
qed

text \<open>
  C28: Every delivery is settled in the end. Whatever the mail server and the endpoints answer in each
  drain, once everything waiting is due, as many drains at least half a day apart as there are
  attempts left in the queue leave nothing waiting: each delivery was sent, or was given up.
\<close>

theorem deliveries_settle:
  assumes "table dl_id (o_deliveries r) (o_drawn r)"
    and "list_all (\<lambda>d. dl_status d = DPending \<longrightarrow> dl_nextAttemptAt d \<le> hd (map snd ts)) (vals (o_deliveries r))"
    and "sorted_wrt (\<lambda>t u. t + half_day \<le> u) (map snd ts)"
    and "sum_list (map attempts_left (vals (o_deliveries r))) \<le> length ts"
  shows "list_all (\<lambda>d. dl_status d = DSent \<or> dl_status d = DFailed) (vals (o_deliveries (snd (drains ts r))))"
  unfolding list_all_iff
proof
  fix d assume "d \<in> set (vals (o_deliveries (snd (drains ts r))))"
  moreover have "queue_left (snd (drains ts r)) = 0"
    using assms by (intro drains_left) (simp_all add: queue_ok_def all_due_def queue_left_def)
  ultimately have "dl_status d \<noteq> DPending" by (auto simp: queue_left_def attempts_left_def split: if_splits)
  then show "dl_status d = DSent \<or> dl_status d = DFailed" by (cases "dl_status d") simp_all
qed

text \<open>
  C29: Drains one after another send a delivery successfully at most once. Over any number of drains,
  at any times and with any answers, what is done with one row of the queue is at most six attempts
  that leave it waiting, then nothing, or one success, or one last failure.
\<close>

theorem delivered_once:
  assumes "table dl_id (o_deliveries r) (o_drawn r)" and "map_of (o_deliveries r) i = Some d"
  shows "\<exists>k rest. of_row i (fst (drains ts r)) = replicate k Retrying @ rest \<and> k \<le> 6 \<and> rest \<in> {[], [Sent], [GaveUp]}"
proof -
  have "row_story d (of_row i (fst (drains ts r)))" using assms drains_story by (simp add: queue_ok_def)
  then show ?thesis unfolding row_story_def by (metis diff_le_self le_trans)
qed

text \<open>Two drains that overlap, as two processes' may: both send the same delivery.\<close>

lemma claim_not_exclusive:
  assumes "map_of (o_deliveries r) i = Some d" "dl_status d = DPending" "dl_nextAttemptAt d \<le> now"
  shows "\<exists>s e u. claimDelivery i (dl_attempts d) r = (True, s) \<and> map_of (o_deliveries s) i = Some e \<and> dl_status e = DPending
    \<and> dl_nextAttemptAt e \<le> now \<and> claimDelivery i (dl_attempts e) s = (True, u)"
  using assms by (simp add: claimDelivery_def)

text \<open>The loopback address in the form \<open>new URL\<close> gives it, and in dotted form.\<close>

lemma loopback_forms:
  "\<not> isPrivateAddress ''::ffff:7f00:1''" "isPrivateAddress ''::ffff:127.0.0.1''" "isPrivateAddress ''127.0.0.1''"
  "isPrivateAddress ''example.org''" "\<not> isPrivateAddress ''8.8.8.8''"
  by code_simp+

section \<open>Sending at once, and an account's channels\<close>

definition sendNow :: "notifier_context \<Rightarrow> time \<Rightarrow> channel \<Rightarrow> notification \<Rightarrow> orch \<Rightarrow> (string, unit) result \<times> orch" where
  "sendNow nx clock c n r =
     (case send nx 1 c n (''test-'' @ show_nat (nat clock)) of
        None \<Rightarrow> (Inr (), snd (updateNotificationChannel (ch_id c) None None (Some (Some clock)) (Some None) r))
      | Some e \<Rightarrow> (Inl (failure_text e), snd (updateNotificationChannel (ch_id c) None None None (Some (Some (failure_text e))) r)))"

record channel_view =
  cv_id :: string
  cv_userId :: string
  cv_kind :: string
  cv_target :: string
  cv_format :: string
  cv_events :: "string list"
  cv_enabled :: bool
  cv_lastDeliveryAt :: "time option"
  cv_lastError :: "string option"
  cv_createdAt :: time
  cv_signed :: bool

definition publicChannel :: "channel \<Rightarrow> channel_view" where
  "publicChannel c =
     \<lparr>cv_id = ch_id c, cv_userId = ch_userId c, cv_kind = ch_kind c, cv_target = ch_target c, cv_format = ch_format c,
      cv_events = ch_events c, cv_enabled = ch_enabled c, cv_lastDeliveryAt = ch_lastDeliveryAt c,
      cv_lastError = ch_lastError c, cv_createdAt = ch_createdAt c, cv_signed = (given (ch_secret c) \<noteq> None)\<rparr>"

definition channel_problem_text :: "(json \<Rightarrow> string) \<Rightarrow> channel_problem \<Rightarrow> string" where
  "channel_problem_text text p =
     (case p of
        NoEventChosen \<Rightarrow> ''choose at least one event''
      | UnknownEvent v \<Rightarrow> ''unknown event '' @ text v
      | NodeEventsForAdmins \<Rightarrow> ''node events are for platform administrators''
      | OwnAddressOnly \<Rightarrow> ''email notifications go to your own address''
      | BadFormat_c \<Rightarrow> ''format must be one of '' @ js_join '', '' webhook_formats
      | NotAUrl \<Rightarrow> ''target must be a URL''
      | NotHttp \<Rightarrow> ''a webhook must be http or https''
      | BadKind \<Rightarrow> ''kind must be webhook or email'')"

text \<open>What the routes use of the process: URLs, the text of a value, host names, a fresh secret, the edition.\<close>

record channel_context =
  cx_url :: "string \<Rightarrow> parsed_url option"
  cx_text :: "json \<Rightarrow> string"
  cx_resolve :: "string \<Rightarrow> string list option"
  cx_secret :: string
  cx_hosted :: bool

abbreviation "no_channel \<equiv> (404 :: nat, ''channel not found'')"

definition ownChannel :: "string \<Rightarrow> string \<Rightarrow> orch \<Rightarrow> channel reply" where
  "ownChannel i me r =
     (case getNotificationChannel i r of
        None \<Rightarrow> Inl no_channel
      | Some c \<Rightarrow> if ch_userId c \<noteq> me then Inl no_channel else Inr c)"

abbreviation admin_role :: "string \<Rightarrow> bool" where "admin_role role \<equiv> role = ''admin'' \<or> role = ''owner''"

definition get_notifications ::
  "channel_context \<Rightarrow> notifier_context \<Rightarrow> string \<Rightarrow> string \<Rightarrow> orch \<Rightarrow> channel_view list \<times> bool \<times> string list" where
  "get_notifications cx nx me role r =
     (map publicChannel (listNotificationChannels [me] r), nx_email nx, eventsFor (admin_role role) (cx_hosted cx))"

text \<open>The brackets around an address in a URL are dropped.\<close>

definition bare_host :: "string \<Rightarrow> string" where
  "bare_host s =
     (let s = (if s \<noteq> [] \<and> hd s = CHR ''['' then tl s else s)
      in if s \<noteq> [] \<and> List.last s = CHR '']'' then butlast s else s)"

definition host_refusal :: "channel_context \<Rightarrow> string \<Rightarrow> (nat \<times> string) option" where
  "host_refusal cx hostname =
     (let host = bare_host hostname;
          literal = (host \<noteq> [] \<and> list_all (\<lambda>c. digit c \<or> c = CHR ''.'') host) \<or> CHR '':'' \<in> set host
      in case (if literal then Some [host] else cx_resolve cx host) of
           None \<Rightarrow> Some (400, host @ '' does not resolve'')
         | Some addresses \<Rightarrow>
             if list_ex isPrivateAddress addresses then Some (400, host @ '' is on a private network, which webhooks may not reach'')
             else None)"

definition post_notification ::
  "channel_context \<Rightarrow> notifier_context \<Rightarrow> time \<Rightarrow> string \<Rightarrow> string \<Rightarrow> json \<Rightarrow> orch \<Rightarrow> (channel_view \<times> string option) reply \<times> orch" where
  "post_notification cx nx clock me role body r =
     (case getUser me r of
        None \<Rightarrow> (Inl (404, ''account not found''), r)
      | Some user \<Rightarrow>
          (case parseChannelInput (cx_url cx) (cx_text cx) body (u_email user) role (cx_hosted cx) of
             Inl p \<Rightarrow> (Inl (400, channel_problem_text (cx_text cx) p), r)
           | Inr c \<Rightarrow>
               if ci_kind c = ''email'' \<and> \<not> nx_email nx then
                 (Inl (400, ''email is not configured on this installation -- ask an administrator to set SMTP_URL''), r)
               else
                 let webhook = (ci_kind c = ''webhook'')
                 in case (if webhook \<and> \<not> admin_role role
                          then host_refusal cx (case cx_url cx (ci_target c) of None \<Rightarrow> [] | Some u \<Rightarrow> ur_hostname u) else None) of
                      Some refused \<Rightarrow> (Inl refused, r)
                    | None \<Rightarrow>
                        let secret = (if webhook then Some (cx_secret cx) else None);
                            (created, r) = createNotificationChannel clock me (ci_kind c) (ci_target c) (ci_format c) (ci_events c)
                              secret (webhook \<and> admin_role role) True r
                        in (Inr (publicChannel created, given secret), r)))"

record channel_edit =
  ce_events :: json
  ce_enabled :: json

definition patch_notification ::
  "channel_context \<Rightarrow> string \<Rightarrow> string \<Rightarrow> string \<Rightarrow> channel_edit \<Rightarrow> orch \<Rightarrow> channel_view reply \<times> orch" where
  "patch_notification cx i me role edit r =
     (case ownChannel i me r of
        Inl e \<Rightarrow> (Inl e, r)
      | Inr c \<Rightarrow>
          (case (if ce_events edit = JUndef then Inr None
                 else map_sum id (Some \<circ> ci_events)
                   (parseChannelInput (cx_url cx) (cx_text cx)
                      (JObj [(''kind'', JStr (ch_kind c)), (''target'', JStr (ch_target c)), (''format'', JStr (ch_format c)),
                         (''events'', ce_events edit)])
                      (case getUser me r of None \<Rightarrow> ch_target c | Some u \<Rightarrow> u_email u) role (cx_hosted cx))) of
             Inl p \<Rightarrow> (Inl (400, channel_problem_text (cx_text cx) p), r)
           | Inr evs \<Rightarrow>
               (case ce_enabled edit of
                  JUndef \<Rightarrow> (case updateNotificationChannel (ch_id c) evs None None None r of
                      (Some c, r) \<Rightarrow> (Inr (publicChannel c), r) | (None, r) \<Rightarrow> (Inl (500, ''internal server error''), r))
                | JBool b \<Rightarrow> (case updateNotificationChannel (ch_id c) evs (Some b) None None r of
                      (Some c, r) \<Rightarrow> (Inr (publicChannel c), r) | (None, r) \<Rightarrow> (Inl (500, ''internal server error''), r))
                | _ \<Rightarrow> (Inl (400, ''enabled must be true or false''), r))))"

definition delete_notification :: "string \<Rightarrow> string \<Rightarrow> orch \<Rightarrow> unit reply \<times> orch" where
  "delete_notification i me r =
     (case ownChannel i me r of Inl e \<Rightarrow> (Inl e, r) | Inr c \<Rightarrow> (Inr (), deleteNotificationChannel (ch_id c) r))"

definition post_test :: "notifier_context \<Rightarrow> time \<Rightarrow> string \<Rightarrow> string \<Rightarrow> orch \<Rightarrow> unit reply \<times> orch" where
  "post_test nx clock i me r =
     (case ownChannel i me r of
        Inl e \<Rightarrow> (Inl e, r)
      | Inr c \<Rightarrow>
          let n = \<lparr>no_event = ''test'', no_occurredAt = clock, no_summary = ''Test notification -- this channel works'',
                no_server = None, no_node = None, no_details = None\<rparr>
          in case sendNow nx clock c n r of (Inl e, r) \<Rightarrow> (Inl (502, e), r) | (Inr u, r) \<Rightarrow> (Inr u, r))"

text \<open>The last twenty, each with the summary of its payload; a payload that is not JSON fails the request.\<close>

definition get_deliveries :: "notifier_context \<Rightarrow> string \<Rightarrow> string \<Rightarrow> orch \<Rightarrow> (delivery \<times> string) list reply" where
  "get_deliveries nx i me r =
     and_then (ownChannel i me r) (\<lambda>c.
       let ds = map (\<lambda>d. (d, nx_parse nx (dl_payload d))) (listDeliveries (ch_id c) 20 r)
       in if list_ex (isl \<circ> snd) ds then Inl (500, ''internal server error'')
          else Inr (map (\<lambda>(d, n). (d\<lparr>dl_payload := []\<rparr>, case n of Inr n \<Rightarrow> no_summary n | Inl _ \<Rightarrow> [])) ds))"

section \<open>Concrete runs\<close>

definition silent_context :: notifier_context where
  "silent_context = \<lparr>nx_json = no_event, nx_parse = (\<lambda>s. Inr \<lparr>no_event = s, no_occurredAt = 0, no_summary = ''is down'',
       no_server = None, no_node = None, no_details = None\<rparr>),
     nx_quote = id, nx_hmac = (\<lambda>k b. k), nx_post = (\<lambda>k u b h p. Inl ''refused''), nx_mail = (\<lambda>k t s b. Some ''no answer''),
     nx_email = True\<rparr>"

definition sample_delivery :: delivery where
  "sample_delivery = \<lparr>dl_id = uuid 0, dl_channelId = ''c'', dl_event = ''node.offline'', dl_payload = ''node.offline'',
     dl_status = DPending, dl_attempts = 5, dl_nextAttemptAt = 10, dl_lastError = None, dl_createdAt = 0, dl_sentAt = None\<rparr>"

definition sample_channel :: channel where
  "sample_channel = \<lparr>ch_id = ''c'', ch_userId = ''u'', ch_kind = ''email'', ch_target = ''a@b'', ch_format = ''json'',
     ch_events = [''node.offline''], ch_secret = None, ch_allowPrivate = False, ch_enabled = True,
     ch_lastDeliveryAt = None, ch_lastError = None, ch_createdAt = 0\<rparr>"

definition sample_queue :: orch where
  "sample_queue = new_orch\<lparr>o_deliveries := [(uuid 0, sample_delivery)], o_channels := [(''c'', sample_channel)], o_drawn := 1\<rparr>"

lemma sample_queue_table: "table dl_id (o_deliveries sample_queue) (o_drawn sample_queue)"
  by (simp add: sample_queue_def table_def sample_delivery_def)

theorem deliveries_settle_witness:
  "list_all (\<lambda>d. dl_status d = DSent \<or> dl_status d = DFailed)
     (vals (o_deliveries (snd (drains [(silent_context, 10), (silent_context, 43200010)] sample_queue))))"
proof (rule deliveries_settle [OF sample_queue_table])
qed (simp_all add: sample_queue_def vals_def sample_delivery_def attempts_left_def)

theorem delivered_once_witness:
  "\<exists>k rest. of_row (uuid 0) (fst (drains [(silent_context, 10), (silent_context, 43200010)] sample_queue)) = replicate k Retrying @ rest
     \<and> k \<le> 6 \<and> rest \<in> {[], [Sent], [GaveUp]}"
  by (rule delivered_once [OF sample_queue_table, of _ sample_delivery]) (simp add: sample_queue_def)

end
