(* ===== verification/Login_Limiter.thy ===== *)
theory Login_Limiter
  imports Prelude
begin

text \<open>
  The limit on failed sign-ins (\<^verbatim>\<open>loginLimiter.ts\<close>): a map from keys to the failures of a
  window and the end of a lockout, and the attempts measured against it the way the login route
  does: check, then clear on a success or count a failure.

  The lemmas: what one key's entry allows during a span as long as the window, as a budget no step
  raises and each wrong attempt spends; hence the bound on wrong guesses.
\<close>

section \<open>The limiter\<close>

record limiter_options =
  lo_maxAttempts :: nat
  lo_windowMs :: int
  lo_lockoutMs :: int

definition default_limits :: limiter_options where
  "default_limits = \<lparr>lo_maxAttempts = 10, lo_windowMs = 15 * 60 * 1000, lo_lockoutMs = 15 * 60 * 1000\<rparr>"

record limit_entry =
  en_failures :: nat
  en_since :: int
  en_lockedUntil :: int

type_synonym limiter = "(string \<times> limit_entry) list"

definition expired :: "limiter_options \<Rightarrow> int \<Rightarrow> limit_entry \<Rightarrow> bool" where
  "expired opts t e = (t - en_since e \<ge> lo_windowMs opts \<and> en_lockedUntil e \<le> t)"

definition sweep :: "limiter_options \<Rightarrow> int \<Rightarrow> limiter \<Rightarrow> limiter" where
  "sweep opts t m = filter (\<lambda>(k, e). \<not> expired opts t e) m"

definition entryFor :: "limiter_options \<Rightarrow> string \<Rightarrow> int \<Rightarrow> limiter \<Rightarrow> limit_entry" where
  "entryFor opts key t m =
     (let fresh = \<lparr>en_failures = 0, en_since = t, en_lockedUntil = 0\<rparr>
      in case map_of m key of None \<Rightarrow> fresh | Some e \<Rightarrow> if expired opts t e then fresh else e)"

definition check :: "limiter_options \<Rightarrow> int \<Rightarrow> string list \<Rightarrow> limiter \<Rightarrow> bool \<times> int" where
  "check opts t keys m =
     (let retryAfterMs = foldl (\<lambda>a k. let e = entryFor opts k t m
            in if en_lockedUntil e > t then max a (en_lockedUntil e - t) else a) 0 keys
      in (retryAfterMs = 0, retryAfterMs))"

definition fail_key :: "limiter_options \<Rightarrow> int \<Rightarrow> limiter \<Rightarrow> string \<Rightarrow> limiter" where
  "fail_key opts t m key =
     (let e = entryFor opts key t m; e = e\<lparr>en_failures := en_failures e + 1\<rparr>
      in AList.update key (if en_failures e \<ge> lo_maxAttempts opts then e\<lparr>en_lockedUntil := t + lo_lockoutMs opts\<rparr> else e) m)"

definition fail :: "limiter_options \<Rightarrow> int \<Rightarrow> string list \<Rightarrow> limiter \<Rightarrow> limiter" where
  "fail opts t keys m = foldl (fail_key opts t) (sweep opts t m) keys"

definition succeed :: "string list \<Rightarrow> limiter \<Rightarrow> limiter" where
  "succeed keys m = foldl (\<lambda>m k. AList.delete k m) m keys"

definition loginKeys :: "string option \<Rightarrow> string option \<Rightarrow> string list" where
  "loginKeys ip identifier =
     (case given ip of None \<Rightarrow> [] | Some a \<Rightarrow> [''ip:'' @ a])
     @ (case given (map_option js_trim identifier) of None \<Rightarrow> [] | Some i \<Rightarrow> [''id:'' @ js_lower i])"

section \<open>Attempts\<close>

record attempt =
  ta_time :: int
  ta_keys :: "string list"
  ta_right :: bool

text \<open>An attempt that is not allowed reaches neither the password nor the limiter.\<close>

definition try_login :: "limiter_options \<Rightarrow> attempt \<Rightarrow> limiter \<Rightarrow> bool \<times> limiter" where
  "try_login opts a m =
     (if \<not> fst (check opts (ta_time a) (ta_keys a) m) then (False, m)
      else (True, if ta_right a then succeed (ta_keys a) m else fail opts (ta_time a) (ta_keys a) m))"

fun try_logins :: "limiter_options \<Rightarrow> attempt list \<Rightarrow> limiter \<Rightarrow> bool list \<times> limiter" where
  "try_logins opts [] m = ([], m)"
| "try_logins opts (a # as) m =
     (let (ok, m) = try_login opts a m; (oks, m) = try_logins opts as m in (ok # oks, m))"

section \<open>One key\<close>

definition entry_ok :: "limiter_options \<Rightarrow> int \<Rightarrow> limit_entry \<Rightarrow> bool" where
  "entry_ok opts t e =
     (en_since e \<le> t
      \<and> (en_failures e < lo_maxAttempts opts \<and> en_lockedUntil e = 0
         \<or> lo_maxAttempts opts \<le> en_failures e \<and> en_since e + lo_windowMs opts \<le> en_lockedUntil e))"

definition limiter_ok :: "limiter_options \<Rightarrow> int \<Rightarrow> limiter \<Rightarrow> bool" where
  "limiter_ok opts t m = (distinct (map fst m) \<and> (\<forall>k e. map_of m k = Some e \<longrightarrow> entry_ok opts t e))"

definition sound_limits :: "limiter_options \<Rightarrow> bool" where
  "sound_limits opts = (1 \<le> lo_maxAttempts opts \<and> 0 \<le> lo_windowMs opts \<and> lo_windowMs opts \<le> lo_lockoutMs opts)"

lemma entry_ok_mono: "entry_ok opts t e \<Longrightarrow> t \<le> u \<Longrightarrow> entry_ok opts u e"
  by (auto simp: entry_ok_def)

lemma limiter_ok_mono: "limiter_ok opts t m \<Longrightarrow> t \<le> u \<Longrightarrow> limiter_ok opts u m"
  unfolding limiter_ok_def using entry_ok_mono by blast

lemma map_of_sweep:
  "distinct (map fst m) \<Longrightarrow>
     map_of (sweep opts t m) k = (case map_of m k of None \<Rightarrow> None | Some e \<Rightarrow> if expired opts t e then None else Some e)"
  by (induction m) (auto simp: sweep_def map_of_eq_None_iff split: option.split dest: map_of_SomeD)

lemma distinct_sweep: "distinct (map fst m) \<Longrightarrow> distinct (map fst (sweep opts t m))"
  by (induction m) (auto simp: sweep_def)

lemma entryFor_sweep: "distinct (map fst m) \<Longrightarrow> entryFor opts k t (sweep opts t m) = entryFor opts k t m"
  by (simp add: entryFor_def map_of_sweep split: option.split)

lemma sweep_ok: "limiter_ok opts t m \<Longrightarrow> limiter_ok opts t (sweep opts t m)"
  by (auto simp: limiter_ok_def distinct_sweep map_of_sweep split: option.splits if_splits)

lemma limiter_entry: "limiter_ok opts t m \<Longrightarrow> map_of m k = Some e \<Longrightarrow> entry_ok opts t e"
  unfolding limiter_ok_def by blast

lemma fresh_ok: "sound_limits opts \<Longrightarrow> entry_ok opts t \<lparr>en_failures = 0, en_since = t, en_lockedUntil = 0\<rparr>"
  by (simp add: entry_ok_def sound_limits_def)

lemma entryFor_ok:
  assumes "limiter_ok opts t m" "sound_limits opts" shows "entry_ok opts t (entryFor opts k t m)"
  using limiter_entry [OF assms(1), of k] fresh_ok [OF assms(2)]
  by (simp add: entryFor_def Let_def split: option.split)

lemma fail_key_entry:
  assumes "entry_ok opts t e" "sound_limits opts" "0 \<le> t"
  shows "entry_ok opts t (let e = e\<lparr>en_failures := en_failures e + 1\<rparr>
    in if en_failures e \<ge> lo_maxAttempts opts then e\<lparr>en_lockedUntil := t + lo_lockoutMs opts\<rparr> else e)"
  using assms by (auto simp: entry_ok_def sound_limits_def Let_def)

lemma fail_key_ok:
  assumes "limiter_ok opts t m" "sound_limits opts" "0 \<le> t"
  shows "limiter_ok opts t (fail_key opts t m k)"
  using assms fail_key_entry [OF entryFor_ok [OF assms(1,2)] assms(2,3), of k]
  by (auto simp: limiter_ok_def fail_key_def Let_def distinct_update map_of_update split: if_splits)

lemma fail_keys_ok:
  "limiter_ok opts t m \<Longrightarrow> sound_limits opts \<Longrightarrow> 0 \<le> t \<Longrightarrow> limiter_ok opts t (foldl (fail_key opts t) m ks)"
  by (induction ks arbitrary: m) (simp_all add: fail_key_ok)

lemma succeed_map:
  "distinct (map fst m) \<Longrightarrow> distinct (map fst (succeed ks m)) \<and> map_of (succeed ks m) k = (if k \<in> set ks then None else map_of m k)"
  unfolding succeed_def by (induction ks arbitrary: m) (auto simp: distinct_delete delete_conv')

lemma succeed_ok: "limiter_ok opts t m \<Longrightarrow> limiter_ok opts t (succeed ks m)"
  using succeed_map [of m ks] by (auto simp: limiter_ok_def split: if_splits)

lemma try_login_ok:
  assumes "limiter_ok opts t m" "sound_limits opts" "0 \<le> t" "t \<le> ta_time a"
  shows "limiter_ok opts (ta_time a) (snd (try_login opts a m))"
proof -
  have "limiter_ok opts (ta_time a) m" using limiter_ok_mono assms(1,4) by blast
  then show ?thesis
    using sweep_ok fail_keys_ok [OF _ assms(2)] succeed_ok assms(3,4) by (simp add: try_login_def fail_def)
qed

section \<open>The budget of a key in a span of one window\<close>

text \<open>The span starts at \<open>t0\<close>.\<close>

definition budget :: "limiter_options \<Rightarrow> int \<Rightarrow> limit_entry option \<Rightarrow> nat" where
  "budget opts t0 entry =
     (let n = lo_maxAttempts opts
      in case entry of
           None \<Rightarrow> n
         | Some e \<Rightarrow>
             if en_failures e < n then (if en_since e < t0 then 2 * n - 1 - en_failures e else n - en_failures e)
             else if t0 + lo_windowMs opts \<le> en_lockedUntil e then 0 else n)"

lemma budget_start: "sound_limits opts \<Longrightarrow> budget opts t0 x \<le> 2 * lo_maxAttempts opts - 1"
  by (auto simp: budget_def sound_limits_def Let_def split: option.split)

lemma budget_expired:
  assumes "entry_ok opts t e" "expired opts t e" "t < t0 + lo_windowMs opts" "sound_limits opts"
  shows "lo_maxAttempts opts \<le> budget opts t0 (Some e)"
  using assms by (auto simp: budget_def expired_def entry_ok_def sound_limits_def Let_def)

lemma budget_sweep:
  assumes "limiter_ok opts t m" "sound_limits opts" "t < t0 + lo_windowMs opts"
  shows "budget opts t0 (map_of (sweep opts t m) k) \<le> budget opts t0 (map_of m k)"
proof (cases "map_of m k")
  case None
  then show ?thesis using assms(1) by (simp add: map_of_sweep limiter_ok_def)
next
  case (Some e)
  then have "entry_ok opts t e" "distinct (map fst m)" using assms(1) by (simp_all add: limiter_ok_def)
  then show ?thesis using budget_expired [of opts t e t0] Some assms(2,3)
    by (simp add: map_of_sweep) (simp add: budget_def)
qed

text \<open>Counting a failure.\<close>

lemma budget_fail:
  assumes ok: "limiter_ok opts t m" "sound_limits opts" and span: "0 \<le> t" "t0 \<le> t" "t < t0 + lo_windowMs opts"
  shows "budget opts t0 (map_of (fail_key opts t m k) k)
      + (if en_lockedUntil (entryFor opts k t m) \<le> t then 1 else 0) \<le> budget opts t0 (map_of m k)"
proof (cases "\<exists>e. map_of m k = Some e \<and> \<not> expired opts t e")
  case False
  then have "entryFor opts k t m = \<lparr>en_failures = 0, en_since = t, en_lockedUntil = 0\<rparr>"
    by (auto simp: entryFor_def Let_def split: option.split)
  moreover have "lo_maxAttempts opts \<le> budget opts t0 (map_of m k)"
    using False budget_expired [of opts t _ t0] ok span(3)
    by (cases "map_of m k") (auto simp: limiter_ok_def, simp add: budget_def)
  ultimately show ?thesis
    using ok(2) span by (auto simp: fail_key_def map_of_update budget_def sound_limits_def Let_def)
next
  case True
  then obtain e where e: "map_of m k = Some e" "\<not> expired opts t e" by blast
  then have "entry_ok opts t e" using ok(1) by (simp add: limiter_ok_def)
  then show ?thesis using e ok(2) span
    by (auto simp: fail_key_def entryFor_def map_of_update budget_def sound_limits_def entry_ok_def expired_def Let_def)
qed

lemma fail_key_other: "j \<noteq> k \<Longrightarrow> map_of (fail_key opts t m j) k = map_of m k"
  by (simp add: fail_key_def Let_def)

lemma budget_fails:
  assumes "limiter_ok opts t m" "sound_limits opts" "0 \<le> t" "t0 \<le> t" "t < t0 + lo_windowMs opts"
  shows "budget opts t0 (map_of (foldl (fail_key opts t) m ks) k)
      + (if k \<in> set ks \<and> en_lockedUntil (entryFor opts k t m) \<le> t then 1 else 0) \<le> budget opts t0 (map_of m k)"
  using assms(1)
proof (induction ks arbitrary: m)
  case (Cons j ks)
  have ok: "limiter_ok opts t (fail_key opts t m j)" using fail_key_ok [OF Cons.prems assms(2,3)] .
  show ?case
  proof (cases "j = k")
    case True
    then show ?thesis using Cons.IH [OF ok] budget_fail [OF Cons.prems assms(2-5), of k] by (auto split: if_splits)
  next
    case False
    then have "map_of (fail_key opts t m j) k = map_of m k" by (rule fail_key_other)
    moreover from this have "entryFor opts k t (fail_key opts t m j) = entryFor opts k t m" by (simp add: entryFor_def)
    ultimately show ?thesis using Cons.IH [OF ok] False by simp
  qed
qed simp

lemma max_fold: "foldl (\<lambda>a k. if f k > t then max a (f k - t) else a) c ks \<ge> (c :: int)
  \<and> ((foldl (\<lambda>a k. if f k > t then max a (f k - t) else a) c ks \<le> 0) = (c \<le> 0 \<and> (\<forall>k \<in> set ks. f k \<le> t)))"
  by (induction ks arbitrary: c) (auto simp: max_def, (smt (verit))+)

lemma check_allowed: "fst (check opts t ks m) = (\<forall>k \<in> set ks. en_lockedUntil (entryFor opts k t m) \<le> t)"
proof -
  define x where "x = foldl (\<lambda>a k. if en_lockedUntil (entryFor opts k t m) > t then max a (en_lockedUntil (entryFor opts k t m) - t) else a) 0 ks"
  have x: "0 \<le> x" "(x \<le> 0) = (\<forall>k \<in> set ks. en_lockedUntil (entryFor opts k t m) \<le> t)"
    using max_fold [where f = "\<lambda>k. en_lockedUntil (entryFor opts k t m)" and t = t and c = 0 and ks = ks] unfolding x_def by blast+
  have "fst (check opts t ks m) = (x = 0)" unfolding x_def by (simp only: check_def Let_def fst_conv)
  then show ?thesis using x(1) unfolding x(2) [symmetric] by simp
qed

lemma budget_try:
  assumes ok: "limiter_ok opts t m" "sound_limits opts" and t: "t \<le> ta_time a" "0 \<le> ta_time a" "t0 \<le> ta_time a" "ta_time a < t0 + lo_windowMs opts"
    and wrong: "k \<in> set (ta_keys a) \<Longrightarrow> \<not> ta_right a"
  shows "budget opts t0 (map_of (snd (try_login opts a m)) k) + (if k \<in> set (ta_keys a) \<and> fst (try_login opts a m) then 1 else 0)
    \<le> budget opts t0 (map_of m k)"
proof -
  let ?t = "ta_time a"
  have now: "limiter_ok opts ?t m" using limiter_ok_mono ok(1) t(1) by blast
  then have d: "distinct (map fst m)" by (simp add: limiter_ok_def)
  show ?thesis
  proof (cases "fst (check opts ?t (ta_keys a) m)")
    case False
    then show ?thesis by (simp add: try_login_def)
  next
    case allowed: True
    show ?thesis
    proof (cases "ta_right a")
      case True
      then show ?thesis using allowed wrong succeed_map [OF d] by (auto simp: try_login_def)
    next
      case False
      have "k \<in> set (ta_keys a) \<Longrightarrow> en_lockedUntil (entryFor opts k ?t (sweep opts ?t m)) \<le> ?t"
        using allowed by (simp add: check_allowed entryFor_sweep d)
      then show ?thesis
        using budget_fails [OF sweep_ok [OF now] ok(2) t(2-4), of "ta_keys a" k] budget_sweep [OF now ok(2) t(4), of k] allowed False
        by (auto simp: try_login_def fail_def split: if_splits)
    qed
  qed
qed

definition counted :: "string \<Rightarrow> attempt list \<Rightarrow> bool list \<Rightarrow> nat" where
  "counted k as oks = length (filter (\<lambda>(a, allowed). k \<in> set (ta_keys a) \<and> allowed) (zip as oks))"

lemma budget_tries:
  assumes "limiter_ok opts t m" "sound_limits opts" "0 \<le> t" "sorted (t # map ta_time as)"
    "\<forall>a \<in> set as. t0 \<le> ta_time a \<and> ta_time a < t0 + lo_windowMs opts \<and> (k \<in> set (ta_keys a) \<longrightarrow> \<not> ta_right a)"
  shows "counted k as (fst (try_logins opts as m)) \<le> budget opts t0 (map_of m k)"
  using assms(1,3-)
proof (induction as arbitrary: t m)
  case (Cons a as)
  let ?m = "snd (try_login opts a m)"
  have "limiter_ok opts (ta_time a) ?m" using try_login_ok [OF Cons.prems(1) assms(2)] Cons.prems(2,3) by simp
  then have "counted k as (fst (try_logins opts as ?m)) \<le> budget opts t0 (map_of ?m k)"
    using Cons.prems by (intro Cons.IH [of "ta_time a"]) auto
  moreover have "budget opts t0 (map_of ?m k) + (if k \<in> set (ta_keys a) \<and> fst (try_login opts a m) then 1 else 0)
      \<le> budget opts t0 (map_of m k)"
    using Cons.prems by (intro budget_try [OF Cons.prems(1) assms(2)]) auto
  ultimately show ?case by (auto simp: counted_def prod.case_eq_if Let_def split: if_splits)
qed (simp add: counted_def)

lemma tries_ok:
  assumes "limiter_ok opts t m" "sound_limits opts" "0 \<le> t" "sorted (t # map ta_time as)"
  shows "limiter_ok opts (List.last (t # map ta_time as)) (snd (try_logins opts as m))"
  using assms(1,3-)
proof (induction as arbitrary: t m)
  case (Cons a as)
  let ?m = "snd (try_login opts a m)"
  have "limiter_ok opts (ta_time a) ?m" using try_login_ok [OF Cons.prems(1) assms(2)] Cons.prems(2,3) by simp
  then show ?case using Cons.IH [of "ta_time a" ?m] Cons.prems by (simp add: prod.case_eq_if Let_def)
qed simp

text \<open>
  C30: The limiter bounds guessing. Whatever was attempted before, in any span shorter than the window
  in which nobody signs in with a key, fewer than twice the allowed number of attempts with that key
  reach the password, whatever other keys they are measured against.
\<close>

theorem guesses_bounded:
  assumes "1 \<le> lo_maxAttempts opts" "0 \<le> lo_windowMs opts" "lo_windowMs opts \<le> lo_lockoutMs opts"
    and "sorted (0 # map ta_time (before @ as))"
    and "\<forall>a \<in> set as. t0 \<le> ta_time a \<and> ta_time a < t0 + lo_windowMs opts \<and> (k \<in> set (ta_keys a) \<longrightarrow> \<not> ta_right a)"
  shows "counted k as (fst (try_logins opts as (snd (try_logins opts before [])))) < 2 * lo_maxAttempts opts"
proof -
  let ?m = "snd (try_logins opts before [])" and ?t = "List.last (0 # map ta_time before)"
  have s: "sound_limits opts" using assms(1-3) by (simp add: sound_limits_def)
  have "limiter_ok opts ?t ?m" using assms(4) by (intro tries_ok s) (simp_all add: limiter_ok_def sorted_append)
  moreover have "?t \<in> set (0 # map ta_time before)" by (rule last_in_set) simp
  then have "0 \<le> ?t" "sorted (?t # map ta_time as)"
    using assms(4) by (simp_all only: map_append append_Cons [symmetric] sorted_append sorted_wrt.simps list.set Ball_def) auto
  ultimately have "counted k as (fst (try_logins opts as ?m)) \<le> budget opts t0 (map_of ?m k)"
    by (intro budget_tries s assms(5))
  then show ?thesis using budget_start [OF s, of t0 "map_of ?m k"] assms(1) by simp
qed

section \<open>Concrete runs\<close>

definition guess :: "int \<Rightarrow> string \<Rightarrow> bool \<Rightarrow> attempt" where
  "guess t who right = \<lparr>ta_time = t, ta_keys = [''ip:1'', ''id:'' @ who], ta_right = right\<rparr>"

theorem guesses_bounded_witness:
  "counted ''ip:1'' [guess 901000 ''b'' False, guess 901001 ''c'' False]
     (fst (try_logins default_limits [guess 901000 ''b'' False, guess 901001 ''c'' False]
        (snd (try_logins default_limits [guess 5 ''a'' False] [])))) < 2 * lo_maxAttempts default_limits"
  by (rule guesses_bounded [where ?t0.0 = 901000]) (simp_all add: default_limits_def guess_def)

text \<open>
  One address may guess without end when it signs in with an account of its own in between: each
  success clears the address.
\<close>

definition guess_round :: "int \<Rightarrow> string \<Rightarrow> attempt list" where
  "guess_round t who = map (\<lambda>i. guess (t + int i) (who @ show_nat i) False) [0..<9] @ [guess (t + 9) ''me'' True]"

lemma address_cleared:
  "fst (try_logins default_limits (guess_round 0 ''a'' @ guess_round 10 ''b'' @ guess_round 20 ''c'') []) = replicate 30 True"
  by code_simp

end
