(* ===== verification/Totp.thy ===== *)
theory Totp
  imports Accounts "HOL-Library.Word"
begin

unbundle bit_operations_syntax

text \<open>
  One-time codes (\<^verbatim>\<open>totp.ts\<close>): base32 over 32-bit shifts, the code of a time step and its check,
  recovery codes. HMAC-SHA1 and SHA-256 are parameters, as bytes of a key and a message.

  The lemmas: the encoder writes the bits of the bytes in groups of five and the decoder reads them
  in groups of eight, so that a secret is read back as it was made although the accumulator of both
  overflows; a code is accepted in its own step and in the ones beside it.
\<close>

section \<open>Base32\<close>

definition base32_alphabet :: string where "base32_alphabet = ''ABCDEFGHIJKLMNOPQRSTUVWXYZ234567''"

text \<open>The inner loop: while five bits wait, one character goes out.\<close>

fun emit :: "nat \<Rightarrow> 32 word \<Rightarrow> string \<times> nat" where
  "emit bits acc =
     (if bits \<ge> 5 then
        let (out, b) = emit (bits - 5) acc in (base32_alphabet ! unat (drop_bit (bits - 5) acc AND 31) # out, b)
      else ([], bits))"

declare emit.simps [simp del]

fun encode_from :: "nat \<Rightarrow> 32 word \<Rightarrow> 8 word list \<Rightarrow> string" where
  "encode_from bits acc [] =
     (if bits > 0 then [base32_alphabet ! unat (push_bit (5 - bits) acc AND 31)] else [])"
| "encode_from bits acc (byte # bytes) =
     (let acc = push_bit 8 acc OR ucast byte; (out, bits) = emit (bits + 8) acc
      in out @ encode_from bits acc bytes)"

definition base32Encode :: "8 word list \<Rightarrow> string" where
  "base32Encode bytes = encode_from 0 0 bytes"

definition index_of :: "char \<Rightarrow> string \<Rightarrow> nat option" where
  "index_of c s = (let n = length (takeWhile (\<lambda>d. d \<noteq> c) s) in if n < length s then Some n else None)"

fun decode_from :: "nat \<Rightarrow> 32 word \<Rightarrow> string \<Rightarrow> (string, 8 word list) result" where
  "decode_from bits acc [] = Inr []"
| "decode_from bits acc (c # cs) =
     (case index_of c base32_alphabet of
        None \<Rightarrow> Inl ''not base32''
      | Some index \<Rightarrow>
          let acc = push_bit 5 acc OR of_nat index; bits = bits + 5
          in if bits \<ge> 8
             then and_then (decode_from (bits - 8) acc cs) (\<lambda>out. Inr (ucast (drop_bit (bits - 8) acc AND 255) # out))
             else decode_from bits acc cs)"

text \<open>
  \<open>toUpperCase\<close>; a sharp s becomes two letters. The two letters of Latin-1 whose capitals are
  outside it stay: neither form is a character of base32 or of a code.
\<close>

definition js_upper :: "string \<Rightarrow> string" where
  "js_upper s = concat (map (\<lambda>c.
     let n = of_char c :: nat
     in if n = 223 then ''SS''
        else if (97 \<le> n \<and> n \<le> 122) \<or> (224 \<le> n \<and> n \<le> 254 \<and> n \<noteq> 247) then [char_of (n - 32)] else [c]) s)"

definition base32Decode :: "string \<Rightarrow> (string, 8 word list) result" where
  "base32Decode secret =
     decode_from 0 0 (filter (\<lambda>c. \<not> js_space c) (rev (dropWhile (\<lambda>c. c = CHR ''='') (rev (js_upper secret)))))"

section \<open>The bits of a word\<close>

definition top_bits :: "nat \<Rightarrow> 'a::len word \<Rightarrow> bool list" where
  "top_bits k w = map (bit w) (rev [0..<k])"

lemma length_top_bits [simp]: "length (top_bits k w) = k"
  by (simp add: top_bits_def)

lemma top_bits_cong: "(\<And>i. i < k \<Longrightarrow> bit v i = bit w i) \<Longrightarrow> top_bits k v = top_bits k w"
  by (auto simp: top_bits_def)

lemma top_bits_split: "top_bits (k + m) w = top_bits k (drop_bit m w) @ top_bits m w"
proof -
  have "[0..<k + m] = [0..<m] @ map (\<lambda>i. i + m) [0..<k]"
    using upt_add_eq_append [of 0 m k] unfolding map_add_upt by (simp add: add.commute)
  then show ?thesis by (simp add: top_bits_def rev_map bit_simps comp_def add.commute del: upt_Suc)
qed

lemma top_bits_push:
  fixes v :: "32 word" and x :: "32 word"
  assumes "b + n \<le> 32" "\<And>i. n \<le> i \<Longrightarrow> \<not> bit x i"
  shows "top_bits (b + n) (push_bit n v OR x) = top_bits b v @ top_bits n x"
proof -
  have "top_bits b (drop_bit n (push_bit n v OR x)) = top_bits b v"
    using assms by (intro top_bits_cong) (auto simp: bit_simps)
  moreover have "top_bits n (push_bit n v OR x) = top_bits n x"
    by (intro top_bits_cong) (auto simp: bit_simps)
  ultimately show ?thesis by (simp add: top_bits_split)
qed

lemma top_bits_eq: "(top_bits k v = top_bits k w) = (\<forall>i < k. bit v i = bit w i)"
  by (auto simp: top_bits_def simp del: upt_Suc)

lemma top_bits_mask:
  fixes w :: "32 word" shows "top_bits 5 (w AND 31) = top_bits 5 w" "top_bits 8 (w AND 255) = top_bits 8 w"
proof -
  have m: "(31 :: 32 word) = mask 5" "(255 :: 32 word) = mask 8" by (simp_all add: mask_eq_exp_minus_1)
  have b: "bit (mask k :: 32 word) i = (i < k)" if "k \<le> 32" for i k
    using that by (auto simp: bit_mask_iff)
  have "bit (31 :: 32 word) i = (i < 5)" "bit (255 :: 32 word) i = (i < 8)" for i
    unfolding m by (rule b, simp)+
  then show "top_bits 5 (w AND 31) = top_bits 5 w" "top_bits 8 (w AND 255) = top_bits 8 w"
    unfolding top_bits_eq bit_and_iff by blast+
qed

lemma top_bits_inject: "top_bits 8 (a :: 8 word) = top_bits 8 b \<Longrightarrow> a = b"
  by (rule bit_word_eqI) (simp add: top_bits_eq)

section \<open>What the encoder writes and the decoder reads\<close>

definition index_bits :: "char \<Rightarrow> bool list" where
  "index_bits c = (case index_of c base32_alphabet of None \<Rightarrow> [] | Some i \<Rightarrow> top_bits 5 (of_nat i :: 32 word))"

abbreviation text_bits :: "string \<Rightarrow> bool list" where "text_bits s \<equiv> concat (map index_bits s)"
abbreviation byte_bits :: "8 word list \<Rightarrow> bool list" where "byte_bits bs \<equiv> concat (map (top_bits 8) bs)"

lemma alphabet_index: "i < 32 \<Longrightarrow> index_of (base32_alphabet ! i) base32_alphabet = Some i"
proof -
  have "list_all (\<lambda>i. index_of (base32_alphabet ! i) base32_alphabet = Some i) [0..<32]" by code_simp
  then show "i < 32 \<Longrightarrow> index_of (base32_alphabet ! i) base32_alphabet = Some i" by (simp add: list_all_iff)
qed

lemma alphabet_length: "length base32_alphabet = 32"
  by code_simp

lemma five_bits_less: "unat (w AND 31 :: 32 word) < 32"
proof -
  have "w AND 31 \<le> 31" by (rule word_and_le1)
  then show ?thesis by (simp add: word_le_nat_alt)
qed

lemma index_bits_char: "index_bits (base32_alphabet ! unat (w AND 31 :: 32 word)) = top_bits 5 w"
  using five_bits_less [of w] by (simp add: index_bits_def alphabet_index top_bits_mask)

lemma five_bits_char: "base32_alphabet ! unat (w AND 31 :: 32 word) \<in> set base32_alphabet"
  by (rule nth_mem) (simp add: alphabet_length five_bits_less)

lemma emit_bits:
  "emit bits acc = (out, b) \<Longrightarrow> b < 5 \<and> b \<le> bits \<and> text_bits out @ top_bits b acc = top_bits bits acc
     \<and> set out \<subseteq> set base32_alphabet"
proof (induction bits acc arbitrary: out rule: emit.induct)
  case (1 bits acc)
  show ?case
  proof (cases "5 \<le> bits")
    case True
    obtain o1 where e: "emit (bits - 5) acc = (o1, b)" "out = base32_alphabet ! unat (drop_bit (bits - 5) acc AND 31) # o1"
      using 1(2) True by (subst (asm) emit.simps) (auto split: prod.splits)
    have "top_bits (5 + (bits - 5)) acc = top_bits 5 (drop_bit (bits - 5) acc) @ top_bits (bits - 5) acc"
      by (rule top_bits_split)
    then show ?thesis using five_bits_char 1(1) [OF True e(1)] True by (simp add: e(2) index_bits_char)
  next
    case False
    then show ?thesis using 1(2) by (subst (asm) emit.simps) auto
  qed
qed

lemma encode_bits:
  "bits < 5 \<Longrightarrow> \<exists>z. text_bits (encode_from bits acc bytes) = top_bits bits acc @ byte_bits bytes @ z \<and> length z < 5
     \<and> set (encode_from bits acc bytes) \<subseteq> set base32_alphabet"
proof (induction bytes arbitrary: bits acc)
  case Nil
  show ?case
  proof (cases "bits > 0")
    case True
    have "top_bits (bits + (5 - bits)) (push_bit (5 - bits) acc)
        = top_bits bits (drop_bit (5 - bits) (push_bit (5 - bits) acc)) @ top_bits (5 - bits) (push_bit (5 - bits) acc)"
      by (rule top_bits_split)
    moreover have "top_bits bits (drop_bit (5 - bits) (push_bit (5 - bits) acc)) = top_bits bits acc"
      using Nil by (intro top_bits_cong) (auto simp: bit_simps)
    ultimately have "top_bits 5 (push_bit (5 - bits) acc) = top_bits bits acc @ top_bits (5 - bits) (push_bit (5 - bits) acc)"
      using Nil by simp
    then show ?thesis using True five_bits_char by (intro exI [of _ "top_bits (5 - bits) (push_bit (5 - bits) acc)"]) (simp add: index_bits_char)
  next
    case False
    then show ?thesis by (simp add: top_bits_def)
  qed
next
  case (Cons byte bytes)
  define v where "v = (push_bit 8 acc OR ucast byte :: 32 word)"
  obtain out b where e: "emit (bits + 8) v = (out, b)" by (cases "emit (bits + 8) v")
  note m = emit_bits [OF e]
  have "top_bits (bits + 8) v = top_bits bits acc @ top_bits 8 (ucast byte :: 32 word)"
    unfolding v_def using Cons.prems by (intro top_bits_push) (auto simp: bit_simps dest: bit_imp_le_length)
  also have "top_bits 8 (ucast byte :: 32 word) = top_bits 8 byte" by (auto simp: top_bits_def bit_simps simp del: upt_Suc)
  finally have v: "text_bits out @ top_bits b v = top_bits bits acc @ top_bits 8 byte" using m by simp
  obtain z where z: "text_bits (encode_from b v bytes) = top_bits b v @ byte_bits bytes @ z" "length z < 5"
      "set (encode_from b v bytes) \<subseteq> set base32_alphabet"
    using Cons.IH m by blast
  have "encode_from bits acc (byte # bytes) = out @ encode_from b v bytes" by (simp add: e v_def [symmetric])
  then show ?case using z m v by (auto intro!: exI [of _ z] simp: append_assoc [symmetric] simp del: append_assoc)
qed

lemma decode_bits:
  "set cs \<subseteq> set base32_alphabet \<Longrightarrow> bits < 8 \<Longrightarrow>
     \<exists>out z. decode_from bits acc cs = Inr out \<and> top_bits bits acc @ text_bits cs = byte_bits out @ z \<and> length z < 8"
proof (induction cs arbitrary: bits acc)
  case Nil
  then show ?case by simp
next
  case (Cons c cs)
  obtain i where i: "index_of c base32_alphabet = Some i" "i < 32"
    using Cons.prems(1) alphabet_index by (auto simp: in_set_conv_nth alphabet_length)
  define v where "v = (push_bit 5 acc OR of_nat i :: 32 word)"
  have "\<not> bit (of_nat i :: 32 word) n" if "5 \<le> n" for n
  proof -
    have "i < 2 ^ n" using i(2) power_increasing [OF that, of "2::nat"] by simp
    then show ?thesis unfolding bit_of_nat_iff by (simp add: bit_iff_odd)
  qed
  then have v: "top_bits (bits + 5) v = top_bits bits acc @ index_bits c"
    unfolding v_def using Cons.prems(2) i(1) by (subst top_bits_push) (simp_all add: index_bits_def)
  show ?case
  proof (cases "bits + 5 \<ge> 8")
    case True
    then obtain out z where z: "decode_from (bits + 5 - 8) v cs = Inr out" "top_bits (bits + 5 - 8) v @ text_bits cs = byte_bits out @ z" "length z < 8"
      using Cons.IH [of "bits + 5 - 8" v] Cons.prems by fastforce
    have a: "top_bits (bits + 5) v = top_bits 8 (drop_bit (bits + 5 - 8) v) @ top_bits (bits + 5 - 8) v"
      using top_bits_split [of 8 "bits + 5 - 8" v] unfolding le_add_diff_inverse [OF True] .
    have b: "top_bits 8 (drop_bit (bits + 5 - 8) v) = top_bits 8 (ucast (drop_bit (bits + 5 - 8) v AND 255) :: 8 word)"
      by (subst top_bits_mask(2) [symmetric]) (auto simp: top_bits_def bit_simps simp del: upt_Suc)
    have "top_bits bits acc @ text_bits (c # cs) = top_bits (bits + 5) v @ text_bits cs" unfolding v by simp
    also have "\<dots> = byte_bits (ucast (drop_bit (bits + 5 - 8) v AND 255) # out) @ z"
      unfolding a b append_assoc z(2) by simp
    finally have "top_bits bits acc @ text_bits (c # cs) = byte_bits (ucast (drop_bit (bits + 5 - 8) v AND 255) # out) @ z" .
    moreover have "decode_from bits acc (c # cs) = Inr (ucast (drop_bit (bits + 5 - 8) v AND 255) # out)"
      using i(1) True z(1) by (simp add: v_def [symmetric] Let_def)
    ultimately show ?thesis using z(3) by blast
  next
    case False
    then obtain out z where z: "decode_from (bits + 5) v cs = Inr out" "top_bits (bits + 5) v @ text_bits cs = byte_bits out @ z" "length z < 8"
      using Cons.IH [of "bits + 5" v] Cons.prems by auto
    then show ?thesis using i(1) False v by (intro exI [of _ out] exI [of _ z]) (simp add: v_def [symmetric] Let_def)
  qed
qed

lemma byte_bits_inject: "byte_bits a @ x = byte_bits b @ y \<Longrightarrow> length x < 8 \<Longrightarrow> length y < 8 \<Longrightarrow> a = b"
proof (induction a arbitrary: b)
  case Nil
  then show ?case by (cases b) (auto dest: arg_cong [of _ _ length])
next
  case (Cons c a)
  then show ?case
  proof (cases b)
    case Nil
    then show ?thesis using Cons.prems by (auto dest!: arg_cong [of _ _ length])
  next
    case (Cons d b')
    then have "top_bits 8 c = top_bits 8 d" "byte_bits a @ x = byte_bits b' @ y" using Cons.prems(1) by simp_all
    then show ?thesis using Cons.IH Cons.prems(2,3) Cons top_bits_inject by simp
  qed
qed

lemma base32_plain: "c \<in> set base32_alphabet \<Longrightarrow> js_upper [c] = [c] \<and> \<not> js_space c \<and> c \<noteq> CHR ''=''"
proof -
  have "list_all (\<lambda>c. js_upper [c] = [c] \<and> \<not> js_space c \<and> c \<noteq> CHR ''='') base32_alphabet" by code_simp
  then show "c \<in> set base32_alphabet \<Longrightarrow> js_upper [c] = [c] \<and> \<not> js_space c \<and> c \<noteq> CHR ''=''" by (simp add: list_all_iff)
qed

lemma js_upper_Cons: "js_upper (c # s) = js_upper [c] @ js_upper s"
  by (simp add: js_upper_def)

lemma clean_text:
  assumes "set s \<subseteq> set base32_alphabet"
  shows "filter (\<lambda>c. \<not> js_space c) (rev (dropWhile (\<lambda>c. c = CHR ''='') (rev (js_upper s)))) = s"
proof -
  have "js_upper s = s" using assms
  proof (induction s)
    case (Cons c s)
    then show ?case using base32_plain [of c] by (subst js_upper_Cons) simp
  qed (simp add: js_upper_def)
  moreover have "dropWhile (\<lambda>c. c = CHR ''='') (rev s) = rev s"
    using assms base32_plain by (subst dropWhile_eq_self_iff) (metis hd_in_set set_rev subsetD)
  moreover have "filter (\<lambda>c. \<not> js_space c) s = s" using assms base32_plain by (auto simp: filter_id_conv)
  ultimately show ?thesis by simp
qed

text \<open>
  C31: A secret is read back as it was made. Whatever bytes are written in base32 - any number of them,
  though the accumulators of the encoder and of the decoder keep 32 bits and overflow - the decoder
  gives the same bytes.
\<close>

theorem base32_roundtrip: "base32Decode (base32Encode bytes) = Inr bytes"
proof -
  obtain z where z: "text_bits (base32Encode bytes) = byte_bits bytes @ z" "length z < 5"
      "set (base32Encode bytes) \<subseteq> set base32_alphabet"
    using encode_bits [of 0 0 bytes] by (auto simp: base32Encode_def top_bits_def)
  obtain out x where x: "decode_from 0 0 (base32Encode bytes) = Inr out" "text_bits (base32Encode bytes) = byte_bits out @ x" "length x < 8"
    using decode_bits [OF z(3), of 0 0] by (auto simp: top_bits_def)
  have "out = bytes" using byte_bits_inject [of out x bytes z] x(2,3) z(1,2) by simp
  then show ?thesis using x(1) by (simp add: base32Decode_def clean_text [OF z(3)])
qed

section \<open>Codes\<close>

definition totp_step_seconds :: rat where "totp_step_seconds = 30"
definition totp_digits :: nat where "totp_digits = 6"

text \<open>\<open>bytes\<close> are random.\<close>

definition generateTotpSecret :: "8 word list \<Rightarrow> string" where
  "generateTotpSecret bytes = base32Encode (take 20 bytes)"

text \<open>Two big-endian halves of 32 bits.\<close>

definition word_bytes :: "32 word \<Rightarrow> 8 word list" where
  "word_bytes w = [ucast (drop_bit 24 w), ucast (drop_bit 16 w), ucast (drop_bit 8 w), ucast w]"

definition counter_bytes :: "nat \<Rightarrow> 8 word list" where
  "counter_bytes counter = word_bytes (of_nat (counter div 2 ^ 32)) @ word_bytes (of_nat counter)"

text \<open>A byte past the end of the digest counts as zero in a shift.\<close>

definition byte_at :: "8 word list \<Rightarrow> nat \<Rightarrow> 32 word" where
  "byte_at d i = (if i < length d then ucast (d ! i) else 0)"

definition truncated :: "8 word list \<Rightarrow> nat" where
  "truncated d =
     (let offset = unat (byte_at d (length d - 1) AND 0x0f)
      in unat (push_bit 24 (byte_at d offset AND 0x7f) OR push_bit 16 (byte_at d (offset + 1))
           OR push_bit 8 (byte_at d (offset + 2)) OR byte_at d (offset + 3)))"

definition padStart :: "nat \<Rightarrow> string \<Rightarrow> string" where
  "padStart n s = replicate (n - length s) CHR ''0'' @ s"

definition totpCode :: "(8 word list \<Rightarrow> 8 word list \<Rightarrow> 8 word list) \<Rightarrow> string \<Rightarrow> nat \<Rightarrow> (string, string) result" where
  "totpCode hmac secret counter =
     and_then (base32Decode secret) (\<lambda>key.
       Inr (padStart totp_digits (show_nat (truncated (hmac key (counter_bytes counter)) mod 10 ^ totp_digits))))"

definition counterFor :: "time \<Rightarrow> nat" where
  "counterFor now = nat \<lfloor>jdiv (jdiv (of_int now) 1000) totp_step_seconds\<rfloor>"

text \<open>The steps from \<open>k\<close> on, until one gives the code.\<close>

fun any_step :: "(8 word list \<Rightarrow> 8 word list \<Rightarrow> 8 word list) \<Rightarrow> string \<Rightarrow> string \<Rightarrow> nat list \<Rightarrow> (string, bool) result" where
  "any_step hmac secret candidate [] = Inr False"
| "any_step hmac secret candidate (k # ks) =
     and_then (totpCode hmac secret k) (\<lambda>c. if c = candidate then Inr True else any_step hmac secret candidate ks)"

definition verifyTotp :: "(8 word list \<Rightarrow> 8 word list \<Rightarrow> 8 word list) \<Rightarrow> string \<Rightarrow> string \<Rightarrow> time \<Rightarrow> (string, bool) result" where
  "verifyTotp hmac secret code now =
     (let candidate = filter (\<lambda>c. \<not> js_space c) code; base = counterFor now
      in if length candidate \<noteq> 6 \<or> \<not> list_all digit candidate then Inr False
         else any_step hmac secret candidate [base - 1, base, base + 1])"

definition recovery_code_count :: nat where "recovery_code_count = 10"

text \<open>\<open>raw\<close> are ten hexadecimal digits for each code.\<close>

definition generateRecoveryCodes :: "string list \<Rightarrow> string list" where
  "generateRecoveryCodes raw = map (\<lambda>x. take 5 (js_upper x) @ ''-'' @ drop 5 (js_upper x)) (take recovery_code_count raw)"

definition normalizeRecoveryCode :: "string \<Rightarrow> string" where
  "normalizeRecoveryCode code = js_upper (filter (\<lambda>c. \<not> js_space c \<and> c \<noteq> CHR ''-'') code)"

definition hashRecoveryCode :: "(string \<Rightarrow> string) \<Rightarrow> string \<Rightarrow> string" where
  "hashRecoveryCode sha code = sha (normalizeRecoveryCode code)"

definition looksLikeRecoveryCode :: "string \<Rightarrow> bool" where
  "looksLikeRecoveryCode code =
     (let s = normalizeRecoveryCode code in length s = 10 \<and> list_all (\<lambda>c. digit c \<or> c \<in> set ''ABCDEF'') s)"

lemma show_nat_length: "n < 10 ^ Suc k \<Longrightarrow> length (show_nat n) \<le> Suc k"
proof (induction k arbitrary: n)
  case 0
  then show ?case by (subst show_nat.simps) simp
next
  case (Suc k)
  then have "n div 10 < 10 ^ Suc k" by (simp add: div_less_iff_less_mult mult.commute)
  then show ?case using Suc.IH [of "n div 10"] by (subst show_nat.simps) simp
qed

lemma code_shape:
  assumes "totpCode hmac secret k = Inr c" shows "length c = 6" "list_all digit c"
proof -
  obtain n where n: "n < 10 ^ Suc 5" "c = padStart 6 (show_nat n)"
    using assms by (auto simp: totpCode_def and_then_def totp_digits_def split: sum.splits intro!: that [of "_ mod 1000000"])
  have "digit CHR ''0''" by code_simp
  then show "length c = 6" "list_all digit c"
    using show_nat_length [OF n(1)] show_nat_digits by (auto simp: n(2) padStart_def list_all_iff)
qed

lemma any_step_found:
  "totpCode hmac secret k = Inr c \<Longrightarrow> k \<in> set ks \<Longrightarrow> any_step hmac secret c ks = Inr True"
proof (induction ks)
  case (Cons j ks)
  obtain key where "base32Decode secret = Inr key" using Cons.prems(1) by (auto simp: totpCode_def and_then_def split: sum.splits)
  then obtain d where "totpCode hmac secret j = Inr d" by (simp add: totpCode_def)
  then show ?case using Cons by auto
qed simp

lemma any_step_true:
  "any_step hmac secret c ks = Inr True \<Longrightarrow> \<exists>k \<in> set ks. totpCode hmac secret k = Inr c"
  by (induction ks) (auto simp: and_then_def split: sum.splits if_splits)

text \<open>
  A six-digit code is accepted exactly when it is the code of the current step of thirty seconds
  or of the one before or after it, whatever spaces it is typed with; every code of a readable
  secret has six digits, so each is accepted in its own step.
\<close>

theorem totp_window:
  "verifyTotp hmac secret code now = Inr True \<longleftrightarrow>
      (\<exists>k \<in> {counterFor now - 1, counterFor now, counterFor now + 1}.
         totpCode hmac secret k = Inr (filter (\<lambda>c. \<not> js_space c) code))"
proof
  assume "verifyTotp hmac secret code now = Inr True"
  then show "\<exists>k \<in> {counterFor now - 1, counterFor now, counterFor now + 1}.
      totpCode hmac secret k = Inr (filter (\<lambda>c. \<not> js_space c) code)"
    unfolding verifyTotp_def Let_def by (auto split: if_splits dest!: any_step_true simp del: any_step.simps)
next
  assume "\<exists>k \<in> {counterFor now - 1, counterFor now, counterFor now + 1}.
      totpCode hmac secret k = Inr (filter (\<lambda>c. \<not> js_space c) code)"
  then obtain k where k: "k \<in> set [counterFor now - 1, counterFor now, counterFor now + 1]"
      "totpCode hmac secret k = Inr (filter (\<lambda>c. \<not> js_space c) code)" by auto
  show "verifyTotp hmac secret code now = Inr True"
    using any_step_found [OF k(2,1)] code_shape [OF k(2)] by (simp add: verifyTotp_def Let_def del: any_step.simps)
qed

end
