(* ===== verification/Sign_In.thy ===== *)
theory Sign_In
  imports Login_Limiter Totp Js_Text
begin

text \<open>
  Signing in (\<^verbatim>\<open>auth.ts\<close>): sessions and the tokens that name them, API tokens and their scopes
  (\<^verbatim>\<open>apiTokens.ts\<close>), the second factor, and the links mailed to reset a password or confirm an
  address (\<^verbatim>\<open>passwordReset.ts\<close>, \<^verbatim>\<open>emailVerification.ts\<close>).

  JSON web tokens, digests, random secrets, mail and the reading of a date are in \<open>sign_in_context\<close>
  or arguments. A mail is sent after the response; here the task that sends it is an operation of
  its own.

  The lemmas: what each operation leaves of the sessions and the links; a session that ended opens
  no door again, and a mailed link works once.
\<close>

section \<open>API tokens\<close>

definition api_token_prefix :: string where "api_token_prefix = ''nxi_''"

definition isApiTokenSecret :: "string \<Rightarrow> bool" where
  "isApiTokenSecret v = (starts_with v api_token_prefix \<and> length v > length api_token_prefix)"

definition api_scopes :: "string list" where "api_scopes = [''write'', ''admin'']"

definition isApiScope :: "json \<Rightarrow> bool" where
  "isApiScope v = (case v of JStr s \<Rightarrow> s \<in> set api_scopes | _ \<Rightarrow> False)"

text \<open>Pieces between runs of white space.\<close>

function split_space :: "string \<Rightarrow> string list" where
  "split_space [] = [[]]"
| "split_space (c # s) =
     (if js_space c then [] # split_space (dropWhile js_space s)
      else case split_space s of [] \<Rightarrow> [[c]] | w # ws \<Rightarrow> (c # w) # ws)"
  by pat_completeness auto
termination
  by (relation "measure length") (simp_all add: le_imp_less_Suc length_dropWhile_le)

definition parseScopes :: "string option \<Rightarrow> string list" where
  "parseScopes stored = filter (\<lambda>s. s \<in> set api_scopes) (split_space (nullish stored []))"

definition formatScopes :: "string list \<Rightarrow> string" where
  "formatScopes scopes = js_join '' '' (js_unique scopes)"

definition isSafeMethod :: "string \<Rightarrow> bool" where
  "isSafeMethod verb = (js_upper verb \<in> {''GET'', ''HEAD'', ''OPTIONS''})"

definition scopeAllowsMethod :: "string list \<Rightarrow> string \<Rightarrow> bool" where
  "scopeAllowsMethod scopes verb = (isSafeMethod verb \<or> ''write'' \<in> set scopes)"

definition scopeAllowsAdmin :: "string list \<Rightarrow> bool" where
  "scopeAllowsAdmin scopes = (''admin'' \<in> set scopes)"

definition isExpired :: "time option \<Rightarrow> time \<Rightarrow> bool" where
  "isExpired expiresAt now = (case expiresAt of None \<Rightarrow> False | Some t \<Rightarrow> t \<le> now)"

definition generateApiToken :: "(string \<Rightarrow> string) \<Rightarrow> string \<Rightarrow> string \<times> string" where
  "generateApiToken sha random = (let secret = api_token_prefix @ random in (secret, sha secret))"

section \<open>Who is calling\<close>

record signed_in = principal +
  sp_sessionId :: "string option"
  sp_tokenId :: "string option"
  sp_scopes :: "string list option"
  sp_mfa :: bool

text \<open>What a token carries.\<close>

record claims =
  cl_sub :: "string option"
  cl_role :: json
  cl_sid :: "string option"
  cl_mfa :: bool

record sign_in_context =
  sx_sign :: "claims \<Rightarrow> string"
  sx_verify :: "time \<Rightarrow> string \<Rightarrow> claims option"
  sx_sha :: "string \<Rightarrow> string"
  sx_hash :: "string \<Rightarrow> string"
  sx_compare :: "string \<Rightarrow> string \<Rightarrow> bool"
  sx_hmac :: "8 word list \<Rightarrow> 8 word list \<Rightarrow> 8 word list"
  sx_totp_required :: bool
  sx_self_registration :: bool

abbreviation known_role :: "string \<Rightarrow> string" where
  "known_role role \<equiv> (if isPlatformRole (JStr role) then role else ''user'')"

definition signToken :: "sign_in_context \<Rightarrow> signed_in \<Rightarrow> string" where
  "signToken sx p = sx_sign sx \<lparr>cl_sub = Some (pr_id p), cl_role = JStr (pr_platformRole p), cl_sid = sp_sessionId p, cl_mfa = sp_mfa p\<rparr>"

definition verifyToken :: "sign_in_context \<Rightarrow> time \<Rightarrow> string \<Rightarrow> signed_in option" where
  "verifyToken sx now token =
     (case sx_verify sx now token of None \<Rightarrow> None
      | Some c \<Rightarrow>
          (case given (cl_sub c) of None \<Rightarrow> None
           | Some sub \<Rightarrow> Some \<lparr>pr_id = sub, pr_platformRole = (case cl_role c of JStr s \<Rightarrow> known_role s | _ \<Rightarrow> ''user''),
                sp_sessionId = cl_sid c, sp_tokenId = None, sp_scopes = None, sp_mfa = cl_mfa c\<rparr>))"

definition touch_interval_ms :: int where "touch_interval_ms = 60000"

definition authenticateApiToken :: "sign_in_context \<Rightarrow> time \<Rightarrow> string \<Rightarrow> orch \<Rightarrow> signed_in option \<times> orch" where
  "authenticateApiToken sx now secret r =
     (case getApiTokenByHash (sx_sha sx secret) r of
        None \<Rightarrow> (None, r)
      | Some t \<Rightarrow>
          if isExpired (at_expiresAt t) now then (None, r)
          else case getUser (at_userId t) r of
            None \<Rightarrow> (None, r)
          | Some u \<Rightarrow>
              (Some \<lparr>pr_id = u_id u, pr_platformRole = known_role (u_platformRole u), sp_sessionId = None,
                 sp_tokenId = Some (at_id t), sp_scopes = Some (parseScopes (Some (at_scopes t))), sp_mfa = False\<rparr>,
               (if (case at_lastUsedAt t of None \<Rightarrow> True | Some used \<Rightarrow> now - used > touch_interval_ms)
                then touchApiToken (at_id t) now r else r)))"

definition bearer :: "string option \<Rightarrow> string option" where
  "bearer header = (case header of None \<Rightarrow> None
     | Some h \<Rightarrow> if starts_with h ''Bearer '' then given (Some (drop 7 h)) else None)"

definition requireAuth :: "sign_in_context \<Rightarrow> time \<Rightarrow> string option \<Rightarrow> orch \<Rightarrow> signed_in reply \<times> orch" where
  "requireAuth sx now header r =
     (case bearer header of
        None \<Rightarrow> (Inl (401, ''missing bearer token''), r)
      | Some token \<Rightarrow>
          if isApiTokenSecret token then
            (case authenticateApiToken sx now token r of
               (None, r) \<Rightarrow> (Inl (401, ''invalid or expired API token''), r)
             | (Some p, r) \<Rightarrow> (Inr p, r))
          else
            (case verifyToken sx now token of
               None \<Rightarrow> (Inl (401, ''invalid or expired token''), r)
             | Some p \<Rightarrow>
                 (case given (sp_sessionId p) of
                    None \<Rightarrow> (Inl (401, ''invalid or expired token''), r)
                  | Some sid \<Rightarrow>
                      (case getSession sid r of
                         None \<Rightarrow> (Inl (401, ''this session has ended; sign in again''), r)
                       | Some s \<Rightarrow>
                           if ss_userId s \<noteq> pr_id p then (Inl (401, ''this session has ended; sign in again''), r)
                           else (Inr p, if now - ss_lastSeenAt s > touch_interval_ms then touchSession (ss_id s) now r else r)))))"

definition requireTokenScope :: "signed_in \<Rightarrow> string \<Rightarrow> unit reply" where
  "requireTokenScope p verb =
     (case sp_scopes p of None \<Rightarrow> Inr ()
      | Some scopes \<Rightarrow> if scopeAllowsMethod scopes verb then Inr ()
                       else Inl (403, ''this API token is read-only; it needs the write scope''))"

definition enrolment_paths :: "string list" where
  "enrolment_paths = [''/me'', ''/me/totp'', ''/me/totp/verify'', ''/auth/logout'']"

definition requireTotpEnrolment :: "sign_in_context \<Rightarrow> signed_in \<Rightarrow> string \<Rightarrow> unit reply" where
  "requireTotpEnrolment sx p path =
     (if \<not> sx_totp_required sx \<or> sp_mfa p \<or> given (sp_tokenId p) \<noteq> None \<or> path \<in> set enrolment_paths then Inr ()
      else Inl (403, ''this panel requires two-factor authentication; set it up on your account first''))"

definition requirePlatformAdmin :: "signed_in \<Rightarrow> unit reply" where
  "requirePlatformAdmin p =
     (if pr_platformRole p \<noteq> ''owner'' \<and> pr_platformRole p \<noteq> ''admin'' then Inl (403, ''platform administrator role required'')
      else case sp_scopes p of None \<Rightarrow> Inr ()
        | Some scopes \<Rightarrow> if scopeAllowsAdmin scopes then Inr () else Inl (403, ''this API token does not have the admin scope''))"

section \<open>Signing in\<close>

datatype login_refusal = LoginFields | LockedOut int | WrongCredentials | CodeRequired | CodeInvalid | LoginBroken string

definition login_refusal_answer :: "login_refusal \<Rightarrow> nat \<times> string \<times> bool" where
  "login_refusal_answer x =
     (case x of
        LoginFields \<Rightarrow> (400, ''email and password are required'', False)
      | LockedOut retryAfterMs \<Rightarrow> (401, ''invalid credentials'', False)
      | WrongCredentials \<Rightarrow> (401, ''invalid credentials'', False)
      | CodeRequired \<Rightarrow> (401, ''a two-factor code is required'', True)
      | CodeInvalid \<Rightarrow> (401, ''that two-factor code is not valid'', True)
      | LoginBroken e \<Rightarrow> (500, ''internal server error'', False))"

record login_body =
  lb_username :: json
  lb_email :: json
  lb_password :: json
  lb_code :: json

definition local_login :: "sign_in_context \<Rightarrow> string \<Rightarrow> string \<Rightarrow> orch \<Rightarrow> (string \<times> string) option \<times> orch" where
  "local_login sx identifier password r =
     (case authenticate (sx_compare sx) (JStr identifier) (JStr password) r of
        (None, r) \<Rightarrow> (None, r)
      | (Some u, r) \<Rightarrow> (Some (u_id u, known_role (u_platformRole u)), r))"

text \<open>The second factor of an account: not asked for, or the code and whether it is right.\<close>

definition second_factor :: "sign_in_context \<Rightarrow> time \<Rightarrow> json \<Rightarrow> user option \<Rightarrow> orch \<Rightarrow> (login_refusal, bool) result \<times> orch" where
  "second_factor sx now code account r =
     (case account of
        None \<Rightarrow> (Inr False, r)
      | Some u \<Rightarrow>
          (case (u_totpEnabledAt u, given (u_totpSecret u)) of
             (Some _, Some secret) \<Rightarrow>
               let c = json_string code
               in if c = [] then (Inl CodeRequired, r)
                  else if looksLikeRecoveryCode c then
                    (case consumeRecoveryCode (u_id u) (hashRecoveryCode (sx_sha sx) c) r of
                       (True, r) \<Rightarrow> (Inr True, r) | (False, r) \<Rightarrow> (Inl CodeInvalid, r))
                  else (case verifyTotp (sx_hmac sx) secret c now of
                      Inl e \<Rightarrow> (Inl (LoginBroken e), r)
                    | Inr ok \<Rightarrow> (if ok then Inr True else Inl CodeInvalid, r))
           | _ \<Rightarrow> (Inr False, r)))"

definition post_login ::
  "sign_in_context \<Rightarrow> limiter_options \<Rightarrow> time \<Rightarrow> string option \<Rightarrow> string option \<Rightarrow> login_body \<Rightarrow> limiter \<Rightarrow> orch
     \<Rightarrow> (login_refusal, string \<times> bool) result \<times> limiter \<times> orch" where
  "post_login sx opts now ip userAgent body m r =
     (let identifier = (case lb_email body of JStr e \<Rightarrow> if e \<noteq> [] then lb_email body else lb_username body | _ \<Rightarrow> lb_username body)
      in case (identifier, lb_password body) of
           (JStr i, JStr password) \<Rightarrow>
             let keys = loginKeys ip (Some i); (allowed, retryAfterMs) = check opts now keys m
             in if \<not> allowed then (Inl (LockedOut retryAfterMs), m, r)
                else (case local_login sx i password r of
                   (None, r) \<Rightarrow> (Inl WrongCredentials, fail opts now keys m, r)
                 | (Some (uid, role), r) \<Rightarrow>
                     (case second_factor sx now (lb_code body) (getUser uid r) r of
                        (Inl (LoginBroken e), r) \<Rightarrow> (Inl (LoginBroken e), m, r)
                      | (Inl x, r) \<Rightarrow> (Inl x, fail opts now keys m, r)
                      | (Inr mfa, r) \<Rightarrow>
                          let (s, r) = createSession now uid userAgent ip r
                          in (Inr (signToken sx \<lparr>pr_id = uid, pr_platformRole = role, sp_sessionId = Some (ss_id s),
                                 sp_tokenId = None, sp_scopes = None, sp_mfa = mfa\<rparr>,
                               sx_totp_required sx \<and> \<not> mfa), succeed keys m, r)))
         | _ \<Rightarrow> (Inl LoginFields, m, r))"

definition user_refusal_text :: "user_refusal \<Rightarrow> string" where
  "user_refusal_text x =
     (case x of
        InvalidEmail \<Rightarrow> ''a valid email is required''
      | BadPassword PasswordMissing \<Rightarrow> ''a password is required''
      | BadPassword PasswordShort \<Rightarrow> ''password must be at least '' @ show_nat min_password @ '' characters''
      | EmailTaken \<Rightarrow> ''an account with that email already exists''
      | UserNotFound \<Rightarrow> ''user not found''
      | CurrentIncorrect \<Rightarrow> ''current password is incorrect'')"

abbreviation user_refused :: "user_refusal \<Rightarrow> nat \<times> string" where
  "user_refused x \<equiv> (user_refusal_status x, user_refusal_text x)"

text \<open>\<open>text\<close> is \<open>String\<close> of a value, the empty text where it is missing.\<close>

definition post_register ::
  "sign_in_context \<Rightarrow> limiter_options \<Rightarrow> time \<Rightarrow> string option \<Rightarrow> string option \<Rightarrow> string \<Rightarrow> string \<Rightarrow> string option \<Rightarrow> limiter \<Rightarrow> orch
     \<Rightarrow> (string \<times> public_user) reply \<times> limiter \<times> orch" where
  "post_register sx opts now ip userAgent email password displayName m r =
     (if \<not> sx_self_registration sx then
        (Inl (403, ''self-registration is disabled; ask an administrator for an account''), m, r)
      else
        let keys = loginKeys ip None
        in if \<not> fst (check opts now keys m) then (Inl (429, ''too many attempts; try again later''), m, r)
           else (case register (sx_hash sx) now
                \<lparr>ri_email = email, ri_password = JStr password, ri_displayName = displayName, ri_platformRole = None, ri_verified = False\<rparr> r of
              (Inl x, r) \<Rightarrow> (Inl (user_refused x), fail opts now keys m, r)
            | (Inr u, r) \<Rightarrow>
                let (s, r) = createSession now (u_id u) userAgent ip r
                in (Inr (signToken sx \<lparr>pr_id = u_id u, pr_platformRole = ''user'', sp_sessionId = Some (ss_id s),
                      sp_tokenId = None, sp_scopes = None, sp_mfa = False\<rparr>, toPublicUser u), m, r)))"

section \<open>One's own account\<close>

definition get_me :: "signed_in \<Rightarrow> orch \<Rightarrow> public_user reply" where
  "get_me p r = (case getUser (pr_id p) r of None \<Rightarrow> Inl (404, ''user not found'') | Some u \<Rightarrow> Inr (toPublicUser u))"

definition post_password :: "sign_in_context \<Rightarrow> signed_in \<Rightarrow> string \<Rightarrow> string \<Rightarrow> orch \<Rightarrow> unit reply \<times> orch" where
  "post_password sx p cur nxt r =
     (case changePassword (sx_hash sx) (sx_compare sx) (pr_id p) cur (JStr nxt) r of
        (Inl x, r) \<Rightarrow> (Inl (user_refused x), r)
      | (Inr u, r) \<Rightarrow> (Inr (), deleteSessionsForUser (pr_id p) (sp_sessionId p) r))"

definition get_sessions :: "signed_in \<Rightarrow> orch \<Rightarrow> (session \<times> bool) list" where
  "get_sessions p r = map (\<lambda>s. (s, Some (ss_id s) = sp_sessionId p)) (listSessions (pr_id p) r)"

definition post_logout :: "signed_in \<Rightarrow> orch \<Rightarrow> orch" where
  "post_logout p r = (case given (sp_sessionId p) of None \<Rightarrow> r | Some i \<Rightarrow> deleteSession i r)"

definition delete_session :: "signed_in \<Rightarrow> string \<Rightarrow> orch \<Rightarrow> unit reply \<times> orch" where
  "delete_session p i r =
     (case getSession i r of
        None \<Rightarrow> (Inl (404, ''session not found''), r)
      | Some s \<Rightarrow> if ss_userId s \<noteq> pr_id p then (Inl (404, ''session not found''), r) else (Inr (), deleteSession (ss_id s) r))"

definition delete_sessions :: "signed_in \<Rightarrow> orch \<Rightarrow> orch" where
  "delete_sessions p r = deleteSessionsForUser (pr_id p) (sp_sessionId p) r"

abbreviation "token_may_not \<equiv> (403 :: nat, ''an API token cannot change how you sign in; sign in to do this'')"

definition by_token :: "signed_in \<Rightarrow> bool" where
  "by_token p = (given (sp_tokenId p) \<noteq> None)"

text \<open>\<open>bytes\<close> are random; the answer also carries the address an authenticator scans.\<close>

definition post_totp :: "signed_in \<Rightarrow> 8 word list \<Rightarrow> orch \<Rightarrow> string reply \<times> orch" where
  "post_totp p bytes r =
     (if by_token p then (Inl token_may_not, r)
      else case getUser (pr_id p) r of
        None \<Rightarrow> (Inl (404, ''user not found''), r)
      | Some u \<Rightarrow>
          if u_totpEnabledAt u \<noteq> None then (Inl (409, ''two-factor authentication is already on''), r)
          else let secret = generateTotpSecret bytes in (Inr secret, snd (setUserTotp (u_id u) (Some secret) None r)))"

definition post_totp_verify ::
  "sign_in_context \<Rightarrow> time \<Rightarrow> signed_in \<Rightarrow> json \<Rightarrow> string list \<Rightarrow> orch \<Rightarrow> (string list \<times> string) reply \<times> orch" where
  "post_totp_verify sx now p code raw r =
     (if by_token p then (Inl token_may_not, r)
      else case getUser (pr_id p) r of
        None \<Rightarrow> (Inl (409, ''start enrolment first''), r)
      | Some u \<Rightarrow>
          (case given (u_totpSecret u) of
             None \<Rightarrow> (Inl (409, ''start enrolment first''), r)
           | Some secret \<Rightarrow>
               if u_totpEnabledAt u \<noteq> None then (Inl (409, ''two-factor authentication is already on''), r)
               else case verifyTotp (sx_hmac sx) secret (json_string code) now of
                 Inl e \<Rightarrow> (Inl (500, ''internal server error''), r)
               | Inr False \<Rightarrow> (Inl (400, ''that code is not valid -- check your device's clock and try the next one''), r)
               | Inr True \<Rightarrow>
                   let (_, r) = setUserTotp (u_id u) (Some secret) (Some now) r; codes = generateRecoveryCodes raw
                   in (Inr (codes, signToken sx \<lparr>pr_id = u_id u, pr_platformRole = pr_platformRole p, sp_sessionId = sp_sessionId p,
                          sp_tokenId = None, sp_scopes = None, sp_mfa = True\<rparr>),
                       replaceRecoveryCodes (u_id u) (map (hashRecoveryCode (sx_sha sx)) codes) r)))"

definition delete_totp :: "sign_in_context \<Rightarrow> signed_in \<Rightarrow> json \<Rightarrow> orch \<Rightarrow> unit reply \<times> orch" where
  "delete_totp sx p password r =
     (if by_token p then (Inl token_may_not, r)
      else case getUser (pr_id p) r of
        None \<Rightarrow> (Inl (404, ''user not found''), r)
      | Some u \<Rightarrow>
          if \<not> confirmPassword (sx_compare sx) (u_id u) password r then (Inl (401, ''that is not your password''), r)
          else if sx_totp_required sx then (Inl (409, ''this panel requires two-factor authentication; it cannot be turned off''), r)
          else (Inr (), replaceRecoveryCodes (u_id u) [] (snd (setUserTotp (u_id u) None None r))))"

definition get_totp :: "signed_in \<Rightarrow> orch \<Rightarrow> (time option \<times> nat) reply" where
  "get_totp p r =
     (case getUser (pr_id p) r of
        None \<Rightarrow> Inl (404, ''user not found'')
      | Some u \<Rightarrow> Inr (u_totpEnabledAt u, if u_totpEnabledAt u \<noteq> None then countRecoveryCodes (u_id u) r else 0))"

record token_view =
  tv_id :: string
  tv_name :: string
  tv_scopes :: "string list"
  tv_createdAt :: time
  tv_lastUsedAt :: "time option"
  tv_expiresAt :: "time option"

definition toPublicToken :: "api_token \<Rightarrow> token_view" where
  "toPublicToken t = \<lparr>tv_id = at_id t, tv_name = at_name t, tv_scopes = parseScopes (Some (at_scopes t)),
     tv_createdAt = at_createdAt t, tv_lastUsedAt = at_lastUsedAt t, tv_expiresAt = at_expiresAt t\<rparr>"

definition get_tokens :: "signed_in \<Rightarrow> orch \<Rightarrow> token_view list" where
  "get_tokens p r = map toPublicToken (listApiTokens (pr_id p) r)"

record token_body =
  tb_name :: json
  tb_scopes :: json
  tb_expiresAt :: json

text \<open>\<open>date\<close> is \<open>Date.parse\<close>, with \<open>None\<close> for not a number.\<close>

definition post_token ::
  "sign_in_context \<Rightarrow> (string \<Rightarrow> time option) \<Rightarrow> time \<Rightarrow> string \<Rightarrow> signed_in \<Rightarrow> token_body \<Rightarrow> orch \<Rightarrow> (token_view \<times> string) reply \<times> orch" where
  "post_token sx date now random p body r =
     (if by_token p then (Inl (403, ''an API token cannot create API tokens; sign in to do this''), r)
      else
        let name = js_trim (json_string (tb_name body))
        in if name = [] then (Inl (400, ''a name is required -- it is how you recognise this token later''), r)
           else case (case tb_scopes body of JUndef \<Rightarrow> Some [] | JNull \<Rightarrow> Some []
                | JArr vs \<Rightarrow> if list_all isApiScope vs then Some (map json_string vs) else None | _ \<Rightarrow> None) of
             None \<Rightarrow> (Inl (400, ''scopes must be an array of \"write\" and/or \"admin\"''), r)
           | Some scopes \<Rightarrow>
               (case (case tb_expiresAt body of JUndef \<Rightarrow> Inr None | JNull \<Rightarrow> Inr None
                    | JStr s \<Rightarrow> (case date s of None \<Rightarrow> Inl ''expiresAt must be an ISO timestamp or null''
                        | Some t \<Rightarrow> if isExpired (Some t) now then Inl ''expiresAt is already in the past'' else Inr (Some t))
                    | _ \<Rightarrow> Inl ''expiresAt must be an ISO timestamp or null'') of
                  Inl e \<Rightarrow> (Inl (400, e), r)
                | Inr expiresAt \<Rightarrow>
                    let (secret, h) = generateApiToken (sx_sha sx) random;
                        (t, r) = createApiToken now (pr_id p) name h (formatScopes scopes) expiresAt r
                    in (Inr (toPublicToken t, secret), r)))"

definition delete_token :: "signed_in \<Rightarrow> string \<Rightarrow> orch \<Rightarrow> unit reply \<times> orch" where
  "delete_token p i r =
     (case getApiToken i r of
        None \<Rightarrow> (Inl (404, ''token not found''), r)
      | Some t \<Rightarrow> if at_userId t \<noteq> pr_id p then (Inl (404, ''token not found''), r) else (Inr (), deleteApiToken (at_id t) r))"

section \<open>Accounts of others\<close>

definition get_users :: "signed_in \<Rightarrow> orch \<Rightarrow> public_user list reply" where
  "get_users p r = and_then (requirePlatformAdmin p) (\<lambda>_. Inr (map toPublicUser (listUsers r)))"

definition post_user ::
  "sign_in_context \<Rightarrow> time \<Rightarrow> signed_in \<Rightarrow> string \<Rightarrow> string \<Rightarrow> string option \<Rightarrow> json \<Rightarrow> orch \<Rightarrow> public_user reply \<times> orch" where
  "post_user sx now p email password displayName role r =
     (case requirePlatformAdmin p of
        Inl e \<Rightarrow> (Inl e, r)
      | Inr _ \<Rightarrow>
          if role \<noteq> JUndef \<and> \<not> isPlatformRole role then (Inl (400, ''platformRole must be owner, admin or user''), r)
          else (case register (sx_hash sx) now
              \<lparr>ri_email = email, ri_password = JStr password, ri_displayName = displayName,
               ri_platformRole = (if role = JUndef then None else Some (json_string role)), ri_verified = True\<rparr> r of
             (Inl x, r) \<Rightarrow> (Inl (user_refused x), r)
           | (Inr u, r) \<Rightarrow> (Inr (toPublicUser u), r)))"

definition role_rank :: "string \<Rightarrow> nat" where
  "role_rank role = (if role = ''owner'' then 2 else if role = ''admin'' then 1 else 0)"

definition reset_refused :: "user_refusal \<Rightarrow> nat \<times> string" where
  "reset_refused x = (if x = UserNotFound then (404, ''account not found'') else user_refused x)"

definition post_user_password :: "sign_in_context \<Rightarrow> signed_in \<Rightarrow> string \<Rightarrow> string \<Rightarrow> orch \<Rightarrow> unit reply \<times> orch" where
  "post_user_password sx p i nxt r =
     (case requirePlatformAdmin p of
        Inl e \<Rightarrow> (Inl e, r)
      | Inr _ \<Rightarrow>
          (case getUser i r of
             None \<Rightarrow> (Inl (404, ''account not found''), r)
           | Some u \<Rightarrow>
               if role_rank (u_platformRole u) > role_rank (pr_platformRole p) then
                 (Inl (403, ''you cannot reset the password of an account that outranks you''), r)
               else (case resetPassword (sx_hash sx) (u_id u) (JStr nxt) r of
                   (Inl x, r) \<Rightarrow> (Inl (reset_refused x), r)
                 | (Inr _, r) \<Rightarrow> (Inr (), deleteSessionsForUser (u_id u) None r))))"

section \<open>Mailed links\<close>

definition mail_limits :: limiter_options where
  "mail_limits = \<lparr>lo_maxAttempts = 5, lo_windowMs = 60 * 60 * 1000, lo_lockoutMs = 60 * 60 * 1000\<rparr>"

definition reset_ttl_ms :: int where "reset_ttl_ms = 30 * 60 * 1000"
definition verify_ttl_ms :: int where "verify_ttl_ms = 24 * 60 * 60 * 1000"

definition mintResetToken :: "(string \<Rightarrow> string) \<Rightarrow> string \<Rightarrow> string \<times> string" where
  "mintResetToken sha secret = (secret, sha secret)"

record panel_address =
  pl_protocol :: string
  pl_username :: string
  pl_password :: string
  pl_origin :: string
  pl_pathname :: string

text \<open>\<open>url\<close> is \<open>new URL\<close>, with \<open>None\<close> where it throws.\<close>

definition parsePanelUrl :: "(string \<Rightarrow> panel_address option) \<Rightarrow> string option \<Rightarrow> string option" where
  "parsePanelUrl url v =
     (case given v of None \<Rightarrow> None
      | Some s \<Rightarrow>
          (case url s of None \<Rightarrow> None
           | Some u \<Rightarrow>
               if pl_protocol u \<noteq> ''http:'' \<and> pl_protocol u \<noteq> ''https:'' then None
               else if pl_username u \<noteq> [] \<or> pl_password u \<noteq> [] then None
               else Some (pl_origin u @ rev (dropWhile (\<lambda>c. c = CHR ''/'') (rev (pl_pathname u))))))"

text \<open>\<open>encode\<close> is \<open>encodeURIComponent\<close>.\<close>

definition resetLink :: "(string \<Rightarrow> string) \<Rightarrow> string \<Rightarrow> string \<Rightarrow> string" where
  "resetLink encode panelUrl secret = panelUrl @ ''/reset-password?token='' @ encode secret"

definition verifyLink :: "(string \<Rightarrow> string) \<Rightarrow> string \<Rightarrow> string \<Rightarrow> string" where
  "verifyLink encode panelUrl secret = panelUrl @ ''/verify-email?token='' @ encode secret"

record mail_context =
  mx_panelUrl :: "string option"
  mx_mail :: bool
  mx_encode :: "string \<Rightarrow> string"

definition mail_available :: "mail_context \<Rightarrow> bool" where
  "mail_available mx = (given (mx_panelUrl mx) \<noteq> None \<and> mx_mail mx)"

definition post_reset_request ::
  "mail_context \<Rightarrow> time \<Rightarrow> string option \<Rightarrow> string \<Rightarrow> limiter \<Rightarrow> string reply \<times> limiter" where
  "post_reset_request mx now ip address m =
     (if \<not> mail_available mx then
        (Inl (404, ''password reset by email is not available on this installation; ask an administrator''), m)
      else
        let email = normalizeEmail address
        in if CHR ''@'' \<notin> set email then (Inl (400, ''enter the email address of the account''), m)
           else
             let keys = [''ip:'' @ nullish ip ''unknown'', ''email:'' @ email]
             in if \<not> fst (check mail_limits now keys m) then (Inl (429, ''too many reset requests; try again later''), m)
                else (Inr email, fail mail_limits now keys m))"

text \<open>The deferred task: the link recorded and the mail to send.\<close>

definition reset_mail :: "sign_in_context \<Rightarrow> mail_context \<Rightarrow> time \<Rightarrow> string \<Rightarrow> string \<Rightarrow> orch \<Rightarrow> (string \<times> string) option \<times> orch" where
  "reset_mail sx mx now secret email r =
     (case getUserByEmail email r of
        None \<Rightarrow> (None, r)
      | Some u \<Rightarrow>
          let (secret, h) = mintResetToken (sx_sha sx) secret
          in (Some (u_email u, resetLink (mx_encode mx) (nullish (mx_panelUrl mx) []) secret),
              createPasswordReset (u_id u) h (now + reset_ttl_ms) r))"

abbreviation "reset_invalid \<equiv> (400 :: nat, ''this reset link is invalid, has expired, or has already been used'')"

definition post_reset_confirm :: "sign_in_context \<Rightarrow> time \<Rightarrow> json \<Rightarrow> json \<Rightarrow> orch \<Rightarrow> unit reply \<times> orch" where
  "post_reset_confirm sx now token newPassword r =
     (case token of
        JStr (c # cs) \<Rightarrow>
          (case passwordProblem newPassword of
             Some p \<Rightarrow> (Inl (user_refused (BadPassword p)), r)
           | None \<Rightarrow>
               (case consumePasswordReset (sx_sha sx (c # cs)) now r of
                  (None, r) \<Rightarrow> (Inl reset_invalid, r)
                | (Some userId, r) \<Rightarrow>
                    (case resetPassword (sx_hash sx) userId newPassword r of
                       (Inl x, r) \<Rightarrow> (Inl (reset_refused x), r)
                     | (Inr _, r) \<Rightarrow> (Inr (), setUserEmailVerified userId now (deleteSessionsForUser userId None r)))))
      | _ \<Rightarrow> (Inl reset_invalid, r))"

definition topUpProblem :: "user option \<Rightarrow> bool \<Rightarrow> string option" where
  "topUpProblem u available =
     (case u of
        None \<Rightarrow> Some ''this account has no email address for FinVault to ask for payment''
      | Some u \<Rightarrow>
          if available \<and> u_emailVerifiedAt u = None then
            Some ''confirm your email address first -- the payment request goes to the FinVault account with that address. Open the link we mailed you, or ask for a new one on the Billing page''
          else None)"

definition send_verification ::
  "sign_in_context \<Rightarrow> mail_context \<Rightarrow> time \<Rightarrow> string \<Rightarrow> user \<Rightarrow> orch \<Rightarrow> (string \<times> string) option \<times> orch" where
  "send_verification sx mx now secret u r =
     (if \<not> mail_available mx \<or> u_emailVerifiedAt u \<noteq> None then (None, r)
      else
        let (secret, h) = mintResetToken (sx_sha sx) secret
        in (Some (u_email u, verifyLink (mx_encode mx) (nullish (mx_panelUrl mx) []) secret),
            createEmailVerification (u_id u) h (now + verify_ttl_ms) r))"

abbreviation "verify_invalid \<equiv> (400 :: nat, ''this confirmation link is invalid, has expired, or has already been used'')"

definition post_verify_confirm :: "sign_in_context \<Rightarrow> time \<Rightarrow> json \<Rightarrow> orch \<Rightarrow> unit reply \<times> orch" where
  "post_verify_confirm sx now token r =
     (case token of
        JStr (c # cs) \<Rightarrow>
          (case consumeEmailVerification (sx_sha sx (c # cs)) now r of
             (None, r) \<Rightarrow> (Inl verify_invalid, r)
           | (Some userId, r) \<Rightarrow> (Inr (), setUserEmailVerified userId now r))
      | _ \<Rightarrow> (Inl verify_invalid, r))"

text \<open>Asking for one's own link again; the user whose link is then sent, or nobody when already confirmed.\<close>

definition post_verify_email :: "mail_context \<Rightarrow> time \<Rightarrow> signed_in \<Rightarrow> limiter \<Rightarrow> orch \<Rightarrow> user option reply \<times> limiter" where
  "post_verify_email mx now p m r =
     (if \<not> mail_available mx then (Inl (404, ''this installation does not confirm email addresses''), m)
      else case getUser (pr_id p) r of
        None \<Rightarrow> (Inl (404, ''account not found''), m)
      | Some u \<Rightarrow>
          if u_emailVerifiedAt u \<noteq> None then (Inr None, m)
          else
            let keys = [''verify:'' @ u_id u]
            in if \<not> fst (check mail_limits now keys m) then (Inl (429, ''too many confirmation mails requested; try again later''), m)
               else (Inr (Some u), fail mail_limits now keys m))"

section \<open>Steps\<close>

text \<open>Everything a request or a deferred task does to the sessions, the links and the accounts.\<close>

datatype sign_in_step =
    LogsIn limiter_options "string option" "string option" login_body limiter
  | Registers limiter_options "string option" "string option" string string "string option" limiter
  | Calls "string option"
  | ChangesPassword signed_in string string
  | LogsOut signed_in
  | EndsSession signed_in string
  | EndsOthers signed_in
  | StartsTotp signed_in "8 word list"
  | ProvesTotp signed_in json "string list"
  | DropsTotp signed_in json
  | MintsToken signed_in "string \<Rightarrow> time option" string token_body
  | DropsToken signed_in string
  | AddsUser signed_in string string "string option" json
  | ResetsFor signed_in string string
  | MailsReset mail_context string string
  | ConfirmsReset json json
  | MailsVerification mail_context string user
  | ConfirmsAddress json

fun sign_in_do :: "sign_in_context \<Rightarrow> sign_in_step \<Rightarrow> time \<Rightarrow> orch \<Rightarrow> orch" where
  "sign_in_do sx (LogsIn opts ip agent body m) now r = snd (snd (post_login sx opts now ip agent body m r))"
| "sign_in_do sx (Registers opts ip agent email password name m) now r = snd (snd (post_register sx opts now ip agent email password name m r))"
| "sign_in_do sx (Calls header) now r = snd (requireAuth sx now header r)"
| "sign_in_do sx (ChangesPassword p cur nxt) now r = snd (post_password sx p cur nxt r)"
| "sign_in_do sx (LogsOut p) now r = post_logout p r"
| "sign_in_do sx (EndsSession p i) now r = snd (delete_session p i r)"
| "sign_in_do sx (EndsOthers p) now r = delete_sessions p r"
| "sign_in_do sx (StartsTotp p bytes) now r = snd (post_totp p bytes r)"
| "sign_in_do sx (ProvesTotp p code raw) now r = snd (post_totp_verify sx now p code raw r)"
| "sign_in_do sx (DropsTotp p password) now r = snd (delete_totp sx p password r)"
| "sign_in_do sx (MintsToken p date random body) now r = snd (post_token sx date now random p body r)"
| "sign_in_do sx (DropsToken p i) now r = snd (delete_token p i r)"
| "sign_in_do sx (AddsUser p email password name role) now r = snd (post_user sx now p email password name role r)"
| "sign_in_do sx (ResetsFor p i nxt) now r = snd (post_user_password sx p i nxt r)"
| "sign_in_do sx (MailsReset mx secret email) now r = snd (reset_mail sx mx now secret email r)"
| "sign_in_do sx (ConfirmsReset token nxt) now r = snd (post_reset_confirm sx now token nxt r)"
| "sign_in_do sx (MailsVerification mx secret u) now r = snd (send_verification sx mx now secret u r)"
| "sign_in_do sx (ConfirmsAddress token) now r = snd (post_verify_confirm sx now token r)"

fun sign_in_runs :: "sign_in_context \<Rightarrow> (sign_in_step \<times> time) list \<Rightarrow> orch \<Rightarrow> orch" where
  "sign_in_runs sx [] r = r"
| "sign_in_runs sx ((a, now) # as) r = sign_in_runs sx as (sign_in_do sx a now r)"

section \<open>Sessions that ended stay ended\<close>

text \<open>No session of an id drawn before comes back.\<close>

definition no_return :: "orch \<Rightarrow> orch \<Rightarrow> bool" where
  "no_return r s =
     (o_drawn r \<le> o_drawn s
      \<and> (\<forall>k < o_drawn r. map_of (o_sessions r) (uuid k) = None \<longrightarrow> map_of (o_sessions s) (uuid k) = None))"

definition same_sessions :: "orch \<Rightarrow> orch \<Rightarrow> bool" where
  "same_sessions r s = (o_sessions s = o_sessions r \<and> o_drawn r \<le> o_drawn s)"

lemma same_sessions_refl [simp]: "same_sessions r r"
  by (simp add: same_sessions_def)

lemma same_sessions_trans: "same_sessions r s \<Longrightarrow> same_sessions s u \<Longrightarrow> same_sessions r u"
  by (simp add: same_sessions_def)

lemma no_return_same: "same_sessions r s \<Longrightarrow> no_return r s"
  by (simp add: same_sessions_def no_return_def)

lemma no_return_trans: "no_return r s \<Longrightarrow> no_return s u \<Longrightarrow> no_return r u"
  by (auto simp: no_return_def)

lemma no_return_refl [simp]: "no_return r r"
  by (simp add: no_return_def)

lemma frames:
  "same_sessions r (snd (claimSubuserInvites i e r))" "same_sessions r (snd (setUserPassword i h r))"
  "same_sessions r (snd (setUserTotp i x y r))" "same_sessions r (snd (consumeRecoveryCode i c r))"
  "same_sessions r (createPasswordReset i h t r)" "same_sessions r (createEmailVerification i h t r)"
  "same_sessions r (snd (consumePasswordReset h t r))" "same_sessions r (snd (consumeEmailVerification h t r))"
  "same_sessions r (setUserEmailVerified i t r)" "same_sessions r (deleteApiToken i r)" "same_sessions r (touchApiToken i t r)"
  "same_sessions r (snd (createApiToken t i n h scopes expiry r))" "same_sessions r (snd (draw r))"
  "same_sessions r (snd (createUser t i e n h role verified r))"
  by (simp_all add: same_sessions_def claimSubuserInvites_def setUserPassword_def setUserTotp_def consumeRecoveryCode_def
      createPasswordReset_def createEmailVerification_def consumePasswordReset_def consumeEmailVerification_def Let_def
      setUserEmailVerified_def deleteApiToken_def touchApiToken_def createApiToken_def draw_def createUser_def
      split: option.split prod.split)

lemma add_codes_frame: "same_sessions r (add_codes i hs r)"
proof (induction hs arbitrary: r)
  case (Cons h hs)
  let ?s = "r\<lparr>o_recovery := AList.update (uuid (o_drawn r)) \<lparr>rc_userId = i, rc_codeHash = h\<rparr> (o_recovery r), o_drawn := Suc (o_drawn r)\<rparr>"
  have "same_sessions r ?s" by (simp add: same_sessions_def)
  then show ?case using same_sessions_trans [OF _ Cons.IH [of ?s]] by simp
qed simp

lemma replace_codes_frame: "same_sessions r (replaceRecoveryCodes i hs r)"
  using add_codes_frame [of "r\<lparr>o_recovery := drop_where (\<lambda>c. rc_userId c = i) (o_recovery r)\<rparr>" i hs]
  by (simp add: replaceRecoveryCodes_def same_sessions_def)

lemma authenticate_frame: "same_sessions r (snd (authenticate cmp i pw r))"
  by (simp add: authenticate_def frames split: json.split option.split)

lemma register_frame: "same_sessions r (snd (register h t inp r))"
  by (auto simp: register_def Let_def case_prod_beta split: option.split
      intro!: same_sessions_trans [OF frames(13) same_sessions_trans [OF frames(14) frames(1)]])

lemma reset_frame: "same_sessions r (snd (resetPassword h i pw r))"
  using frames(2) [of r i] by (auto simp: resetPassword_def split: option.split prod.split) (metis snd_conv)+

lemma change_frame: "same_sessions r (snd (changePassword h cmp i cur nxt r))"
  using frames(2) [of r i] by (auto simp: changePassword_def split: option.split prod.split) (metis snd_conv)+

lemma local_login_frame: "same_sessions r (snd (local_login sx i pw r))"
  using authenticate_frame [of r "sx_compare sx" "JStr i" "JStr pw"]
  by (auto simp: local_login_def split: prod.split option.split)

lemma second_factor_frame: "same_sessions r (snd (second_factor sx now code u r))"
  using frames(4) by (auto simp: second_factor_def Let_def split: option.split sum.split prod.split bool.split) (metis snd_conv)+

lemma map_of_filter_None: "map_of m k = None \<Longrightarrow> map_of (filter p m) k = None"
  by (auto simp: map_of_eq_None_iff)

lemma no_return_sessions:
  "no_return r (snd (createSession t i a p r))" "no_return r (deleteSession i r)" "no_return r (deleteSessionsForUser u x r)"
  "no_return r (touchSession i t r)"
  by (auto simp: no_return_def createSession_def deleteSession_def deleteSessionsForUser_def touchSession_def Let_def
      map_of_filter_None split: option.split)

lemma requireAuth_return: "no_return r (snd (requireAuth sx now header r))"
proof -
  have "same_sessions r (snd (authenticateApiToken sx now s r))" for s
    by (simp add: authenticateApiToken_def frames split: option.split)
  then have "no_return r (snd (authenticateApiToken sx now s r))" for s by (rule no_return_same)
  then show ?thesis
    by (auto simp: requireAuth_def no_return_sessions split: option.split prod.split) (metis snd_conv)+
qed

lemma login_return: "no_return r (snd (snd (post_login sx opts now ip agent body m r)))"
proof -
  define i where "i = (case lb_email body of JStr e \<Rightarrow> if e \<noteq> [] then lb_email body else lb_username body | _ \<Rightarrow> lb_username body)"
  have "no_return r (snd (snd (post_login sx opts now ip agent body m r)))" if b: "i = JStr a" "lb_password body = JStr pw" for a pw
  proof -
    obtain x r1 where one: "local_login sx a pw r = (x, r1)" by (cases "local_login sx a pw r")
    have f1: "no_return r r1" using local_login_frame [of r sx a pw] one no_return_same by force
    show ?thesis
    proof (cases x)
      case None
      then show ?thesis using f1 b(2) by (simp add: post_login_def i_def [symmetric] b(1) Let_def one split: prod.split)
    next
      case (Some ur)
      obtain uid role where ur: "ur = (uid, role)" by (cases ur)
      obtain y r2 where two: "second_factor sx now (lb_code body) (getUser uid r1) r1 = (y, r2)"
        by (cases "second_factor sx now (lb_code body) (getUser uid r1) r1")
      have "no_return r1 r2" using second_factor_frame [of r1 sx now "lb_code body" "getUser uid r1"] two no_return_same by force
      then have f2: "no_return r r2" using f1 no_return_trans by blast
      moreover have "no_return r (snd (createSession now uid agent ip r2))" using f2 no_return_sessions(1) no_return_trans by blast
      ultimately show ?thesis using b(2)
        by (cases y) (auto simp: post_login_def i_def [symmetric] b(1) Let_def one two Some ur split: prod.split login_refusal.split)
    qed
  qed
  then show ?thesis by (cases i; cases "lb_password body") (auto simp: post_login_def i_def [symmetric])
qed

lemma register_return: "no_return r (snd (register h t inp r))"
  by (rule no_return_same) (rule register_frame)

lemma post_register_return: "no_return r (snd (snd (post_register sx opts now ip agent email password name m r)))"
  using register_return [of r "sx_hash sx" now
      "\<lparr>ri_email = email, ri_password = JStr password, ri_displayName = name, ri_platformRole = None, ri_verified = False\<rparr>"]
  by (auto simp: post_register_def Let_def case_prod_beta split: sum.split intro!: no_return_trans [OF _ no_return_sessions(1)])

lemma post_password_return: "no_return r (snd (post_password sx p cur nxt r))"
  using no_return_same [OF change_frame [of r "sx_hash sx" "sx_compare sx" "pr_id p" cur "JStr nxt"]]
  by (auto simp: post_password_def case_prod_beta split: sum.split intro!: no_return_trans [OF _ no_return_sessions(3)])

lemma reset_return: "no_return r (deleteSessionsForUser i x (snd (resetPassword h j pw r)))"
  using no_return_same [OF reset_frame] no_return_sessions(3) no_return_trans by blast

lemma totp_return:
  "no_return r (snd (post_totp p bytes r))" "no_return r (snd (post_totp_verify sx now p code raw r))"
  "no_return r (snd (delete_totp sx p password r))"
  by (auto simp: post_totp_def post_totp_verify_def delete_totp_def Let_def case_prod_beta intro!: no_return_same
      same_sessions_trans [OF frames(3) replace_codes_frame] frames split: option.split sum.split bool.split)

lemma confirm_return: "no_return r (snd (post_reset_confirm sx now token nxt r))"
proof -
  have step: "no_return r (setUserEmailVerified u now (deleteSessionsForUser u None (snd (resetPassword (sx_hash sx) u nxt (snd (consumePasswordReset h now r))))))"
    for u h using no_return_trans [OF no_return_same [OF frames(7)] no_return_trans [OF reset_return no_return_same [OF frames(9)]]] .
  have fail: "no_return r (snd (resetPassword (sx_hash sx) u nxt (snd (consumePasswordReset h now r))))" for u h
    using no_return_trans [OF no_return_same [OF frames(7)] no_return_same [OF reset_frame]] .
  show ?thesis
    by (auto simp: post_reset_confirm_def case_prod_beta step fail intro!: no_return_same frames
        split: json.split list.split option.split sum.split)
qed

lemma sign_in_return: "no_return r (sign_in_do sx a now r)"
proof (cases a)
  case (ResetsFor p i nxt)
  then show ?thesis using no_return_same [OF reset_frame]
    by (auto simp: post_user_password_def case_prod_beta reset_return split: sum.split option.split)
next
  case (AddsUser p email password name role)
  then show ?thesis by (auto simp: post_user_def case_prod_beta register_return split: sum.split)
next
  case (MintsToken p date random body)
  then show ?thesis by (auto simp: post_token_def Let_def case_prod_beta intro!: no_return_same frames split: option.split sum.split)
next
  case (ConfirmsAddress token)
  then show ?thesis
    by (auto simp: post_verify_confirm_def case_prod_beta intro!: no_return_same frames same_sessions_trans [OF frames(8) frames(9)]
        split: json.split list.split option.split)
qed (auto simp: login_return post_register_return requireAuth_return post_password_return totp_return confirm_return no_return_sessions
    post_logout_def delete_session_def delete_sessions_def delete_token_def reset_mail_def send_verification_def Let_def case_prod_beta
    intro!: no_return_same frames split: option.split)

lemma sign_in_runs_return: "no_return r (sign_in_runs sx as r)"
proof (induction as arbitrary: r)
  case (Cons e as)
  show ?case using no_return_trans [OF sign_in_return Cons.IH] by (cases e) auto
qed simp

text \<open>
  C32: A session that ended opens no door again. Once an operation has ended a session - signing out,
  ending one or all others, a changed or reset password - every later request whose token names
  that session is refused and changes nothing, whatever anybody does in between, however long the
  token itself stays valid.
\<close>

theorem ended_session_refused:
  assumes "k < o_drawn r" "getSession (uuid k) r = None"
    and "bearer header = Some token" "\<not> isApiTokenSecret token"
    and "verifyToken sx now token = Some p" "sp_sessionId p = Some (uuid k)"
  shows "requireAuth sx now header (sign_in_runs sx as r)
    = (Inl (401, ''this session has ended; sign in again''), sign_in_runs sx as r)"
proof -
  have "getSession (uuid k) (sign_in_runs sx as r) = None"
    using sign_in_runs_return [of r sx as] assms(1,2) by (simp add: no_return_def getSession_def)
  moreover have "given (Some (uuid k)) = Some (uuid k)" by (simp add: given_def uuid_def)
  ultimately show ?thesis using assms(3-) by (simp add: requireAuth_def)
qed

section \<open>A mailed link works once\<close>

definition spent :: "string \<Rightarrow> (string \<times> one_time_link) list \<Rightarrow> bool" where
  "spent h m = (case map_of m h of None \<Rightarrow> True | Some l \<Rightarrow> ol_usedAt l \<noteq> None)"

lemma map_of_filter_keep: "map_of m k = Some v \<Longrightarrow> p v \<Longrightarrow> map_of (filter (\<lambda>(k, v). p v) m) k = Some v"
  by (induction m) auto

lemma spent_record: "spent h m \<Longrightarrow> h \<noteq> g \<Longrightarrow> spent h (record_link u g t m)"
proof -
  assume s: "spent h m" "h \<noteq> g"
  have "spent h (drop_where (\<lambda>l. ol_userId l = u \<and> ol_usedAt l = None) m)"
  proof (cases "map_of m h")
    case None
    then show ?thesis by (simp add: spent_def drop_where_def map_of_filter_None)
  next
    case (Some l)
    then have "map_of (drop_where (\<lambda>l. ol_userId l = u \<and> ol_usedAt l = None) m) h = Some l"
      using s(1) unfolding drop_where_def by (intro map_of_filter_keep) (auto simp: spent_def)
    then show ?thesis using s(1) Some by (simp add: spent_def)
  qed
  then show ?thesis using s(2) by (simp add: spent_def record_link_def)
qed

lemma spent_claim: "spent h m \<Longrightarrow> spent h (snd (claim_link g t m))"
  by (auto simp: spent_def claim_link_def split: option.split)

lemma claim_spends: "fst (claim_link h t m) = Some u \<Longrightarrow> spent h (snd (claim_link h t m))"
  by (auto simp: spent_def claim_link_def split: option.splits if_splits)

lemma spent_refused: "spent h m \<Longrightarrow> claim_link h t m = (None, m)"
  by (auto simp: spent_def claim_link_def split: option.splits)

text \<open>What does not touch the links.\<close>

lemma reset_frames:
  "o_resets (snd (claimSubuserInvites i e r)) = o_resets r" "o_resets (snd (setUserPassword i h r)) = o_resets r"
  "o_resets (snd (setUserTotp i x y r)) = o_resets r" "o_resets (snd (consumeRecoveryCode i c r)) = o_resets r"
  "o_resets (createEmailVerification i h t r) = o_resets r" "o_resets (snd (consumeEmailVerification h t r)) = o_resets r"
  "o_resets (setUserEmailVerified i t r) = o_resets r" "o_resets (deleteApiToken i r) = o_resets r"
  "o_resets (touchApiToken i t r) = o_resets r" "o_resets (snd (createApiToken t i n h scopes expiry r)) = o_resets r"
  "o_resets (snd (draw r)) = o_resets r" "o_resets (snd (createUser t i e n h role verified r)) = o_resets r"
  "o_resets (snd (createSession t i a p r)) = o_resets r" "o_resets (deleteSession i r) = o_resets r"
  "o_resets (deleteSessionsForUser i z r) = o_resets r" "o_resets (touchSession i t r) = o_resets r"
  by (simp_all add: claimSubuserInvites_def setUserPassword_def setUserTotp_def consumeRecoveryCode_def Let_def
      createEmailVerification_def consumeEmailVerification_def setUserEmailVerified_def deleteApiToken_def touchApiToken_def
      createApiToken_def draw_def createUser_def createSession_def deleteSession_def deleteSessionsForUser_def touchSession_def
      split: option.split prod.split)

lemma add_codes_resets: "o_resets (add_codes i hs r) = o_resets r"
  by (induction hs arbitrary: r) auto

lemma service_resets:
  "o_resets (replaceRecoveryCodes i hs r) = o_resets r" "o_resets (snd (authenticate cmp v pw r)) = o_resets r"
  "o_resets (snd (register h t inp r)) = o_resets r" "o_resets (snd (resetPassword h i pw r)) = o_resets r"
  "o_resets (snd (changePassword h cmp i cur nxt r)) = o_resets r"
  using reset_frames(2) [of i _ r]
  by (auto simp: replaceRecoveryCodes_def add_codes_resets authenticate_def register_def resetPassword_def changePassword_def
      reset_frames case_prod_beta Let_def split: json.split option.split)

lemma second_factor_resets: "o_resets (snd (second_factor sx now code u r)) = o_resets r"
  by (auto simp: second_factor_def Let_def case_prod_beta reset_frames split: option.split sum.split bool.split)

lemma local_login_resets: "o_resets (snd (local_login sx i pw r)) = o_resets r"
  by (simp add: local_login_def case_prod_beta service_resets split: option.split)

lemma login_resets: "o_resets (snd (snd (post_login sx opts now ip agent body m r))) = o_resets r"
  by (simp add: post_login_def Let_def case_prod_beta second_factor_resets local_login_resets reset_frames
      split: json.split option.split sum.split login_refusal.split)

lemma sign_in_resets:
  assumes "\<And>mx secret email. a = MailsReset mx secret email \<Longrightarrow> sx_sha sx secret \<noteq> h" "spent h (o_resets r)"
  shows "spent h (o_resets (sign_in_do sx a now r))"
proof (cases a)
  case (MailsReset mx secret email)
  then show ?thesis using assms(2) spent_record [OF assms(2)] assms(1) [OF MailsReset]
    by (auto simp: reset_mail_def mintResetToken_def createPasswordReset_def split: option.split)
next
  case (ConfirmsReset token nxt)
  have "o_resets (snd (consumePasswordReset g now r)) = snd (claim_link g now (o_resets r))" for g
    by (simp add: consumePasswordReset_def case_prod_beta)
  then show ?thesis using ConfirmsReset assms(2) spent_claim [OF assms(2)]
    by (simp add: post_reset_confirm_def case_prod_beta service_resets reset_frames split: json.split list.split option.split sum.split)
qed (use assms(2) in \<open>simp_all add: login_resets post_register_def requireAuth_def authenticateApiToken_def post_password_def
    post_logout_def delete_session_def delete_sessions_def post_totp_def post_totp_verify_def delete_totp_def post_token_def
    delete_token_def post_user_def post_user_password_def send_verification_def post_verify_confirm_def Let_def case_prod_beta
    service_resets reset_frames split: option.split sum.split json.split list.split bool.split\<close>)

definition mints_other :: "sign_in_context \<Rightarrow> string \<Rightarrow> (sign_in_step \<times> time) list \<Rightarrow> bool" where
  "mints_other sx h as = list_all (\<lambda>(a, now). case a of MailsReset mx secret email \<Rightarrow> sx_sha sx secret \<noteq> h | _ \<Rightarrow> True) as"

lemma spent_runs: "mints_other sx h as \<Longrightarrow> spent h (o_resets r) \<Longrightarrow> spent h (o_resets (sign_in_runs sx as r))"
proof (induction as arbitrary: r)
  case (Cons e as)
  obtain a now where e: "e = (a, now)" by (cases e)
  have "spent h (o_resets (sign_in_do sx a now r))"
    using Cons.prems by (intro sign_in_resets) (auto simp: mints_other_def e)
  then show ?case using Cons.IH Cons.prems(1) by (simp add: e mints_other_def)
qed simp

lemma spent_confirm:
  assumes "spent (sx_sha sx t) (o_resets r)"
  shows "\<exists>e. post_reset_confirm sx now (JStr t) nxt r = (Inl e, r)"
proof -
  have "consumePasswordReset (sx_sha sx t) now r = (None, r)"
    using spent_refused [OF assms] by (simp add: consumePasswordReset_def)
  then show ?thesis by (cases t) (auto simp: post_reset_confirm_def split: option.split)
qed

lemma confirm_cases:
  assumes "post_reset_confirm sx now (JStr t) nxt r = (Inr (), s)"
  shows "\<exists>u r1. consumePasswordReset (sx_sha sx t) now r = (Some u, r1)
    \<and> s = setUserEmailVerified u now (deleteSessionsForUser u None (snd (resetPassword (sx_hash sx) u nxt r1)))"
  using assms by (cases t) (auto simp: post_reset_confirm_def split: option.splits prod.splits sum.splits)

text \<open>
  C33: A mailed link resets a password once. When a link is accepted, it was recorded for an account
  and had not expired; afterwards the account has no session left; and from then on, whatever
  happens, the same link is refused and changes nothing, as long as no new link has the same digest.
\<close>

theorem reset_once:
  assumes "post_reset_confirm sx now (JStr t) nxt r = (Inr (), s)" and "mints_other sx (sx_sha sx t) as"
  shows "\<exists>l. map_of (o_resets r) (sx_sha sx t) = Some l \<and> now < ol_expiresAt l
      \<and> list_all (\<lambda>x. ss_userId x \<noteq> ol_userId l) (vals (o_sessions s))
      \<and> (\<exists>e. post_reset_confirm sx later (JStr t) nxt2 (sign_in_runs sx as s) = (Inl e, sign_in_runs sx as s))"
proof -
  obtain u r1 where c: "consumePasswordReset (sx_sha sx t) now r = (Some u, r1)"
      and s: "s = setUserEmailVerified u now (deleteSessionsForUser u None (snd (resetPassword (sx_hash sx) u nxt r1)))"
    using confirm_cases [OF assms(1)] by blast
  have claim: "fst (claim_link (sx_sha sx t) now (o_resets r)) = Some u" "o_resets r1 = snd (claim_link (sx_sha sx t) now (o_resets r))"
    using c by (auto simp: consumePasswordReset_def case_prod_beta)
  then obtain l where l: "map_of (o_resets r) (sx_sha sx t) = Some l" "now < ol_expiresAt l" "ol_userId l = u"
    by (auto simp: claim_link_def split: option.splits if_splits)
  have "o_resets s = o_resets r1" by (simp add: s service_resets reset_frames)
  then have "spent (sx_sha sx t) (o_resets s)" using claim_spends [OF claim(1)] claim(2) by simp
  then have again: "\<exists>e. post_reset_confirm sx later (JStr t) nxt2 (sign_in_runs sx as s) = (Inl e, sign_in_runs sx as s)"
    using spent_confirm spent_runs [OF assms(2)] by blast
  have "o_sessions s = o_sessions (deleteSessionsForUser u None (snd (resetPassword (sx_hash sx) u nxt r1)))"
    by (simp add: s setUserEmailVerified_def split: option.split)
  then have "list_all (\<lambda>x. ss_userId x \<noteq> ol_userId l) (vals (o_sessions s))"
    by (auto simp: deleteSessionsForUser_def vals_def list_all_iff l(3))
  then show ?thesis using l again by blast
qed

section \<open>Concrete runs\<close>

definition open_sign_in :: sign_in_context where
  "open_sign_in = \<lparr>sx_sign = (\<lambda>c. nullish (cl_sid c) []), sx_verify = (\<lambda>t s. Some \<lparr>cl_sub = Some ''u'', cl_role = JStr ''user'', cl_sid = Some s, cl_mfa = False\<rparr>),
     sx_sha = id, sx_hash = id, sx_compare = (=), sx_hmac = (\<lambda>k m. replicate 20 7), sx_totp_required = False, sx_self_registration = True\<rparr>"

definition linked_account :: orch where
  "linked_account = new_orch\<lparr>
     o_users := [(''u'', \<lparr>u_id = ''u'', u_email = ''a@b.c'', u_displayName = ''a'', u_passwordHash = ''old secret'', u_platformRole = ''user'',
       u_createdAt = 0, u_totpSecret = None, u_totpEnabledAt = None, u_emailVerifiedAt = None\<rparr>)],
     o_sessions := [(uuid 0, \<lparr>ss_id = uuid 0, ss_userId = ''u'', ss_createdAt = 0, ss_lastSeenAt = 0, ss_userAgent = None, ss_ipAddress = None\<rparr>)],
     o_resets := [(''key'', \<lparr>ol_userId = ''u'', ol_expiresAt = 1800000, ol_usedAt = None\<rparr>)], o_drawn := 1\<rparr>"

lemma accepted: "\<not> isl (fst x) \<Longrightarrow> x = (Inr (), snd x)"
  by (cases x; cases "fst x") auto

lemma linked_confirm:
  "post_reset_confirm open_sign_in 5 (JStr ''key'') (JStr ''new secret'') linked_account
    = (Inr (), snd (post_reset_confirm open_sign_in 5 (JStr ''key'') (JStr ''new secret'') linked_account))"
proof -
  have "\<not> isl (fst (post_reset_confirm open_sign_in 5 (JStr ''key'') (JStr ''new secret'') linked_account))" by code_simp
  then show ?thesis by (rule accepted)
qed

theorem reset_once_witness:
  "\<exists>l. map_of (o_resets linked_account) (sx_sha open_sign_in ''key'') = Some l \<and> 5 < ol_expiresAt l
      \<and> list_all (\<lambda>x. ss_userId x \<noteq> ol_userId l)
          (vals (o_sessions (snd (post_reset_confirm open_sign_in 5 (JStr ''key'') (JStr ''new secret'') linked_account))))
      \<and> (\<exists>e. post_reset_confirm open_sign_in 9 (JStr ''key'') (JStr ''third secret'')
            (sign_in_runs open_sign_in [] (snd (post_reset_confirm open_sign_in 5 (JStr ''key'') (JStr ''new secret'') linked_account)))
          = (Inl e, sign_in_runs open_sign_in [] (snd (post_reset_confirm open_sign_in 5 (JStr ''key'') (JStr ''new secret'') linked_account))))"
  by (rule reset_once [OF linked_confirm]) (simp add: mints_other_def)

definition signed_out :: orch where
  "signed_out = post_logout \<lparr>pr_id = ''u'', pr_platformRole = ''user'', sp_sessionId = Some (uuid 0), sp_tokenId = None, sp_scopes = None, sp_mfa = False\<rparr> linked_account"

theorem ended_session_refused_witness:
  "requireAuth open_sign_in 9 (Some (''Bearer '' @ uuid 0)) (sign_in_runs open_sign_in [(MailsReset \<lparr>mx_panelUrl = None, mx_mail = False, mx_encode = id\<rparr> ''s'' ''a@b.c'', 8)] signed_out)
    = (Inl (401, ''this session has ended; sign in again''),
       sign_in_runs open_sign_in [(MailsReset \<lparr>mx_panelUrl = None, mx_mail = False, mx_encode = id\<rparr> ''s'' ''a@b.c'', 8)] signed_out)"
proof (rule ended_session_refused [where p = "\<lparr>pr_id = ''u'', pr_platformRole = ''user'', sp_sessionId = Some (uuid 0),
      sp_tokenId = None, sp_scopes = None, sp_mfa = False\<rparr>"])
  show "0 < o_drawn signed_out" "getSession (uuid 0) signed_out = None" by code_simp+
  show "bearer (Some (''Bearer '' @ uuid 0)) = Some (uuid 0)" "\<not> isApiTokenSecret (uuid 0)" by code_simp+
qed (simp_all add: verifyToken_def open_sign_in_def given_def isPlatformRole_def platform_roles_def)

text \<open>The account's address and its id are two keys: each has its own budget of failures.\<close>

lemma two_budgets:
  "loginKeys None (Some ''a@b.c'') \<noteq> loginKeys None (Some ''u'')"
  "fst (local_login open_sign_in ''a@b.c'' ''old secret'' linked_account) = fst (local_login open_sign_in ''u'' ''old secret'' linked_account)"
  "fst (local_login open_sign_in ''u'' ''old secret'' linked_account) = Some (''u'', ''user'')"
  by code_simp+

text \<open>The login route measures its attempts as \<open>try_login\<close> does, unless the check of a code fails altogether.\<close>

lemma login_is_attempt:
  assumes "lb_email body = JStr i" "i \<noteq> []" "lb_password body = JStr pw" "post_login sx opts now ip agent body m r = (x, m1, r1)"
    "\<not> (\<exists>e. x = Inl (LoginBroken e))"
  shows "m1 = snd (try_login opts \<lparr>ta_time = now, ta_keys = loginKeys ip (Some i), ta_right = \<not> isl x\<rparr> m)"
proof -
  obtain y r2 where one: "local_login sx i pw r = (y, r2)" by (cases "local_login sx i pw r")
  show ?thesis
  proof (cases y)
    case None
    then show ?thesis using assms by (auto simp: post_login_def Let_def one try_login_def case_prod_beta split: if_splits)
  next
    case (Some ur)
    obtain z r3 where two: "second_factor sx now (lb_code body) (getUser (fst ur) r2) r2 = (z, r3)"
      by (cases "second_factor sx now (lb_code body) (getUser (fst ur) r2) r2")
    show ?thesis
    proof (cases z)
      case (Inl e)
      then show ?thesis using assms
        by (cases e) (auto simp: post_login_def Let_def one two Some try_login_def case_prod_beta split: if_splits)
    next
      case (Inr b)
      then show ?thesis using assms
        by (auto simp: post_login_def Let_def one two Some try_login_def case_prod_beta split: if_splits)
    qed
  qed
qed

end
