(* ===== verification/Ports.thy ===== *)
theory Ports
  imports Orch_Repo
begin

text \<open>
  Host ports per node: the plan that resolves a server's port map (\<^verbatim>\<open>portPool.ts\<close>) and its
  writing against the allocations of the node (\<^verbatim>\<open>portAllocation.ts\<close>). An object of the source is
  the list of its entries in the order \<open>Object.entries\<close> gives them.

  The lemmas: what an accepted plan is (every port valid, in the pool, free, and chosen once), and
  that no sequence of the operations on allocations ever gives one port of a node to two servers.
\<close>

section \<open>Planning\<close>

type_synonym taken_ports = "(int \<times> (string \<times> string)) list"

definition auto_port :: string where "auto_port = ''auto''"

definition asPort :: "string \<Rightarrow> int option" where
  "asPort key =
     (if key \<noteq> [] \<and> list_all digit key \<and> 1 \<le> digits_val key \<and> digits_val key \<le> 65535
      then Some (int (digits_val key)) else None)"

datatype port_refusal =
    NotAPort string | OutsidePool int | UsedBy int string | NoPool | PoolFull | JustTaken int

fun refusal_status :: "port_refusal \<Rightarrow> nat" where
  "refusal_status (NotAPort k) = 400"
| "refusal_status (OutsidePool p) = 400"
| "refusal_status (UsedBy p n) = 409"
| "refusal_status NoPool = 400"
| "refusal_status PoolFull = 409"
| "refusal_status (JustTaken p) = 409"

definition is_auto :: "string \<Rightarrow> bool" where
  "is_auto key = (js_lower key = auto_port)"

definition in_pool :: "(int \<times> int) option \<Rightarrow> int \<Rightarrow> bool" where
  "in_pool pool p = (case pool of None \<Rightarrow> True | Some (a, b) \<Rightarrow> a \<le> p \<and> p \<le> b)"

definition free_for :: "taken_ports \<Rightarrow> string option \<Rightarrow> int \<Rightarrow> bool" where
  "free_for taken self p = (case map_of taken p of None \<Rightarrow> True | Some (d, n) \<Rightarrow> Some d = self)"

text \<open>Adding to a \<open>Set\<close>.\<close>

definition set_add :: "'a \<Rightarrow> 'a list \<Rightarrow> 'a list" where
  "set_add x xs = (if x \<in> set xs then xs else xs @ [x])"

definition port_key :: "int \<Rightarrow> string" where "port_key p = show_nat (nat p)"

type_synonym port_choice = "int list \<times> (string \<times> string) list"

fun plan_explicit ::
  "(int \<times> int) option \<Rightarrow> taken_ports \<Rightarrow> string option \<Rightarrow> (string \<times> string) list \<Rightarrow> port_choice \<Rightarrow> (port_refusal, port_choice) result" where
  "plan_explicit pool taken self [] acc = Inr acc"
| "plan_explicit pool taken self ((key, container) # es) acc =
     (if is_auto key then plan_explicit pool taken self es acc
      else case asPort key of
        None \<Rightarrow> Inl (NotAPort key)
      | Some p \<Rightarrow>
          if \<not> in_pool pool p then Inl (OutsidePool p)
          else if \<not> free_for taken self p then Inl (UsedBy p (snd (the (map_of taken p))))
          else plan_explicit pool taken self es
                 (set_add p (fst acc), AList.update (port_key p) container (snd acc)))"

fun plan_auto ::
  "(int \<times> int) option \<Rightarrow> taken_ports \<Rightarrow> string option \<Rightarrow> (string \<times> string) list \<Rightarrow> port_choice \<Rightarrow> (port_refusal, port_choice) result" where
  "plan_auto pool taken self [] acc = Inr acc"
| "plan_auto pool taken self ((key, container) # es) acc =
     (if \<not> is_auto key then plan_auto pool taken self es acc
      else case pool of
        None \<Rightarrow> Inl NoPool
      | Some (a, b) \<Rightarrow>
          (case find (\<lambda>p. p \<notin> set (fst acc) \<and> free_for taken self p) [a..b] of
             None \<Rightarrow> Inl PoolFull
           | Some p \<Rightarrow> plan_auto pool taken self es
                         (set_add p (fst acc), AList.update (port_key p) container (snd acc))))"

text \<open>The resolved map and the host ports.\<close>

definition planPorts ::
  "(string \<times> string) list \<Rightarrow> (int \<times> int) option \<Rightarrow> taken_ports \<Rightarrow> string option
     \<Rightarrow> (port_refusal, (string \<times> string) list \<times> int list) result" where
  "planPorts ports pool taken self =
     and_then (plan_explicit pool taken self ports ([], [])) (\<lambda>acc.
     and_then (plan_auto pool taken self ports acc) (\<lambda>(chosen, resolved). Inr (resolved, chosen)))"

datatype range_problem = RangeShape | RangeBounds | RangeOrder

fun port_number :: "json \<Rightarrow> int option" where
  "port_number (JNum x) = (if is_integral x \<and> 1 \<le> x \<and> x \<le> 65535 then Some \<lfloor>x\<rfloor> else None)"
| "port_number _ = None"

definition parsePortRange :: "json \<Rightarrow> (range_problem, (int \<times> int) option) result" where
  "parsePortRange v =
     (case v of
        JNull \<Rightarrow> Inr None
      | JObj fs \<Rightarrow>
          (case (port_number (jprop v ''start''), port_number (jprop v ''end'')) of
             (Some a, Some b) \<Rightarrow> if a > b then Inl RangeOrder else Inr (Some (a, b))
           | _ \<Rightarrow> Inl RangeBounds)
      | _ \<Rightarrow> Inl RangeShape)"

definition rangeOf :: "node \<Rightarrow> (int \<times> int) option" where
  "rangeOf n = (case (nd_portRangeStart n, nd_portRangeEnd n) of (Some a, Some b) \<Rightarrow> Some (a, b) | _ \<Rightarrow> None)"

section \<open>Allocating\<close>

definition takenPorts :: "string \<Rightarrow> orch \<Rightarrow> taken_ports" where
  "takenPorts nodeId r =
     (let names = foldl (\<lambda>m d. AList.update (dp_id d) (dv_name d) m) [] (listDeployments r)
      in foldl (\<lambda>m a. AList.update (pa_port a) (pa_deploymentId a, nullish (map_of names (pa_deploymentId a)) ''another server'') m)
           [] (listPortAllocations (Some nodeId) None r))"

definition checkPorts ::
  "node \<Rightarrow> (string \<times> string) list \<Rightarrow> string option \<Rightarrow> orch \<Rightarrow> (port_refusal, (string \<times> string) list \<times> int list) result" where
  "checkPorts n ports self r = planPorts ports (rangeOf n) (takenPorts (nd_id n) r) self"

definition allocatePorts ::
  "time \<Rightarrow> string \<Rightarrow> node \<Rightarrow> (string \<times> string) list \<Rightarrow> orch
     \<Rightarrow> (port_refusal, (string \<times> string) list \<times> int list) result \<times> orch" where
  "allocatePorts clock deploymentId n ports r =
     (case checkPorts n ports (Some deploymentId) r of
        Inl e \<Rightarrow> (Inl e, r)
      | Inr plan \<Rightarrow>
          (case replacePortAllocations clock deploymentId (Some (nd_id n)) (snd plan) r of
             (Inl (PortConflict p _), r) \<Rightarrow> (Inl (JustTaken p), r)
           | (Inr _, r) \<Rightarrow> (Inr plan, r)))"

text \<open>What a refusal says; \<open>pool\<close> is the node's range.\<close>

definition pool_text :: "(int \<times> int) option \<Rightarrow> string" where
  "pool_text pool = (case pool of None \<Rightarrow> [] | Some (a, b) \<Rightarrow> port_key a @ ''--'' @ port_key b)"

fun refusal_text :: "(int \<times> int) option \<Rightarrow> port_refusal \<Rightarrow> string" where
  "refusal_text pool (NotAPort key) = key @ '' is not a port -- use a number from 1 to 65535, or \"auto\"''"
| "refusal_text pool (OutsidePool p) = ''port '' @ port_key p @ '' is outside this node's port range '' @ pool_text pool"
| "refusal_text pool (UsedBy p name) = ''port '' @ port_key p @ '' is already used by '' @ name @ '' on this node''"
| "refusal_text pool NoPool = ''this node has no port range to choose from -- name a port, or give the node a range''"
| "refusal_text pool PoolFull = ''no free port left in this node's range '' @ pool_text pool"
| "refusal_text pool (JustTaken p) = ''port '' @ port_key p @ '' was just taken by another server on this node''"

text \<open>
  \<open>Object.keys(ports).map(Number)\<close> and the filter; \<open>number\<close> is \<open>Number\<close>, with \<open>None\<close> where it
  gives no finite number.
\<close>

definition config_ports :: "(string \<Rightarrow> rat option) \<Rightarrow> server_config option \<Rightarrow> int list" where
  "config_ports number c =
     [p \<leftarrow> map floor (filter is_integral (List.map_filter number
        (map fst (case c of None \<Rightarrow> [] | Some c \<Rightarrow> sc_ports c)))). 1 \<le> p \<and> p \<le> 65535]"

fun backfill_each :: "(string \<Rightarrow> rat option) \<Rightarrow> time \<Rightarrow> deployment_view list \<Rightarrow> orch \<Rightarrow> nat \<times> orch" where
  "backfill_each number clock [] r = (0, r)"
| "backfill_each number clock (d # ds) r =
     (case given (dp_nodeId d) of
        None \<Rightarrow> backfill_each number clock ds r
      | Some n \<Rightarrow>
          if listPortAllocations None (Some (dp_id d)) r \<noteq> [] then backfill_each number clock ds r
          else
            let ports = config_ports number (getDeploymentConfig (dp_id d) r);
                free = [p \<leftarrow> ports. map_of (takenPorts n r) p = None]
            in if free = [] then backfill_each number clock ds r
               else
                 let (_, r) = replacePortAllocations clock (dp_id d) (Some n) free r;
                     (k, r) = backfill_each number clock ds r
                 in (length free + k, r))"

text \<open>Oldest first; \<open>collate\<close> ranks ids as \<open>localeCompare\<close> does.\<close>

definition backfillPortAllocations :: "(string \<Rightarrow> rat option) \<Rightarrow> (string \<Rightarrow> nat) \<Rightarrow> time \<Rightarrow> orch \<Rightarrow> nat \<times> orch" where
  "backfillPortAllocations number collate clock r =
     backfill_each number clock (sort_key dp_createdAt (sort_key (\<lambda>d. collate (dp_id d)) (listDeployments r))) r"

section \<open>Accepted plans\<close>

lemma set_add_simps [simp]: "set (set_add x xs) = insert x (set xs)" "distinct xs \<Longrightarrow> distinct (set_add x xs)"
  by (auto simp: set_add_def)

lemma asPort_bounds: "asPort k = Some p \<Longrightarrow> 1 \<le> p \<and> p \<le> 65535"
  by (auto simp: asPort_def split: if_splits)

text \<open>What every chosen port satisfies.\<close>

definition good_port :: "(int \<times> int) option \<Rightarrow> taken_ports \<Rightarrow> string option \<Rightarrow> int \<Rightarrow> bool" where
  "good_port pool taken self p = (in_pool pool p \<and> free_for taken self p)"

definition good_choice :: "(int \<times> int) option \<Rightarrow> taken_ports \<Rightarrow> string option \<Rightarrow> port_choice \<Rightarrow> bool" where
  "good_choice pool taken self acc =
     (distinct (fst acc) \<and> (\<forall>p \<in> set (fst acc). good_port pool taken self p)
      \<and> fst ` set (snd acc) = port_key ` set (fst acc))"

lemma good_choice_add:
  "good_choice pool taken self acc \<Longrightarrow> good_port pool taken self p \<Longrightarrow>
     good_choice pool taken self (set_add p (fst acc), AList.update (port_key p) c (snd acc))"
  by (simp add: good_choice_def keys_update_set)

lemma plan_explicit_good:
  "plan_explicit pool taken self es acc = Inr acc' \<Longrightarrow> good_choice pool taken self acc \<Longrightarrow> good_choice pool taken self acc'"
proof (induction pool taken self es acc rule: plan_explicit.induct)
  case (2 pool taken self key container es acc)
  show ?case
  proof (cases "is_auto key")
    case True
    with 2 show ?thesis by simp
  next
    case False
    with 2(3) obtain p where p: "asPort key = Some p" "in_pool pool p" "free_for taken self p"
      by (auto split: option.splits if_splits)
    then have "good_choice pool taken self (set_add p (fst acc), AList.update (port_key p) container (snd acc))"
      using 2(4) by (intro good_choice_add) (simp_all add: good_port_def)
    then show ?thesis using 2(2) [OF False p(1)] 2(3) False p by simp
  qed
qed simp

lemma find_upto: "find q [a..b] = Some p \<Longrightarrow> a \<le> p \<and> p \<le> b \<and> q p"
  by (auto dest!: find_Some_mem)

lemma plan_auto_good:
  "plan_auto pool taken self es acc = Inr acc' \<Longrightarrow> good_choice pool taken self acc \<Longrightarrow> good_choice pool taken self acc'"
proof (induction pool taken self es acc rule: plan_auto.induct)
  case (2 pool taken self key container es acc)
  show ?case
  proof (cases "is_auto key")
    case False
    with 2 show ?thesis by simp
  next
    case True
    with 2(3) obtain a b p where p: "pool = Some (a, b)"
      "find (\<lambda>p. p \<notin> set (fst acc) \<and> free_for taken self p) [a..b] = Some p"
      by (auto split: option.splits)
    then have "good_choice pool taken self (set_add p (fst acc), AList.update (port_key p) container (snd acc))"
      using 2(4) by (intro good_choice_add) (auto dest!: find_upto simp: good_port_def in_pool_def)
    then show ?thesis using 2(2) [of "(a, b)" a b p] 2(3) True p by simp
  qed
qed simp

lemma planPorts_good:
  "planPorts ports pool taken self = Inr (resolved, chosen) \<Longrightarrow> good_choice pool taken self (chosen, resolved)"
proof -
  assume "planPorts ports pool taken self = Inr (resolved, chosen)"
  then obtain acc where "plan_explicit pool taken self ports ([], []) = Inr acc"
      "plan_auto pool taken self ports acc = Inr (chosen, resolved)"
    by (auto simp: planPorts_def)
  moreover have "good_choice pool taken self ([], [])" by (simp add: good_choice_def)
  ultimately show ?thesis by (blast intro: plan_auto_good plan_explicit_good)
qed
lemma planPorts_never_taken: "planPorts ports pool taken self = Inl (JustTaken p) \<Longrightarrow> False"
proof -
  have "plan_explicit pool taken self es acc \<noteq> Inl (JustTaken p)" for es acc
    by (induction pool taken self es acc rule: plan_explicit.induct) (auto split: option.splits)
  moreover have "plan_auto pool taken self es acc \<noteq> Inl (JustTaken p)" for es acc
    by (induction pool taken self es acc rule: plan_auto.induct) (auto split: option.splits prod.splits)
  moreover assume "planPorts ports pool taken self = Inl (JustTaken p)"
  ultimately show False by (cases "plan_explicit pool taken self ports ([], [])")
    (auto simp: planPorts_def and_then_def split: sum.splits prod.splits)
qed

section \<open>The table of allocations\<close>

text \<open>Allocations lie under their own id, and no id is drawn twice.\<close>

definition ids_ok :: "orch \<Rightarrow> bool" where
  "ids_ok r = (distinct (map fst (o_ports r)) \<and> (\<forall>(k, a) \<in> set (o_ports r). pa_id a = k \<and> (\<exists>n < o_drawn r. k = uuid n)))"

definition of_server :: "string \<Rightarrow> orch \<Rightarrow> port_allocation list" where
  "of_server d r = [a \<leftarrow> vals (o_ports r). pa_deploymentId a = d]"

definition of_others :: "string \<Rightarrow> orch \<Rightarrow> port_allocation list" where
  "of_others d r = [a \<leftarrow> vals (o_ports r). pa_deploymentId a \<noteq> d]"

lemma distinct_map_filter_any: "distinct (map f xs) \<Longrightarrow> distinct (map f (filter q xs))"
  by (induction xs) auto

lemma ids_ok_filter:
  assumes "ids_ok r" "o_ports r' = filter q (o_ports r)" "o_drawn r \<le> o_drawn r'"
  shows "ids_ok r'"
  using assms by (fastforce simp: ids_ok_def distinct_map_filter_any)

lemma ids_ok_id: "ids_ok r \<Longrightarrow> (k, a) \<in> set (o_ports r) \<Longrightarrow> pa_id a = k"
  by (auto simp: ids_ok_def)

lemma ids_ok_unique: "ids_ok r \<Longrightarrow> (k, a) \<in> set (o_ports r) \<Longrightarrow> (k', a') \<in> set (o_ports r) \<Longrightarrow> pa_id a = pa_id a' \<Longrightarrow> a = a'"
proof -
  assume r: "ids_ok r" "(k, a) \<in> set (o_ports r)" "(k', a') \<in> set (o_ports r)" and e: "pa_id a = pa_id a'"
  have "k = k'" using ids_ok_id [OF r(1,2)] ids_ok_id [OF r(1,3)] e by simp
  then show "a = a'" using r by (auto simp: ids_ok_def dest: eq_key_imp_eq_value)
qed

lemma update_fresh: "k \<notin> fst ` set m \<Longrightarrow> AList.update k v m = m @ [(k, v)]"
  by (induction m) auto

lemma add_port_ok:
  assumes "ids_ok r"
    and r': "r' = r\<lparr>o_ports := AList.update (uuid (o_drawn r)) a (o_ports r), o_drawn := Suc (o_drawn r)\<rparr>"
    and a: "pa_id a = uuid (o_drawn r)"
  shows "ids_ok r' \<and> vals (o_ports r') = vals (o_ports r) @ [a]"
proof -
  have f: "uuid (o_drawn r) \<notin> fst ` set (o_ports r)"
    using assms(1) by (fastforce simp: ids_ok_def)
  have "distinct (map fst (o_ports r'))" using assms(1) f by (simp add: ids_ok_def r' update_fresh [OF f])
  moreover have "\<forall>(k, b) \<in> set (o_ports r'). pa_id b = k \<and> (\<exists>n < o_drawn r'. k = uuid n)"
    using assms(1) unfolding ids_ok_def r' update_fresh [OF f] by (auto simp: a intro: less_SucI)
  ultimately show ?thesis by (simp add: ids_ok_def r' update_fresh [OF f] vals_def)
qed

lemma add_ports_ok:
  "ids_ok r \<Longrightarrow>
     ids_ok (snd (add_ports t d n keep ps r))
     \<and> vals (o_ports (snd (add_ports t d n keep ps r))) = vals (o_ports r) @ fst (add_ports t d n keep ps r)
     \<and> map (\<lambda>a. (pa_nodeId a, pa_port a, pa_deploymentId a, pa_primary a)) (fst (add_ports t d n keep ps r)) =
         map (\<lambda>p. (n, p, d, keep = Some p)) ps"
proof (induction ps arbitrary: r)
  case (Cons p ps)
  define a where "a = \<lparr>pa_id = uuid (o_drawn r), pa_nodeId = n, pa_port = p, pa_deploymentId = d,
    pa_primary = (keep = Some p), pa_createdAt = t\<rparr>"
  define r' where "r' = r\<lparr>o_ports := AList.update (uuid (o_drawn r)) a (o_ports r), o_drawn := Suc (o_drawn r)\<rparr>"
  have r': "ids_ok r'" "vals (o_ports r') = vals (o_ports r) @ [a]"
    using add_port_ok [OF Cons.prems r'_def] by (simp_all add: a_def)
  have "add_ports t d n keep (p # ps) r = (a # fst (add_ports t d n keep ps r'), snd (add_ports t d n keep ps r'))"
    by (simp add: split_beta Let_def a_def r'_def)
  moreover have "(pa_nodeId a, pa_port a, pa_deploymentId a, pa_primary a) = (n, p, d, keep = Some p)"
    by (simp add: a_def)
  ultimately show ?case using Cons.IH [OF r'(1)] r'(2) by simp
qed simp

text \<open>The server's own allocations removed.\<close>

definition without :: "string \<Rightarrow> orch \<Rightarrow> orch" where
  "without d r = r\<lparr>o_ports := filter (\<lambda>(k, a). k \<notin> pa_id ` set [a \<leftarrow> vals (o_ports r). pa_deploymentId a = d]) (o_ports r)\<rparr>"

lemma without_vals:
  assumes "ids_ok r"
  shows "vals (o_ports (without d r)) = of_others d r"
proof -
  have "k \<in> pa_id ` set [a \<leftarrow> vals (o_ports r). pa_deploymentId a = d] \<longleftrightarrow> pa_deploymentId a = d"
    if m: "(k, a) \<in> set (o_ports r)" for k a
  proof
    assume "k \<in> pa_id ` set [a \<leftarrow> vals (o_ports r). pa_deploymentId a = d]"
    then obtain k' a' where "(k', a') \<in> set (o_ports r)" "pa_deploymentId a' = d" "pa_id a' = k"
      by (auto simp: vals_def)
    then show "pa_deploymentId a = d" using ids_ok_unique [OF assms _ m] ids_ok_id [OF assms m] by metis
  next
    assume "pa_deploymentId a = d"
    then show "k \<in> pa_id ` set [a \<leftarrow> vals (o_ports r). pa_deploymentId a = d]"
      using m ids_ok_id [OF assms m] by (force simp: vals_def)
  qed
  then have "filter (\<lambda>(k, a). k \<notin> pa_id ` set [a \<leftarrow> vals (o_ports r). pa_deploymentId a = d]) (o_ports r) =
      filter (\<lambda>(k, a). pa_deploymentId a \<noteq> d) (o_ports r)"
    by (intro filter_cong) auto
  then show ?thesis by (simp add: without_def of_others_def vals_def filter_map comp_def case_prod_unfold)
qed

lemma without_ok: "ids_ok r \<Longrightarrow> ids_ok (without d r)"
  by (rule ids_ok_filter [of r]) (simp_all add: without_def)

lemma replace_eq:
  "replacePortAllocations t d (Some n) ps r =
     (if n = [] then (Inr [], without d r)
      else case find (port_clash d n r) ps of
        Some p \<Rightarrow> (Inl (PortConflict p n), r)
      | None \<Rightarrow> (let (as, s) = add_ports t d n (keep_primary (primary_port d r) ps) ps (without d r) in (Inr as, s)))"
  by (simp add: replacePortAllocations_def given_def without_def Let_def split: option.split)

lemma replace_none_eq: "replacePortAllocations t d None ps r = (Inr [], without d r)"
  by (simp add: replacePortAllocations_def given_def without_def Let_def)

text \<open>What a write that is not refused leaves: the other servers' allocations, and the new ones.\<close>

lemma replace_some:
  assumes "ids_ok r" "n \<noteq> []" "find (port_clash d n r) ps = None"
    and s: "replacePortAllocations t d (Some n) ps r = (x, s)"
  shows "ids_ok s \<and> (\<exists>as. x = Inr as \<and> vals (o_ports s) = of_others d r @ as
    \<and> map (\<lambda>a. (pa_nodeId a, pa_port a, pa_deploymentId a, pa_primary a)) as =
        map (\<lambda>p. (n, p, d, keep_primary (primary_port d r) ps = Some p)) ps)"
  using add_ports_ok [OF without_ok [OF assms(1)], of t d n "keep_primary (primary_port d r) ps" ps d]
  using assms(2,3) s by (auto simp: replace_eq without_vals [OF assms(1)] split_beta)

section \<open>One server per port\<close>

definition exclusive :: "orch \<Rightarrow> bool" where
  "exclusive r = (\<forall>a \<in> set (vals (o_ports r)). \<forall>b \<in> set (vals (o_ports r)).
     pa_nodeId a = pa_nodeId b \<and> pa_port a = pa_port b \<longrightarrow> pa_deploymentId a = pa_deploymentId b)"

definition ports_ok :: "orch \<Rightarrow> bool" where
  "ports_ok r = (ids_ok r \<and> exclusive r)"

lemma ports_ok_filter:
  assumes "ports_ok r" "o_ports r' = filter q (o_ports r)" "o_drawn r \<le> o_drawn r'"
  shows "ports_ok r'"
proof -
  have "set (vals (o_ports r')) \<subseteq> set (vals (o_ports r))" by (auto simp: assms(2) vals_def)
  then have "exclusive r'" using assms(1) unfolding ports_ok_def exclusive_def by blast
  moreover have "ids_ok r'" using assms by (auto intro: ids_ok_filter simp: ports_ok_def)
  ultimately show ?thesis by (simp add: ports_ok_def)
qed

lemma without_ports_ok: "ports_ok r \<Longrightarrow> ports_ok (without d r)"
  by (rule ports_ok_filter [of r]) (simp_all add: without_def)

lemma replace_ok:
  assumes "ports_ok r"
  shows "ports_ok (snd (replacePortAllocations t d n ps r))"
proof (cases n)
  case None
  then show ?thesis by (simp add: replace_none_eq without_ports_ok assms)
next
  case (Some m)
  show ?thesis
  proof (cases "m = [] \<or> find (port_clash d m r) ps \<noteq> None")
    case True
    then show ?thesis using assms by (auto simp: Some replace_eq without_ports_ok)
  next
    case False
    obtain x s where x: "replacePortAllocations t d (Some m) ps r = (x, s)" by fastforce
    have "ids_ok r" "m \<noteq> []" "find (port_clash d m r) ps = None" using assms False by (simp_all add: ports_ok_def)
    from replace_some [OF this x] obtain as where s: "replacePortAllocations t d (Some m) ps r = (x, s)" "ids_ok s"
      "vals (o_ports s) = of_others d r @ as"
      "map (\<lambda>a. (pa_nodeId a, pa_port a, pa_deploymentId a, pa_primary a)) as =
         map (\<lambda>p. (m, p, d, keep_primary (primary_port d r) ps = Some p)) ps"
      using x by blast
    have new: "pa_nodeId a = m \<and> pa_port a \<in> set ps \<and> pa_deploymentId a = d" if "a \<in> set as" for a
    proof -
      have "(pa_nodeId a, pa_port a, pa_deploymentId a, pa_primary a) \<in>
          (\<lambda>p. (m, p, d, keep_primary (primary_port d r) ps = Some p)) ` set ps"
        unfolding set_map [symmetric] s(4) [symmetric] using that by (simp only: set_map image_eqI)
      then show ?thesis by (elim imageE) simp
    qed
    have old: "pa_deploymentId b = d" if "b \<in> set (vals (o_ports r))" "pa_nodeId b = m" "pa_port b \<in> set ps" for b
      using False that by (auto simp: find_None_iff port_clash_def list_ex_iff)
    have e: "exclusive r" using assms by (simp add: ports_ok_def)
    have "pa_deploymentId a = pa_deploymentId b"
      if "a \<in> set (vals (o_ports s))" "b \<in> set (vals (o_ports s))" and
        c: "pa_nodeId a = pa_nodeId b" "pa_port a = pa_port b" for a b
    proof -
      from that(1,2) consider "a \<in> set (vals (o_ports r))" "b \<in> set (vals (o_ports r))"
        | "a \<in> set as" "b \<in> set as" | "a \<in> set as" "b \<in> set (vals (o_ports r))"
        | "a \<in> set (vals (o_ports r))" "b \<in> set as"
        by (auto simp: s(3) of_others_def)
      then show ?thesis
      proof cases
        case 1
        then show ?thesis using e c unfolding exclusive_def by blast
      next
        case 2
        then show ?thesis using new by simp
      next
        case 3
        then show ?thesis using new [of a] old [of b] c by simp
      next
        case 4
        then show ?thesis using new [of b] old [of a] c by simp
      qed
    qed
    then have "exclusive s" unfolding exclusive_def by blast
    then show ?thesis by (simp add: Some s(1,2) ports_ok_def)
  qed
qed

lemma allocate_ok: "ports_ok r \<Longrightarrow> ports_ok (snd (allocatePorts t d n es r))"
proof (cases "checkPorts n es (Some d) r")
  case (Inr plan)
  assume "ports_ok r"
  then have "ports_ok (snd (replacePortAllocations t d (Some (nd_id n)) (snd plan) r))" by (rule replace_ok)
  then show ?thesis
    by (cases "replacePortAllocations t d (Some (nd_id n)) (snd plan) r")
      (auto simp: allocatePorts_def Inr split: sum.split port_conflict.split)
qed (simp add: allocatePorts_def)

lemma backfill_each_ok: "ports_ok r \<Longrightarrow> ports_ok (snd (backfill_each number t ds r))"
proof (induction ds arbitrary: r)
  case (Cons d ds)
  have "ports_ok (snd (replacePortAllocations t (dp_id d) n ps r))" for n ps
    using Cons.prems by (rule replace_ok)
  then show ?case using Cons by (simp add: Let_def split_beta split: option.split)
qed simp

text \<open>Making a port the primary one keeps every allocation but its flag.\<close>

lemma setPrimary_eq:
  assumes "ids_ok r" "p \<in> pa_port ` set (of_server d r)"
  shows "setPrimaryPort d p r =
    (True, r\<lparr>o_ports := update_where (\<lambda>a. pa_deploymentId a = d) (\<lambda>a. a\<lparr>pa_primary := (pa_port a = p)\<rparr>) (o_ports r)\<rparr>)"
proof -
  let ?mine = "of_server d r" and ?set = "\<lambda>a. a\<lparr>pa_primary := (pa_port a = p)\<rparr>"
  let ?m = "foldl (\<lambda>m a. AList.update (pa_id a) (?set a) m) (o_ports r) ?mine"
  have keys: "pa_id ` set ?mine \<subseteq> fst ` set (o_ports r)"
    using ids_ok_id [OF assms(1)] by (force simp: of_server_def vals_def)
  have ids: "distinct (map pa_id ?mine)"
  proof -
    have "map pa_id (vals (o_ports r)) = map fst (o_ports r)"
      using ids_ok_id [OF assms(1)] by (auto simp: vals_def)
    then show ?thesis using assms(1) unfolding of_server_def
      by (intro distinct_map_filter_any) (simp add: ids_ok_def)
  qed
  have "map_of ?m k = map_option (\<lambda>a. if pa_deploymentId a = d then ?set a else a) (map_of (o_ports r) k)" for k
  proof (cases "find (\<lambda>a. pa_id a = k) ?mine")
    case None
    then have "pa_deploymentId a \<noteq> d" if "map_of (o_ports r) k = Some a" for a
      using that ids_ok_id [OF assms(1) map_of_SomeD [OF that]] map_of_SomeD [OF that]
      by (force simp: find_None_iff of_server_def vals_def)
    then show ?thesis by (cases "map_of (o_ports r) k") (auto simp: map_of_foldl_update [OF ids] None)
  next
    case (Some a)
    then have a: "a \<in> set ?mine" "pa_id a = k" by (auto dest!: find_Some_mem)
    then obtain k' where k': "(k', a) \<in> set (o_ports r)" "pa_deploymentId a = d" by (auto simp: of_server_def vals_def)
    then have "map_of (o_ports r) k = Some a"
      using ids_ok_id [OF assms(1) k'(1)] a assms(1) by (simp add: ids_ok_def)
    then show ?thesis by (simp add: map_of_foldl_update [OF ids] Some k'(2))
  qed
  then have "?m = update_where (\<lambda>a. pa_deploymentId a = d) ?set (o_ports r)"
    using assms(1) by (intro assoc_eqI ext)
      (simp_all add: keys_foldl_update [OF keys] map_of_update_where ids_ok_def)
  then show ?thesis using assms(2) by (auto simp: setPrimaryPort_def of_server_def list_ex_iff)
qed

lemma setPrimary_ok:
  assumes "ports_ok r"
  shows "ports_ok (snd (setPrimaryPort d p r))"
proof (cases "p \<in> pa_port ` set (of_server d r)")
  case True
  have i: "ids_ok r" and e: "exclusive r" using assms by (simp_all add: ports_ok_def)
  let ?m = "update_where (\<lambda>a. pa_deploymentId a = d) (\<lambda>a. a\<lparr>pa_primary := (pa_port a = p)\<rparr>) (o_ports r)"
  have m: "o_ports (snd (setPrimaryPort d p r)) = ?m" "o_drawn (snd (setPrimaryPort d p r)) = o_drawn r"
    by (simp_all add: setPrimary_eq [OF i True])
  have old: "\<exists>b \<in> set (vals (o_ports r)). pa_nodeId b = pa_nodeId a \<and> pa_port b = pa_port a \<and> pa_deploymentId b = pa_deploymentId a"
    if "a \<in> set (vals ?m)" for a
    using that by (fastforce split: if_splits)
  have "exclusive (snd (setPrimaryPort d p r))"
    unfolding exclusive_def m(1)
  proof (intro ballI impI, elim conjE)
    fix a b assume a: "a \<in> set (vals ?m)" "b \<in> set (vals ?m)" "pa_nodeId a = pa_nodeId b" "pa_port a = pa_port b"
    then show "pa_deploymentId a = pa_deploymentId b"
      using old [OF a(1)] old [OF a(2)] e unfolding exclusive_def by metis
  qed
  moreover have "ids_ok (snd (setPrimaryPort d p r))"
    using i by (fastforce simp: ids_ok_def m update_where_mem)
  ultimately show ?thesis by (simp add: ports_ok_def)
next
  case False
  then have "setPrimaryPort d p r = (False, r)" by (auto simp: setPrimaryPort_def of_server_def list_ex_iff)
  then show ?thesis using assms by simp
qed

section \<open>Runs\<close>

datatype port_op =
    AddServer time new_server "string option"
  | PatchServer string status_patch
  | EditServer string config_patch
  | Allocate time string node "(string \<times> string) list"
  | Release time string
  | Backfill time
  | MakePrimary string int
  | DropServer string
  | DropNode string

fun port_step :: "(string \<Rightarrow> rat option) \<Rightarrow> (string \<Rightarrow> nat) \<Rightarrow> orch \<Rightarrow> port_op \<Rightarrow> orch" where
  "port_step number collate r (AddServer t inp n) =
     (let (c, r) = createServerConfig t inp r in snd (createDeployment t (sc_id c) n r))"
| "port_step number collate r (PatchServer d p) = snd (updateDeploymentStatus d p r)"
| "port_step number collate r (EditServer d p) = snd (updateDeploymentConfig d p r)"
| "port_step number collate r (Allocate t d n es) = snd (allocatePorts t d n es r)"
| "port_step number collate r (Release t d) = snd (replacePortAllocations t d None [] r)"
| "port_step number collate r (Backfill t) = snd (backfillPortAllocations number collate t r)"
| "port_step number collate r (MakePrimary d p) = snd (setPrimaryPort d p r)"
| "port_step number collate r (DropServer d) = deleteDeployment d r"
| "port_step number collate r (DropNode n) = deleteNode n r"

lemma ports_ok_same: "ports_ok r \<Longrightarrow> o_ports r' = o_ports r \<Longrightarrow> o_drawn r \<le> o_drawn r' \<Longrightarrow> ports_ok r'"
  by (rule ports_ok_filter [where q = "\<lambda>_. True"]) simp_all

lemma port_step_ok: "ports_ok r \<Longrightarrow> ports_ok (port_step number collate r e)"
proof (cases e)
  case (AddServer t inp n)
  assume "ports_ok r"
  then show ?thesis
    by (rule ports_ok_same) (simp_all add: AddServer createServerConfig_def createDeployment_def Let_def)
next
  case (PatchServer d p)
  assume "ports_ok r"
  then show ?thesis
    by (rule ports_ok_same) (simp_all add: PatchServer updateDeploymentStatus_def Let_def split: option.split)
next
  case (EditServer d p)
  assume "ports_ok r"
  then show ?thesis
    by (rule ports_ok_same) (simp_all add: EditServer updateDeploymentConfig_def Let_def split: option.split)
next
  case (DropServer d)
  assume "ports_ok r"
  then show ?thesis
    by (cases "map_of (o_deployments r) d")
      (auto simp: DropServer deleteDeployment_def drop_where_def intro: ports_ok_filter)
next
  case (DropNode n)
  assume "ports_ok r"
  then show ?thesis by (auto simp: DropNode deleteNode_def drop_where_def intro: ports_ok_filter)
qed (simp_all add: allocate_ok replace_ok backfillPortAllocations_def backfill_each_ok setPrimary_ok)

interpretation ports: machine "port_step number collate" "\<lambda>_. True" ports_ok
  by unfold_locales (rule port_step_ok)

lemma ports_ok_start: "o_ports r = [] \<Longrightarrow> ports_ok r"
  by (simp add: ports_ok_def ids_ok_def exclusive_def vals_def)


text \<open>
  C8: No port of a node is ever given to two servers, over any sequence of creations, moves and edits
  of servers, allocations, releases, backfills of servers that hold no ports, choices of a primary
  port, and removals of servers and of nodes.
\<close>

theorem ports_exclusive:
  "exclusive (foldl (port_step number collate) new_orch ops)"
  using ports.run_inv [OF ports_ok_start, of new_orch ops number collate]
  by (simp add: ports_ok_def new_orch_def)

text \<open>
  Two servers on one node whose configurations name the same port: the backfill gives it to the older,
  and to the other only after the older is deleted.
\<close>

definition rivals :: "port_op list" where
  "rivals =
     (let s = \<lparr>ns_userId = ''u'', ns_teamId = None, ns_name = ''s'', ns_dockerImage = ''i'', ns_ports = Some [(''80'', ''80'')],
        ns_env = None, ns_resourceLimits = None, ns_autoRestart = None, ns_dataPath = None, ns_persistPaths = None,
        ns_type = None\<rparr>
      in [AddServer 0 s (Some ''n''), AddServer 1 s (Some ''n''), Backfill 2])"

definition holders :: "port_op list \<Rightarrow> (string \<times> string \<times> int) list" where
  "holders ops = map (\<lambda>a. (pa_deploymentId a, pa_nodeId a, pa_port a))
     (vals (o_ports (foldl (port_step (\<lambda>_. Some 80) (\<lambda>_. 0)) new_orch ops)))"

lemma ports_exclusive_witness:
  "exclusive (foldl (port_step (\<lambda>_. Some 80) (\<lambda>_. 0)) new_orch rivals)
    \<and> holders rivals = [(uuid 1, ''n'', 80)]
    \<and> holders (rivals @ [DropServer (uuid 1)]) = []
    \<and> holders (rivals @ [DropServer (uuid 1), Backfill 3]) = [(uuid 3, ''n'', 80)]"
proof -
  have "holders rivals = [(uuid 1, ''n'', 80)]
    \<and> holders (rivals @ [DropServer (uuid 1)]) = []
    \<and> holders (rivals @ [DropServer (uuid 1), Backfill 3]) = [(uuid 3, ''n'', 80)]"
    by code_simp
  then show ?thesis using ports_exclusive [of "\<lambda>_. Some 80" "\<lambda>_. 0" rivals] by blast
qed

lemma map_of_foldl_update_mem:
  "x \<in> set xs \<Longrightarrow> \<exists>y \<in> set xs. key y = key x \<and> map_of (foldl (\<lambda>m x. AList.update (key x) (val x) m) m xs) (key x) = Some (val y)"
proof (induction xs rule: rev_induct)
  case (snoc y xs)
  then show ?case by (cases "key y = key x") auto
qed simp

text \<open>A port the plan calls free clashes with nothing on the node.\<close>

lemma free_no_clash:
  assumes "exclusive r" "n \<noteq> []" "free_for (takenPorts n r) (Some d) p"
  shows "\<not> port_clash d n r p"
proof
  let ?as = "listPortAllocations (Some n) None r"
  assume "port_clash d n r p"
  then obtain a where a: "a \<in> set (vals (o_ports r))" "pa_nodeId a = n" "pa_port a = p" "pa_deploymentId a \<noteq> d"
    by (auto simp: port_clash_def list_ex_iff)
  then have "a \<in> set ?as" using assms(2) by (simp add: listPortAllocations_def given_def)
  then have "\<exists>b \<in> set ?as. pa_port b = p \<and> (\<exists>name. map_of (takenPorts n r) p = Some (pa_deploymentId b, name))"
    using map_of_foldl_update_mem [where key = pa_port and xs = ?as and m = "[]" and
      val = "\<lambda>a. (pa_deploymentId a, nullish (map_of (foldl (\<lambda>m d. AList.update (dp_id d) (dv_name d) m) []
        (listDeployments r)) (pa_deploymentId a)) ''another server'')"] a(3)
    unfolding takenPorts_def Let_def by blast
  then obtain b name where
    b: "b \<in> set ?as" "pa_port b = p" "map_of (takenPorts n r) p = Some (pa_deploymentId b, name)"
    by blast
  then have "pa_deploymentId b = d" using assms(3) by (simp add: free_for_def)
  moreover have "b \<in> set (vals (o_ports r))" "pa_nodeId b = n"
    using b(1) assms(2) by (simp_all add: listPortAllocations_def given_def)
  ultimately show False using a b(2) assms(1) unfolding exclusive_def by metis
qed

lemma keep_primary_mem: "ps \<noteq> [] \<Longrightarrow> \<exists>p \<in> set ps. keep_primary q ps = Some p"
  by (cases ps; cases q) (auto simp: keep_primary_def)

lemma length_filter_one: "distinct ps \<Longrightarrow> p \<in> set ps \<Longrightarrow> length [q \<leftarrow> ps. p = q] = 1"
  by (induction ps) (auto simp: filter_empty_conv)

lemma length_filter_pred: "length [a \<leftarrow> xs. f a] = length [b \<leftarrow> map f xs. b]"
  by (induction xs) auto

definition allocation_exact ::
  "string \<Rightarrow> node \<Rightarrow> orch \<Rightarrow> (port_refusal, (string \<times> string) list \<times> int list) result \<times> orch \<Rightarrow> bool" where
  "allocation_exact d n r out =
     (case out of
        (Inl e, s) \<Rightarrow> s = r \<and> (\<forall>p. e \<noteq> JustTaken p)
      | (Inr (resolved, chosen), s) \<Rightarrow>
          distinct chosen \<and> fst ` set resolved = port_key ` set chosen
          \<and> map (\<lambda>a. (pa_nodeId a, pa_port a)) (of_server d s) = map (Pair (nd_id n)) chosen
          \<and> of_others d s = of_others d r
          \<and> length [a \<leftarrow> of_server d s. pa_primary a] = (if chosen = [] then 0 else 1))"

lemma allocate_exact_if:
  assumes r: "ports_ok r" and n: "nd_id n \<noteq> []"
  shows "allocation_exact d n r (allocatePorts t d n es r)"
proof (cases "checkPorts n es (Some d) r")
  case (Inl e)
  then show ?thesis
    by (auto simp: allocatePorts_def allocation_exact_def checkPorts_def dest!: planPorts_never_taken)
next
  case (Inr plan)
  obtain resolved chosen where plan: "plan = (resolved, chosen)" by (cases plan)
  have good: "good_choice (rangeOf n) (takenPorts (nd_id n) r) (Some d) (chosen, resolved)"
    using Inr by (auto simp: checkPorts_def plan intro: planPorts_good)
  then have f: "find (port_clash d (nd_id n) r) chosen = None"
    using free_no_clash [OF _ n] r by (auto simp: find_None_iff good_choice_def good_port_def ports_ok_def)
  obtain x s where x: "replacePortAllocations t d (Some (nd_id n)) chosen r = (x, s)" by fastforce
  have "ids_ok r" using r by (simp add: ports_ok_def)
  from replace_some [OF this n f x] obtain as where s: "x = Inr as" "vals (o_ports s) = of_others d r @ as"
      "map (\<lambda>a. (pa_nodeId a, pa_port a, pa_deploymentId a, pa_primary a)) as =
        map (\<lambda>p. (nd_id n, p, d, keep_primary (primary_port d r) chosen = Some p)) chosen"
    by blast
  have dep: "map pa_deploymentId as = map (\<lambda>_. d) chosen"
    using arg_cong [OF s(3), of "map (\<lambda>x. fst (snd (snd x)))"] by (simp add: comp_def)
  have all: "\<forall>a \<in> set as. pa_deploymentId a = d"
  proof
    fix a
    assume "a \<in> set as"
    then have "pa_deploymentId a \<in> set (map (\<lambda>_. d) chosen)" unfolding dep [symmetric] by simp
    then show "pa_deploymentId a = d" by auto
  qed
  have own: "of_server d s = as" "of_others d s = of_others d r"
    using all by (simp_all add: of_server_def of_others_def s(2) filter_empty_conv cong: filter_cong)
  have "map (\<lambda>a. (pa_nodeId a, pa_port a)) as = map (Pair (nd_id n)) chosen"
    using arg_cong [OF s(3), of "map (\<lambda>x. (fst x, fst (snd x)))"] by (simp add: comp_def)
  moreover have "length [a \<leftarrow> as. pa_primary a] = (if chosen = [] then 0 else 1)"
  proof -
    have "map pa_primary as = map (\<lambda>p. keep_primary (primary_port d r) chosen = Some p) chosen"
      using arg_cong [OF s(3), of "map (\<lambda>x. snd (snd (snd x)))"] by (simp add: comp_def)
    then have e: "length [a \<leftarrow> as. pa_primary a] = length [p \<leftarrow> chosen. keep_primary (primary_port d r) chosen = Some p]"
      unfolding length_filter_pred [of pa_primary] length_filter_pred [of "\<lambda>p. keep_primary (primary_port d r) chosen = Some p"]
      by simp
    show ?thesis
    proof (cases "chosen = []")
      case False
      then obtain p where "p \<in> set chosen" "keep_primary (primary_port d r) chosen = Some p"
        using keep_primary_mem by blast
      then show ?thesis using good False by (simp add: e length_filter_one good_choice_def)
    qed (simp add: e)
  qed
  ultimately show ?thesis
    using good by (simp add: allocatePorts_def Inr plan x s(1) allocation_exact_def own good_choice_def)
qed

text \<open>
  C9: In every reachable state an allocation is refused and changes nothing, or leaves the server
  exactly the planned ports on the node, each once, one of them the primary one, and every other
  server its own; a sequential caller is never told that a port was just taken.
\<close>

theorem allocate_exact:
  "nd_id n \<noteq> [] \<Longrightarrow>
     let r = foldl (port_step number collate) new_orch ops
     in allocation_exact d n r (allocatePorts t d n es r)"
  using allocate_exact_if [OF ports.run_inv [OF ports_ok_start]]
  by (simp add: new_orch_def)

definition sample_node :: node where
  "sample_node = \<lparr>nd_id = ''n1'', nd_name = ''n1'', nd_location = None, nd_ipAddress = None, nd_agentUrl = None,
     nd_lastHeartbeat = 0, nd_cpuPercent = None, nd_cpuCores = None, nd_ramUsedMb = None, nd_ramTotalMb = None,
     nd_diskUsedGb = None, nd_diskTotalGb = None, nd_maintenance = False, nd_portRangeStart = Some 7000,
     nd_portRangeEnd = Some 7002, nd_connection = Direct\<rparr>"

lemma allocate_exact_witness:
  "allocation_exact ''d2'' sample_node
     (foldl (port_step (\<lambda>_. None) length) new_orch [Allocate 1 ''d1'' sample_node [(''7000'', ''80/tcp'')]])
     (allocatePorts 2 ''d2'' sample_node [(''auto'', ''80/tcp'')]
       (foldl (port_step (\<lambda>_. None) length) new_orch [Allocate 1 ''d1'' sample_node [(''7000'', ''80/tcp'')]]))
   \<and> nd_id sample_node \<noteq> []"
  using allocate_exact [of sample_node "\<lambda>_. None" length "[Allocate 1 ''d1'' sample_node [(''7000'', ''80/tcp'')]]"
    "''d2''" 2 "[(''auto'', ''80/tcp'')]"]
  by (simp add: sample_node_def Let_def)

end
