(* ===== verification/Eggs.thy ===== *)
theory Eggs
  imports Orch_Repo
begin

text \<open>
  The recipes a server can be created from (\<^verbatim>\<open>eggs.ts\<close>): the catalogue, the checking of the
  creator's answers and what they become. The descriptions the form shows are left out; a regular
  expression of a variable is matched by the parameter \<open>full_match\<close>, the random secrets come from
  \<open>generate\<close>. A refusal is a constructor with what its message names.

  The lemmas: an answer that was accepted is accepted again as it is stored, every environment an
  egg produces has only well-formed values of its own variables under its fixed settings, and
  building again from a produced environment changes nothing.
\<close>

section \<open>Recipes\<close>

datatype egg_kind = KString | KInteger | KBoolean | KChoice | KVersion

record egg_variable =
  vr_key :: string
  vr_label :: string
  vr_kind :: egg_kind
  vr_default :: string
  vr_options :: "string list"
  vr_min :: "int option"
  vr_max :: "int option"
  vr_minLength :: "nat option"
  vr_maxLength :: "nat option"
  vr_pattern :: "string option"
  vr_patternHint :: "string option"
  vr_minecraftVersions :: bool
  vr_showWhen :: "(string \<times> string list) option"
  vr_generate :: bool

definition var :: "string \<Rightarrow> string \<Rightarrow> egg_kind \<Rightarrow> string \<Rightarrow> egg_variable" where
  "var key label kind default_value =
     \<lparr>vr_key = key, vr_label = label, vr_kind = kind, vr_default = default_value, vr_options = [], vr_min = None,
      vr_max = None, vr_minLength = None, vr_maxLength = None, vr_pattern = None, vr_patternHint = None,
      vr_minecraftVersions = False, vr_showWhen = None, vr_generate = False\<rparr>"

record egg =
  eg_id :: string
  eg_name :: string
  eg_dockerImage :: string
  eg_ports :: "(string \<times> string) list"
  eg_dataPath :: string
  eg_variables :: "egg_variable list"
  eg_memoryVariable :: "string option"
  eg_fixedEnv :: "(string \<times> string) list"
  eg_query :: "(string \<times> string) option"

section \<open>The catalogue\<close>

definition egg_minecraft :: egg where
  "egg_minecraft = \<lparr>eg_id = ''minecraft-java'', eg_name = ''Minecraft (Java Edition)'', eg_dockerImage = ''itzg/minecraft-server'',
     eg_ports = [(''25565'', ''25565'')],
     eg_dataPath = ''/data'',
     eg_variables =
      [(var ''TYPE'' ''Server software'' KChoice ''VANILLA'')\<lparr>vr_options := [''VANILLA'', ''PAPER'', ''PURPUR'', ''SPIGOT'', ''FABRIC'', ''FORGE'', ''NEOFORGE'', ''QUILT'']\<rparr>,
       (var ''VERSION'' ''Game version'' KVersion ''LATEST'')\<lparr>vr_minecraftVersions := True\<rparr>,
       (var ''NEOFORGE_VERSION'' ''NeoForge build'' KString ''latest'')\<lparr>vr_showWhen := Some (''TYPE'', [''NEOFORGE''])\<rparr>,
       (var ''MAX_PLAYERS'' ''Player slots'' KInteger ''20'')\<lparr>vr_min := Some 1, vr_max := Some 200\<rparr>,
       var ''MOTD'' ''Server description'' KString ''A NexusInfra server'',
       (var ''DIFFICULTY'' ''Difficulty'' KChoice ''normal'')\<lparr>vr_options := [''peaceful'', ''easy'', ''normal'', ''hard'']\<rparr>,
       var ''ONLINE_MODE'' ''Verify accounts with Mojang'' KBoolean ''true'',
       var ''MEMORY'' ''Java heap size'' KString ''2G''],
     eg_memoryVariable = Some ''MEMORY'', eg_fixedEnv =
      [(''EULA'', ''TRUE'')],
     eg_query = Some (''minecraft'', ''25565'')\<rparr>"

definition egg_valheim :: egg where
  "egg_valheim = \<lparr>eg_id = ''valheim'', eg_name = ''Valheim'', eg_dockerImage = ''ghcr.io/community-valheim-tools/valheim-server'',
     eg_ports = [(''2456'', ''2456/udp''), (''2457'', ''2457/udp'')],
     eg_dataPath = ''/config'',
     eg_variables =
      [var ''SERVER_NAME'' ''Server name'' KString ''A NexusInfra server'',
       var ''WORLD_NAME'' ''World name'' KString ''NexusInfra'',
       (var ''SERVER_PASS'' ''Password'' KString '''')\<lparr>vr_minLength := Some 5, vr_generate := True\<rparr>,
       var ''SERVER_PUBLIC'' ''List publicly'' KBoolean ''true''],
     eg_memoryVariable = None, eg_fixedEnv =
      [],
     eg_query = Some (''a2s'', ''2457'')\<rparr>"

definition egg_rust :: egg where
  "egg_rust = \<lparr>eg_id = ''rust'', eg_name = ''Rust'', eg_dockerImage = ''didstopia/rust-server'',
     eg_ports = [(''28015'', ''28015/udp''), (''28016'', ''28016/tcp'')],
     eg_dataPath = ''/steamcmd/rust'',
     eg_variables =
      [var ''RUST_SERVER_NAME'' ''Server name'' KString ''A NexusInfra server'',
       (var ''RUST_SERVER_MAXPLAYERS'' ''Player slots'' KInteger ''50'')\<lparr>vr_min := Some 1, vr_max := Some 500\<rparr>],
     eg_memoryVariable = None, eg_fixedEnv =
      [],
     eg_query = Some (''a2s'', ''28015'')\<rparr>"

definition egg_cs2 :: egg where
  "egg_cs2 = \<lparr>eg_id = ''cs2'', eg_name = ''Counter-Strike 2'', eg_dockerImage = ''joedwards32/cs2'',
     eg_ports = [(''27015'', ''27015/tcp+udp'')],
     eg_dataPath = ''/home/steam/cs2-dedicated'',
     eg_variables =
      [var ''CS2_SERVERNAME'' ''Server name'' KString ''A NexusInfra server'',
       (var ''CS2_MAXPLAYERS'' ''Player slots'' KInteger ''10'')\<lparr>vr_min := Some 1, vr_max := Some 64\<rparr>],
     eg_memoryVariable = None, eg_fixedEnv =
      [],
     eg_query = Some (''a2s'', ''27015'')\<rparr>"

definition egg_minecraft_bedrock :: egg where
  "egg_minecraft_bedrock = \<lparr>eg_id = ''minecraft-bedrock'', eg_name = ''Minecraft (Bedrock Edition)'', eg_dockerImage = ''itzg/minecraft-bedrock-server'',
     eg_ports = [(''19132'', ''19132/udp'')],
     eg_dataPath = ''/data'',
     eg_variables =
      [(var ''VERSION'' ''Server version'' KVersion ''LATEST'')\<lparr>vr_options := [''LATEST'', ''PREVIEW'']\<rparr>,
       var ''SERVER_NAME'' ''Server name'' KString ''A NexusInfra server'',
       (var ''GAMEMODE'' ''Game mode'' KChoice ''survival'')\<lparr>vr_options := [''survival'', ''creative'', ''adventure'']\<rparr>,
       (var ''DIFFICULTY'' ''Difficulty'' KChoice ''easy'')\<lparr>vr_options := [''peaceful'', ''easy'', ''normal'', ''hard'']\<rparr>,
       (var ''MAX_PLAYERS'' ''Player slots'' KInteger ''10'')\<lparr>vr_min := Some 1, vr_max := Some 100\<rparr>,
       var ''LEVEL_NAME'' ''World name'' KString ''Bedrock level'',
       var ''ALLOW_CHEATS'' ''Allow cheats'' KBoolean ''false'',
       var ''ONLINE_MODE'' ''Verify accounts with Xbox Live'' KBoolean ''true''],
     eg_memoryVariable = None, eg_fixedEnv =
      [(''EULA'', ''TRUE'')],
     eg_query = Some (''bedrock'', ''19132'')\<rparr>"

definition egg_palworld :: egg where
  "egg_palworld = \<lparr>eg_id = ''palworld'', eg_name = ''Palworld'', eg_dockerImage = ''thijsvanloef/palworld-server-docker'',
     eg_ports = [(''8211'', ''8211/udp''), (''27015'', ''27015/udp'')],
     eg_dataPath = ''/palworld'',
     eg_variables =
      [var ''SERVER_NAME'' ''Server name'' KString ''A NexusInfra server'',
       var ''SERVER_DESCRIPTION'' ''Server description'' KString ''Hosted on NexusInfra'',
       (var ''SERVER_PASSWORD'' ''Password'' KString '''')\<lparr>vr_generate := True\<rparr>,
       (var ''ADMIN_PASSWORD'' ''Admin password'' KString '''')\<lparr>vr_generate := True\<rparr>,
       (var ''PLAYERS'' ''Player slots'' KInteger ''16'')\<lparr>vr_min := Some 1, vr_max := Some 32\<rparr>,
       (var ''DEATH_PENALTY'' ''On death you lose'' KChoice ''Item'')\<lparr>vr_options := [''None'', ''Item'', ''ItemAndEquipment'', ''All'']\<rparr>,
       (var ''IS_PVP'' ''Player versus player'' KChoice ''False'')\<lparr>vr_options := [''True'', ''False'']\<rparr>,
       (var ''COMMUNITY'' ''List publicly'' KChoice ''false'')\<lparr>vr_options := [''true'', ''false'']\<rparr>],
     eg_memoryVariable = None, eg_fixedEnv =
      [],
     eg_query = None\<rparr>"

definition egg_terraria :: egg where
  "egg_terraria = \<lparr>eg_id = ''terraria'', eg_name = ''Terraria'', eg_dockerImage = ''passivelemon/terraria-docker:terraria-latest'',
     eg_ports = [(''7777'', ''7777'')],
     eg_dataPath = ''/opt/terraria/config'',
     eg_variables =
      [(var ''WORLDNAME'' ''World name'' KString ''NexusInfra'')\<lparr>vr_maxLength := Some 64, vr_pattern := Some ''[A-Za-z0-9][A-Za-z0-9 _-]*'', vr_patternHint := Some ''use letters, digits, spaces, - and _ only''\<rparr>,
       (var ''AUTOCREATE'' ''New world size'' KChoice ''2'')\<lparr>vr_options := [''1'', ''2'', ''3'']\<rparr>,
       (var ''DIFFICULTY'' ''New world difficulty'' KChoice ''0'')\<lparr>vr_options := [''0'', ''1'', ''2'', ''3'']\<rparr>,
       (var ''MAXPLAYERS'' ''Player slots'' KInteger ''8'')\<lparr>vr_min := Some 1, vr_max := Some 255\<rparr>,
       var ''PASSWORD'' ''Password'' KString '''',
       var ''MOTD'' ''Message of the day'' KString ''''],
     eg_memoryVariable = None, eg_fixedEnv =
      [],
     eg_query = None\<rparr>"

definition egg_factorio :: egg where
  "egg_factorio = \<lparr>eg_id = ''factorio'', eg_name = ''Factorio'', eg_dockerImage = ''factoriotools/factorio:stable'',
     eg_ports = [(''34197'', ''34197/udp'')],
     eg_dataPath = ''/factorio'',
     eg_variables =
      [var ''DLC_SPACE_AGE'' ''Space Age expansion'' KBoolean ''false''],
     eg_memoryVariable = None, eg_fixedEnv =
      [],
     eg_query = None\<rparr>"

definition egg_satisfactory :: egg where
  "egg_satisfactory = \<lparr>eg_id = ''satisfactory'', eg_name = ''Satisfactory'', eg_dockerImage = ''robtme/satisfactory-server'',
     eg_ports = [(''7777'', ''7777/tcp+udp''), (''8888'', ''8888/tcp'')],
     eg_dataPath = ''/config'',
     eg_variables =
      [(var ''MAXPLAYERS'' ''Player slots'' KInteger ''4'')\<lparr>vr_min := Some 1, vr_max := Some 64\<rparr>,
       (var ''AUTOSAVENUM'' ''Autosaves kept'' KInteger ''5'')\<lparr>vr_min := Some 1, vr_max := Some 100\<rparr>,
       var ''DISABLESEASONALEVENTS'' ''Turn off seasonal events'' KBoolean ''false'',
       var ''STEAMBETA'' ''Experimental branch'' KBoolean ''false''],
     eg_memoryVariable = None, eg_fixedEnv =
      [],
     eg_query = None\<rparr>"

definition egg_project_zomboid :: egg where
  "egg_project_zomboid = \<lparr>eg_id = ''project-zomboid'', eg_name = ''Project Zomboid'', eg_dockerImage = ''danixu86/project-zomboid-dedicated-server'',
     eg_ports = [(''16261'', ''16261/udp''), (''16262'', ''16262/udp'')],
     eg_dataPath = ''/home/steam/Zomboid'',
     eg_variables =
      [(var ''SERVERNAME'' ''Save name'' KString ''nexusinfra'')\<lparr>vr_maxLength := Some 64, vr_pattern := Some ''[A-Za-z0-9_-]+'', vr_patternHint := Some ''use letters, digits, - and _ only -- no spaces''\<rparr>,
       var ''DISPLAYNAME'' ''Server name'' KString ''A NexusInfra server'',
       (var ''ADMINPASSWORD'' ''Admin password'' KString '''')\<lparr>vr_generate := True\<rparr>,
       var ''PASSWORD'' ''Join password'' KString '''',
       var ''PUBLIC'' ''List publicly'' KBoolean ''false'',
       (var ''SERVERPRESET'' ''Sandbox preset'' KChoice ''Apocalypse'')\<lparr>vr_options := [''Apocalypse'', ''Beginner'', ''Builder'', ''FirstWeek'', ''SixMonthsLater'', ''Survival'', ''Survivor'']\<rparr>,
       var ''MEMORY'' ''Java heap size'' KString ''4G''],
     eg_memoryVariable = Some ''MEMORY'', eg_fixedEnv =
      [],
     eg_query = Some (''a2s'', ''16261'')\<rparr>"

definition egg_enshrouded :: egg where
  "egg_enshrouded = \<lparr>eg_id = ''enshrouded'', eg_name = ''Enshrouded'', eg_dockerImage = ''mornedhels/enshrouded-server'',
     eg_ports = [(''15637'', ''15637/udp'')],
     eg_dataPath = ''/opt/enshrouded'',
     eg_variables =
      [var ''SERVER_NAME'' ''Server name'' KString ''A NexusInfra server'',
       (var ''SERVER_ROLE_0_PASSWORD'' ''Admin password'' KString '''')\<lparr>vr_generate := True\<rparr>,
       (var ''SERVER_ROLE_1_PASSWORD'' ''Friend password'' KString '''')\<lparr>vr_generate := True\<rparr>,
       (var ''SERVER_SLOT_COUNT'' ''Player slots'' KInteger ''16'')\<lparr>vr_min := Some 1, vr_max := Some 16\<rparr>,
       var ''SERVER_ENABLE_TEXT_CHAT'' ''Text chat'' KBoolean ''false'',
       var ''SERVER_ENABLE_VOICE_CHAT'' ''Voice chat'' KBoolean ''false'',
       (var ''SERVER_VOICE_CHAT_MODE'' ''Voice chat range'' KChoice ''Proximity'')\<lparr>vr_options := [''Proximity'', ''Global''], vr_showWhen := Some (''SERVER_ENABLE_VOICE_CHAT'', [''true''])\<rparr>],
     eg_memoryVariable = None, eg_fixedEnv =
      [(''SERVER_ROLE_0_NAME'', ''Admin''), (''SERVER_ROLE_0_CAN_KICK_BAN'', ''true''), (''SERVER_ROLE_0_CAN_ACCESS_INVENTORIES'', ''true''), (''SERVER_ROLE_0_CAN_EDIT_WORLD'', ''true''), (''SERVER_ROLE_0_CAN_EDIT_BASE'', ''true''), (''SERVER_ROLE_0_CAN_EXTEND_BASE'', ''true''), (''SERVER_ROLE_1_NAME'', ''Friend''), (''SERVER_ROLE_1_CAN_KICK_BAN'', ''false''), (''SERVER_ROLE_1_CAN_ACCESS_INVENTORIES'', ''true''), (''SERVER_ROLE_1_CAN_EDIT_WORLD'', ''true''), (''SERVER_ROLE_1_CAN_EDIT_BASE'', ''true''), (''SERVER_ROLE_1_CAN_EXTEND_BASE'', ''true'')],
     eg_query = Some (''a2s'', ''15637'')\<rparr>"

definition eggs :: "egg list" where
  "eggs = [egg_minecraft, egg_minecraft_bedrock, egg_palworld, egg_valheim, egg_rust, egg_cs2, egg_terraria, egg_factorio, egg_satisfactory, egg_project_zomboid, egg_enshrouded]"

definition getEgg :: "string \<Rightarrow> egg option" where
  "getEgg i = find (\<lambda>e. eg_id e = i) eggs"

section \<open>Answers\<close>

definition secret_length :: nat where "secret_length = 16"

definition generatedLength :: "egg_variable \<Rightarrow> nat" where
  "generatedLength v =
     (let n = max (nullish (vr_minLength v) 0) secret_length
      in case vr_maxLength v of None \<Rightarrow> n | Some m \<Rightarrow> min m n)"

definition secret_alphabet :: string where
  "secret_alphabet = ''ABCDEFGHJKLMNPQRSTUVWXYZabcdefghijkmnopqrstuvwxyz23456789''"

text \<open>\<open>pick\<close> is \<open>randomInt\<close>, asked once per character.\<close>

definition generateSecret :: "(nat \<Rightarrow> nat) \<Rightarrow> nat \<Rightarrow> string" where
  "generateSecret pick n = map (\<lambda>i. secret_alphabet ! (pick i mod length secret_alphabet)) [0..<n]"

definition variableApplies :: "egg_variable \<Rightarrow> (string \<times> string) list \<Rightarrow> bool" where
  "variableApplies v values =
     (case vr_showWhen v of None \<Rightarrow> True | Some (key, eqs) \<Rightarrow> nullish (map_of values key) [] \<in> set eqs)"

datatype egg_error =
    MustBeOneOf string "string list" | NotWhole string | AtLeast string int | AtMost string int | NotBoolean string
  | CannotBeEmpty string | NotAVersion string | ControlCharacters string | TooShort string nat | TooLong string nat
  | BadFormat string "string option"

text \<open>\<open>String(Number(value))\<close> of a whole number below \<open>10\<^sup>2\<^sup>1\<close>.\<close>

definition show_int :: "int \<Rightarrow> string" where
  "show_int n = (if n < 0 then CHR ''-'' # show_nat (nat (- n)) else show_nat (nat n))"

definition whole_number :: "string \<Rightarrow> int option" where
  "whole_number s =
     (case s of [] \<Rightarrow> None
      | c # ds \<Rightarrow>
          if c = CHR ''-'' then if ds \<noteq> [] \<and> list_all digit ds then Some (- int (digits_val ds)) else None
          else if list_all digit s then Some (int (digits_val s)) else None)"

definition version_char :: "char \<Rightarrow> bool" where
  "version_char c = (let n = of_char c :: nat in digit c \<or> 65 \<le> n \<and> n \<le> 90 \<or> 97 \<le> n \<and> n \<le> 122)"

definition version_shape :: "string \<Rightarrow> bool" where
  "version_shape s = (case s of [] \<Rightarrow> False
     | c # cs \<Rightarrow> version_char c \<and> list_all (\<lambda>d. version_char d \<or> d \<in> set ''._-'') cs)"

definition control_char :: "char \<Rightarrow> bool" where
  "control_char c = (let n = of_char c :: nat in n < 32 \<or> n = 127)"

definition coerce_number :: "string \<Rightarrow> int option" where
  "coerce_number value = map_option (\<lambda>n. \<lfloor>b64 (of_int n)\<rfloor>) (whole_number value)"

definition coerce :: "(string \<Rightarrow> string \<Rightarrow> bool) \<Rightarrow> egg_variable \<Rightarrow> string \<Rightarrow> (egg_error, string) result" where
  "coerce full_match v raw =
     (let value = js_trim raw; l = vr_label v
      in case vr_kind v of
           KChoice \<Rightarrow> if value \<notin> set (vr_options v) then Inl (MustBeOneOf l (vr_options v)) else Inr value
         | KInteger \<Rightarrow>
             (case coerce_number value of
                None \<Rightarrow> Inl (NotWhole l)
              | Some n \<Rightarrow>
                  if (case vr_min v of None \<Rightarrow> False | Some m \<Rightarrow> n < m) then Inl (AtLeast l (the (vr_min v)))
                  else if (case vr_max v of None \<Rightarrow> False | Some m \<Rightarrow> n > m) then Inl (AtMost l (the (vr_max v)))
                  else Inr (show_int n))
         | KBoolean \<Rightarrow> if js_lower value \<notin> {''true'', ''false''} then Inl (NotBoolean l) else Inr (js_lower value)
         | KVersion \<Rightarrow>
             if value = [] then Inl (CannotBeEmpty l)
             else if \<not> version_shape value then Inl (NotAVersion l) else Inr value
         | KString \<Rightarrow>
             if value = [] then Inl (CannotBeEmpty l)
             else if list_ex control_char value then Inl (ControlCharacters l)
             else if (case vr_minLength v of None \<Rightarrow> False | Some m \<Rightarrow> length value < m) then Inl (TooShort l (the (vr_minLength v)))
             else if (case vr_maxLength v of None \<Rightarrow> False | Some m \<Rightarrow> length value > m) then Inl (TooLong l (the (vr_maxLength v)))
             else if (case given (vr_pattern v) of None \<Rightarrow> False | Some p \<Rightarrow> \<not> full_match p value) then Inl (BadFormat l (vr_patternHint v))
             else Inr value)"

section \<open>Building a deployment\<close>

definition blank :: "string option \<Rightarrow> bool" where
  "blank raw = (case raw of None \<Rightarrow> True | Some s \<Rightarrow> js_trim s = [])"

definition answer ::
  "(string \<Rightarrow> string \<Rightarrow> bool) \<Rightarrow> (nat \<Rightarrow> string) \<Rightarrow> (string \<times> string) list \<Rightarrow> egg_variable \<Rightarrow> (egg_error, string) result" where
  "answer full_match generate values v =
     (let raw = map_of values (vr_key v)
      in if \<not> blank raw then coerce full_match v (the raw)
         else if vr_generate v then Inr (generate (generatedLength v)) else Inr (vr_default v))"

fun answer_all ::
  "(egg_variable \<Rightarrow> (egg_error, string) result) \<Rightarrow> egg_variable list \<Rightarrow> (string \<times> string) list \<Rightarrow> (egg_error, (string \<times> string) list) result" where
  "answer_all ans [] acc = Inr acc"
| "answer_all ans (v # vs) acc = and_then (ans v) (\<lambda>s. answer_all ans vs (AList.update (vr_key v) s acc))"

definition put_all :: "(string \<times> string) list \<Rightarrow> (string \<times> string) list \<Rightarrow> (string \<times> string) list" where
  "put_all ps m = foldl (\<lambda>m (k, s). AList.update k s m) m ps"

definition applied_env :: "egg_variable list \<Rightarrow> (string \<times> string) list \<Rightarrow> (string \<times> string) list" where
  "applied_env vs answered =
     put_all (map (\<lambda>v. (vr_key v, nullish (map_of answered (vr_key v)) [])) (filter (\<lambda>v. variableApplies v answered) vs)) []"

record egg_deployment =
  ed_dockerImage :: string
  ed_ports :: "(string \<times> string) list"
  ed_env :: "(string \<times> string) list"
  ed_dataPath :: string

definition buildEggDeployment ::
  "(string \<Rightarrow> string \<Rightarrow> bool) \<Rightarrow> (nat \<Rightarrow> string) \<Rightarrow> egg \<Rightarrow> (string \<times> string) list \<Rightarrow> (string \<times> string) list option
     \<Rightarrow> (egg_error, egg_deployment) result" where
  "buildEggDeployment full_match generate e values portOverrides =
     and_then (answer_all (answer full_match generate values) (eg_variables e) []) (\<lambda>answered.
       Inr \<lparr>ed_dockerImage = eg_dockerImage e,
         ed_ports = (case portOverrides of None \<Rightarrow> eg_ports e | Some ps \<Rightarrow> if ps \<noteq> [] then ps else eg_ports e),
         ed_env = put_all (eg_fixedEnv e) (applied_env (eg_variables e) answered),
         ed_dataPath = eg_dataPath e\<rparr>)"

section \<open>Accepted answers\<close>

lemma floor_b64_int: "of_int \<lfloor>b64 (of_int w)\<rfloor> = b64 (of_int w)"
proof (cases "w = 0")
  case False
  let ?x = "of_int w :: rat"
  show ?thesis
  proof (cases "b64_exp ?x < 0")
    case True
    have "0 < \<bar>?x\<bar>" using False by simp
    then have "\<bar>?x\<bar> < 2 powi (ilog2 \<bar>?x\<bar> + 1)" by (rule ilog2_bounds)
    moreover have "ilog2 \<bar>?x\<bar> + 1 \<le> int 53" using True by (auto simp: b64_exp_def)
    from pow2_mono [OF this] have "(2::rat) powi (ilog2 \<bar>?x\<bar> + 1) \<le> 2 ^ 53" by (simp only: pow2_nat)
    ultimately have "\<bar>?x\<bar> \<le> of_int (2 ^ 53)" by simp
    then have "\<bar>w\<bar> \<le> 2 ^ 53" by (metis of_int_abs of_int_le_iff)
    then show ?thesis by (simp add: b64_exact_int)
  next
    case nonneg: False
    have "(2::rat) powi b64_exp ?x = of_int (2 ^ nat (b64_exp ?x))"
      using nonneg by (simp add: power_int_def)
    then have "b64 ?x = of_int (rne (?x / 2 powi b64_exp ?x) * 2 ^ nat (b64_exp ?x))"
      using False by (simp add: b64_def)
    then show ?thesis by simp
  qed
qed simp

lemma show_int_chars: "c \<in> set (show_int n) \<Longrightarrow> digit c \<or> c = CHR ''-''"
  using show_nat_digits by (auto simp: show_int_def split: if_splits)

lemma dash_no_space: "\<not> js_space (CHR ''-'')" and dash_no_digit: "\<not> digit (CHR ''-'')"
  by (simp_all add: js_space_def digit_def Let_def)

lemma digit_no_space: "digit c \<Longrightarrow> \<not> js_space c"
  by (auto simp: digit_def js_space_def Let_def)

lemma trim_id: "\<forall>c \<in> set s. \<not> js_space c \<Longrightarrow> js_trim s = s"
  unfolding js_trim_def by (intro strip_id) (cases s, auto)

lemma trim_show_int [simp]: "js_trim (show_int n) = show_int n"
  by (rule trim_id) (use show_int_chars digit_no_space dash_no_space in blast)

lemma show_int_nonempty [simp]: "show_int n \<noteq> []"
  by (simp add: show_int_def)

lemma whole_number_show_int [simp]: "whole_number (show_int n) = Some n"
proof (cases "n < 0")
  case True
  have "list_all digit (show_nat (nat (- n)))" using show_nat_digits by (auto simp: list_all_iff)
  then show ?thesis using True by (simp add: show_int_def whole_number_def)
next
  case False
  have d: "list_all digit (show_nat (nat n))" using show_nat_digits by (auto simp: list_all_iff)
  obtain c ds where c: "show_nat (nat n) = c # ds" by (cases "show_nat (nat n)") auto
  then have "c \<noteq> CHR ''-''" using d dash_no_digit by auto
  then show ?thesis using False d digits_val_show_nat [of "nat n"] by (simp add: show_int_def whole_number_def c)
qed

lemma coerce_number_stored: "coerce_number value = Some n \<Longrightarrow> coerce_number (show_int n) = Some n"
proof -
  assume "coerce_number value = Some n"
  then obtain w where "n = \<lfloor>b64 (of_int w)\<rfloor>" by (auto simp: coerce_number_def)
  then have "b64 (of_int n) = of_int n" by (simp only: floor_b64_int b64_idem)
  then show ?thesis by (simp add: coerce_number_def)
qed

lemma trim_trim [simp]: "js_trim (js_trim s) = js_trim s"
  by (simp add: js_trim_def)

lemma boolean_stored: "s \<in> {''true'', ''false''} \<Longrightarrow> js_trim s = s \<and> js_lower s = s"
  by (elim insertE emptyE) (hypsubst, code_simp)+

lemma coerce_stored:
  assumes "coerce fm v raw = Inr s"
  shows "coerce fm v s = Inr s"
proof (cases "vr_kind v")
  case KInteger
  then obtain n where n: "coerce_number (js_trim raw) = Some n" "s = show_int n"
    using assms by (auto simp: coerce_def Let_def split: option.splits if_splits)
  show ?thesis using assms n(1) coerce_number_stored [OF n(1)] by (simp add: coerce_def Let_def KInteger n(2))
next
  case KBoolean
  then have "s \<in> {''true'', ''false''}" using assms by (auto simp: coerce_def Let_def split: if_splits)
  from boolean_stored [OF this] this show ?thesis by (simp add: coerce_def Let_def KBoolean)
next
  case KString
  then have "s = js_trim raw" using assms by (simp add: coerce_def Let_def split: if_splits)
  then show ?thesis using assms by (simp add: coerce_def Let_def KString)
next
  case KVersion
  then have "s = js_trim raw" using assms by (simp add: coerce_def Let_def split: if_splits)
  then show ?thesis using assms by (simp add: coerce_def Let_def KVersion)
next
  case KChoice
  then have "s = js_trim raw" using assms by (simp add: coerce_def Let_def split: if_splits)
  then show ?thesis using assms by (simp add: coerce_def Let_def KChoice)
qed

text \<open>What the value of a variable may be, kind by kind.\<close>

definition value_ok :: "(string \<Rightarrow> string \<Rightarrow> bool) \<Rightarrow> egg_variable \<Rightarrow> string \<Rightarrow> bool" where
  "value_ok fm v s =
     (case vr_kind v of
        KChoice \<Rightarrow> s \<in> set (vr_options v)
      | KInteger \<Rightarrow> (\<exists>n. s = show_int n \<and> (\<forall>m. vr_min v = Some m \<longrightarrow> m \<le> n) \<and> (\<forall>m. vr_max v = Some m \<longrightarrow> n \<le> m))
      | KBoolean \<Rightarrow> s = ''true'' \<or> s = ''false''
      | KVersion \<Rightarrow> s \<noteq> [] \<and> version_shape s
      | KString \<Rightarrow> s \<noteq> [] \<and> \<not> list_ex control_char s
          \<and> (\<forall>m. vr_minLength v = Some m \<longrightarrow> m \<le> length s) \<and> (\<forall>m. vr_maxLength v = Some m \<longrightarrow> length s \<le> m)
          \<and> (\<forall>p. given (vr_pattern v) = Some p \<longrightarrow> fm p s))"

lemma coerce_value: "coerce fm v raw = Inr s \<Longrightarrow> value_ok fm v s"
  by (cases "vr_kind v") (auto simp: coerce_def value_ok_def Let_def split: option.splits if_splits)

section \<open>The environment of an egg\<close>

lemma map_of_put_all: "distinct (map fst ps) \<Longrightarrow> map_of (put_all ps m) k = (case map_of ps k of None \<Rightarrow> map_of m k | Some s \<Rightarrow> Some s)"
proof (induction ps arbitrary: m)
  case (Cons p ps)
  have e: "put_all (p # ps) m = put_all ps (AList.update (fst p) (snd p) m)" by (simp add: put_all_def split_beta)
  have "map_of ps (fst p) = None" using Cons.prems by (simp add: map_of_eq_None_iff)
  then show ?case using Cons by (simp add: e split: option.split)
qed (simp add: put_all_def)

lemma answer_all_values:
  "answer_all ans vs acc = Inr m \<Longrightarrow> distinct (map vr_key vs) \<Longrightarrow>
     (\<forall>v \<in> set vs. \<exists>s. ans v = Inr s \<and> map_of m (vr_key v) = Some s)
     \<and> (\<forall>k. k \<notin> vr_key ` set vs \<longrightarrow> map_of m k = map_of acc k)"
proof (induction vs arbitrary: acc)
  case (Cons v vs)
  then obtain s where s: "ans v = Inr s" "answer_all ans vs (AList.update (vr_key v) s acc) = Inr m"
    by (auto simp: and_then_def split: sum.splits)
  note ih = Cons.IH [OF s(2)]
  have "map_of m (vr_key v) = Some s" using ih Cons.prems(2) by simp
  then show ?case using ih Cons.prems(2) s(1) by auto
qed simp

lemma answer_all_Inr:
  "\<forall>v \<in> set vs. \<exists>s. ans v = Inr s \<Longrightarrow> \<exists>m. answer_all ans vs acc = Inr m"
  by (induction vs arbitrary: acc) (auto simp: and_then_def split: sum.split)

lemma distinct_map_filter_key: "distinct (map f xs) \<Longrightarrow> distinct (map f (filter q xs))"
  by (induction xs) auto

lemma applied_env_value:
  assumes "distinct (map vr_key vs)"
  shows "map_of (applied_env vs m) k =
    (case find (\<lambda>v. vr_key v = k \<and> variableApplies v m) vs of None \<Rightarrow> None | Some v \<Rightarrow> Some (nullish (map_of m k) []))"
proof -
  let ?f = "\<lambda>v. (vr_key v, nullish (map_of m (vr_key v)) [])"
  have d: "distinct (map fst (map ?f (filter (\<lambda>v. variableApplies v m) vs)))"
    using distinct_map_filter_key [OF assms] by (simp add: comp_def)
  have "map_of (map ?f (filter (\<lambda>v. variableApplies v m) vs)) k =
      (case find (\<lambda>v. vr_key v = k \<and> variableApplies v m) vs of None \<Rightarrow> None | Some v \<Rightarrow> Some (nullish (map_of m k) []))"
    by (induction vs) auto
  then show ?thesis by (simp add: applied_env_def map_of_put_all [OF d] split: option.split)
qed

text \<open>What the catalogue promises of a recipe; a pattern's default is left to \<open>full_match\<close>.\<close>

definition variable_ok :: "egg_variable list \<Rightarrow> egg_variable \<Rightarrow> bool" where
  "variable_ok vs v =
     ((case vr_showWhen v of None \<Rightarrow> True
       | Some (k, eqs) \<Rightarrow> list_ex (\<lambda>w. vr_key w = k \<and> vr_showWhen w = None) vs)
      \<and> (if vr_generate v
         then vr_kind v = KString \<and> vr_pattern v = None \<and> 0 < generatedLength v
           \<and> (case vr_minLength v of None \<Rightarrow> True | Some m \<Rightarrow> m \<le> generatedLength v)
           \<and> (case vr_maxLength v of None \<Rightarrow> True | Some m \<Rightarrow> generatedLength v \<le> m)
         else vr_default v = [] \<or> js_trim (vr_default v) \<noteq> [] \<and> coerce (\<lambda>_ _. True) v (vr_default v) = Inr (vr_default v)))"

definition egg_ok :: "egg \<Rightarrow> bool" where
  "egg_ok e =
     (distinct (map vr_key (eg_variables e)) \<and> distinct (map fst (eg_fixedEnv e))
      \<and> list_all (\<lambda>v. vr_key v \<notin> fst ` set (eg_fixedEnv e)) (eg_variables e)
      \<and> list_all (variable_ok (eg_variables e)) (eg_variables e))"

lemma catalogue_ok: "list_all egg_ok eggs \<and> distinct (map eg_id eggs)"
  by code_simp

lemma egg_okD:
  assumes "e \<in> set eggs"
  shows "distinct (map vr_key (eg_variables e))" "distinct (map fst (eg_fixedEnv e))"
    "v \<in> set (eg_variables e) \<Longrightarrow> map_of (eg_fixedEnv e) (vr_key v) = None"
    "v \<in> set (eg_variables e) \<Longrightarrow> variable_ok (eg_variables e) v"
  using assms catalogue_ok by (auto simp: egg_ok_def list_all_iff map_of_eq_None_iff)

lemma build_env:
  assumes e: "e \<in> set eggs" and b: "buildEggDeployment fm generate e values ports = Inr d"
  obtains m where "answer_all (answer fm generate values) (eg_variables e) [] = Inr m"
    "ed_env d = put_all (eg_fixedEnv e) (applied_env (eg_variables e) m)"
    "\<And>v. v \<in> set (eg_variables e) \<Longrightarrow> \<exists>s. answer fm generate values v = Inr s \<and> map_of m (vr_key v) = Some s"
    "\<And>k. map_of (ed_env d) k = (case map_of (eg_fixedEnv e) k of Some s \<Rightarrow> Some s
       | None \<Rightarrow> (case find (\<lambda>v. vr_key v = k \<and> variableApplies v m) (eg_variables e) of
           None \<Rightarrow> None | Some v \<Rightarrow> Some (nullish (map_of m k) [])))"
proof -
  obtain m where m: "answer_all (answer fm generate values) (eg_variables e) [] = Inr m"
    and d: "ed_env d = put_all (eg_fixedEnv e) (applied_env (eg_variables e) m)"
    using b by (auto simp: buildEggDeployment_def and_then_def split: sum.splits)
  show ?thesis
  proof (rule that [OF m d])
    show "\<exists>s. answer fm generate values v = Inr s \<and> map_of m (vr_key v) = Some s" if "v \<in> set (eg_variables e)" for v
      using answer_all_values [OF m egg_okD(1) [OF e]] that by blast
    show "map_of (ed_env d) k = (case map_of (eg_fixedEnv e) k of Some s \<Rightarrow> Some s
       | None \<Rightarrow> (case find (\<lambda>v. vr_key v = k \<and> variableApplies v m) (eg_variables e) of
           None \<Rightarrow> None | Some v \<Rightarrow> Some (nullish (map_of m k) [])))" for k
      by (simp add: d map_of_put_all [OF egg_okD(2) [OF e]] applied_env_value [OF egg_okD(1) [OF e]] split: option.split)
  qed
qed

section \<open>Stored answers\<close>

lemma alphabet_plain: "list_all (\<lambda>c. \<not> js_space c \<and> \<not> control_char c) secret_alphabet \<and> secret_alphabet \<noteq> []"
  by code_simp

lemma secret_chars: "c \<in> set (generateSecret pick n) \<Longrightarrow> \<not> js_space c \<and> \<not> control_char c"
proof -
  assume "c \<in> set (generateSecret pick n)"
  then obtain i where c: "c = secret_alphabet ! (pick i mod length secret_alphabet)" by (auto simp: generateSecret_def)
  have "pick i mod length secret_alphabet < length secret_alphabet" using alphabet_plain by simp
  then have "c \<in> set secret_alphabet" unfolding c by (rule nth_mem)
  then show ?thesis using alphabet_plain by (auto simp: list_all_iff)
qed

lemma secret_stored:
  assumes "variable_ok vs v" "vr_generate v"
  shows "js_trim (generateSecret pick (generatedLength v)) \<noteq> [] \<and>
    coerce fm v (generateSecret pick (generatedLength v)) = Inr (generateSecret pick (generatedLength v))"
proof -
  let ?s = "generateSecret pick (generatedLength v)"
  have t: "js_trim ?s = ?s" by (rule trim_id) (use secret_chars in blast)
  have l: "length ?s = generatedLength v" by (simp add: generateSecret_def)
  then have "?s \<noteq> []" using assms by (auto simp: variable_ok_def)
  moreover have "\<not> list_ex control_char ?s" using secret_chars by (auto simp: list_ex_iff)
  ultimately show ?thesis using assms l t
    by (auto simp: coerce_def variable_ok_def Let_def given_def split: option.splits)
qed

lemma default_stored:
  assumes "coerce (\<lambda>_ _. True) v s = Inr s" "case vr_pattern v of None \<Rightarrow> True | Some p \<Rightarrow> fm p (js_trim s)"
  shows "coerce fm v s = Inr s"
proof (cases "vr_kind v = KString")
  case True
  have "\<not> (case given (vr_pattern v) of None \<Rightarrow> False | Some p \<Rightarrow> \<not> fm p (js_trim s))"
    using assms(2) by (cases "vr_pattern v") (auto simp: given_def)
  then show ?thesis using assms(1) True by (simp add: coerce_def Let_def split: if_splits)
next
  case False
  then have "coerce fm v s = coerce (\<lambda>_ _. True) v s" by (cases "vr_kind v") (simp_all add: coerce_def)
  then show ?thesis using assms(1) by simp
qed

lemma coerce_nonblank:
  assumes "js_trim raw \<noteq> []" "coerce fm v raw = Inr s"
  shows "js_trim s \<noteq> []"
proof (cases "vr_kind v")
  case KInteger
  then obtain n where "s = show_int n"
    using assms(2) by (auto simp: coerce_def Let_def split: option.splits if_splits)
  then show ?thesis by simp
next
  case KBoolean
  then have "s \<in> {''true'', ''false''}" using assms(2) by (auto simp: coerce_def Let_def split: if_splits)
  from boolean_stored [OF this] this show ?thesis by auto
qed (use assms in \<open>auto simp: coerce_def Let_def split: if_splits\<close>)

definition defaults_match :: "(string \<Rightarrow> string \<Rightarrow> bool) \<Rightarrow> egg \<Rightarrow> bool" where
  "defaults_match fm e = list_all (\<lambda>v. case vr_pattern v of None \<Rightarrow> True | Some p \<Rightarrow> fm p (js_trim (vr_default v))) (eg_variables e)"

lemma answer_stable:
  assumes e: "e \<in> set eggs" "defaults_match fm e" "v \<in> set (eg_variables e)"
    and a: "answer fm (generateSecret pick) values v = Inr s"
  shows "(s = [] \<and> vr_default v = [] \<and> \<not> vr_generate v) \<or> (js_trim s \<noteq> [] \<and> coerce fm v s = Inr s)"
proof (cases "blank (map_of values (vr_key v))")
  case False
  then obtain raw where raw: "map_of values (vr_key v) = Some raw" "js_trim raw \<noteq> []" by (auto simp: blank_def split: option.splits)
  then have "coerce fm v raw = Inr s" using a by (simp add: answer_def blank_def)
  then show ?thesis using coerce_nonblank [OF raw(2)] coerce_stored by blast
next
  case True
  note ok = egg_okD(4) [OF e(1) e(3)]
  show ?thesis
  proof (cases "vr_generate v")
    case gen: True
    then have "s = generateSecret pick (generatedLength v)" using a True by (simp add: answer_def)
    then show ?thesis using secret_stored [OF ok gen] by blast
  next
    case gen: False
    then have s: "s = vr_default v" using a True by (simp add: answer_def)
    show ?thesis
    proof (cases "vr_default v = []")
      case nonempty: False
      then have c: "coerce (\<lambda>_ _. True) v s = Inr s" using ok gen s by (auto simp: variable_ok_def)
      have "case vr_pattern v of None \<Rightarrow> True | Some p \<Rightarrow> fm p (js_trim s)"
        using e(2,3) s by (auto simp: defaults_match_def list_all_iff)
      from default_stored [where fm = fm, OF c this] have c': "coerce fm v s = Inr s" .
      have "js_trim s \<noteq> []" using ok gen s nonempty by (auto simp: variable_ok_def)
      then show ?thesis using c' by blast
    qed (simp add: s gen)
  qed
qed

section \<open>The environment\<close>

text \<open>How the value of a variable comes from what the caller sent: a whole number in its normal form, a
  switch in lower case, anything else without the blanks around it.\<close>

definition reading :: "egg_variable \<Rightarrow> string \<Rightarrow> string \<Rightarrow> bool" where
  "reading v raw s =
     (case vr_kind v of
        KInteger \<Rightarrow> coerce_number (js_trim raw) \<noteq> None \<and> s = show_int (the (coerce_number (js_trim raw)))
      | KBoolean \<Rightarrow> s = js_lower (js_trim raw)
      | _ \<Rightarrow> s = js_trim raw)"

lemma coerce_reading: "coerce fm v raw = Inr s \<Longrightarrow> reading v raw s"
  by (cases "vr_kind v") (auto simp: coerce_def reading_def Let_def split: option.splits if_splits)

text \<open>The answer to a variable: what was sent, else a secret where the recipe asks for one, else the
  default; a value of the variable's kind and bounds, or an empty default.\<close>

definition unasked :: "(string \<Rightarrow> string \<Rightarrow> bool) \<Rightarrow> (nat \<Rightarrow> nat) \<Rightarrow> egg_variable \<Rightarrow> string \<Rightarrow> bool" where
  "unasked fm pick v s =
     (if vr_generate v then s = generateSecret pick (generatedLength v) \<and> value_ok fm v s
      else s = vr_default v \<and> (s = [] \<or> value_ok fm v s))"

definition answered ::
  "(string \<Rightarrow> string \<Rightarrow> bool) \<Rightarrow> (nat \<Rightarrow> nat) \<Rightarrow> (string \<times> string) list \<Rightarrow> egg_variable \<Rightarrow> string \<Rightarrow> bool" where
  "answered fm pick values v s =
     (case map_of values (vr_key v) of
        Some raw \<Rightarrow> if js_trim raw \<noteq> [] then reading v raw s \<and> value_ok fm v s else unasked fm pick v s
      | None \<Rightarrow> unasked fm pick v s)"

lemma answer_answered:
  assumes "e \<in> set eggs" "defaults_match fm e" "v \<in> set (eg_variables e)"
    and a: "answer fm (generateSecret pick) values v = Inr s"
  shows "answered fm pick values v s"
proof (cases "blank (map_of values (vr_key v))")
  case False
  then obtain raw where raw: "map_of values (vr_key v) = Some raw" "js_trim raw \<noteq> []" by (auto simp: blank_def split: option.splits)
  then have "coerce fm v raw = Inr s" using a by (simp add: answer_def blank_def)
  then show ?thesis using raw coerce_value coerce_reading by (simp add: answered_def)
next
  case True
  have "unasked fm pick v s"
    using answer_stable [OF assms] coerce_value [of fm v s s] a True by (auto simp: unasked_def answer_def split: if_splits)
  then show ?thesis using True by (auto simp: answered_def blank_def split: option.splits)
qed

text \<open>Present are exactly the fixed settings and the variables that apply, each with its answer.\<close>

definition env_ok ::
  "(string \<Rightarrow> string \<Rightarrow> bool) \<Rightarrow> (nat \<Rightarrow> nat) \<Rightarrow> egg \<Rightarrow> (string \<times> string) list \<Rightarrow> (string \<times> string) list \<Rightarrow> bool" where
  "env_ok fm pick e values env =
     (\<exists>m. list_all (\<lambda>v. \<exists>s. map_of m (vr_key v) = Some s \<and> answered fm pick values v s) (eg_variables e)
       \<and> (\<forall>k. map_of env k = (case map_of (eg_fixedEnv e) k of Some s \<Rightarrow> Some s
            | None \<Rightarrow> if list_ex (\<lambda>v. vr_key v = k \<and> variableApplies v m) (eg_variables e) then map_of m k else None)))"

text \<open>
  C13: Whatever the caller sends, the environment built from a recipe of the catalogue holds exactly
  the recipe's fixed settings and the variables that apply to the answers given, no more and no fewer.
  The value of a variable is what the caller sent for it in its normal form, else a fresh secret where
  the recipe asks for one, else its default; and it is of the variable's kind and within its bounds,
  unless it is a default that the recipe leaves empty. (The defaults of the recipe match their own
  patterns.)
\<close>

theorem egg_env_typed:
  assumes e: "e \<in> set eggs" "defaults_match fm e"
    and b: "buildEggDeployment fm (generateSecret pick) e values ports = Inr d"
  shows "env_ok fm pick e values (ed_env d)"
proof (rule build_env [OF e(1) b])
  fix m
  assume ans: "\<And>v. v \<in> set (eg_variables e) \<Longrightarrow> \<exists>s. answer fm (generateSecret pick) values v = Inr s \<and> map_of m (vr_key v) = Some s"
    and env: "\<And>k. map_of (ed_env d) k = (case map_of (eg_fixedEnv e) k of Some s \<Rightarrow> Some s
       | None \<Rightarrow> (case find (\<lambda>v. vr_key v = k \<and> variableApplies v m) (eg_variables e) of
           None \<Rightarrow> None | Some v \<Rightarrow> Some (nullish (map_of m k) [])))"
  have "list_all (\<lambda>v. \<exists>s. map_of m (vr_key v) = Some s \<and> answered fm pick values v s) (eg_variables e)"
    using ans answer_answered [OF e] by (fastforce simp: list_all_iff)
  moreover have "map_of (ed_env d) k = (case map_of (eg_fixedEnv e) k of Some s \<Rightarrow> Some s
       | None \<Rightarrow> if list_ex (\<lambda>v. vr_key v = k \<and> variableApplies v m) (eg_variables e) then map_of m k else None)" for k
  proof (cases "find (\<lambda>v. vr_key v = k \<and> variableApplies v m) (eg_variables e)")
    case None
    then have "\<not> list_ex (\<lambda>v. vr_key v = k \<and> variableApplies v m) (eg_variables e)" by (auto simp: find_None_iff list_ex_iff)
    then show ?thesis using env [of k] None by (simp split: option.split)
  next
    case (Some v)
    from find_Some_mem [OF Some] have v: "v \<in> set (eg_variables e)" "vr_key v = k" "variableApplies v m" by simp_all
    then have "list_ex (\<lambda>v. vr_key v = k \<and> variableApplies v m) (eg_variables e)" by (auto simp: list_ex_iff)
    moreover have "map_of m k = Some (nullish (map_of m k) [])" using ans [OF v(1)] v(2) by auto
    ultimately show ?thesis using env [of k] Some by (simp split: option.split)
  qed
  ultimately show ?thesis unfolding env_ok_def by blast
qed

definition rust_answers :: "(string \<times> string) list" where
  "rust_answers = [(''RUST_SERVER_MAXPLAYERS'', '' 010 ''), (''PATH'', ''/x'')]"

lemma rust_built:
  "buildEggDeployment (\<lambda>_ _. True) (generateSecret id) egg_rust rust_answers None =
      Inr \<lparr>ed_dockerImage = ''didstopia/rust-server'', ed_ports = [(''28015'', ''28015/udp''), (''28016'', ''28016/tcp'')],
        ed_env = [(''RUST_SERVER_NAME'', ''A NexusInfra server''), (''RUST_SERVER_MAXPLAYERS'', ''10'')],
        ed_dataPath = ''/steamcmd/rust''\<rparr>"
  by code_simp

lemma rust_recipe: "egg_rust \<in> set eggs" "defaults_match (\<lambda>_ _. True) egg_rust"
  by (simp_all add: eggs_def defaults_match_def list_all_iff split: option.split)

lemma egg_env_typed_witness:
  "env_ok (\<lambda>_ _. True) id egg_rust rust_answers
     [(''RUST_SERVER_NAME'', ''A NexusInfra server''), (''RUST_SERVER_MAXPLAYERS'', ''10'')]"
  using egg_env_typed [OF rust_recipe rust_built] by simp

section \<open>Building again\<close>

text \<open>
  C14: Building a recipe again from the environment it produced, as an edit of a server does, gives
  back the same deployment: the same environment, where no stored answer is lost, refused or replaced
  by a default or a new secret, the same image and data directory, and the ports asked for this time
  or else the recipe's; with the ports it had, it is the same deployment in every field. (The defaults
  of the recipe match their own patterns.)
\<close>

theorem egg_rebuild:
  assumes e: "e \<in> set eggs" "defaults_match fm e"
    and b: "buildEggDeployment fm (generateSecret pick) e values ports = Inr d"
  shows "buildEggDeployment fm (generateSecret pick') e (ed_env d) ports' =
      Inr (d\<lparr>ed_ports := (case ports' of None \<Rightarrow> eg_ports e | Some [] \<Rightarrow> eg_ports e | Some ps \<Rightarrow> ps)\<rparr>)
    \<and> buildEggDeployment fm (generateSecret pick') e (ed_env d) (Some (ed_ports d)) = Inr d"
proof (rule build_env [OF e(1) b])
  fix m
  let ?vs = "eg_variables e" and ?ans = "answer fm (generateSecret pick') (ed_env d)"
  assume d: "ed_env d = put_all (eg_fixedEnv e) (applied_env ?vs m)"
    and ans: "\<And>v. v \<in> set ?vs \<Longrightarrow> \<exists>s. answer fm (generateSecret pick) values v = Inr s \<and> map_of m (vr_key v) = Some s"
    and env: "\<And>k. map_of (ed_env d) k = (case map_of (eg_fixedEnv e) k of Some s \<Rightarrow> Some s
       | None \<Rightarrow> (case find (\<lambda>v. vr_key v = k \<and> variableApplies v m) ?vs of
           None \<Rightarrow> None | Some v \<Rightarrow> Some (nullish (map_of m k) [])))"
  have dist: "distinct (map vr_key ?vs)" using egg_okD(1) [OF e(1)] .
  have found: "find (\<lambda>w. vr_key w = vr_key v \<and> variableApplies w m) ?vs = (if variableApplies v m then Some v else None)"
    if v: "v \<in> set ?vs" for v
  proof (cases "find (\<lambda>w. vr_key w = vr_key v \<and> variableApplies w m) ?vs")
    case (Some w)
    from find_Some_mem [OF Some] have "w \<in> set ?vs" "vr_key w = vr_key v" "variableApplies w m" by simp_all
    moreover from this(1,2) v dist have "w = v" by (auto simp: distinct_map dest: inj_onD)
    ultimately show ?thesis using Some by simp
  qed (use v in \<open>auto simp: find_None_iff\<close>)
  have same: "?ans v = Inr (nullish (map_of m (vr_key v)) []) " if v: "v \<in> set ?vs" "variableApplies v m" for v
  proof -
    obtain s where s: "answer fm (generateSecret pick) values v = Inr s" "map_of m (vr_key v) = Some s" using ans [OF v(1)] by blast
    have "map_of (ed_env d) (vr_key v) = Some s"
      using env [of "vr_key v"] egg_okD(3) [OF e(1) v(1)] found [OF v(1)] v(2) s(2) by simp
    then show ?thesis using answer_stable [OF e v(1) s(1)] s(2) by (auto simp: answer_def blank_def js_trim_def strip_def)
  qed
  have other: "\<exists>s. ?ans v = Inr s" if v: "v \<in> set ?vs" for v
  proof (cases "variableApplies v m")
    case False
    then have "map_of (ed_env d) (vr_key v) = None"
      using env [of "vr_key v"] egg_okD(3) [OF e(1) v] found [OF v] by simp
    then show ?thesis by (simp add: answer_def blank_def)
  qed (use same [OF v] in blast)
  then obtain m' where m': "answer_all ?ans ?vs [] = Inr m'" using answer_all_Inr by blast
  have vals: "map_of m' (vr_key v) = map_of m (vr_key v)" if v: "v \<in> set ?vs" "variableApplies v m" for v
    using answer_all_values [OF m' dist] same [OF v] ans [OF v(1)] v(1) by fastforce
  have app: "variableApplies v m' = variableApplies v m" if v: "v \<in> set ?vs" for v
  proof (cases "vr_showWhen v")
    case (Some c)
    obtain k eqs where c: "c = (k, eqs)" by (cases c)
    obtain w where "w \<in> set ?vs" "vr_key w = k" "vr_showWhen w = None"
      using egg_okD(4) [OF e(1) v] Some c by (auto simp: variable_ok_def list_ex_iff)
    then have "map_of m' k = map_of m k" using vals [of w] by (simp add: variableApplies_def)
    then show ?thesis by (simp add: variableApplies_def Some c)
  qed (simp add: variableApplies_def)
  have "filter (\<lambda>v. variableApplies v m') ?vs = filter (\<lambda>v. variableApplies v m) ?vs"
    using app by (intro filter_cong) simp_all
  moreover have "map (\<lambda>v. (vr_key v, nullish (map_of m' (vr_key v)) [])) (filter (\<lambda>v. variableApplies v m) ?vs) =
      map (\<lambda>v. (vr_key v, nullish (map_of m (vr_key v)) [])) (filter (\<lambda>v. variableApplies v m) ?vs)"
    by (rule map_cong) (simp_all add: vals)
  ultimately have "applied_env ?vs m' = applied_env ?vs m" by (simp only: applied_env_def)
  moreover have f: "ed_dockerImage d = eg_dockerImage e" "ed_dataPath d = eg_dataPath e"
      "ed_ports d = (case ports of None \<Rightarrow> eg_ports e | Some [] \<Rightarrow> eg_ports e | Some ps \<Rightarrow> ps)"
    using b by (auto simp: buildEggDeployment_def and_then_def split: sum.splits option.split list.split)
  moreover have "ed_ports d = [] \<Longrightarrow> eg_ports e = []" unfolding f(3) by (auto split: option.splits list.splits)
  ultimately show ?thesis using m' d by (auto simp: buildEggDeployment_def and_then_def split: option.split list.split)
qed

lemma egg_rebuild_witness:
  "buildEggDeployment (\<lambda>_ _. True) (generateSecret Suc) egg_rust
      [(''RUST_SERVER_NAME'', ''A NexusInfra server''), (''RUST_SERVER_MAXPLAYERS'', ''10'')] None =
    buildEggDeployment (\<lambda>_ _. True) (generateSecret id) egg_rust rust_answers None"
  using conjunct1 [OF egg_rebuild [OF rust_recipe rust_built, of Suc None]] rust_built by (simp add: egg_rust_def)

end
