(* ===== verification/Control.thy ===== *)
theory Control
  imports Sharing Nodes Ports Eggs
begin

text \<open>
  The life of a server: what its node is told (\<^verbatim>\<open>containerName.ts\<close>, \<^verbatim>\<open>startCommand.ts\<close>,
  \<^verbatim>\<open>imageUpdate.ts\<close>), what the node reports back (\<^verbatim>\<open>lifecycle.ts\<close>, \<^verbatim>\<open>reconcile.ts\<close>), the
  suspension by billing (\<^verbatim>\<open>suspend.ts\<close>), the credit asked for before a start (\<^verbatim>\<open>credit.ts\<close>), and
  the control routes for one server and for several (\<^verbatim>\<open>api.ts\<close>). Messages published to the bus
  are a list beside the new state; what the routes ask of the rest of the system is the record
  \<open>control_context\<close>.
\<close>

section \<open>Container names\<close>

definition slug_char :: "char \<Rightarrow> bool" where
  "slug_char c = (let n = of_char c :: nat in digit c \<or> 97 \<le> n \<and> n \<le> 122)"

text \<open>\<open>replace(/[^a-z0-9]+/g, '-')\<close>.\<close>

function dashed :: "string \<Rightarrow> string" where
  "dashed [] = []"
| "dashed (c # cs) =
     (if slug_char c then c # dashed cs else CHR ''-'' # dashed (dropWhile (\<lambda>d. \<not> slug_char d) cs))"
  by pat_completeness auto
termination
  by (relation "measure length") (auto simp: le_imp_less_Suc length_dropWhile_le)

definition strip_end :: "char \<Rightarrow> string \<Rightarrow> string" where
  "strip_end c s = rev (dropWhile (\<lambda>d. d = c) (rev s))"

definition max_slug :: nat where "max_slug = 40"

definition slugify :: "string \<Rightarrow> string" where
  "slugify name = strip_end (CHR ''-'') (take max_slug (strip (\<lambda>d. d = CHR ''-'') (dashed (js_lower name))))"

definition short_id :: "string \<Rightarrow> string" where
  "short_id deploymentId =
     (let s = take 8 (filter (\<lambda>c. c \<noteq> CHR ''-'') deploymentId) in if s = [] then ''unknown'' else s)"

definition containerNameFor :: "string \<Rightarrow> string \<Rightarrow> string" where
  "containerNameFor name deploymentId =
     (let slug = (if slugify name = [] then ''server'' else slugify name)
      in ''nexus-'' @ slug @ ''-'' @ short_id deploymentId)"

section \<open>The start command\<close>

definition max_persist_paths :: nat where "max_persist_paths = 10"

record start_command =
  cm_deploymentId :: string
  cm_nodeId :: string
  cm_dockerImage :: string
  cm_containerName :: string
  cm_env :: "(string \<times> string) list"
  cm_ports :: "(string \<times> string) list"
  cm_resourceLimits :: limits
  cm_dataMount :: "(string \<times> string) option"
  cm_persistPaths :: "string list"

definition egg_path :: "server_config \<Rightarrow> string option" where
  "egg_path c = given (map_option eg_dataPath (getEgg (sc_type c)))"

definition dataMountFor :: "server_config \<Rightarrow> (string \<times> string) option" where
  "dataMountFor c =
     (case given (sc_dataPath c) of None \<Rightarrow> None | Some host \<Rightarrow> map_option (Pair host) (egg_path c))"

definition persistPathsFor :: "server_config \<Rightarrow> string list" where
  "persistPathsFor c =
     (let paths = (case egg_path c of None \<Rightarrow> [] | Some p \<Rightarrow> [p]) @ sc_persistPaths c
      in filter (\<lambda>p. map_option snd (dataMountFor c) \<noteq> Some p) (js_unique paths))"

definition startCommandFor :: "server_config \<Rightarrow> string \<Rightarrow> string \<Rightarrow> start_command" where
  "startCommandFor c deploymentId nodeId =
     \<lparr>cm_deploymentId = deploymentId, cm_nodeId = nodeId, cm_dockerImage = sc_dockerImage c,
      cm_containerName = containerNameFor (sc_name c) deploymentId, cm_env = sc_env c, cm_ports = sc_ports c,
      cm_resourceLimits = sc_resourceLimits c, cm_dataMount = dataMountFor c, cm_persistPaths = persistPathsFor c\<rparr>"

datatype path_problem = NotAList | TooManyPaths | NotAbsolute | RootPath | NotPlain string | HasColon string | PathTooLong string

definition segments :: "string \<Rightarrow> string list" where
  "segments raw = filter (\<lambda>s. s \<noteq> []) (js_split (CHR ''/'') raw)"

definition rooted :: "string list \<Rightarrow> string" where
  "rooted segs = concat (map (\<lambda>s. CHR ''/'' # s) segs)"

definition persist_path :: "json \<Rightarrow> (path_problem, string) result" where
  "persist_path v =
     (case v of
        JStr raw \<Rightarrow>
          if \<not> starts_with raw ''/'' then Inl NotAbsolute
          else let segs = segments raw
               in if segs = [] then Inl RootPath
                  else if ''..'' \<in> set segs \<or> ''.'' \<in> set segs then Inl (NotPlain raw)
                  else if CHR '':'' \<in> set raw then Inl (HasColon raw)
                  else if length (rooted segs) > 200 then Inl (PathTooLong raw)
                  else Inr (rooted segs)
      | _ \<Rightarrow> Inl NotAbsolute)"

fun persist_paths :: "json list \<Rightarrow> string list \<Rightarrow> (path_problem, string list) result" where
  "persist_paths [] acc = Inr acc"
| "persist_paths (v # vs) acc =
     and_then (persist_path v) (\<lambda>p. persist_paths vs (if p \<in> set acc then acc else acc @ [p]))"

definition parsePersistPaths :: "json \<Rightarrow> (path_problem, string list) result" where
  "parsePersistPaths v =
     (case v of
        JArr vs \<Rightarrow> if length vs > max_persist_paths then Inl TooManyPaths else persist_paths vs []
      | _ \<Rightarrow> Inl NotAList)"

section \<open>Messages\<close>

datatype message =
    StopCommand string string string
  | KillCommand string string string
  | RestartCommand string string string
  | StartCommand start_command
  | UpdateCommand start_command bool

section \<open>Reports from a node\<close>

text \<open>The fields of a report's payload as strings, absent ones as \<open>None\<close>.\<close>

record report =
  rp_type :: string
  rp_deploymentId :: "string option"
  rp_containerId :: "string option"
  rp_nodeId :: "string option"
  rp_reason :: "string option"
  rp_image :: "string option"
  rp_digest :: "string option"
  rp_recreated :: bool

definition report_target :: "report \<Rightarrow> orch \<Rightarrow> string" where
  "report_target rp r =
     (let i = nullish (rp_deploymentId rp) []
      in if i \<noteq> [] then i
         else case given (rp_containerId rp) of
           None \<Rightarrow> []
         | Some c \<Rightarrow> (case find (\<lambda>d. dp_containerId d = Some c) (listDeployments r) of None \<Rightarrow> [] | Some d \<Rightarrow> dp_id d))"

text \<open>A report about a container the server has since replaced.\<close>

definition stale :: "report \<Rightarrow> string \<Rightarrow> orch \<Rightarrow> bool" where
  "stale rp i r =
     (case given (rp_containerId rp) of None \<Rightarrow> False
      | Some c \<Rightarrow>
          (case Option.bind (getDeployment_o i r) (\<lambda>d. given (dp_containerId d)) of None \<Rightarrow> False | Some cur \<Rightarrow> cur \<noteq> c))"

definition append_if :: "deployment option \<times> orch \<Rightarrow> time \<Rightarrow> string \<Rightarrow> string \<Rightarrow> string \<Rightarrow> orch" where
  "append_if u clock i event msg =
     (case u of (None, r) \<Rightarrow> r | (Some d, r) \<Rightarrow> appendDeploymentEvent clock i event msg r)"

text \<open>The new state, and the crashes to tell about.\<close>

definition handleReport :: "time \<Rightarrow> report \<Rightarrow> orch \<Rightarrow> orch \<times> (string \<times> string) list" where
  "handleReport clock rp r =
     (let i = report_target rp r; c = nullish (rp_containerId rp) []
      in if i = [] then (r, [])
         else if rp_type rp = ''server.started'' then
           (append_if (updateDeploymentStatus i (no_patch\<lparr>sp_status := Some Running, sp_containerId := Some (Some c),
               sp_nodeId := map_option Some (given (rp_nodeId rp)), sp_startedAt := Some (Some clock),
               sp_suspendedAt := Some None, sp_suspendedReason := Some None\<rparr>) r)
              clock i ''started'' (''container '' @ c @ '' started''), [])
         else if rp_type rp = ''server.stopped'' then
           if stale rp i r then (r, [])
           else (append_if (updateDeploymentStatus i (no_patch\<lparr>sp_status := Some Stopped, sp_containerId := Some None,
                   sp_stoppedAt := Some (Some clock)\<rparr>) r) clock i ''stopped'' ''container stopped'', [])
         else if rp_type rp = ''server.crashed'' then
           if stale rp i r then (r, [])
           else
             let reason = nullish (rp_reason rp) ''unknown'';
                 u = updateDeploymentStatus i (no_patch\<lparr>sp_status := Some Crashed, sp_stoppedAt := Some (Some clock)\<rparr>) r
             in (append_if u clock i ''crashed'' reason, if fst u = None then [] else [(i, reason)])
         else if rp_type rp = ''server.image-updated'' then
           (appendDeploymentEvent clock i ''image-updated''
              (''pulled '' @ nullish (rp_image rp) [] @ '' ('' @ (case given (rp_digest rp) of None \<Rightarrow> ''unknown digest'' | Some d \<Rightarrow> take 19 d)
                @ '')'' @ (if rp_recreated rp then '' and recreated the container'' else '' -- applies on next start'')) r, [])
         else if rp_type rp = ''server.update-failed'' then
           (appendDeploymentEvent clock i ''update-failed''
              (''could not pull '' @ nullish (rp_image rp) [] @ '': '' @ nullish (rp_reason rp) ''unknown''
                @ '' -- the server was left as it was'') r, [])
         else (r, []))"

section \<open>Reconciling a node\<close>

record inventory =
  in_nodeId :: string
  in_containers :: "(string \<times> bool) list"

datatype reconcile_action = MarkStopped string string | Restart string string | MarkRunning string string string

definition believed_up :: "deployment_view \<Rightarrow> bool" where
  "believed_up d = (dp_status d = Running \<or> dp_status d = Pending_d)"

definition stop_reason :: "deployment_view \<Rightarrow> string" where
  "stop_reason d =
     (if dp_status d = Pending_d then ''the node restarted before this server was confirmed started''
      else ''the container is gone after the node agent restarted'')"

definition reconcile_one :: "(string \<times> bool) list \<Rightarrow> deployment_view \<Rightarrow> reconcile_action list" where
  "reconcile_one byId d =
     (let container = Option.bind (given (dp_containerId d)) (\<lambda>c. map_option (Pair c) (map_of byId c));
          up = (case container of None \<Rightarrow> False | Some (c, running) \<Rightarrow> running)
      in if believed_up d \<and> \<not> up then
           [if restartPolicy (dv_resourceLimits d) = Some RestartAlways \<or> dv_autoRestart d
            then Restart (dp_id d) (stop_reason d) else MarkStopped (dp_id d) (stop_reason d)]
         else if \<not> believed_up d \<and> up then
           [MarkRunning (dp_id d) (fst (the container)) ''the container is running, though this server was recorded as stopped'']
         else [])"

definition reconcileNode :: "deployment_view list \<Rightarrow> inventory \<Rightarrow> reconcile_action list" where
  "reconcileNode ds iv =
     (let byId = foldl (\<lambda>m (c, up). AList.update c up m) [] (in_containers iv)
      in concat (map (reconcile_one byId) (filter (\<lambda>d. dp_nodeId d = Some (in_nodeId iv)) ds)))"

fun apply_action :: "time \<Rightarrow> string \<Rightarrow> reconcile_action \<Rightarrow> orch \<Rightarrow> orch \<times> message list" where
  "apply_action clock n (MarkStopped i reason) r =
     (appendDeploymentEvent clock i ''reconciled-stopped'' reason
        (snd (updateDeploymentStatus i (no_patch\<lparr>sp_status := Some Stopped, sp_containerId := Some None,
          sp_stoppedAt := Some (Some clock)\<rparr>) r)), [])"
| "apply_action clock n (MarkRunning i c reason) r =
     (appendDeploymentEvent clock i ''reconciled-running'' reason
        (snd (updateDeploymentStatus i (no_patch\<lparr>sp_status := Some Running, sp_containerId := Some (Some c)\<rparr>) r)), [])"
| "apply_action clock n (Restart i reason) r =
     (case getDeploymentConfig i r of None \<Rightarrow> (r, [])
      | Some c \<Rightarrow>
          (appendDeploymentEvent clock i ''reconciled-restart'' reason
             (snd (updateDeploymentStatus i (no_patch\<lparr>sp_status := Some Pending_d, sp_containerId := Some None\<rparr>) r)),
           [StartCommand (startCommandFor c i n)]))"

fun apply_actions :: "time \<Rightarrow> string \<Rightarrow> reconcile_action list \<Rightarrow> orch \<Rightarrow> orch \<times> message list" where
  "apply_actions clock n [] r = (r, [])"
| "apply_actions clock n (a # as) r =
     (let (r, ms) = apply_action clock n a r; (r, ms') = apply_actions clock n as r in (r, ms @ ms'))"

definition handleInventory :: "time \<Rightarrow> inventory \<Rightarrow> orch \<Rightarrow> orch \<times> message list" where
  "handleInventory clock iv r =
     (if in_nodeId iv = [] then (r, [])
      else apply_actions clock (in_nodeId iv) (reconcileNode (listDeployments r) iv) r)"

section \<open>Suspension\<close>

fun handleSuspend :: "time \<Rightarrow> string \<Rightarrow> string list \<Rightarrow> orch \<Rightarrow> orch \<times> message list" where
  "handleSuspend clock reason [] r = (r, [])"
| "handleSuspend clock reason (i # is) r =
     (case Option.bind (getDeployment_o i r) (\<lambda>d. case (given (dp_containerId d), given (dp_nodeId d)) of
             (Some c, Some n) \<Rightarrow> Some (dp_id d, n, c) | _ \<Rightarrow> None) of
        None \<Rightarrow> handleSuspend clock reason is r
      | Some (d, n, c) \<Rightarrow>
          let r = snd (updateDeploymentStatus d (no_patch\<lparr>sp_suspendedAt := Some (Some clock), sp_suspendedReason := Some (Some reason)\<rparr>) r);
              r = appendDeploymentEvent clock d ''suspended'' (''suspended by billing: '' @ reason) r;
              (r, ms) = handleSuspend clock reason is r
          in (r, StopCommand d n c # ms))"

section \<open>Credit before a start\<close>

record standing =
  st_balance :: rat
  st_accrued :: rat
  st_available :: rat
  st_freeHoursLeft :: rat
  st_canRun :: bool
  st_currency :: string
  st_hoursLeft :: "rat option"
  st_runsLow :: bool

text \<open>\<open>Number.toFixed(2)\<close> below \<open>10^21\<close>, on the exact value of the double.\<close>

definition to_fixed2 :: "rat \<Rightarrow> string" where
  "to_fixed2 x =
     (let n = nat \<lfloor>\<bar>x\<bar> * 100 + 1 / 2\<rfloor>;
          c = n mod 100
      in (if x < 0 then ''-'' else []) @ show_nat (n div 100) @ ''.'' @ (if c < 10 then ''0'' else []) @ show_nat c)"

definition euro_sign :: string where "euro_sign = [CHR 0xE2, CHR 0x82, CHR 0xAC]"

definition money :: "rat \<Rightarrow> string \<Rightarrow> string" where
  "money amount currency = (if currency = ''EUR'' then euro_sign else currency @ '' '') @ to_fixed2 amount"

definition creditProblem :: "standing option \<Rightarrow> string option" where
  "creditProblem standing =
     (case standing of None \<Rightarrow> None
      | Some s \<Rightarrow>
          if st_canRun s then None
          else if st_available s < 0 then
            Some (''this account owes '' @ money (- st_available s) (st_currency s)
              @ '' for what its servers have already used -- top up on the Billing page to start servers again'')
          else Some ''this account has no credit left -- top up on the Billing page to start a server'')"

definition runwayText :: "rat \<Rightarrow> string" where
  "runwayText hours =
     (if hours < 1 then ''less than an hour''
      else if hours < 48 then
        let h = nat (jround hours) in ''about '' @ show_nat h @ '' hour'' @ (if h = 1 then [] else ''s'')
      else ''about '' @ show_nat (nat (jround (jdiv hours 24))) @ '' days'')"

definition creditLowSummary :: "rat \<Rightarrow> rat \<Rightarrow> string \<Rightarrow> string" where
  "creditLowSummary hoursLeft available currency =
     ''Your credit ('' @ money available currency @ '') runs out in '' @ runwayText hoursLeft
       @ '' at the rate your servers are using it -- top up on the Billing page, or your servers will be stopped''"

section \<open>Updating an image\<close>

definition requestImageUpdate :: "time \<Rightarrow> string \<Rightarrow> string \<Rightarrow> orch \<Rightarrow> bool reply \<times> orch \<times> message list" where
  "requestImageUpdate clock deploymentId requestedBy r =
     (case getDeployment_o deploymentId r of
        None \<Rightarrow> (Inl (404, ''deployment not found''), r, [])
      | Some d \<Rightarrow>
          if dp_status d = Pending_d then (Inl (409, ''deployment is starting -- try again once it has settled''), r, [])
          else case given (dp_nodeId d) of
            None \<Rightarrow> (Inl (409, ''deployment has no node to pull on''), r, [])
          | Some n \<Rightarrow>
              (case getDeploymentConfig deploymentId r of
                 None \<Rightarrow> (Inl (404, ''server config not found''), r, [])
               | Some c \<Rightarrow>
                   let recreate = (dp_status d = Running)
                   in (Inr recreate,
                       appendDeploymentEvent clock deploymentId ''update-requested''
                         (''image update requested by '' @ requestedBy @ '': pull '' @ sc_dockerImage c
                           @ (if recreate then '' and recreate the container'' else [])) r,
                       [UpdateCommand (startCommandFor c deploymentId n) recreate])))"

section \<open>Control routes\<close>

definition isRunning :: "deployment_detail \<Rightarrow> (string \<times> string) option" where
  "isRunning d =
     (if dp_status d \<noteq> Running then None
      else case (given (dp_containerId d), given (dp_nodeId d)) of (Some c, Some n) \<Rightarrow> Some (c, n) | _ \<Rightarrow> None)"

definition resolveContainerTarget :: "deployment_detail option \<Rightarrow> string reply" where
  "resolveContainerTarget d =
     (case d of None \<Rightarrow> Inl (404, ''deployment not found'')
      | Some d \<Rightarrow> (case given (dp_containerId d) of None \<Rightarrow> Inl (409, ''deployment is not running'') | Some c \<Rightarrow> Inr c))"

datatype control_action = Start | Stop | Restart_c | Kill

fun control_permission :: "control_action \<Rightarrow> permission" where
  "control_permission Start = ControlStart"
| "control_permission Stop = ControlStop"
| "control_permission Restart_c = ControlRestart"
| "control_permission Kill = ControlStop"

definition isControlAction :: "json \<Rightarrow> control_action option" where
  "isControlAction v =
     (case v of
        JStr s \<Rightarrow>
          if s = ''start'' then Some Start else if s = ''stop'' then Some Stop
          else if s = ''restart'' then Some Restart_c else if s = ''kill'' then Some Kill else None
      | _ \<Rightarrow> None)"

datatype control_problem =
    NotRunning | BeingMoved | AlreadyRunning | ConfigMissing | CreditRefused string
  | HomeNot node_health string | HomeInMaintenance string | NoHealthyNode | PortsRefused port_refusal

fun problem_status :: "control_problem \<Rightarrow> nat" where
  "problem_status ConfigMissing = 404"
| "problem_status (CreditRefused m) = 402"
| "problem_status NoHealthyNode = 503"
| "problem_status (PortsRefused e) = refusal_status e"
| "problem_status NotRunning = 409"
| "problem_status BeingMoved = 409"
| "problem_status AlreadyRunning = 409"
| "problem_status (HomeNot h n) = 409"
| "problem_status (HomeInMaintenance n) = 409"

text \<open>
  What a route asks of the rest of the system: which servers are being moved, the billing bridge's
  standing of an account, and the rank \<open>localeCompare\<close> gives an id.
\<close>

record control_context =
  cx_migrating :: "string \<Rightarrow> bool"
  cx_standing :: "string \<Rightarrow> standing option"
  cx_collate :: "string \<Rightarrow> nat"

type_synonym control_answer = "(control_problem, string) result \<times> orch \<times> message list"

text \<open>\<open>stop\<close>, \<open>kill\<close> and \<open>restart\<close> ask the node of a running server.\<close>

definition ask_node ::
  "string \<Rightarrow> string \<Rightarrow> string \<Rightarrow> (string \<Rightarrow> string \<Rightarrow> string \<Rightarrow> message) \<Rightarrow> time \<Rightarrow> deployment_detail \<Rightarrow> orch \<Rightarrow> control_answer" where
  "ask_node event trail said command clock d r =
     (case isRunning d of
        None \<Rightarrow> (Inl NotRunning, r, [])
      | Some (c, n) \<Rightarrow> (Inr said, appendDeploymentEvent clock (dp_id d) event trail r, [command (dp_id d) n c]))"

text \<open>Where a start goes: the node that holds the data, or the best node for a first placement.\<close>

definition start_node :: "control_context \<Rightarrow> time \<Rightarrow> deployment_detail \<Rightarrow> orch \<Rightarrow> (control_problem, node \<times> bool) result" where
  "start_node cx clock d r =
     (let nodes = listNodes (cx_collate cx) r;
          home = (case given (dp_nodeId d) of None \<Rightarrow> None | Some i \<Rightarrow> find (\<lambda>n. nd_id n = i) nodes)
      in case home of
           Some h \<Rightarrow>
             if nodeHealth h clock \<noteq> Healthy then Inl (HomeNot (nodeHealth h clock) (nd_id h))
             else if nd_maintenance h then Inl (HomeInMaintenance (nd_id h))
             else Inr (h, True)
         | None \<Rightarrow> (case selectNode nodes clock of None \<Rightarrow> Inl NoHealthyNode | Some n \<Rightarrow> Inr (n, False)))"

definition control_start ::
  "control_context \<Rightarrow> time \<Rightarrow> deployment_detail \<Rightarrow> orch \<Rightarrow> control_answer" where
  "control_start cx clock d r =
     (if cx_migrating cx (dp_id d) then (Inl BeingMoved, r, [])
      else if dp_status d = Running \<or> dp_status d = Pending_d then (Inl AlreadyRunning, r, [])
      else case getDeploymentConfig (dp_id d) r of
        None \<Rightarrow> (Inl ConfigMissing, r, [])
      | Some c \<Rightarrow>
          (case creditProblem (cx_standing cx (sc_userId c)) of
             Some m \<Rightarrow> (Inl (CreditRefused m), r, [])
           | None \<Rightarrow>
               (case start_node cx clock d r of
                  Inl e \<Rightarrow> (Inl e, r, [])
                | Inr (n, home) \<Rightarrow>
                    (case (if home then (Inr ([], []), r) else allocatePorts clock (dp_id d) n (sc_ports c) r) of
                       (Inl e, r) \<Rightarrow> (Inl (PortsRefused e), r, [])
                     | (Inr _, r) \<Rightarrow>
                         let r = snd (updateDeploymentStatus (dp_id d)
                               \<lparr>sp_status = Some Pending_d, sp_nodeId = Some (Some (nd_id n)), sp_containerId = Some None,
                                sp_startedAt = Some None, sp_stoppedAt = Some None, sp_suspendedAt = Some None,
                                sp_suspendedReason = Some None\<rparr> r);
                             r = appendDeploymentEvent clock (dp_id d) ''start-requested''
                               ((if home then ''starting on node '' else ''placed on node '') @ nd_id n) r
                         in (Inr ''starting'', r, [StartCommand (startCommandFor c (dp_id d) (nd_id n))])))))"

fun controls ::
  "control_context \<Rightarrow> time \<Rightarrow> control_action \<Rightarrow> deployment_detail \<Rightarrow> orch \<Rightarrow> control_answer" where
  "controls cx clock Stop d r =
     ask_node ''stop-requested'' ''stop requested by user'' ''stopping'' StopCommand clock d r"
| "controls cx clock Kill d r =
     ask_node ''kill-requested'' ''force kill requested by user'' ''killing'' KillCommand clock d r"
| "controls cx clock Restart_c d r =
     ask_node ''restart-requested'' ''restart requested by user'' ''restarting'' RestartCommand clock d r"
| "controls cx clock Start d r = control_start cx clock d r"

text \<open>A single route, behind the guard: the status of the answer, the new state, the messages.\<close>

fun outcome_status :: "(control_problem, string) result \<Rightarrow> nat" where
  "outcome_status (Inl e) = problem_status e"
| "outcome_status (Inr _) = 202"

definition control_route ::
  "control_context \<Rightarrow> time \<Rightarrow> principal \<Rightarrow> control_action \<Rightarrow> string \<Rightarrow> orch
     \<Rightarrow> nat \<times> orch \<times> message list" where
  "control_route cx clock p act i r =
     (case guarded r p i (control_permission act) of
        Inl e \<Rightarrow> (fst e, r, [])
      | Inr (role, d) \<Rightarrow>
          (let (outcome, r, ms) = controls cx clock act d r in (outcome_status outcome, r, ms)))"

section \<open>Several servers at once\<close>

definition max_bulk :: nat where "max_bulk = 100"

record bulk_result =
  br_id :: string
  br_name :: "string option"
  br_ok :: bool
  br_status :: nat

fun bulk_each ::
  "control_context \<Rightarrow> time \<Rightarrow> principal \<Rightarrow> control_action \<Rightarrow> string list \<Rightarrow> orch
     \<Rightarrow> bulk_result list \<times> orch \<times> message list" where
  "bulk_each cx clock p act [] r = ([], r, [])"
| "bulk_each cx clock p act (i # ids) r =
     (let (result, r, ms) =
        (case resolveAccess r p i of
           None \<Rightarrow> (\<lparr>br_id = i, br_name = None, br_ok = False, br_status = 404\<rparr>, r, [])
         | Some (role, d) \<Rightarrow>
             if \<not> can (Some role) (control_permission act) then
               (\<lparr>br_id = i, br_name = Some (dv_name d), br_ok = False, br_status = 403\<rparr>, r, [])
             else
               let (outcome, r, ms) = controls cx clock act d r;
                   status = outcome_status outcome
               in (\<lparr>br_id = i, br_name = Some (dv_name d), br_ok = status < 300, br_status = status\<rparr>, r, ms));
          (results, r, ms') = bulk_each cx clock p act ids r
      in (result # results, r, ms @ ms'))"

definition json_ids :: "json \<Rightarrow> string list option" where
  "json_ids v =
     (case v of
        JArr vs \<Rightarrow>
          if vs = [] \<or> (\<exists>x \<in> set vs. case x of JStr s \<Rightarrow> s = [] | _ \<Rightarrow> True) then None
          else Some (map json_string vs)
      | _ \<Rightarrow> None)"

definition post_bulk ::
  "control_context \<Rightarrow> time \<Rightarrow> principal \<Rightarrow> json \<Rightarrow> orch
     \<Rightarrow> (nat \<times> nat \<times> bulk_result list) reply \<times> orch \<times> message list" where
  "post_bulk cx clock p body r =
     (case isControlAction (jprop body ''action'') of
        None \<Rightarrow> (Inl (400, ''action must be one of start, stop, restart, kill''), r, [])
      | Some act \<Rightarrow>
          (case json_ids (jprop body ''ids'') of
             None \<Rightarrow> (Inl (400, ''ids must be a non-empty list of deployment ids''), r, [])
           | Some ids \<Rightarrow>
               if length (js_unique ids) > max_bulk then (Inl (400, ''at most 100 servers per request''), r, [])
               else
                 let (results, r, ms) = bulk_each cx clock p act (js_unique ids) r;
                     succeeded = length (filter br_ok results)
                 in (Inr (succeeded, length results - succeeded, results), r, ms)))"

text \<open>The other routes that touch a server's life.\<close>

definition post_update ::
  "control_context \<Rightarrow> time \<Rightarrow> principal \<Rightarrow> string \<Rightarrow> orch \<Rightarrow> bool reply \<times> orch \<times> message list" where
  "post_update cx clock p i r =
     (case guarded r p i ServerEdit of
        Inl e \<Rightarrow> (Inl e, r, [])
      | Inr _ \<Rightarrow>
          if cx_migrating cx i then (Inl (409, ''this server is being moved to another node''), r, [])
          else requestImageUpdate clock i ''user'' r)"

text \<open>What is asked of the node when a server is deleted.\<close>

datatype cleanup = RemoveDatabase string | PurgeData string | RemoveBackup string

definition delete_server ::
  "control_context \<Rightarrow> principal \<Rightarrow> string \<Rightarrow> orch \<Rightarrow> unit reply \<times> orch \<times> message list \<times> cleanup list" where
  "delete_server cx p i r =
     (case guarded r p i ServerDelete of
        Inl e \<Rightarrow> (Inl e, r, [], [])
      | Inr _ \<Rightarrow>
          (case getDeployment_o i r of
             None \<Rightarrow> (Inl (404, ''deployment not found''), r, [], [])
           | Some d \<Rightarrow>
               if cx_migrating cx (dp_id d) then (Inl (409, ''this server is being moved to another node''), r, [], [])
               else
                 (Inr (), deleteDeployment (dp_id d) r,
                  (case (given (dp_containerId d), given (dp_nodeId d)) of
                     (Some c, Some n) \<Rightarrow> [StopCommand (dp_id d) n c] | _ \<Rightarrow> []),
                  List.map_filter (\<lambda>b. map_option RemoveDatabase (given (db_containerId b))) (listDatabases (dp_id d) r)
                    @ (if given (dp_nodeId d) = None then [] else [PurgeData (dp_id d)])
                    @ map (\<lambda>b. RemoveBackup (bk_ref b)) (listBackups (dp_id d) r))))"

end
