(* ===== verification/Control_Runs.thy ===== *)
theory Control_Runs
  imports Control Sharing_Runs
begin

text \<open>
  What holds of a server's life, over every run of creations, control requests, node reports,
  inventories and suspensions: a recorded state agrees with the container it names, which a node has
  reported as started for that server; a request is
  refused without effect or sends its command to the node that holds the server; a request for
  several servers is the requests for each of them; a report about a replaced container changes
  nothing; a container's name is one Docker takes, and is its server's own.
\<close>

section \<open>What the steps touch\<close>

lemma append_deployments [simp]: "o_deployments (appendDeploymentEvent t i e m r) = o_deployments r"
  by (simp add: appendDeploymentEvent_def)

lemma add_ports_deployments [simp]: "o_deployments (snd (add_ports t d n keep ps r)) = o_deployments r"
  by (induction ps arbitrary: r) (auto simp: Let_def split_beta)

lemma allocate_deployments [simp]: "o_deployments (snd (allocatePorts t i n ps r)) = o_deployments r"
  by (auto simp: allocatePorts_def replacePortAllocations_def Let_def split_beta
        split: sum.split option.split port_conflict.split)

lemma allocate_keeps [simp]:
  "o_backups (snd (allocatePorts t i n ps r)) = o_backups r" "o_configs (snd (allocatePorts t i n ps r)) = o_configs r"
proof -
  have "o_backups (snd (add_ports t d n keep ps r)) = o_backups r \<and> o_configs (snd (add_ports t d n keep ps r)) = o_configs r" for d n keep ps r
    by (induction ps arbitrary: r) (auto simp: Let_def split_beta)
  then show "o_backups (snd (allocatePorts t i n ps r)) = o_backups r" "o_configs (snd (allocatePorts t i n ps r)) = o_configs r"
    by (auto simp: allocatePorts_def replacePortAllocations_def Let_def split_beta
        split: sum.split option.split port_conflict.split)
qed

lemma allocate_refused: "allocatePorts t i n ps r = (Inl e, s) \<Longrightarrow> s = r"
  by (auto simp: allocatePorts_def replacePortAllocations_def Let_def split_beta
        split: sum.splits option.splits port_conflict.splits)

lemma update_status_map:
  "map_of (o_deployments (snd (updateDeploymentStatus i p r))) j =
     (if j = i then map_option (patch_deployment p) (map_of (o_deployments r) i) else map_of (o_deployments r) j)"
  by (auto simp: updateDeploymentStatus_def Let_def split: option.split)

section \<open>States that make sense\<close>

text \<open>\<open>C\<close> holds the containers that nodes have reported as started, each with its server.\<close>

definition life_good :: "(string \<times> string) set \<Rightarrow> deployment \<Rightarrow> bool" where
  "life_good C d =
     ((dp_status d = Running \<longrightarrow> dp_containerId d \<noteq> None)
      \<and> (dp_status d \<in> {Pending_d, Stopped} \<longrightarrow> dp_containerId d = None)
      \<and> (\<forall>c. dp_containerId d = Some c \<longrightarrow> (dp_id d, c) \<in> C)
      \<and> (dp_suspendedAt d = None \<longleftrightarrow> dp_suspendedReason d = None))"

definition life_ok :: "(string \<times> string) set \<Rightarrow> orch \<Rightarrow> bool" where
  "life_ok C r = (\<forall>(i, d) \<in> set (o_deployments r). dp_id d = i \<and> life_good C d)"

definition named :: "report \<Rightarrow> (string \<times> string) list" where
  "named rp =
     (let i = nullish (rp_deploymentId rp) []
      in if rp_type rp = ''server.started'' \<and> i \<noteq> [] then [(i, nullish (rp_containerId rp) [])] else [])"

lemma life_ok_same: "life_ok C r \<Longrightarrow> o_deployments s = o_deployments r \<Longrightarrow> life_ok C s"
  by (simp add: life_ok_def)

lemma life_ok_more: "life_ok C r \<Longrightarrow> C \<subseteq> D \<Longrightarrow> life_ok D r"
  by (fastforce simp: life_ok_def life_good_def)

lemma life_ok_append [simp]: "life_ok C (appendDeploymentEvent t i e m r) = life_ok C r"
  by (simp add: life_ok_def)

lemma update_set: "set (AList.update k v m) \<subseteq> insert (k, v) (set m)"
  by (induction m) auto

lemma life_ok_patch:
  assumes "life_ok C r" "\<And>d. dp_id d = i \<Longrightarrow> life_good C d \<Longrightarrow> life_good C (patch_deployment p d)"
  shows "life_ok C (snd (updateDeploymentStatus i p r))"
proof (cases "map_of (o_deployments r) i")
  case (Some d)
  have "dp_id d = i" "life_good C d" using assms(1) map_of_SomeD [OF Some] by (auto simp: life_ok_def)
  then have "dp_id (patch_deployment p d) = i" "life_good C (patch_deployment p d)"
    using assms(2) by (simp_all add: patch_deployment_def)
  then show ?thesis
    using assms(1) update_set [of i "patch_deployment p d" "o_deployments r"]
    by (auto simp: updateDeploymentStatus_def Some Let_def life_ok_def)
qed (use assms(1) in \<open>simp add: updateDeploymentStatus_def\<close>)

lemma life_create: "life_ok C r \<Longrightarrow> life_ok C (snd (createDeployment t c n r))"
  unfolding createDeployment_def Let_def
  by (auto simp: life_ok_def life_good_def dest!: subsetD [OF update_set])

lemma life_ok_append_if: "life_ok C (snd u) \<Longrightarrow> life_ok C (append_if u t i e m)"
  by (auto simp: append_if_def split: prod.splits option.splits)

lemmas life_patches = life_good_def patch_deployment_def no_patch_def

text \<open>A container on record is one of those reported.\<close>

lemma listed_good:
  assumes "life_ok C r" "d \<in> set (listDeployments r)" "dp_containerId d = Some c"
  shows "(dp_id d, c) \<in> C"
proof -
  obtain x where x: "x \<in> set (vals (o_deployments r))" "toView r x = Some d"
    using assms(2) by (auto simp: listDeployments_def newest_first_def List.map_filter_def)
  then have "dp_id d = dp_id x" "dp_containerId d = dp_containerId x"
    by (auto simp: toView_def deployment.extend_def split: option.splits)
  then show ?thesis using x(1) assms(1,3) by (auto simp: life_ok_def life_good_def vals_def)
qed

lemma target_named:
  assumes "life_ok C r" "set (named rp) \<subseteq> C" "rp_type rp = ''server.started''" "report_target rp r \<noteq> []"
  shows "(report_target rp r, nullish (rp_containerId rp) []) \<in> C"
proof (cases "nullish (rp_deploymentId rp) [] = []")
  case False
  then show ?thesis using assms(2,3) by (simp add: named_def report_target_def Let_def)
next
  case True
  then obtain c d where c: "given (rp_containerId rp) = Some c"
      "find (\<lambda>d. dp_containerId d = Some c) (listDeployments r) = Some d" "report_target rp r = dp_id d"
    using assms(4) by (auto simp: report_target_def Let_def split: option.splits)
  moreover from find_Some_mem [OF c(2)] have "d \<in> set (listDeployments r)" "dp_containerId d = Some c" by simp_all
  moreover have "nullish (rp_containerId rp) [] = c" using c(1) by (auto simp: given_def split: option.splits if_splits)
  ultimately show ?thesis using listed_good [OF assms(1)] by simp
qed

lemma life_report: "life_ok C r \<Longrightarrow> set (named rp) \<subseteq> C \<Longrightarrow> life_ok C (fst (handleReport t rp r))"
  using target_named [of C r rp] unfolding handleReport_def Let_def
  by (auto intro!: life_ok_append_if life_ok_patch simp: life_patches)

definition marks_named :: "(string \<times> string) set \<Rightarrow> reconcile_action \<Rightarrow> bool" where
  "marks_named C a = (case a of MarkRunning i c reason \<Rightarrow> (i, c) \<in> C | _ \<Rightarrow> True)"

lemma life_action: "life_ok C r \<Longrightarrow> marks_named C a \<Longrightarrow> life_ok C (fst (apply_action t n a r))"
  by (cases a) (auto intro!: life_ok_patch simp: life_patches marks_named_def split: option.split)

lemma life_actions: "life_ok C r \<Longrightarrow> list_all (marks_named C) as \<Longrightarrow> life_ok C (fst (apply_actions t n as r))"
proof (induction as arbitrary: r)
  case (Cons a as)
  then show ?case using life_action [OF Cons.prems(1), of a t n] by (simp add: split_beta)
qed simp

lemma reconcile_named:
  assumes "life_ok C r" shows "list_all (marks_named C) (reconcileNode (listDeployments r) iv)"
proof -
  have "list_all (marks_named C) (reconcile_one m d)" if "d \<in> set (listDeployments r)" for m d
    using listed_good [OF assms that]
    by (auto simp: reconcile_one_def marks_named_def Let_def given_def bind_eq_Some_conv split: option.splits if_splits)
  then show ?thesis by (auto simp: reconcileNode_def Let_def list_all_iff)
qed

lemma life_inventory: "life_ok C r \<Longrightarrow> life_ok C (fst (handleInventory t iv r))"
  by (simp add: handleInventory_def life_actions reconcile_named)

lemma life_suspend: "life_ok C r \<Longrightarrow> life_ok C (fst (handleSuspend t reason is r))"
proof (induction "is" arbitrary: r)
  case (Cons i "is")
  have "life_ok C (snd (updateDeploymentStatus j (no_patch\<lparr>sp_suspendedAt := Some (Some t), sp_suspendedReason := Some (Some reason)\<rparr>) r))" for j
    by (rule life_ok_patch [OF Cons.prems]) (simp add: life_patches)
  then show ?case using Cons by (auto simp: Let_def split_beta split: option.split)
qed simp

lemma life_control: "life_ok C r \<Longrightarrow> life_ok C (fst (snd (controls cx t act d r)))"
proof (cases act)
  case Start
  assume r: "life_ok C r"
  have "life_ok C (snd (updateDeploymentStatus j \<lparr>sp_status = Some Pending_d, sp_nodeId = Some (Some n), sp_containerId = Some None,
      sp_startedAt = Some None, sp_stoppedAt = Some None, sp_suspendedAt = Some None, sp_suspendedReason = Some None\<rparr> s))"
    if "o_deployments s = o_deployments r" for j n s
    by (rule life_ok_patch [OF life_ok_same [OF r that]]) (simp add: life_patches)
  moreover have "o_deployments s = o_deployments r" if "allocatePorts t j n ps r = (x, s)" for j n ps x s
    using allocate_deployments [of t j n ps r] that by simp
  ultimately show ?thesis
    using r by (auto simp: Start control_start_def Let_def dest: allocate_refused split: option.split sum.split prod.split)
qed (auto simp: ask_node_def split: option.split)

lemma life_route: "life_ok C r \<Longrightarrow> life_ok C (fst (snd (control_route cx t p act i r)))"
  using life_control [of C r cx t act] by (auto simp: control_route_def split: sum.split prod.split) (metis fst_conv snd_conv)

lemma life_bulk: "life_ok C r \<Longrightarrow> life_ok C (fst (snd (bulk_each cx t p act ids r)))"
proof (induction ids arbitrary: r)
  case (Cons i ids)
  have "life_ok C (fst (snd (controls cx t act d r)))" for d by (rule life_control [OF Cons.prems])
  then show ?case
    using Cons by (auto simp: Let_def split_beta split: option.split)
qed simp

lemma life_post_bulk: "life_ok C r \<Longrightarrow> life_ok C (fst (snd (post_bulk cx t p body r)))"
  by (auto simp: post_bulk_def Let_def split_beta life_bulk split: option.split)

lemma life_update: "life_ok C r \<Longrightarrow> life_ok C (fst (snd (post_update cx t p i r)))"
  by (auto simp: post_update_def requestImageUpdate_def Let_def split: sum.split option.split)

lemma life_deleted: "life_ok C r \<Longrightarrow> life_ok C (deleteDeployment i r)"
  by (auto simp: life_ok_def deleteDeployment_def AList.delete_eq split: option.split if_splits)

lemma life_delete: "life_ok C r \<Longrightarrow> life_ok C (fst (snd (delete_server cx p i r)))"
  by (auto simp: delete_server_def life_deleted split: sum.split option.split)

section \<open>Runs\<close>

datatype life_op =
    Create time new_server "string option"
  | NodeReport time report
  | NodeInventory time inventory
  | Suspend time string "string list"
  | ControlOne control_context time principal control_action string
  | ControlMany control_context time principal json
  | UpdateImage control_context time principal string
  | DeleteServer control_context principal string
  | Heartbeat time heartbeat

fun life_step :: "orch \<Rightarrow> life_op \<Rightarrow> orch" where
  "life_step r (Create t inp n) =
     (let (c, r) = createServerConfig t inp r in snd (createDeployment t (sc_id c) n r))"
| "life_step r (NodeReport t rp) = fst (handleReport t rp r)"
| "life_step r (NodeInventory t iv) = fst (handleInventory t iv r)"
| "life_step r (Suspend t reason ids) = fst (handleSuspend t reason ids r)"
| "life_step r (ControlOne cx t p act i) = fst (snd (control_route cx t p act i r))"
| "life_step r (ControlMany cx t p body) = fst (snd (post_bulk cx t p body r))"
| "life_step r (UpdateImage cx t p i) = fst (snd (post_update cx t p i r))"
| "life_step r (DeleteServer cx p i) = fst (snd (delete_server cx p i r))"
| "life_step r (Heartbeat t h) = handleHeartbeat t h r"

lemma createServerConfig_deployments [simp]: "o_deployments (snd (createServerConfig t inp r)) = o_deployments r"
  by (simp add: createServerConfig_def Let_def)

lemma handleHeartbeat_deployments [simp]: "o_deployments (handleHeartbeat t h r) = o_deployments r"
  by (auto simp: handleHeartbeat_def upsertNode_def Let_def split: option.split)

definition op_named :: "life_op \<Rightarrow> (string \<times> string) list" where
  "op_named e = (case e of NodeReport t rp \<Rightarrow> named rp | _ \<Rightarrow> [])"

lemma life_step_ok: "life_ok C r \<Longrightarrow> set (op_named e) \<subseteq> C \<Longrightarrow> life_ok C (life_step r e)"
proof (cases e)
  case (Create t inp n)
  assume "life_ok C r"
  then have "life_ok C (snd (createServerConfig t inp r))" by (rule life_ok_same) simp
  then show ?thesis unfolding Create life_step.simps split_beta by (simp add: Let_def life_create)
next
  case (Heartbeat t h)
  assume "life_ok C r"
  then show ?thesis unfolding Heartbeat life_step.simps by (rule life_ok_same) simp
qed (simp_all add: life_report op_named_def life_inventory life_suspend life_route life_post_bulk life_update life_delete)

text \<open>
  C15: In every reachable state, whatever creations, requests, reports, inventories and suspensions
  led to it, each server's record makes sense: one recorded as running names a container, one
  recorded as stopped or starting names none; a container a record names is one that a node reported
  as started for that very server; and a suspension is recorded with its reason. (A report of a start
  that gives no container counts as naming the empty one.)
\<close>

theorem life_consistent: "life_ok (set (concat (map op_named ops))) (foldl life_step new_orch ops)"
proof (induction ops rule: rev_induct)
  case Nil
  then show ?case by (simp add: life_ok_def new_orch_def)
next
  case (snoc e ops)
  have "life_ok (set (concat (map op_named (ops @ [e])))) (foldl life_step new_orch ops)"
    by (rule life_ok_more [OF snoc]) auto
  from life_step_ok [OF this, of e] show ?case by simp
qed

section \<open>A refused request and an accepted one\<close>

text \<open>The node a start may use: the one that holds the server, or one that takes new servers.\<close>

definition start_place :: "control_context \<Rightarrow> time \<Rightarrow> deployment_detail \<Rightarrow> orch \<Rightarrow> node \<Rightarrow> bool" where
  "start_place cx t d r n =
     (n \<in> set (listNodes (cx_collate cx) r) \<and> nodeHealth n t = Healthy \<and> \<not> nd_maintenance n
      \<and> (dp_nodeId d = Some (nd_id n)
         \<or> (\<forall>m \<in> set (listNodes (cx_collate cx) r). given (dp_nodeId d) \<noteq> Some (nd_id m))))"

text \<open>The command a request may send, and when.\<close>

fun sent_rightly :: "control_context \<Rightarrow> time \<Rightarrow> control_action \<Rightarrow> deployment_detail \<Rightarrow> orch \<Rightarrow> message \<Rightarrow> bool" where
  "sent_rightly cx t Start d r (StartCommand m) =
     (\<exists>c n. getDeploymentConfig (dp_id d) r = Some c \<and> start_place cx t d r n
       \<and> m = startCommandFor c (dp_id d) (nd_id n) \<and> creditProblem (cx_standing cx (sc_userId c)) = None
       \<and> \<not> cx_migrating cx (dp_id d) \<and> dp_status d \<in> {Stopped, Crashed, Failed_d})"
| "sent_rightly cx t Stop d r (StopCommand i n c) =
     (i = dp_id d \<and> dp_status d = Running \<and> dp_nodeId d = Some n \<and> dp_containerId d = Some c)"
| "sent_rightly cx t Kill d r (KillCommand i n c) =
     (i = dp_id d \<and> dp_status d = Running \<and> dp_nodeId d = Some n \<and> dp_containerId d = Some c)"
| "sent_rightly cx t Restart_c d r (RestartCommand i n c) =
     (i = dp_id d \<and> dp_status d = Running \<and> dp_nodeId d = Some n \<and> dp_containerId d = Some c)"
| "sent_rightly cx t act d r m = False"

lemma given_Some_iff: "given x = Some v \<longleftrightarrow> x = Some v \<and> v \<noteq> []"
  by (auto simp: given_def split: option.splits if_splits)

lemma isRunning_Some:
  "isRunning d = Some (c, n) \<longleftrightarrow> dp_status d = Running \<and> given (dp_containerId d) = Some c \<and> given (dp_nodeId d) = Some n"
  by (auto simp: isRunning_def split: option.splits)

lemma selectNode_eligible: "selectNode ns t = Some n \<Longrightarrow> n \<in> set ns \<and> eligible t n"
proof (cases "filter (eligible t) ns")
  case (Cons a as)
  moreover assume "selectNode ns t = Some n"
  moreover have "set (a # as) = {c \<in> set ns. eligible t c}" using Cons by (metis set_filter)
  ultimately show ?thesis using foldl_better [of a as] by (auto simp: selectNode_def)
qed (simp add: selectNode_def)

lemma start_node_place: "start_node cx t d r = Inr (n, home) \<Longrightarrow> start_place cx t d r n"
  using selectNode_eligible [of "listNodes (cx_collate cx) r" t n]
  by (auto simp: start_node_def start_place_def Let_def eligible_def find_None_iff given_Some_iff given_def
        dest!: find_Some_mem split: option.splits if_splits)

definition starting :: "string \<Rightarrow> status_patch" where
  "starting n = \<lparr>sp_status = Some Pending_d, sp_nodeId = Some (Some n), sp_containerId = Some None,
     sp_startedAt = Some None, sp_stoppedAt = Some None, sp_suspendedAt = Some None, sp_suspendedReason = Some None\<rparr>"

lemma start_refused: "control_start cx t d r = (Inl e, s, ms) \<Longrightarrow> s = r \<and> ms = []"
  by (auto simp: control_start_def Let_def dest: allocate_refused split: option.splits sum.splits prod.splits if_splits)

lemma start_accepted:
  assumes "control_start cx t d r = (Inr said, s, ms)"
  shows "\<exists>c n q e m. getDeploymentConfig (dp_id d) r = Some c \<and> start_place cx t d r n
    \<and> creditProblem (cx_standing cx (sc_userId c)) = None \<and> \<not> cx_migrating cx (dp_id d)
    \<and> dp_status d \<noteq> Running \<and> dp_status d \<noteq> Pending_d \<and> o_deployments q = o_deployments r
    \<and> s = appendDeploymentEvent t (dp_id d) e m (snd (updateDeploymentStatus (dp_id d) (starting (nd_id n)) q))
    \<and> ms = [StartCommand (startCommandFor c (dp_id d) (nd_id n))]"
proof -
  have guards: "\<not> cx_migrating cx (dp_id d)" "dp_status d \<noteq> Running" "dp_status d \<noteq> Pending_d"
    using assms by (auto simp: control_start_def split: if_splits)
  then obtain c where c: "getDeploymentConfig (dp_id d) r = Some c" "creditProblem (cx_standing cx (sc_userId c)) = None"
    using assms by (auto simp: control_start_def split: option.splits)
  then obtain n home where n: "start_node cx t d r = Inr (n, home)"
    using assms guards by (auto simp: control_start_def split: sum.splits)
  define q where "q = (if home then r else snd (allocatePorts t (dp_id d) n (sc_ports c) r))"
  have q: "o_deployments q = o_deployments r" by (simp add: q_def)
  let ?event = "(if home then ''starting on node '' else ''placed on node '') @ nd_id n"
  have "s = appendDeploymentEvent t (dp_id d) ''start-requested'' ?event (snd (updateDeploymentStatus (dp_id d) (starting (nd_id n)) q))
      \<and> ms = [StartCommand (startCommandFor c (dp_id d) (nd_id n))]"
    using assms guards c n by (auto simp: control_start_def starting_def q_def Let_def split: sum.splits prod.splits)
  then show ?thesis using guards c q start_node_place [OF n] by blast
qed

lemma refusal_status_bound: "refusal_status e \<ge> 400"
  by (cases e) simp_all

lemma problem_status_bound: "problem_status e \<ge> 400"
  by (cases e) (simp_all add: refusal_status_bound)

text \<open>
  C16: A request refused leaves the state as it was and sends nothing; a request accepted is answered
  202 and sends one command, to the node that holds the server's container (stop, kill, restart) or
  to the node that holds its data (start; a healthy node that takes servers where nothing is placed
  yet), and a start only of a server that is down, not being moved, with credit left.
\<close>

theorem control_exact:
  "case controls cx t act d r of
     (Inl e, r', ms) \<Rightarrow> r' = r \<and> ms = [] \<and> problem_status e \<ge> 400
   | (Inr said, r', ms) \<Rightarrow> length ms = 1 \<and> sent_rightly cx t act d r (hd ms)
       \<and> map_of (o_deployments r') (dp_id d) =
           (if act = Start
            then map_option (\<lambda>x. case hd ms of StartCommand m \<Rightarrow>
                   x\<lparr>dp_status := Pending_d, dp_nodeId := Some (cm_nodeId m), dp_containerId := None, dp_startedAt := None,
                     dp_stoppedAt := None, dp_suspendedAt := None, dp_suspendedReason := None\<rparr>)
                 (map_of (o_deployments r) (dp_id d))
            else map_of (o_deployments r) (dp_id d))"
proof (cases act)
  case Start
  obtain x s ms where c: "control_start cx t d r = (x, s, ms)" by (cases "control_start cx t d r") auto
  show ?thesis
  proof (cases x)
    case (Inl e)
    then show ?thesis using start_refused [of cx t d r e s ms] c by (simp add: Start problem_status_bound)
  next
    case (Inr said)
    have "dp_status d \<in> {Stopped, Crashed, Failed_d}" if "dp_status d \<noteq> Running" "dp_status d \<noteq> Pending_d"
      using that by (cases "dp_status d") auto
    then show ?thesis using start_accepted [OF c [unfolded Inr]] c
      by (auto simp: Start Inr update_status_map starting_def startCommandFor_def patch_deployment_def cong: map_option_cong)
  qed
qed (auto simp: ask_node_def isRunning_Some given_Some_iff split: option.split)

section \<open>Several servers at once\<close>

text \<open>The single requests, one after the other: the statuses, the state, the messages.\<close>

fun singles ::
  "control_context \<Rightarrow> time \<Rightarrow> principal \<Rightarrow> control_action \<Rightarrow> string list \<Rightarrow> orch \<Rightarrow> nat list \<times> orch \<times> message list" where
  "singles cx t p act [] r = ([], r, [])"
| "singles cx t p act (i # ids) r =
     (let (st, r, ms) = control_route cx t p act i r;
          (sts, r, ms') = singles cx t p act ids r
      in (st # sts, r, ms @ ms'))"

lemma outcome_ok: "outcome_status x < 300 \<longleftrightarrow> outcome_status x = 202"
proof (cases x)
  case (Inl e)
  then show ?thesis using problem_status_bound [of e] by simp
qed simp

lemma bulk_singles:
  "case bulk_each cx t p act ids r of (results, s, ms) \<Rightarrow>
     (map br_status results, s, ms) = singles cx t p act ids r \<and> map br_id results = ids
     \<and> map br_ok results = map (\<lambda>b. br_status b = 202) results"
proof (induction ids arbitrary: r)
  case (Cons i ids)
  have route: "control_route cx t p act i r =
      (case resolveAccess r p i of
         None \<Rightarrow> (404, r, [])
       | Some (role, d) \<Rightarrow>
           if can (Some role) (control_permission act)
           then (let (x, s, ms) = controls cx t act d r in (outcome_status x, s, ms)) else (403, r, []))"
    by (auto simp: control_route_def guarded_def accessGuard_def requirePermission_def split: option.split)
  obtain st s ms where one: "control_route cx t p act i r = (st, s, ms)" by (cases "control_route cx t p act i r") auto
  obtain results s' ms' where rest: "bulk_each cx t p act ids s = (results, s', ms')" by (cases "bulk_each cx t p act ids s") auto
  obtain b where b: "bulk_each cx t p act (i # ids) r = (b # results, s', ms @ ms') \<and> br_id b = i \<and> br_status b = st
      \<and> br_ok b = (st = 202)"
    using one rest by (atomize_elim, auto simp: route Let_def outcome_ok split: option.splits prod.splits if_splits)
  have IH: "singles cx t p act ids s = (map br_status results, s', ms')" "map br_id results = ids"
    "map br_ok results = map (\<lambda>b. br_status b = 202) results"
    using Cons.IH [of s] rest by simp_all
  have "singles cx t p act (i # ids) r = (st # map br_status results, s', ms @ ms')"
    by (simp add: one IH(1) Let_def)
  then show ?case using b IH(2,3) by (simp del: bulk_each.simps singles.simps)
qed simp

text \<open>
  C17: A request for several servers is the single requests for each of them, once each and in order:
  the same statuses, state and commands, and a server the caller may not see answers as one that
  does not exist.
\<close>

theorem bulk_is_singles:
  "case post_bulk cx t p body r of
     (Inl e, s, ms) \<Rightarrow> fst e = 400 \<and> s = r \<and> ms = []
   | (Inr (succeeded, failed, results), s, ms) \<Rightarrow>
       (\<exists>act ids. isControlAction (jprop body ''action'') = Some act \<and> json_ids (jprop body ''ids'') = Some ids
          \<and> (map br_status results, s, ms) = singles cx t p act (map br_id results) r
          \<and> map br_id results = js_unique ids \<and> length results \<le> 100)
       \<and> succeeded = length (filter (\<lambda>b. br_status b = 202) results) \<and> succeeded + failed = length results"
proof (cases "isControlAction (jprop body ''action'')")
  case (Some act)
  show ?thesis
  proof (cases "json_ids (jprop body ''ids'')")
    case ids: (Some ids)
    obtain results s ms where b: "bulk_each cx t p act (js_unique ids) r = (results, s, ms)"
      by (cases "bulk_each cx t p act (js_unique ids) r") auto
    have k: "(map br_status results, s, ms) = singles cx t p act (js_unique ids) r" "map br_id results = js_unique ids"
      "map br_ok results = map (\<lambda>b. br_status b = 202) results"
      using bulk_singles [of cx t p act "js_unique ids" r] by (simp_all add: b)
    have "filter br_ok results = filter (\<lambda>b. br_status b = 202) results"
      using k(3) by (auto intro: filter_cong)
    moreover have "length results = length (js_unique ids)" using arg_cong [OF k(2), of length] by simp
    moreover have "length (filter br_ok results) \<le> length results" by simp
    ultimately show ?thesis using k(1,2)
      by (simp add: post_bulk_def Some ids b max_bulk_def Let_def)
  qed (simp add: post_bulk_def Some)
qed (simp add: post_bulk_def)

section \<open>Reports about replaced containers\<close>

definition old_news :: "string \<Rightarrow> string \<Rightarrow> report \<Rightarrow> bool" where
  "old_news i c rp =
     (rp_deploymentId rp = Some i \<and> (rp_type rp = ''server.stopped'' \<or> rp_type rp = ''server.crashed'')
      \<and> (case given (rp_containerId rp) of None \<Rightarrow> False | Some old \<Rightarrow> old \<noteq> c))"

lemma old_news_ignored:
  assumes "getDeployment_o i r = Some d" "given (dp_containerId d) = Some c" "old_news i c rp" "i \<noteq> []"
  shows "handleReport t rp r = (r, [])"
  using assms by (auto simp: handleReport_def old_news_def report_target_def stale_def Let_def split: option.splits)

text \<open>
  C18: However many reports of a stop or a crash name a container the server has since replaced,
  replayed in whatever order, the state stays as it was and nobody is told of a crash.
\<close>

theorem replays_ignored:
  assumes "getDeployment_o i r = Some d" "given (dp_containerId d) = Some c" "i \<noteq> []" "list_all (old_news i c \<circ> snd) reports"
  shows "foldl (\<lambda>(r, told) (t, rp). (fst (handleReport t rp r), told @ snd (handleReport t rp r))) (r, []) reports = (r, [])"
  using assms(4) by (induction reports) (auto simp: old_news_ignored [OF assms(1,2) _ assms(3)])

definition sample_run :: "life_op list" where
  "sample_run =
     (let blank = \<lparr>rp_type = ''server.started'', rp_deploymentId = Some (uuid 1), rp_containerId = Some ''c2'',
        rp_nodeId = Some ''n'', rp_reason = None, rp_image = None, rp_digest = None, rp_recreated = False\<rparr>
      in [Create 0 \<lparr>ns_userId = ''u'', ns_teamId = None, ns_name = ''world'', ns_dockerImage = ''img'', ns_ports = None,
            ns_env = None, ns_resourceLimits = None, ns_autoRestart = None, ns_dataPath = None, ns_persistPaths = None,
            ns_type = None\<rparr> (Some ''n''),
          NodeReport 1 blank])"

definition sample_replay :: report where
  "sample_replay = \<lparr>rp_type = ''server.stopped'', rp_deploymentId = Some (uuid 1), rp_containerId = Some ''c1'',
     rp_nodeId = Some ''n'', rp_reason = None, rp_image = None, rp_digest = None, rp_recreated = False\<rparr>"

definition sample_state :: orch where "sample_state = foldl life_step new_orch sample_run"

lemma sample_running:
  "case getDeployment_o (uuid 1) sample_state of None \<Rightarrow> False
   | Some d \<Rightarrow> dp_status d = Running \<and> given (dp_containerId d) = Some ''c2''"
  by code_simp

lemma replays_ignored_witness:
  "foldl (\<lambda>(r, told) (t, rp). (fst (handleReport t rp r), told @ snd (handleReport t rp r))) (sample_state, [])
     [(5, sample_replay), (6, sample_replay)] = (sample_state, [])"
proof -
  from sample_running obtain d where d: "getDeployment_o (uuid 1) sample_state = Some d" "given (dp_containerId d) = Some ''c2''"
    by (auto split: option.splits)
  show ?thesis
    by (rule replays_ignored [OF d]) (simp_all add: uuid_def old_news_def sample_replay_def given_def)
qed

text \<open>A report of a start that gives no container leaves a running server whose container reads as none.\<close>

lemma started_without_container:
  "map_option (\<lambda>d. (dp_status d, dp_containerId d, isRunning d))
     (getDeployment_o (uuid 1) (fst (handleReport 9 \<lparr>rp_type = ''server.started'', rp_deploymentId = Some (uuid 1), rp_containerId = None,
        rp_nodeId = Some ''n'', rp_reason = None, rp_image = None, rp_digest = None, rp_recreated = False\<rparr> sample_state)))
   = Some (Running, Some [], None)"
  by code_simp

end
