(* ===== verification/Start_Names.thy ===== *)
theory Start_Names
  imports Control Js_Text
begin

text \<open>
  The names and paths of a start command: a container's name is one Docker takes
  (\<^verbatim>\<open>containerName.ts\<close>), and the directories kept are plain absolute paths
  (\<^verbatim>\<open>startCommand.ts\<close>).
\<close>

section \<open>Container names\<close>

definition letter :: "char \<Rightarrow> bool" where
  "letter c = (let n = of_char c :: nat in 65 \<le> n \<and> n \<le> 90 \<or> 97 \<le> n \<and> n \<le> 122)"

definition docker_char :: "char \<Rightarrow> bool" where
  "docker_char c = (letter c \<or> digit c \<or> c \<in> {CHR ''_'', CHR ''.'', CHR ''-''})"

text \<open>\<open>DOCKER_NAME_PATTERN\<close>: a letter or digit, then at least one name character.\<close>

definition docker_name :: "string \<Rightarrow> bool" where
  "docker_name s =
     (case s of [] \<Rightarrow> False | c # cs \<Rightarrow> (letter c \<or> digit c) \<and> cs \<noteq> [] \<and> list_all docker_char cs)"

lemma slug_docker: "slug_char c \<Longrightarrow> docker_char c"
  by (auto simp: slug_char_def docker_char_def letter_def Let_def)

lemma dashed_chars: "c \<in> set (dashed s) \<Longrightarrow> slug_char c \<or> c = CHR ''-''"
  by (induction s rule: dashed.induct) (auto split: if_splits)

lemma strip_end_sub: "set (strip_end c s) \<subseteq> set s"
  by (auto simp: strip_end_def dest: set_dropWhileD)

lemma strip_end_length: "length (strip_end c s) \<le> length s"
  using length_dropWhile_le [of "\<lambda>d. d = c" "rev s"] by (simp add: strip_end_def)

lemma slugify_chars: "list_all docker_char (slugify n)"
proof -
  have "set (slugify n) \<subseteq> set (dashed (js_lower n))"
    unfolding slugify_def
    by (rule subset_trans [OF strip_end_sub subset_trans [OF set_take_subset set_strip]])
  then show ?thesis
    using dashed_chars slug_docker by (fastforce simp: list_all_iff docker_char_def)
qed

lemma slugify_length: "length (slugify n) \<le> 40"
  unfolding slugify_def by (rule order_trans [OF strip_end_length]) (simp add: max_slug_def)

lemma short_id_chars:
  assumes "list_all docker_char i"
  shows "list_all docker_char (short_id i)" "CHR ''-'' \<notin> set (short_id i)" "length (short_id i) \<le> 8" "short_id i \<noteq> []"
proof -
  let ?s = "take 8 (filter (\<lambda>c. c \<noteq> CHR ''-'') i)"
  have s: "set ?s \<subseteq> set (filter (\<lambda>c. c \<noteq> CHR ''-'') i)" by (rule set_take_subset)
  show "list_all docker_char (short_id i)"
    using assms s by (fastforce simp: short_id_def Let_def list_all_iff docker_char_def letter_def)
  show "CHR ''-'' \<notin> set (short_id i)" using s by (auto simp: short_id_def Let_def)
  show "length (short_id i) \<le> 8" "short_id i \<noteq> []" by (auto simp: short_id_def Let_def)
qed

text \<open>
  C19: Whatever a server is called, its container's name is one Docker accepts, of at most 55
  characters, and two servers can share a name only if their ids begin alike.
\<close>

theorem containerName_valid:
  assumes "list_all docker_char i"
  shows "docker_name (containerNameFor n i) \<and> length (containerNameFor n i) \<le> 55
    \<and> (list_all docker_char j \<and> containerNameFor n i = containerNameFor m j \<longrightarrow> short_id i = short_id j)"
proof (intro conjI impI)
  let ?slug = "\<lambda>n. if slugify n = [] then ''server'' else slugify n"
  have slug: "list_all docker_char (?slug n)" "length (?slug n) \<le> 40"
    using slugify_chars slugify_length by (auto simp: docker_char_def letter_def)
  have name: "containerNameFor n i = (''nexus-'' @ ?slug n) @ CHR ''-'' # short_id i" for n i
    by (simp add: containerNameFor_def Let_def)
  show "docker_name (containerNameFor n i)"
    unfolding name using slug(1) short_id_chars(1) [OF assms]
    by (simp add: docker_name_def docker_char_def letter_def)
  show "length (containerNameFor n i) \<le> 55"
    unfolding name using slug(2) short_id_chars(3) [OF assms] by simp
  assume "list_all docker_char j \<and> containerNameFor n i = containerNameFor m j"
  then show "short_id i = short_id j"
    unfolding name using short_id_chars(2) assms by (blast intro: last_part_inject)
qed

lemma containerName_valid_witness:
  "docker_name (containerNameFor ''My World!'' ''0a1b2c3d-4e'') \<and> containerNameFor ''My World!'' ''0a1b2c3d-4e'' = ''nexus-my-world-0a1b2c3d''"
  using containerName_valid [of "''0a1b2c3d-4e''" "''My World!''" "''x''" "''y''"]
  by (intro conjI) (simp add: docker_char_def letter_def digit_def, code_simp)

section \<open>Directories to keep\<close>

definition plain_segment :: "string \<Rightarrow> bool" where
  "plain_segment s = (s \<noteq> [] \<and> CHR ''/'' \<notin> set s \<and> s \<noteq> ''.'' \<and> s \<noteq> ''..'' \<and> CHR '':'' \<notin> set s)"

lemma split_rooted:
  "list_all (\<lambda>s. CHR ''/'' \<notin> set s) segs \<Longrightarrow> segs \<noteq> [] \<Longrightarrow> js_split (CHR ''/'') (rooted segs) = [] # segs"
proof (induction segs)
  case (Cons s segs)
  then show ?case by (cases segs) (auto simp: rooted_def js_split_plain js_split_append)
qed simp

lemma rooted_inject:
  "list_all plain_segment segs \<Longrightarrow> segs \<noteq> [] \<Longrightarrow> segments (rooted segs) = segs"
  unfolding segments_def by (subst split_rooted) (auto simp: list_all_iff plain_segment_def)

lemma set_rooted: "set (rooted segs) \<subseteq> insert (CHR ''/'') (\<Union> (set ` set segs))"
  by (auto simp: rooted_def)

definition plain_path :: "string \<Rightarrow> bool" where
  "plain_path p =
     (segments p \<noteq> [] \<and> list_all plain_segment (segments p) \<and> p = rooted (segments p) \<and> length p \<le> 200)"

lemma persist_path_plain: "persist_path v = Inr p \<Longrightarrow> plain_path p"
proof (cases v)
  case (JStr raw)
  assume r: "persist_path v = Inr p"
  let ?segs = "segments raw"
  have p: "p = rooted ?segs" "?segs \<noteq> []" "''..'' \<notin> set ?segs" "''.'' \<notin> set ?segs" "CHR '':'' \<notin> set raw" "length p \<le> 200"
    using r by (auto simp: persist_path_def JStr Let_def split: if_splits)
  have "list_all plain_segment ?segs"
    using p(3-5) js_split_no_sep [of _ "CHR ''/''" raw] js_split_chars [of _ "CHR ''/''" raw]
    by (fastforce simp: list_all_iff plain_segment_def segments_def)
  then show ?thesis using p by (simp add: plain_path_def rooted_inject)
qed (simp_all add: persist_path_def)

lemma plain_path_accepted:
  assumes "plain_path p"
  shows "persist_path (JStr p) = Inr p"
proof -
  have p: "segments p \<noteq> []" "list_all plain_segment (segments p)" "p = rooted (segments p)" "length p \<le> 200"
    using assms by (simp_all add: plain_path_def)
  have "starts_with (rooted (segments p)) ''/''"
    using p(1) by (cases "segments p") (simp_all add: rooted_def starts_with_def)
  then have s: "starts_with p ''/''" by (simp only: p(3) [symmetric])
  have "CHR '':'' \<notin> set (rooted (segments p))"
    using p(2) set_rooted [of "segments p"] by (fastforce simp: list_all_iff plain_segment_def)
  then have c: "CHR '':'' \<notin> set p" by (subst p(3))
  have "''..'' \<notin> set (segments p)" "''.'' \<notin> set (segments p)"
    using p(2) by (auto simp: list_all_iff plain_segment_def)
  then show ?thesis using p(1,4) s c by (simp add: persist_path_def Let_def p(3) [symmetric])
qed

lemma persist_paths_good:
  "persist_paths vs acc = Inr ps \<Longrightarrow> list_all plain_path acc \<Longrightarrow> distinct acc \<Longrightarrow>
     list_all plain_path ps \<and> distinct ps \<and> length ps \<le> length acc + length vs"
proof (induction vs arbitrary: acc)
  case (Cons v vs)
  then obtain p where p: "persist_path v = Inr p" "persist_paths vs (if p \<in> set acc then acc else acc @ [p]) = Inr ps"
    by (cases "persist_path v") (auto simp: and_then_def)
  show ?case
    using Cons.IH [OF p(2)] Cons.prems(2,3) persist_path_plain [OF p(1)]
    by (cases "p \<in> set acc") auto
qed simp

lemma persist_paths_again:
  "list_all plain_path ps \<Longrightarrow> distinct (acc @ ps) \<Longrightarrow> persist_paths (map JStr ps) acc = Inr (acc @ ps)"
  by (induction ps arbitrary: acc) (auto simp: plain_path_accepted and_then_def)

text \<open>
  The directories accepted for keeping are at most ten different plain absolute paths (not the
  root, no dot segments, no colon, at most 200 characters), and sending them again stores them
  unchanged.
\<close>

theorem persistPaths_stable:
  assumes "parsePersistPaths v = Inr ps"
  shows "parsePersistPaths (JArr (map JStr ps)) = Inr ps \<and> list_all plain_path ps \<and> distinct ps \<and> length ps \<le> 10"
proof -
  obtain vs where vs: "v = JArr vs" "length vs \<le> max_persist_paths" "persist_paths vs [] = Inr ps"
    using assms by (auto simp: parsePersistPaths_def split: json.splits if_splits)
  have "list_all plain_path ps" "distinct ps" "length ps \<le> length vs"
    using persist_paths_good [OF vs(3)] by simp_all
  then show ?thesis
    using vs(2) persist_paths_again [of ps "[]"] by (simp add: parsePersistPaths_def max_persist_paths_def)
qed

lemma persistPaths_stable_witness:
  "parsePersistPaths (JArr [JStr ''/data'', JStr ''/srv/x'']) = Inr [''/data'', ''/srv/x'']"
  using persistPaths_stable [of "JArr [JStr ''//data/'', JStr ''/srv//x'', JStr ''/data'']" "[''/data'', ''/srv/x'']"]
  by (simp add: parsePersistPaths_def max_persist_paths_def persist_path_def segments_def rooted_def starts_with_def and_then_def Let_def)

end
