(* ===== verification/Cron.thy ===== *)
theory Cron
  imports Js_Date Js_Text
begin

text \<open>
  The cron matcher (\<^verbatim>\<open>cron.ts\<close>). Numbers are doubles, as in the source, and the loop over a range
  is a partial function: \<open>None\<close> where it never returns.

  The lemmas: a field whose numbers stay below \<open>2^52\<close> is read in finite time and holds exactly the
  values its parts describe; with numbers near \<open>2^53\<close> the loop of a range runs for ever, so neither
  the matcher nor the validation returns.
\<close>

section \<open>Reading numbers\<close>

text \<open>\<open>parseInt(s, 10)\<close>, \<open>None\<close> where it is not a finite number.\<close>

definition js_parse_int :: "string \<Rightarrow> rat option" where
  "js_parse_int s =
     (let t = dropWhile js_space s;
          (neg, t) = (case t of c # u \<Rightarrow> if c = CHR ''-'' then (True, u) else if c = CHR ''+'' then (False, u) else (False, t)
            | [] \<Rightarrow> (False, []));
          ds = takeWhile digit t;
          v = b64 (of_nat (digits_val ds))
      in if ds = [] \<or> v \<ge> 2 ^ 1024 then None else Some (if neg then - v else v))"

text \<open>\<open>trim().split(/\s+/)\<close>.\<close>

function cut_words :: "string \<Rightarrow> string list" where
  "cut_words s =
     (let w = takeWhile (\<lambda>c. \<not> js_space c) s; rest = dropWhile (\<lambda>c. \<not> js_space c) s
      in if rest = [] then [w] else w # cut_words (dropWhile js_space rest))"
  by pat_completeness auto
termination
proof (relation "measure length")
  fix s w rest :: string
  assume "w = takeWhile (\<lambda>c. \<not> js_space c) s" and r: "rest = dropWhile (\<lambda>c. \<not> js_space c) s" and n: "rest \<noteq> []"
  then have "js_space (hd rest)" using hd_dropWhile [of "\<lambda>c. \<not> js_space c" s] by simp
  then have "dropWhile js_space rest = dropWhile js_space (tl rest)" using n by (cases rest) auto
  then have "length (dropWhile js_space rest) \<le> length (tl rest)" by (metis length_dropWhile_le)
  also have "\<dots> < length rest" using n by (cases rest) auto
  also have "length rest \<le> length s" by (simp add: r length_dropWhile_le)
  finally show "(dropWhile js_space rest, s) \<in> measure length" by simp
qed simp

declare cut_words.simps [simp del]

definition cron_fields :: "string \<Rightarrow> string list" where
  "cron_fields s = cut_words (js_trim s)"

section \<open>One field\<close>

text \<open>The range and step of a part, \<open>None\<close> where the part is skipped.\<close>

definition part_step :: "string list \<Rightarrow> rat option" where
  "part_step pieces =
     (case pieces of
        _ # s # _ \<Rightarrow> if s = [] then Some 1 else js_parse_int s
      | _ \<Rightarrow> Some 1)"

definition part_bounds :: "rat \<Rightarrow> rat \<Rightarrow> string \<Rightarrow> (rat \<times> rat) option" where
  "part_bounds mn mx r =
     (if r = ''*'' \<or> r = [] then Some (mn, mx)
      else case js_split (CHR ''-'') r of
        [] \<Rightarrow> None
      | [a] \<Rightarrow> map_option (\<lambda>lo. (lo, lo)) (js_parse_int a)
      | a # b # _ \<Rightarrow> (case (js_parse_int a, js_parse_int b) of (Some lo, Some hi) \<Rightarrow> Some (lo, hi) | _ \<Rightarrow> None))"

definition part_range :: "rat \<Rightarrow> rat \<Rightarrow> string \<Rightarrow> (rat \<times> rat \<times> rat) option" where
  "part_range mn mx part =
     (let pieces = js_split (CHR ''/'') part
      in case part_step pieces of None \<Rightarrow> None
         | Some st \<Rightarrow> if st < 1 then None else map_option (\<lambda>(lo, hi). (lo, hi, st)) (part_bounds mn mx (hd pieces)))"

text \<open>\<open>for (let v = lo; v <= hi; v += step) if (v >= min && v <= max) out.add(v)\<close>.\<close>

partial_function (option) field_loop :: "rat \<Rightarrow> rat \<Rightarrow> rat \<Rightarrow> rat \<Rightarrow> rat \<Rightarrow> rat list \<Rightarrow> rat list option" where
  "field_loop mn mx hi st v out =
     (if v \<le> hi then field_loop mn mx hi st (jadd v st) (if mn \<le> v \<and> v \<le> mx then List.insert v out else out)
      else Some out)"

declare field_loop.simps [code]

fun field_parts :: "rat \<Rightarrow> rat \<Rightarrow> string list \<Rightarrow> rat list \<Rightarrow> rat list option" where
  "field_parts mn mx [] out = Some out"
| "field_parts mn mx (p # ps) out =
     (case part_range mn mx p of
        None \<Rightarrow> field_parts mn mx ps out
      | Some (lo, hi, st) \<Rightarrow> Option.bind (field_loop mn mx hi st lo out) (field_parts mn mx ps))"

definition parseField :: "string \<Rightarrow> rat \<Rightarrow> rat \<Rightarrow> rat list option" where
  "parseField field mn mx = field_parts mn mx (js_split (CHR '','') field) []"

section \<open>Expressions\<close>

definition cronMatches :: "string \<Rightarrow> time \<Rightarrow> bool option" where
  "cronMatches expr t =
     (case cron_fields expr of
        [f0, f1, f2, f3, f4] \<Rightarrow>
          Option.bind (parseField f0 0 59) (\<lambda>minutes.
          Option.bind (parseField f1 0 23) (\<lambda>hours.
          Option.bind (parseField f2 1 31) (\<lambda>doms.
          Option.bind (parseField f3 1 12) (\<lambda>months.
          Option.bind (parseField f4 0 7) (\<lambda>dows.
            let dow = utc_weekday t;
                domMatch = (of_int (utc_date t) \<in> set doms);
                dowMatch = (of_int dow \<in> set dows \<or> (dow = 0 \<and> 7 \<in> set dows));
                dayMatch = (if f2 \<noteq> ''*'' \<and> f4 \<noteq> ''*'' then domMatch \<or> dowMatch else domMatch \<and> dowMatch)
            in Some (of_int (utc_minutes t) \<in> set minutes \<and> of_int (utc_hours t) \<in> set hours
                 \<and> of_int (utc_month t + 1) \<in> set months \<and> dayMatch))))))
      | _ \<Rightarrow> Some False)"

text \<open>\<open>every\<close> stops at the first field that allows nothing.\<close>

fun every_field :: "(string \<times> rat \<times> rat) list \<Rightarrow> bool option" where
  "every_field [] = Some True"
| "every_field ((f, mn, mx) # fs) =
     Option.bind (parseField f mn mx) (\<lambda>vs. if vs = [] then Some False else every_field fs)"

definition isValidCron :: "string \<Rightarrow> bool option" where
  "isValidCron expr =
     (let fields = cron_fields expr
      in if length fields \<noteq> 5 then Some False
         else every_field (zip fields [(0, 59), (0, 23), (1, 31), (1, 12), (0, 7)]))"

section \<open>The loop of a range\<close>

lemma jadd_int:
  assumes "\<bar>a + b\<bar> \<le> 2 ^ 53"
  shows "jadd (of_int a) (of_int b) = of_int (a + b)"
  using b64_exact_int [OF assms] by (simp add: jadd_def)

lemma insert_twice: "set (List.insert x xs) = insert x (set xs)"
  by simp

text \<open>Below \<open>2^52\<close> every sum is exact, and the loop ends with the values it passed.\<close>

lemma field_loop_exact:
  fixes a h s :: int
  assumes "0 \<le> a" "a \<le> 2 ^ 53" "h \<le> 2 ^ 52" "1 \<le> s" "s \<le> 2 ^ 52"
  shows "\<exists>out'. field_loop mn mx (of_int h) (of_int s) (of_int a) out = Some out'
    \<and> set out' = set out \<union> {v. mn \<le> v \<and> v \<le> mx \<and> (\<exists>k :: nat. v = of_int (a + int k * s) \<and> a + int k * s \<le> h)}"
  using assms(1,2)
proof (induction "nat (h + 1 - a)" arbitrary: a out rule: less_induct)
  case less
  let ?vals = "\<lambda>a. {v. mn \<le> v \<and> v \<le> mx \<and> (\<exists>k :: nat. v = of_int (a + int k * s) \<and> a + int k * s \<le> h)}"
  show ?case
  proof (cases "a \<le> h")
    case True
    let ?out = "if mn \<le> of_int a \<and> of_int a \<le> mx then List.insert (of_int a) out else out"
    have next_v: "jadd (of_int a) (of_int s) = of_int (a + s)"
      using True less.prems assms by (intro jadd_int) simp
    have "\<exists>out'. field_loop mn mx (of_int h) (of_int s) (of_int (a + s)) ?out = Some out' \<and> set out' = set ?out \<union> ?vals (a + s)"
      using True assms less.prems by (intro less.hyps) auto
    moreover have "?vals a = ?vals (a + s) \<union> (if mn \<le> of_int a \<and> of_int a \<le> mx then {of_int a} else {})"
    proof (intro equalityI subsetI)
      fix v
      assume "v \<in> ?vals a"
      then obtain k :: nat where k: "v = of_int (a + int k * s)" "a + int k * s \<le> h" "mn \<le> v" "v \<le> mx" by auto
      show "v \<in> ?vals (a + s) \<union> (if mn \<le> of_int a \<and> of_int a \<le> mx then {of_int a} else {})"
      proof (cases k)
        case 0
        then show ?thesis using k by simp
      next
        case (Suc m)
        then have "a + int k * s = (a + s) + int m * s" by (simp add: algebra_simps)
        then show ?thesis using k by auto
      qed
    next
      fix v
      assume "v \<in> ?vals (a + s) \<union> (if mn \<le> of_int a \<and> of_int a \<le> mx then {of_int a} else {})"
      then consider k :: nat where "v = of_int (a + s + int k * s)" "a + s + int k * s \<le> h" "mn \<le> v" "v \<le> mx"
        | "v = of_int a" "mn \<le> v" "v \<le> mx" by (auto split: if_splits)
      then show "v \<in> ?vals a"
      proof cases
        case 1
        then have "a + s + int k * s = a + int (Suc k) * s" by (simp add: algebra_simps)
        then show ?thesis using 1 by (metis (mono_tags, lifting) mem_Collect_eq)
      next
        case 2
        then show ?thesis using True by (auto intro: exI [of _ 0])
      qed
    qed
    moreover have "field_loop mn mx (of_int h) (of_int s) (of_int a) out = field_loop mn mx (of_int h) (of_int s) (of_int (a + s)) ?out"
      using True next_v by (subst field_loop.simps) simp
    ultimately show ?thesis by auto
  next
    case False
    then have none: "?vals a = {}" using assms(4) by (auto simp: not_le intro: less_le_trans add_increasing2)
    have "field_loop mn mx (of_int h) (of_int s) (of_int a) out = Some out" using False by (subst field_loop.simps) simp
    then show ?thesis unfolding none by simp
  qed
qed

lemma field_loop_stuck: "field_loop mn mx (2 ^ 53 + 2) 1 (2 ^ 53) out = None"
proof -
  have "ilog2n 9007199254740993 = 53" by (simp add: ilog2n.simps)
  then have e: "b64_exp 9007199254740993 = 1" by (simp add: b64_exp_def ilog2_def)
  have "9007199254740993 / 2 = (of_int 4503599627370496 + 1 / 2 :: rat)" by simp
  then have f: "\<lfloor>9007199254740993 / 2 :: rat\<rfloor> = 4503599627370496" by (simp only: floor_add_int) simp
  have "rne (9007199254740993 / 2) = 4503599627370496" by (simp add: rne_def f Let_def)
  then have step: "jadd (2 ^ 53) 1 = 2 ^ 53" by (simp add: jadd_def b64_def e)
  have stuck: "hi = 2 ^ 53 + 2 \<longrightarrow> st = 1 \<longrightarrow> v \<noteq> 2 ^ 53"
    if "field_loop mn mx hi st v out = Some y" for mn mx hi st v out y
  proof (rule field_loop.raw_induct [where P = "\<lambda>mn mx hi st v out y. hi = 2 ^ 53 + 2 \<longrightarrow> st = 1 \<longrightarrow> v \<noteq> 2 ^ 53", OF _ that])
    fix loop mn mx hi st v out y
    assume IH: "\<And>mn mx hi st v out y. loop mn mx hi st v out = Some y \<Longrightarrow> hi = 2 ^ 53 + 2 \<longrightarrow> st = 1 \<longrightarrow> v \<noteq> 2 ^ 53"
      and body: "(if v \<le> hi then loop mn mx hi st (jadd v st) (if mn \<le> v \<and> v \<le> mx then List.insert v out else out)
        else Some out) = Some y"
    show "hi = 2 ^ 53 + 2 \<longrightarrow> st = 1 \<longrightarrow> v \<noteq> 2 ^ 53"
    proof (intro impI notI)
      assume h: "hi = 2 ^ 53 + 2" "st = 1" "v = 2 ^ 53"
      then have "loop mn mx hi st (2 ^ 53) (if mn \<le> v \<and> v \<le> mx then List.insert v out else out) = Some y"
        using body step by simp
      then show False using IH h(1,2) by blast
    qed
  qed
  then show ?thesis using stuck [of mn mx "2 ^ 53 + 2" 1 "2 ^ 53" out] by (metis option.exhaust)
qed

section \<open>Fields\<close>

text \<open>The numbers of a part stay below \<open>2^52\<close>; they are then whole and not negative.\<close>

definition part_small :: "rat \<Rightarrow> rat \<Rightarrow> string \<Rightarrow> bool" where
  "part_small mn mx p =
     (case part_range mn mx p of None \<Rightarrow> True | Some (lo, hi, st) \<Rightarrow> lo \<le> 2 ^ 52 \<and> hi \<le> 2 ^ 52 \<and> st \<le> 2 ^ 52)"

text \<open>What a part allows: from its first value, in steps, up to its last, within the field.\<close>

definition part_allows :: "rat \<Rightarrow> rat \<Rightarrow> string \<Rightarrow> rat \<Rightarrow> bool" where
  "part_allows mn mx p v =
     (case part_range mn mx p of None \<Rightarrow> False
      | Some (lo, hi, st) \<Rightarrow> mn \<le> v \<and> v \<le> mx \<and> v \<le> hi \<and> (\<exists>k :: nat. v = lo + of_nat k * st))"

lemma b64_nat_int: "\<exists>k. b64 (of_nat n) = of_int k"
proof (cases "n < 2 ^ 53")
  case True
  then have "\<bar>int n\<bar> \<le> 2 ^ 53" by simp
  then have "b64 (of_int (int n)) = of_int (int n)" by (rule b64_exact_int)
  then show ?thesis by (metis of_int_of_nat_eq)
next
  case False
  then have n: "(0 :: rat) < of_nat n" "(1 :: rat) \<le> of_nat n" by simp_all
  have "(2 :: rat) ^ 53 \<le> of_nat n" using False by (metis not_less of_nat_le_iff of_nat_numeral of_nat_power)
  also have "\<dots> < 2 powi (ilog2 (of_nat n) + 1)" using ilog2_bounds(2) [OF n(1)] .
  finally have "(2 :: rat) powi 53 < 2 powi (ilog2 (of_nat n) + 1)" by simp
  then have "53 < ilog2 (of_nat n) + 1" by (metis not_le pow2_mono)
  then have "0 \<le> b64_exp (of_nat n)" by (simp add: b64_exp_def)
  then obtain j where e: "b64_exp (of_nat n) = int j" by (metis nonneg_int_cases)
  have "b64 (of_nat n) = of_int (rne (of_nat n / 2 ^ j) * 2 ^ j)" using n by (simp add: b64_def e)
  then show ?thesis by blast
qed

lemma parse_int_whole: "js_parse_int s = Some v \<Longrightarrow> \<exists>k. v = of_int k"
  using b64_nat_int by (auto simp: js_parse_int_def Let_def split: list.splits if_splits) (metis of_int_minus)+

lemma parse_int_nonneg: "CHR ''-'' \<notin> set s \<Longrightarrow> js_parse_int s = Some v \<Longrightarrow> 0 \<le> v"
  using set_dropWhileD [of "CHR ''-''" js_space s]
  by (auto simp: js_parse_int_def Let_def b64_nonneg split: list.splits if_splits)

lemma part_bounds_whole:
  assumes "part_bounds (of_int m) (of_int n) r = Some (lo, hi)" "0 \<le> m"
  shows "\<exists>a h. lo = of_int a \<and> hi = of_int h \<and> 0 \<le> a"
proof -
  have "\<exists>a. v = of_int a \<and> 0 \<le> a" if "js_parse_int s = Some v" "CHR ''-'' \<notin> set s" for s v
    using parse_int_whole [OF that(1)] parse_int_nonneg [OF that(2,1)] by auto
  moreover have "CHR ''-'' \<notin> set s" if "s \<in> set (js_split (CHR ''-'') r)" for s
    using that by (rule js_split_no_sep)
  ultimately show ?thesis using assms
    by (auto simp: part_bounds_def split: if_splits list.splits option.splits)
      (metis list.set_intros(1) list.set_intros(2))+
qed

lemma part_exact:
  assumes "part_range (of_int m) (of_int n) p = Some (lo, hi, st)" "0 \<le> m" "part_small (of_int m) (of_int n) p"
  shows "\<exists>out'. field_loop (of_int m) (of_int n) hi st lo out = Some out' \<and> set out' = set out \<union> {v. part_allows (of_int m) (of_int n) p v}"
proof -
  have "part_bounds (of_int m) (of_int n) (hd (js_split (CHR ''/'') p)) = Some (lo, hi)"
    and st: "1 \<le> st" "part_step (js_split (CHR ''/'') p) = Some st"
    using assms(1) by (auto simp: part_range_def Let_def split: option.splits if_splits)
  from part_bounds_whole [OF this(1) assms(2)] obtain a h where ah: "lo = of_int a" "hi = of_int h" "0 \<le> a" by blast
  have "\<exists>k. st = of_int k"
    using st(2) parse_int_whole by (fastforce simp: part_step_def split: list.splits if_splits intro: exI [of _ 1])
  then obtain k where k: "st = of_int k" by blast
  have small: "lo \<le> 2 ^ 52" "hi \<le> 2 ^ 52" "st \<le> 2 ^ 52" using assms(1,3) by (simp_all add: part_small_def)
  have "of_int a \<le> (of_int (2 ^ 52) :: rat)" "of_int h \<le> (of_int (2 ^ 52) :: rat)" "of_int k \<le> (of_int (2 ^ 52) :: rat)"
    "of_int 1 \<le> (of_int k :: rat)"
    using small st(1) by (simp_all add: ah k)
  then have "a \<le> 2 ^ 52" "h \<le> 2 ^ 52" "k \<le> 2 ^ 52" "1 \<le> k" by (simp_all only: of_int_le_iff)
  then have "\<exists>out'. field_loop (of_int m) (of_int n) (of_int h) (of_int k) (of_int a) out = Some out'
    \<and> set out' = set out \<union> {v. of_int m \<le> v \<and> v \<le> of_int n \<and> (\<exists>j :: nat. v = of_int (a + int j * k) \<and> a + int j * k \<le> h)}"
    using ah(3) by (intro field_loop_exact) simp_all
  moreover have "part_allows (of_int m) (of_int n) p v \<longleftrightarrow>
      of_int m \<le> v \<and> v \<le> of_int n \<and> (\<exists>j :: nat. v = of_int (a + int j * k) \<and> a + int j * k \<le> h)" for v
  proof -
    have "(of_int (a + int j * k) :: rat) \<le> of_int h \<longleftrightarrow> a + int j * k \<le> h" for j by (rule of_int_le_iff)
    then have "(\<exists>j :: nat. v = of_int (a + int j * k) \<and> a + int j * k \<le> h)
        \<longleftrightarrow> v \<le> of_int h \<and> (\<exists>j :: nat. v = of_int a + of_nat j * of_int k)" by auto
    then show ?thesis by (simp add: part_allows_def assms(1) ah(1,2) k)
  qed
  ultimately show ?thesis by (simp add: ah(1,2) k)
qed

lemma field_parts_exact:
  assumes "list_all (part_small (of_int m) (of_int n)) ps" "0 \<le> m"
  shows "\<exists>out'. field_parts (of_int m) (of_int n) ps out = Some out'
    \<and> set out' = set out \<union> {v. list_ex (\<lambda>p. part_allows (of_int m) (of_int n) p v) ps}"
  using assms(1)
proof (induction ps arbitrary: out)
  case (Cons p ps)
  show ?case
  proof (cases "part_range (of_int m) (of_int n) p")
    case None
    then show ?thesis using Cons by (auto simp: part_allows_def)
  next
    case (Some t)
    obtain lo hi st where t: "t = (lo, hi, st)" by (cases t)
    from part_exact [OF Some [unfolded t] assms(2)] Cons.prems obtain out1
      where o: "field_loop (of_int m) (of_int n) hi st lo out = Some out1"
        "set out1 = set out \<union> {v. part_allows (of_int m) (of_int n) p v}" by fastforce
    from Cons.IH [of out1] Cons.prems obtain out2
      where "field_parts (of_int m) (of_int n) ps out1 = Some out2"
        "set out2 = set out1 \<union> {v. list_ex (\<lambda>p. part_allows (of_int m) (of_int n) p v) ps}" by auto
    then show ?thesis using o by (auto simp: Some t)
  qed
qed simp

text \<open>
  C21: A cron field whose numbers stay below \<open>2^52\<close> is read in finite time, and the values it holds
  are exactly those one of its comma-separated parts allows.
\<close>

theorem field_exact:
  assumes "list_all (part_small (of_int m) (of_int n)) (js_split (CHR '','') f)" "0 \<le> m"
  shows "\<exists>vs. parseField f (of_int m) (of_int n) = Some vs
    \<and> (\<forall>v. v \<in> set vs \<longleftrightarrow> list_ex (\<lambda>p. part_allows (of_int m) (of_int n) p v) (js_split (CHR '','') f))"
  using field_parts_exact [OF assms, of "[]"] by (auto simp: parseField_def)

lemma field_exact_witness: "\<exists>vs. parseField ''*/20,7'' 0 59 = Some vs \<and> 7 \<in> set vs \<and> 8 \<notin> set vs"
proof -
  have r: "part_range 0 59 ''*/20'' = Some (0, 59, 20)" "part_range 0 59 ''7'' = Some (7, 7, 1)"
    by (simp_all add: part_range_def part_step_def part_bounds_def js_parse_int_def js_space_def digit_def digits_val_def digit_val_def)
  have s: "js_split (CHR '','') ''*/20,7'' = [''*/20'', ''7'']" by simp
  have "list_all (part_small (of_int 0) (of_int 59)) (js_split (CHR '','') ''*/20,7'')" by (simp add: s part_small_def r)
  from field_exact [OF this] obtain vs where vs: "parseField ''*/20,7'' 0 59 = Some vs"
    "\<And>v. v \<in> set vs \<longleftrightarrow> part_allows 0 59 ''*/20'' v \<or> part_allows 0 59 ''7'' v" by (auto simp: s)
  have "(8 :: rat) \<noteq> of_nat k * 20" for k
  proof
    assume "(8 :: rat) = of_nat k * 20"
    then have "(of_nat 8 :: rat) = of_nat (k * 20)" by simp
    then show False by (simp only: of_nat_eq_iff) presburger
  qed
  then show ?thesis using vs by (intro exI [of _ vs]) (auto simp: part_allows_def r intro: exI [of _ 0])
qed

text \<open>
  The validation of an expression with a range beyond \<open>2^53\<close> never returns: the counter of the
  loop stops growing below the upper end.
\<close>

theorem cron_hangs: "isValidCron ''9007199254740992-9007199254740994 * * * *'' = None"
proof -
  let ?f = "''9007199254740992-9007199254740994''"
  have fields: "cron_fields (?f @ '' * * * *'') = [?f, ''*'', ''*'', ''*'', ''*'']" by code_simp
  have parts: "js_split (CHR '','') ?f = [?f]" "js_split (CHR ''/'') ?f = [?f]"
    "js_split (CHR ''-'') ?f = [''9007199254740992'', ''9007199254740994'']" by code_simp+
  have "ilog2n 9007199254740994 = 53" by (simp add: ilog2n.simps)
  then have "b64_exp 9007199254740994 = 1" by (simp add: b64_exp_def ilog2_def)
  moreover have "rne 4503599627370497 = 4503599627370497" using rne_of_int [of 4503599627370497] by simp
  ultimately have b: "b64 9007199254740994 = 9007199254740994" by (simp add: b64_def)
  have "js_parse_int ''9007199254740992'' = Some (2 ^ 53)" "js_parse_int ''9007199254740994'' = Some (2 ^ 53 + 2)"
    by (simp_all add: js_parse_int_def js_space_def digit_def digits_val_def digit_val_def b)
  then have "part_range 0 59 ?f = Some (2 ^ 53, 2 ^ 53 + 2, 1)"
    by (simp add: part_range_def parts part_step_def part_bounds_def)
  then have "parseField ?f 0 59 = None" by (simp add: parseField_def parts field_loop_stuck [simplified])
  then show ?thesis using fields by (simp add: isValidCron_def)
qed

end
