(* ===== verification/Backups.thy ===== *)
theory Backups
  imports Control
begin

text \<open>
  Taking backups and letting old ones go (\<^verbatim>\<open>backups.ts\<close>, \<^verbatim>\<open>retention.ts\<close>, the backup routes of
  \<^verbatim>\<open>api.ts\<close>). The node agents, the plan's ceiling and the collation of ids are the record
  \<open>backup_context\<close>.

  The lemmas: a policy expires a backup exactly when it breaks one of the two limits, and never the
  newest; enforcing a policy removes exactly the expired backups whose file the node let go of, and
  enforcing it again removes nothing.
\<close>

section \<open>What a policy keeps\<close>

text \<open>\<open>xs.filter((x, index) => p)\<close>.\<close>

fun filter_index :: "(nat \<Rightarrow> 'a \<Rightarrow> bool) \<Rightarrow> nat \<Rightarrow> 'a list \<Rightarrow> 'a list" where
  "filter_index p k [] = []"
| "filter_index p k (x # xs) = (if p k x then x # filter_index p (Suc k) xs else filter_index p (Suc k) xs)"

definition max_keep_last :: nat where "max_keep_last = 1000"
definition max_keep_days :: nat where "max_keep_days = 3650"

text \<open>A limit that is absent or zero is no limit.\<close>

definition limit_of :: "nat option \<Rightarrow> nat option" where
  "limit_of v = (case v of None \<Rightarrow> None | Some n \<Rightarrow> if n = 0 then None else Some n)"

definition backup_order :: "(string \<Rightarrow> nat) \<Rightarrow> server_backup list \<Rightarrow> server_backup list" where
  "backup_order collate bs = newest_first bk_createdAt (sort_key (\<lambda>b. - int (collate (bk_id b))) bs)"

definition expires :: "retention \<Rightarrow> time \<Rightarrow> nat \<Rightarrow> server_backup \<Rightarrow> bool" where
  "expires policy now index b =
     (index \<noteq> 0
      \<and> ((case limit_of (rt_keepLast policy) of None \<Rightarrow> False | Some n \<Rightarrow> index \<ge> n)
         \<or> (case limit_of (rt_keepDays policy) of None \<Rightarrow> False | Some d \<Rightarrow> bk_createdAt b < now - int d * ms_per_day)))"

definition expiredBackups :: "(string \<Rightarrow> nat) \<Rightarrow> server_backup list \<Rightarrow> retention \<Rightarrow> time \<Rightarrow> server_backup list" where
  "expiredBackups collate bs policy now =
     (if limit_of (rt_keepLast policy) = None \<and> limit_of (rt_keepDays policy) = None then []
      else filter_index (expires policy now) 0 (backup_order collate bs))"

definition withPlanCeiling :: "retention \<Rightarrow> nat option \<Rightarrow> retention" where
  "withPlanCeiling policy most =
     (case limit_of most of None \<Rightarrow> policy
      | Some c \<Rightarrow> policy\<lparr>rt_keepLast := Some (case limit_of (rt_keepLast policy) of None \<Rightarrow> c | Some n \<Rightarrow> min n c)\<rparr>)"

definition retention_field :: "json \<Rightarrow> string \<Rightarrow> nat \<Rightarrow> string \<Rightarrow> (string, nat option) result" where
  "retention_field v key most what =
     (case jprop v key of
        JUndef \<Rightarrow> Inr None
      | JNull \<Rightarrow> Inr None
      | JNum n \<Rightarrow>
          if is_integral n \<and> 1 \<le> n \<and> n \<le> of_nat most then Inr (Some (nat \<lfloor>n\<rfloor>))
          else Inl (key @ '' must be a whole number of '' @ what @ '' from 1 to '' @ show_nat most)
      | _ \<Rightarrow> Inl (key @ '' must be a whole number of '' @ what @ '' from 1 to '' @ show_nat most))"

definition parseRetention :: "json \<Rightarrow> (string, retention) result" where
  "parseRetention v =
     (case v of
        JObj _ \<Rightarrow>
          and_then (retention_field v ''keepLast'' max_keep_last ''backups'') (\<lambda>n.
          and_then (retention_field v ''keepDays'' max_keep_days ''days'') (\<lambda>d.
            Inr \<lparr>rt_keepLast = n, rt_keepDays = d\<rparr>))
      | _ \<Rightarrow> Inl ''retention must be an object like { \"keepLast\": 7, \"keepDays\": 30 }'')"

section \<open>Taking a backup\<close>

record snapshot =
  sn_ref :: string
  sn_sizeBytes :: nat
  sn_path :: string
  sn_offsite :: "string option"
  sn_offsiteError :: "string option"

datatype snapshot_error = PathMissing string | SnapshotFailed string

record backup_context =
  bx_snapshot :: "string option \<Rightarrow> string \<Rightarrow> string \<Rightarrow> (snapshot_error, snapshot) result"
  bx_remove :: "string option \<Rightarrow> string \<Rightarrow> bool"
  bx_restore :: "string option \<Rightarrow> string \<Rightarrow> string \<Rightarrow> string \<Rightarrow> (nat \<times> string, unit) result"
  bx_ceiling :: "string \<Rightarrow> nat option"
  bx_collate :: "string \<Rightarrow> nat"

definition defaultBackupPath :: "server_config \<Rightarrow> string" where
  "defaultBackupPath c =
     (case dataMountFor c of Some (h, p) \<Rightarrow> p
      | None \<Rightarrow> (case persistPathsFor c of [] \<Rightarrow> ''/data'' | p # _ \<Rightarrow> p))"

definition backup_name :: "time \<Rightarrow> string" where
  "backup_name t = ''backup-'' @ map (\<lambda>c. if c = CHR '':'' \<or> c = CHR ''.'' then CHR ''-'' else c) (iso t)"

text \<open>The expired backups, one by one: a file the node keeps stays on record.\<close>

fun remove_each :: "(string \<Rightarrow> bool) \<Rightarrow> server_backup list \<Rightarrow> orch \<Rightarrow> nat \<times> orch" where
  "remove_each gone [] r = (0, r)"
| "remove_each gone (b # bs) r =
     (if gone (bk_ref b) then let (n, r) = remove_each gone bs (deleteBackup (bk_id b) r) in (Suc n, r)
      else remove_each gone bs r)"

definition owner_node :: "string \<Rightarrow> orch \<Rightarrow> string option" where
  "owner_node i r = Option.bind (getDeployment_o i r) dp_nodeId"

definition enforceRetention :: "backup_context \<Rightarrow> time \<Rightarrow> string \<Rightarrow> time \<Rightarrow> orch \<Rightarrow> nat \<times> orch" where
  "enforceRetention bx clock i now r =
     (case getDeploymentConfig i r of None \<Rightarrow> (0, r)
      | Some c \<Rightarrow>
          let own = sc_backupRetention c;
              policy = withPlanCeiling own (bx_ceiling bx (sc_userId c));
              expired = expiredBackups (bx_collate bx) (listBackups i r) policy now
          in if expired = [] then (0, r)
             else
               let (removed, r) = remove_each (bx_remove bx (owner_node i r)) expired r
               in if removed = 0 then (0, r)
                  else (removed, appendDeploymentEvent clock i ''backups-expired''
                     (''retention removed '' @ show_nat removed @ '' backup'' @ (if removed = 1 then [] else ''s'')
                       @ (if rt_keepLast policy \<noteq> rt_keepLast own
                          then '' (your plan keeps '' @ show_nat (nullish (rt_keepLast policy) 0) @ '' per server)'' else [])) r))"

definition offsite_note :: "snapshot \<Rightarrow> string" where
  "offsite_note s =
     (if sn_offsite s = Some ''stored'' then '', copied off-site''
      else if sn_offsite s = Some ''failed'' then '', but NOT copied off-site: '' @ nullish (sn_offsiteError s) ''upload failed''
      else [])"

definition takeBackup ::
  "backup_context \<Rightarrow> time \<Rightarrow> string \<Rightarrow> string option \<Rightarrow> bool \<Rightarrow> orch \<Rightarrow> (server_backup \<times> nat) reply \<times> orch" where
  "takeBackup bx clock i path by_schedule r =
     (case getDeployment_o i r of
        None \<Rightarrow> (Inl (404, ''deployment not found''), r)
      | Some d \<Rightarrow>
          (case (if dp_status d = Running then given (dp_containerId d) else None) of
             None \<Rightarrow> (Inl (409, ''deployment is not running''), r)
           | Some container \<Rightarrow>
               (case getDeploymentConfig i r of
                  None \<Rightarrow> (Inl (404, ''server config not found''), r)
                | Some c \<Rightarrow>
                    (case bx_snapshot bx (dp_nodeId d) container (nullish path (defaultBackupPath c)) of
                       Inl (PathMissing m) \<Rightarrow> (Inl (404, m), r)
                     | Inl (SnapshotFailed m) \<Rightarrow> (Inl (502, m), r)
                     | Inr s \<Rightarrow>
                         let (b, r) = createBackup clock i (backup_name clock) (sn_path s) (sn_ref s)
                                (of_nat (sn_sizeBytes s)) (sn_offsite s) r;
                             r = appendDeploymentEvent clock i (if by_schedule then ''schedule-backup'' else ''backup-created'')
                                (''snapshot of '' @ sn_path s @ '' ('' @ show_nat (sn_sizeBytes s) @ '' bytes)'' @ offsite_note s) r;
                             (expired, r) = enforceRetention bx clock i clock r
                         in (Inr (b, expired), r)))))"

fun sweep_each :: "backup_context \<Rightarrow> time \<Rightarrow> string list \<Rightarrow> orch \<Rightarrow> nat \<times> orch" where
  "sweep_each bx now [] r = (0, r)"
| "sweep_each bx now (i # ids) r =
     (let (n, r) = enforceRetention bx now i now r; (m, r) = sweep_each bx now ids r in (n + m, r))"

definition sweepRetention :: "backup_context \<Rightarrow> time \<Rightarrow> orch \<Rightarrow> nat \<times> orch" where
  "sweepRetention bx now r = sweep_each bx now (map dp_id (listDeployments r)) r"

section \<open>Backup routes\<close>

definition get_backups :: "principal \<Rightarrow> string \<Rightarrow> orch \<Rightarrow> server_backup list reply" where
  "get_backups p i r = and_then (guarded r p i BackupManage) (\<lambda>(role, d). Inr (listBackups (dp_id d) r))"

definition post_backup ::
  "backup_context \<Rightarrow> time \<Rightarrow> principal \<Rightarrow> string \<Rightarrow> json \<Rightarrow> orch \<Rightarrow> (server_backup \<times> nat) reply \<times> orch" where
  "post_backup bx clock p i body r =
     (case guarded r p i BackupManage of
        Inl e \<Rightarrow> (Inl e, r)
      | Inr _ \<Rightarrow> takeBackup bx clock i (case jprop body ''path'' of JStr s \<Rightarrow> given (Some s) | _ \<Rightarrow> None) False r)"

definition retention_words :: "retention \<Rightarrow> string" where
  "retention_words p =
     (case (limit_of (rt_keepLast p), limit_of (rt_keepDays p)) of
        (None, None) \<Rightarrow> ''keep every backup''
      | (Some n, None) \<Rightarrow> ''keep the last '' @ show_nat n
      | (None, Some d) \<Rightarrow> ''keep '' @ show_nat d @ '' days''
      | (Some n, Some d) \<Rightarrow> ''keep the last '' @ show_nat n @ '', at most '' @ show_nat d @ '' days'')"

definition no_config_patch :: config_patch where
  "no_config_patch = \<lparr>cp_name = None, cp_dockerImage = None, cp_ports = None, cp_env = None, cp_resourceLimits = None,
     cp_autoRestart = None, cp_persistPaths = None, cp_backupRetention = None\<rparr>"

definition put_retention ::
  "backup_context \<Rightarrow> time \<Rightarrow> principal \<Rightarrow> string \<Rightarrow> json \<Rightarrow> orch \<Rightarrow> (retention \<times> nat) reply \<times> orch" where
  "put_retention bx clock p i body r =
     (case guarded r p i BackupManage of
        Inl e \<Rightarrow> (Inl e, r)
      | Inr _ \<Rightarrow>
          (case parseRetention (if body = JUndef \<or> body = JNull then JObj [] else body) of
             Inl m \<Rightarrow> (Inl (400, m), r)
           | Inr policy \<Rightarrow>
               let r = snd (updateDeploymentConfig i (no_config_patch\<lparr>cp_backupRetention := Some policy\<rparr>) r);
                   (expired, r) = enforceRetention bx clock i clock r
               in (Inr (policy, expired), appendDeploymentEvent clock i ''backup-retention-changed'' (retention_words policy) r)))"

definition own_backup :: "string \<Rightarrow> string \<Rightarrow> orch \<Rightarrow> server_backup reply" where
  "own_backup i backupId r =
     (case getBackup backupId r of
        Some b \<Rightarrow> if bk_deploymentId b = i then Inr b else Inl (404, ''backup not found'')
      | None \<Rightarrow> Inl (404, ''backup not found''))"

definition restore_backup :: "backup_context \<Rightarrow> principal \<Rightarrow> string \<Rightarrow> string \<Rightarrow> orch \<Rightarrow> string reply" where
  "restore_backup bx p i backupId r =
     and_then (guarded r p i BackupManage) (\<lambda>_.
     and_then (own_backup i backupId r) (\<lambda>b.
       (case Option.bind (getDeployment_o i r) (\<lambda>d. map_option (Pair (dp_nodeId d)) (given (dp_containerId d))) of
          None \<Rightarrow> Inl (409, ''deployment is not running'')
        | Some (n, container) \<Rightarrow>
            and_then (bx_restore bx n container (bk_ref b) (bk_path b)) (\<lambda>_. Inr (bk_id b)))))"

text \<open>The file first, at best; the record goes whatever the node answered.\<close>

definition delete_backup :: "backup_context \<Rightarrow> principal \<Rightarrow> string \<Rightarrow> string \<Rightarrow> orch \<Rightarrow> unit reply \<times> orch" where
  "delete_backup bx p i backupId r =
     (case and_then (guarded r p i BackupManage) (\<lambda>_. own_backup i backupId r) of
        Inl e \<Rightarrow> (Inl e, r)
      | Inr b \<Rightarrow> (Inr (), deleteBackup (bk_id b) r))"

section \<open>Expired exactly\<close>

lemma set_filter_index: "set (filter_index p k xs) \<subseteq> set xs"
  by (induction xs arbitrary: k) auto

lemma distinct_filter_index: "distinct xs \<Longrightarrow> distinct (filter_index p k xs)"
  using set_filter_index by (induction xs arbitrary: k) fastforce+

text \<open>What is kept, in the same order, keeps its place or moves up: nothing of it expires.\<close>

lemma filter_index_again:
  assumes mono: "\<And>j k x. p j x \<Longrightarrow> j \<le> k \<Longrightarrow> p k x"
  shows "j \<le> k \<Longrightarrow> filter_index p j (filter_index (\<lambda>i x. \<not> p i x) k xs) = []"
proof (induction xs arbitrary: j k)
  case (Cons x xs)
  then show ?case using mono [of j x k] Cons.IH [of "Suc j" "Suc k"] Cons.IH [of j "Suc k"] by auto
qed simp

lemma expires_mono: "expires p now j b \<Longrightarrow> j \<le> k \<Longrightarrow> expires p now k b"
  by (auto simp: expires_def split: option.splits)

lemma filter_not_expired:
  assumes "distinct xs"
  shows "filter (\<lambda>x. x \<notin> set (filter_index p k xs)) xs = filter_index (\<lambda>i x. \<not> p i x) k xs"
  using assms
proof (induction xs arbitrary: k)
  case (Cons a xs)
  have rest: "filter (\<lambda>x. x \<notin> insert a (set (filter_index p (Suc k) xs))) xs = filter (\<lambda>x. x \<notin> set (filter_index p (Suc k) xs)) xs"
    using Cons.prems by (intro filter_cong) auto
  have "a \<notin> set (filter_index p (Suc k) xs)" using Cons.prems set_filter_index [of p "Suc k" xs] by auto
  then show ?case using Cons rest by simp
qed simp

lemma length_filter_index: "length (filter_index p k xs) \<le> length xs"
  by (induction xs arbitrary: k) (auto intro: le_SucI)

lemma filter_index_none: "(\<And>j x. k \<le> j \<Longrightarrow> \<not> p j x) \<Longrightarrow> filter_index p k xs = []"
  by (induction xs arbitrary: k) auto

lemma filter_index_bound:
  "(\<And>i x. i \<ge> n \<Longrightarrow> \<not> q i x) \<Longrightarrow> length (filter_index q k xs) \<le> n - k"
proof (induction xs arbitrary: k)
  case (Cons x xs)
  show ?case
  proof (cases "k \<ge> n")
    case True
    then show ?thesis using Cons.prems filter_index_none [of k q "x # xs"] by simp
  next
    case False
    then show ?thesis using Cons.IH [OF Cons.prems, of "Suc k"] by auto
  qed
qed simp

text \<open>The backups of a server, in order, and what a removal leaves of them.\<close>

definition ordered :: "(string \<Rightarrow> nat) \<Rightarrow> string \<Rightarrow> orch \<Rightarrow> server_backup list" where
  "ordered collate i r = backup_order collate (listBackups i r)"

lemma order_filter: "filter q (backup_order collate bs) = backup_order collate (filter q bs)"
  by (simp add: backup_order_def newest_first_def filter_sort)

lemma set_backup_order [simp]: "set (backup_order collate bs) = set bs"
  by (simp add: backup_order_def newest_first_def)

lemma set_listBackups: "set (listBackups i r) = {b \<in> set (vals (o_backups r)). bk_deploymentId b = i}"
  by (auto simp: listBackups_def newest_first_def)

abbreviation backups_ok :: "orch \<Rightarrow> bool" where
  "backups_ok r \<equiv> table bk_id (o_backups r) (o_drawn r)"

lemma deleteBackup_vals:
  assumes "backups_ok r" "b \<in> set (vals (o_backups r))"
  shows "vals (o_backups (deleteBackup (bk_id b) r)) = filter (\<lambda>x. x \<noteq> b) (vals (o_backups r))"
proof -
  have d: "distinct (map fst (o_backups r))" using assms(1) by (simp add: table_def)
  have id: "bk_id v = k" if "(k, v) \<in> set (o_backups r)" for k v
    using table_ident [OF assms(1), of k v] that map_of_is_SomeI [OF d] by blast
  obtain k where k: "(k, b) \<in> set (o_backups r)" using assms(2) by (auto simp: vals_def)
  have "filter (\<lambda>(k', v). bk_id b \<noteq> k') (o_backups r) = filter (\<lambda>(k', v). v \<noteq> b) (o_backups r)"
  proof (rule filter_cong [OF refl], clarify)
    fix k' v
    assume m: "(k', v) \<in> set (o_backups r)"
    have "v = b" if "k' = k" using eq_key_imp_eq_value [OF d m] k that by simp
    then show "(bk_id b \<noteq> k') = (v \<noteq> b)" unfolding id [OF k] using id [OF k] id [OF m] by metis
  qed
  then show ?thesis
    by (simp add: deleteBackup_def AList.delete_eq vals_def filter_map comp_def split_def)
qed

lemma deleteBackup_ok: "backups_ok r \<Longrightarrow> backups_ok (deleteBackup i r)"
  by (simp add: deleteBackup_def table_delete)

lemma remove_each_vals:
  assumes "backups_ok r" "distinct bs" "set bs \<subseteq> set (vals (o_backups r))"
  shows "backups_ok (snd (remove_each gone bs r))
    \<and> vals (o_backups (snd (remove_each gone bs r))) = filter (\<lambda>x. \<not> (x \<in> set bs \<and> gone (bk_ref x))) (vals (o_backups r))
    \<and> fst (remove_each gone bs r) = length (filter (\<lambda>b. gone (bk_ref b)) bs)"
  using assms
proof (induction bs arbitrary: r)
  case (Cons b bs)
  show ?case
  proof (cases "gone (bk_ref b)")
    case True
    let ?r = "deleteBackup (bk_id b) r"
    have v: "vals (o_backups ?r) = filter (\<lambda>x. x \<noteq> b) (vals (o_backups r))"
      using Cons.prems by (intro deleteBackup_vals) auto
    have "set bs \<subseteq> set (vals (o_backups ?r))" using Cons.prems(2,3) by (auto simp: v)
    moreover have "filter (\<lambda>x. \<not> (x \<in> set bs \<and> gone (bk_ref x))) (filter (\<lambda>x. x \<noteq> b) (vals (o_backups r)))
        = filter (\<lambda>x. \<not> (x \<in> set (b # bs) \<and> gone (bk_ref x))) (vals (o_backups r))"
      using True by (auto simp: intro!: filter_cong)
    ultimately show ?thesis
      using Cons.IH [of ?r] Cons.prems True by (simp add: deleteBackup_ok v split_beta)
  next
    case False
    then have "filter (\<lambda>x. \<not> (x \<in> set bs \<and> gone (bk_ref x))) (vals (o_backups r))
        = filter (\<lambda>x. \<not> (x \<in> set (b # bs) \<and> gone (bk_ref x))) (vals (o_backups r))"
      by (intro filter_cong) auto
    then show ?thesis using Cons.IH [of r] Cons.prems False by simp
  qed
qed simp

lemma remove_each_other [simp]:
  "o_deployments (snd (remove_each gone bs r)) = o_deployments r" "o_configs (snd (remove_each gone bs r)) = o_configs r"
  by (induction bs arbitrary: r) (auto simp: split_beta deleteBackup_def)

definition policy_of :: "backup_context \<Rightarrow> string \<Rightarrow> orch \<Rightarrow> retention" where
  "policy_of bx i r =
     (case getDeploymentConfig i r of None \<Rightarrow> \<lparr>rt_keepLast = None, rt_keepDays = None\<rparr>
      | Some c \<Rightarrow> withPlanCeiling (sc_backupRetention c) (bx_ceiling bx (sc_userId c)))"

definition to_expire :: "backup_context \<Rightarrow> time \<Rightarrow> string \<Rightarrow> orch \<Rightarrow> server_backup list" where
  "to_expire bx now i r = filter_index (expires (policy_of bx i r) now) 0 (ordered (bx_collate bx) i r)"

lemma expires_none:
  "limit_of (rt_keepLast p) = None \<Longrightarrow> limit_of (rt_keepDays p) = None \<Longrightarrow> filter_index (expires p now) k xs = []"
  by (rule filter_index_none) (simp add: expires_def)

lemma expired_alt: "expiredBackups collate bs p now = filter_index (expires p now) 0 (backup_order collate bs)"
  by (simp add: expiredBackups_def expires_none)

lemma distinct_backups: "backups_ok r \<Longrightarrow> distinct (vals (o_backups r))"
proof -
  assume "backups_ok r"
  then have "distinct (map fst (o_backups r))" "map bk_id (vals (o_backups r)) = map fst (o_backups r)"
    by (auto simp: table_def vals_def intro: map_cong)
  then show ?thesis by (metis distinct_map)
qed

lemma distinct_ordered: "backups_ok r \<Longrightarrow> distinct (ordered collate i r)"
  using distinct_backups [of r] by (simp add: ordered_def backup_order_def newest_first_def listBackups_def)

text \<open>Enforcing a policy, whatever branch is taken: the files let go of leave the record.\<close>

lemma enforce_vals:
  assumes "backups_ok r"
  shows "backups_ok (snd (enforceRetention bx t i now r))
    \<and> vals (o_backups (snd (enforceRetention bx t i now r))) =
        filter (\<lambda>b. \<not> (b \<in> set (to_expire bx now i r) \<and> bx_remove bx (owner_node i r) (bk_ref b))) (vals (o_backups r))
    \<and> fst (enforceRetention bx t i now r) = length (filter (\<lambda>b. bx_remove bx (owner_node i r) (bk_ref b)) (to_expire bx now i r))
    \<and> o_deployments (snd (enforceRetention bx t i now r)) = o_deployments r
    \<and> o_configs (snd (enforceRetention bx t i now r)) = o_configs r"
proof (cases "getDeploymentConfig i r")
  case None
  then have "to_expire bx now i r = []" by (simp add: to_expire_def policy_of_def expires_none limit_of_def)
  then show ?thesis using None assms by (simp add: enforceRetention_def)
next
  case (Some c)
  let ?e = "to_expire bx now i r"
  let ?gone = "bx_remove bx (owner_node i r)"
  have e: "expiredBackups (bx_collate bx) (listBackups i r) (withPlanCeiling (sc_backupRetention c) (bx_ceiling bx (sc_userId c))) now = ?e"
    by (simp add: expired_alt to_expire_def policy_of_def ordered_def Some)
  have sub: "set ?e \<subseteq> set (vals (o_backups r))"
    using set_filter_index by (fastforce simp: to_expire_def ordered_def set_listBackups)
  have "distinct ?e" unfolding to_expire_def by (intro distinct_filter_index distinct_ordered assms)
  from remove_each_vals [OF assms this sub, of ?gone] show ?thesis
    using Some
    by (auto simp: enforceRetention_def e Let_def split_beta appendDeploymentEvent_def elim: table_mono [OF _ le_SucI [OF order_refl]])
qed

lemma ordered_after:
  assumes "vals (o_backups s) = filter (\<lambda>b. \<not> (b \<in> e \<and> gone b)) (vals (o_backups r))"
  shows "ordered collate i s = filter (\<lambda>b. \<not> (b \<in> e \<and> gone b)) (ordered collate i r)"
  by (simp add: ordered_def listBackups_def assms order_filter newest_first_def filter_sort conj_commute cong: conj_cong)

lemma filter_hd: "xs \<noteq> [] \<Longrightarrow> q (hd xs) \<Longrightarrow> filter q xs \<noteq> [] \<and> hd (filter q xs) = hd xs"
  by (cases xs) auto

lemma newest_stays:
  assumes "distinct xs" "xs \<noteq> []"
  shows "hd xs \<notin> set (filter_index (expires p now) 0 xs)"
proof (cases xs)
  case (Cons a ys)
  then show ?thesis using assms set_filter_index [of "expires p now" "Suc 0" ys] by (auto simp: expires_def)
qed (use assms in simp)

text \<open>
  C20: Enforcing a server's backup policy under its plan's ceiling removes exactly the backups the
  policy expires and the node lets go of, and no other server's; the newest backup always stays;
  and where the node let go of all of them, at most the kept number remain and enforcing the policy
  again does nothing.
\<close>

theorem retention_exact:
  assumes "backups_ok r"
  shows "case enforceRetention bx t i now r of (n, s) \<Rightarrow>
    ordered (bx_collate bx) i s =
      filter (\<lambda>b. \<not> (b \<in> set (to_expire bx now i r) \<and> bx_remove bx (owner_node i r) (bk_ref b))) (ordered (bx_collate bx) i r)
    \<and> n = length (filter (\<lambda>b. bx_remove bx (owner_node i r) (bk_ref b)) (to_expire bx now i r))
    \<and> (j \<noteq> i \<longrightarrow> listBackups j s = listBackups j r)
    \<and> (ordered (bx_collate bx) i r \<noteq> [] \<longrightarrow>
        ordered (bx_collate bx) i s \<noteq> [] \<and> hd (ordered (bx_collate bx) i s) = hd (ordered (bx_collate bx) i r))
    \<and> ((\<forall>b \<in> set (to_expire bx now i r). bx_remove bx (owner_node i r) (bk_ref b)) \<longrightarrow>
        enforceRetention bx t' i now s = (0, s)
        \<and> (case limit_of (rt_keepLast (policy_of bx i r)) of None \<Rightarrow> True | Some n \<Rightarrow> length (ordered (bx_collate bx) i s) \<le> n))"
proof (cases "enforceRetention bx t i now r", simp only: prod.case, intro conjI impI)
  fix n s
  assume run: "enforceRetention bx t i now r = (n, s)"
  let ?o = "ordered (bx_collate bx) i r"
  let ?e = "set (to_expire bx now i r)"
  let ?gone = "\<lambda>b. bx_remove bx (owner_node i r) (bk_ref b)"
  have v: "vals (o_backups s) = filter (\<lambda>b. \<not> (b \<in> ?e \<and> ?gone b)) (vals (o_backups r))"
    and same: "o_deployments s = o_deployments r" "o_configs s = o_configs r"
    and "n = length (filter ?gone (to_expire bx now i r))"
    using enforce_vals [OF assms(1), of bx t i now] by (simp_all add: run)
  then show "n = length (filter ?gone (to_expire bx now i r))" by simp
  have o: "ordered (bx_collate bx) i s = filter (\<lambda>b. \<not> (b \<in> ?e \<and> ?gone b)) ?o" by (rule ordered_after [OF v])
  then show "ordered (bx_collate bx) i s = filter (\<lambda>b. \<not> (b \<in> ?e \<and> ?gone b)) ?o" .
  have mine: "bk_deploymentId b = i" if "b \<in> ?e" for b
    using that set_filter_index by (fastforce simp: to_expire_def ordered_def set_listBackups)
  show "listBackups j s = listBackups j r" if "j \<noteq> i"
    using mine that by (auto simp: listBackups_def v intro!: arg_cong [where f = "newest_first bk_createdAt"] filter_cong)
  show "ordered (bx_collate bx) i s \<noteq> []" "hd (ordered (bx_collate bx) i s) = hd ?o" if "?o \<noteq> []"
    using newest_stays [OF distinct_ordered [OF assms(1)] that] filter_hd [OF that]
    by (simp_all add: o to_expire_def)
  assume gone: "\<forall>b \<in> ?e. ?gone b"
  have "ordered (bx_collate bx) i s = filter (\<lambda>b. b \<notin> ?e) ?o" unfolding o using gone by (intro filter_cong) auto
  then have kept: "ordered (bx_collate bx) i s = filter_index (\<lambda>k x. \<not> expires (policy_of bx i r) now k x) 0 ?o"
    unfolding to_expire_def using filter_not_expired [OF distinct_ordered [OF assms(1)]] by simp
  have cfg: "getDeploymentConfig i s = getDeploymentConfig i r" by (simp add: getDeploymentConfig_def same split: option.split)
  then have policy: "policy_of bx i s = policy_of bx i r" by (simp add: policy_of_def)
  have none: "to_expire bx now i s = []"
    unfolding to_expire_def policy kept by (rule filter_index_again [OF expires_mono]) simp_all
  show "enforceRetention bx t' i now s = (0, s)"
    using none by (auto simp: enforceRetention_def expired_alt to_expire_def policy_of_def ordered_def Let_def split: option.split)
  show "case limit_of (rt_keepLast (policy_of bx i r)) of None \<Rightarrow> True | Some n \<Rightarrow> length (ordered (bx_collate bx) i s) \<le> n"
  proof (cases "limit_of (rt_keepLast (policy_of bx i r))")
    case (Some n)
    have "n > 0" using Some by (auto simp: limit_of_def split: option.splits if_splits)
    then show ?thesis unfolding kept
      using filter_index_bound [of n "\<lambda>k x. \<not> expires (policy_of bx i r) now k x" 0 ?o] Some by (auto simp: expires_def)
  qed simp
qed

section \<open>A server with three backups\<close>

definition sample_backup :: "nat \<Rightarrow> server_backup" where
  "sample_backup k = \<lparr>bk_id = uuid k, bk_deploymentId = ''d'', bk_name = ''b'', bk_path = ''/data'', bk_ref = uuid k,
     bk_sizeBytes = 1, bk_status = ''ready'', bk_createdAt = int k * ms_per_day, bk_offsite = None\<rparr>"

definition sample_config :: server_config where
  "sample_config = \<lparr>sc_id = ''c'', sc_userId = ''u'', sc_teamId = None, sc_name = ''n'', sc_dockerImage = ''i'', sc_ports = [],
     sc_env = [], sc_resourceLimits = no_limits, sc_autoRestart = False, sc_dataPath = None, sc_persistPaths = [],
     sc_backupRetention = \<lparr>rt_keepLast = Some 2, rt_keepDays = None\<rparr>, sc_type = ''generic'', sc_createdAt = 0\<rparr>"

definition sample_server :: orch where
  "sample_server = new_orch\<lparr>o_configs := [(''c'', sample_config)],
     o_deployments := [(''d'', \<lparr>dp_id = ''d'', dp_serverConfigId = ''c'', dp_nodeId = Some ''n'', dp_containerId = None,
       dp_status = Stopped, dp_startedAt = None, dp_stoppedAt = None, dp_createdAt = 0, dp_suspendedAt = None,
       dp_suspendedReason = None\<rparr>)],
     o_backups := map (\<lambda>k. (uuid k, sample_backup k)) [0, 1, 2], o_drawn := 3\<rparr>"

definition obliging :: backup_context where
  "obliging = \<lparr>bx_snapshot = \<lambda>n c p. Inl (SnapshotFailed ''off''), bx_remove = \<lambda>n f. True,
     bx_restore = \<lambda>n c f p. Inr (), bx_ceiling = \<lambda>u. Some 5, bx_collate = digits_val\<rparr>"

lemma sample_ok: "backups_ok sample_server"
  by (auto simp: table_def sample_server_def sample_backup_def split: if_splits)

lemma retention_exact_witness:
  "fst (enforceRetention obliging 9 ''d'' 9 sample_server) = 1
   \<and> hd (ordered digits_val ''d'' (snd (enforceRetention obliging 9 ''d'' 9 sample_server))) = sample_backup 2"
proof -
  have e: "to_expire obliging 9 ''d'' sample_server = [sample_backup 0]"
    and o: "ordered digits_val ''d'' sample_server = [sample_backup 2, sample_backup 1, sample_backup 0]"
    by code_simp+
  have d: "sample_backup 2 \<noteq> sample_backup 0" by (simp add: sample_backup_def)
  have c: "bx_collate obliging = digits_val" "bx_remove obliging = (\<lambda>n f. True)" by (simp_all add: obliging_def)
  show ?thesis
    using retention_exact [OF sample_ok, where bx = obliging and t = 9 and i = "''d''" and now = 9 and j = "''e''" and t' = 10] by (simp add: e o c d split: prod.splits)
qed

end
