(* ===== verification/Schedules.thy ===== *)
theory Schedules
  imports Cron Backups
begin

text \<open>
  Recurring tasks (\<^verbatim>\<open>scheduler.ts\<close>, the schedule routes of \<^verbatim>\<open>api.ts\<close>, the actions of
  \<^verbatim>\<open>index.ts\<close>). What reads a cron expression may not return: those operations give an option.

  The lemmas: within one minute, however often the runner ticks, every schedule that is due runs
  once, and no other runs.
\<close>

section \<open>The runner\<close>

definition minute_of :: "time \<Rightarrow> string" where "minute_of t = take 16 (iso t)"

definition not_this_minute :: "schedule \<Rightarrow> time \<Rightarrow> bool" where
  "not_this_minute s now = (case sd_lastRunAt s of None \<Rightarrow> True | Some t \<Rightarrow> minute_of t \<noteq> minute_of now)"

fun selectDue :: "schedule list \<Rightarrow> time \<Rightarrow> schedule list option" where
  "selectDue [] now = Some []"
| "selectDue (s # ss) now =
     (if \<not> sd_enabled s then selectDue ss now
      else Option.bind (cronMatches (sd_cron s) now) (\<lambda>m.
        if m \<and> not_this_minute s now then map_option (Cons s) (selectDue ss now) else selectDue ss now))"

text \<open>\<open>scheduleActions\<close>: the restart over the bus, the image update, the backup.\<close>

definition schedule_restart :: "time \<Rightarrow> string \<Rightarrow> orch \<Rightarrow> orch \<times> message list" where
  "schedule_restart clock i r =
     (case Option.bind (getDeployment_o i r) (\<lambda>d. map_option (Pair d) (isRunning d)) of
        None \<Rightarrow> (r, [])
      | Some (d, c, n) \<Rightarrow>
          (appendDeploymentEvent clock (dp_id d) ''schedule-restart'' ''restarted by schedule'' r, [RestartCommand (dp_id d) n c]))"

definition runScheduleAction ::
  "backup_context \<Rightarrow> time \<Rightarrow> schedule \<Rightarrow> orch \<Rightarrow> (string, unit) result \<times> orch \<times> message list" where
  "runScheduleAction bx clock s r =
     (if sd_action s = ''restart'' then
        let (r, ms) = schedule_restart clock (sd_deploymentId s) r in (Inr (), r, ms)
      else if sd_action s = ''backup'' then
        (case takeBackup bx clock (sd_deploymentId s) None True r of
           (Inl (st, m), r) \<Rightarrow> (if st = 409 then Inr () else Inl (''scheduled backup failed: '' @ m), r, [])
         | (Inr _, r) \<Rightarrow> (Inr (), r, []))
      else if sd_action s = ''update'' then
        (case requestImageUpdate clock (sd_deploymentId s) ''schedule'' r of
           (Inl (st, m), r, ms) \<Rightarrow> (Inl m, r, ms) | (Inr _, r, ms) \<Rightarrow> (Inr (), r, ms))
      else (Inr (), r, []))"

definition stamp :: "time \<Rightarrow> string \<Rightarrow> orch \<Rightarrow> orch" where
  "stamp t i r = snd (updateSchedule i None None None None (Some (Some t)) r)"

fun run_due :: "backup_context \<Rightarrow> time \<Rightarrow> schedule list \<Rightarrow> orch \<Rightarrow> orch \<times> message list" where
  "run_due bx now [] r = (r, [])"
| "run_due bx now (s # ss) r =
     (let (outcome, r, ms) = runScheduleAction bx now s r;
          (r, ms') = run_due bx now ss (stamp now (sd_id s) r)
      in (r, ms @ ms'))"

definition tickSchedules :: "backup_context \<Rightarrow> time \<Rightarrow> orch \<Rightarrow> (schedule list \<times> orch \<times> message list) option" where
  "tickSchedules bx now r =
     map_option (\<lambda>due. (due, run_due bx now due r)) (selectDue (listAllSchedules r) now)"

section \<open>Schedule routes\<close>

definition schedule_actions :: "string list" where "schedule_actions = [''restart'', ''backup'', ''update'']"

definition get_schedules :: "principal \<Rightarrow> string \<Rightarrow> orch \<Rightarrow> schedule list reply" where
  "get_schedules p i r = and_then (guarded r p i ServerView) (\<lambda>(role, d). Inr (listSchedules (dp_id d) r))"

definition known_action :: "json \<Rightarrow> string option" where
  "known_action v = (case v of JStr a \<Rightarrow> if a \<in> set schedule_actions then Some a else None | _ \<Rightarrow> None)"

definition post_schedule :: "time \<Rightarrow> principal \<Rightarrow> string \<Rightarrow> json \<Rightarrow> orch \<Rightarrow> (schedule reply \<times> orch) option" where
  "post_schedule clock p i body r =
     (case guarded r p i ScheduleManage of
        Inl e \<Rightarrow> Some (Inl e, r)
      | Inr (role, d) \<Rightarrow>
          (case jprop body ''name'' of
             JStr name \<Rightarrow>
               if name = [] then Some (Inl (400, ''name is required''), r)
               else Option.bind (case jprop body ''cron'' of JStr c \<Rightarrow> isValidCron c | _ \<Rightarrow> Some False) (\<lambda>ok.
                 if \<not> ok then Some (Inl (400, ''a valid 5-field cron expression is required''), r)
                 else case known_action (jprop body ''action'') of
                   None \<Rightarrow> Some (Inl (400, ''action must be restart, backup or update''), r)
                 | Some a \<Rightarrow>
                     (let (s, r) = createSchedule clock (dp_id d) name (json_string (jprop body ''cron'')) a
                          (Some (jprop body ''enabled'' \<noteq> JBool False)) r
                      in Some (Inr s, r)))
           | _ \<Rightarrow> Some (Inl (400, ''name is required''), r)))"

definition own_schedule :: "string \<Rightarrow> string \<Rightarrow> orch \<Rightarrow> schedule reply" where
  "own_schedule i sid r =
     (case getSchedule sid r of
        Some s \<Rightarrow> if sd_deploymentId s = i then Inr s else Inl (404, ''schedule not found'')
      | None \<Rightarrow> Inl (404, ''schedule not found''))"

text \<open>
  The source checks the type of \<open>cron\<close> and \<open>action\<close> only; \<open>name\<close> and \<open>enabled\<close> are taken at
  their declared types.
\<close>

definition patch_schedule ::
  "principal \<Rightarrow> string \<Rightarrow> string \<Rightarrow> string option \<Rightarrow> json \<Rightarrow> json \<Rightarrow> bool option \<Rightarrow> orch \<Rightarrow> (schedule reply \<times> orch) option" where
  "patch_schedule p i sid name cron action enabled r =
     (case and_then (guarded r p i ScheduleManage) (\<lambda>_. own_schedule i sid r) of
        Inl e \<Rightarrow> Some (Inl e, r)
      | Inr s \<Rightarrow>
          Option.bind (case cron of JUndef \<Rightarrow> Some True | JStr c \<Rightarrow> isValidCron c | _ \<Rightarrow> Some False) (\<lambda>ok.
            if \<not> ok then Some (Inl (400, ''invalid cron expression''), r)
            else if action \<noteq> JUndef \<and> known_action action = None then
              Some (Inl (400, ''action must be restart, backup or update''), r)
            else case updateSchedule (sd_id s) name (if cron = JUndef then None else Some (json_string cron))
                   (known_action action) enabled None r of
              (None, r) \<Rightarrow> Some (Inl (404, ''schedule not found''), r)
            | (Some s, r) \<Rightarrow> Some (Inr s, r)))"

definition delete_schedule :: "principal \<Rightarrow> string \<Rightarrow> string \<Rightarrow> orch \<Rightarrow> unit reply \<times> orch" where
  "delete_schedule p i sid r =
     (case and_then (guarded r p i ScheduleManage) (\<lambda>_. own_schedule i sid r) of
        Inl e \<Rightarrow> (Inl e, r)
      | Inr s \<Rightarrow> (Inr (), deleteSchedule (sd_id s) r))"

definition run_schedule ::
  "backup_context \<Rightarrow> time \<Rightarrow> principal \<Rightarrow> string \<Rightarrow> string \<Rightarrow> orch \<Rightarrow> string reply \<times> orch \<times> message list" where
  "run_schedule bx clock p i sid r =
     (case and_then (guarded r p i ScheduleManage) (\<lambda>_. own_schedule i sid r) of
        Inl e \<Rightarrow> (Inl e, r, [])
      | Inr s \<Rightarrow>
          (case runScheduleAction bx clock s r of
             (Inl m, r, ms) \<Rightarrow> (Inl (502, m), r, ms)
           | (Inr _, r, ms) \<Rightarrow> (Inr (sd_id s), stamp clock (sd_id s) r, ms)))"

section \<open>Within one minute\<close>

lemma pad_length: "w \<le> length (pad_digits w n)"
  by (simp add: pad_digits_def Let_def)

lemma same_minute:
  assumes "t div 60000 = u div 60000"
  shows "day_of t = day_of u" "utc_hours t = utc_hours u" "utc_minutes t = utc_minutes u"
    "utc_year t = utc_year u" "utc_month t = utc_month u" "utc_date t = utc_date u" "utc_weekday t = utc_weekday u"
proof -
  have "t div 60000 div 1440 = u div 60000 div 1440" "t div 60000 div 60 = u div 60000 div 60" by (simp_all only: assms)
  then have d: "t div 86400000 = u div 86400000" "t div 3600000 = u div 3600000" by (simp_all add: zdiv_zmult2_eq [symmetric])
  then show "day_of t = day_of u" "utc_hours t = utc_hours u" "utc_minutes t = utc_minutes u"
    by (simp_all add: day_of_def ms_per_day_def utc_hours_def ms_per_hour_def utc_minutes_def assms)
  then show "utc_year t = utc_year u" "utc_month t = utc_month u" "utc_date t = utc_date u" "utc_weekday t = utc_weekday u"
    by (simp_all add: utc_year_def utc_month_def utc_date_def utc_weekday_def)
qed

lemma minute_same: "t div 60000 = u div 60000 \<Longrightarrow> minute_of t = minute_of u"
proof -
  assume m: "t div 60000 = u div 60000"
  define front where "front v = pad_digits 4 (utc_year v) @ ''-'' @ pad_digits 2 (utc_month v + 1) @ ''-'' @ pad_digits 2 (utc_date v)
    @ ''T'' @ pad_digits 2 (utc_hours v) @ '':'' @ pad_digits 2 (utc_minutes v)" for v
  have "\<exists>rest. iso v = front v @ rest" for v by (simp add: iso_def front_def)
  moreover have "16 \<le> length (front v)" for v
    using pad_length [of 4 "utc_year v"] pad_length [of 2 "utc_month v + 1"] pad_length [of 2 "utc_date v"]
      pad_length [of 2 "utc_hours v"] pad_length [of 2 "utc_minutes v"] by (simp add: front_def)
  ultimately have "minute_of v = take 16 (front v)" for v unfolding minute_of_def by (metis take_append append_Nil2 diff_is_0_eq take_eq_Nil)
  then show ?thesis by (simp add: front_def same_minute [OF m])
qed

lemma cron_same: "t div 60000 = u div 60000 \<Longrightarrow> cronMatches e t = cronMatches e u"
proof -
  assume m: "t div 60000 = u div 60000"
  show ?thesis unfolding cronMatches_def same_minute [OF m] ..
qed

section \<open>Once a minute\<close>

lemma append_schedules [simp]: "o_schedules (appendDeploymentEvent t i e m r) = o_schedules r"
  by (simp add: appendDeploymentEvent_def)

lemma remove_each_schedules [simp]: "o_schedules (snd (remove_each gone bs r)) = o_schedules r"
  by (induction bs arbitrary: r) (auto simp: split_beta deleteBackup_def)

lemma enforce_schedules [simp]: "o_schedules (snd (enforceRetention bx t i now r)) = o_schedules r"
  by (auto simp: enforceRetention_def Let_def split_beta split: option.split)

lemma takeBackup_schedules [simp]: "o_schedules (snd (takeBackup bx t i p b r)) = o_schedules r"
  by (auto simp: takeBackup_def Let_def split_beta createBackup_def split: option.split sum.split snapshot_error.split)

lemma action_schedules [simp]: "o_schedules (fst (snd (runScheduleAction bx t s r))) = o_schedules r"
  using takeBackup_schedules [of bx t "sd_deploymentId s" None True r]
  by (auto simp: runScheduleAction_def schedule_restart_def requestImageUpdate_def Let_def simp del: takeBackup_schedules
      split: option.split sum.split prod.split)

lemma update_present:
  "distinct (map fst m) \<Longrightarrow> map_of m k = Some v \<Longrightarrow> AList.update k w m = map (\<lambda>(j, x). (j, if j = k then w else x)) m"
proof (induction m)
  case (Cons a m)
  obtain j x where a: "a = (j, x)" by (cases a)
  show ?case
  proof (cases "j = k")
    case True
    then have "map (\<lambda>(j, x). (j, if j = k then w else x)) m = m"
      using Cons.prems a by (intro map_idI) (auto simp: image_iff)
    then show ?thesis using True a by simp
  next
    case False
    then show ?thesis using Cons a by simp
  qed
qed simp

abbreviation schedules_ok :: "orch \<Rightarrow> bool" where
  "schedules_ok r \<equiv> distinct (map fst (o_schedules r)) \<and> (\<forall>(k, s) \<in> set (o_schedules r). sd_id s = k)"

lemma schedules_id: "schedules_ok r \<Longrightarrow> (k, s) \<in> set (o_schedules r) \<Longrightarrow> sd_id s = k"
  by auto

lemma stamp_schedules:
  assumes "schedules_ok r" "s \<in> set (vals (o_schedules r))"
  shows "o_schedules (stamp t (sd_id s) r) =
    map (\<lambda>(k, x). (k, if sd_id x = sd_id s then x\<lparr>sd_lastRunAt := Some t\<rparr> else x)) (o_schedules r)"
proof -
  have "(sd_id s, s) \<in> set (o_schedules r)" using assms by (auto simp: vals_def)
  then have m: "map_of (o_schedules r) (sd_id s) = Some s" using assms(1) by simp
  have row: "(k, if k = sd_id s then s\<lparr>sd_lastRunAt := Some t\<rparr> else x) = (k, if sd_id x = sd_id s then x\<lparr>sd_lastRunAt := Some t\<rparr> else x)"
    if "(k, x) \<in> set (o_schedules r)" for k x
  proof -
    have id: "sd_id x = k" using assms(1) that by auto
    have "map_of (o_schedules r) k = Some x" using assms(1) that by simp
    then have "k = sd_id s \<Longrightarrow> x = s" using m by simp
    then show ?thesis using id by auto
  qed
  have "o_schedules (stamp t (sd_id s) r) = AList.update (sd_id s) (s\<lparr>sd_lastRunAt := Some t\<rparr>) (o_schedules r)"
    by (simp add: stamp_def updateSchedule_def m Let_def)
  also have "\<dots> = map (\<lambda>(k, x). (k, if k = sd_id s then s\<lparr>sd_lastRunAt := Some t\<rparr> else x)) (o_schedules r)"
    using assms(1) m by (intro update_present) auto
  also have "\<dots> = map (\<lambda>(k, x). (k, if sd_id x = sd_id s then x\<lparr>sd_lastRunAt := Some t\<rparr> else x)) (o_schedules r)"
    using row by (intro map_cong) auto
  finally show ?thesis .
qed

text \<open>The rows after a run: those that ran are stamped.\<close>

definition stamped :: "time \<Rightarrow> string set \<Rightarrow> orch \<Rightarrow> (string \<times> schedule) list" where
  "stamped t ids r = map (\<lambda>(k, x). (k, if sd_id x \<in> ids then x\<lparr>sd_lastRunAt := Some t\<rparr> else x)) (o_schedules r)"

lemma stamped_more:
  "o_schedules q = stamped t A r \<Longrightarrow> stamped t B q = stamped t (A \<union> B) r"
  by (auto simp: stamped_def)

lemma stamped_ok: "schedules_ok r \<Longrightarrow> o_schedules q = stamped t A r \<Longrightarrow> schedules_ok q"
  by (auto simp: stamped_def comp_def split_beta)

lemma run_due_schedules:
  assumes "schedules_ok r" "sd_id ` set due \<subseteq> sd_id ` set (vals (o_schedules r))"
  shows "o_schedules (fst (run_due bx t due r)) = stamped t (sd_id ` set due) r"
  using assms
proof (induction due arbitrary: r)
  case Nil
  then show ?case by (simp add: stamped_def split_beta)
next
  case (Cons s due)
  let ?q = "fst (snd (runScheduleAction bx t s r))"
  let ?p = "stamp t (sd_id s) ?q"
  obtain x where x: "x \<in> set (vals (o_schedules ?q))" "sd_id x = sd_id s" using Cons.prems(2) by auto
  have q: "schedules_ok ?q" using Cons.prems(1) by simp
  have p: "o_schedules ?p = stamped t {sd_id s} r"
    using stamp_schedules [OF q x(1), of t] by (simp add: x(2) stamped_def)
  have "sd_id ` set (vals (o_schedules ?p)) = sd_id ` set (vals (o_schedules r))"
    by (force simp: p stamped_def vals_def image_iff)
  then have "o_schedules (fst (run_due bx t due ?p)) = stamped t (sd_id ` set due) ?p"
    using Cons.prems stamped_ok [OF Cons.prems(1) p] by (intro Cons.IH) auto
  then show ?case by (simp add: split_beta stamped_more [OF p])
qed

text \<open>
  What a due schedule should do: the command it puts on the bus, read off the servers as the tick finds
  them, and what it leaves behind besides the stamp of its row: a snapshot, or the event that tells of
  the command.
\<close>

definition commands :: "orch \<Rightarrow> schedule \<Rightarrow> message list" where
  "commands r s =
     (let i = sd_deploymentId s
      in case getDeployment_o i r of None \<Rightarrow> []
         | Some d \<Rightarrow>
             if sd_action s = ''restart'' then
               (case isRunning d of Some (c, n) \<Rightarrow> [RestartCommand (dp_id d) n c] | None \<Rightarrow> [])
             else if sd_action s = ''update'' \<and> dp_status d \<noteq> Pending_d then
               (case (given (dp_nodeId d), getDeploymentConfig i r) of
                  (Some n, Some c) \<Rightarrow> [UpdateCommand (startCommandFor c i n) (dp_status d = Running)]
                | _ \<Rightarrow> [])
             else [])"

definition told :: "orch \<Rightarrow> schedule \<Rightarrow> message \<Rightarrow> string \<times> string \<times> string" where
  "told r s m =
     (case m of
        RestartCommand i n c \<Rightarrow> (i, ''schedule-restart'', ''restarted by schedule'')
      | UpdateCommand sc recreate \<Rightarrow>
          (sd_deploymentId s, ''update-requested'',
           ''image update requested by schedule: pull ''
             @ (case getDeploymentConfig (sd_deploymentId s) r of Some c \<Rightarrow> sc_dockerImage c | None \<Rightarrow> [])
             @ (if recreate then '' and recreate the container'' else []))
      | _ \<Rightarrow> ([], [], []))"

definition leaves :: "backup_context \<Rightarrow> time \<Rightarrow> orch \<Rightarrow> orch \<Rightarrow> schedule \<Rightarrow> orch" where
  "leaves bx t r q s =
     stamp t (sd_id s)
       (if sd_action s = ''backup'' then snd (takeBackup bx t (sd_deploymentId s) None True q)
        else foldl (\<lambda>q m. case told r s m of (i, e, text) \<Rightarrow> appendDeploymentEvent t i e text q) q (commands r s))"

text \<open>No action of a schedule touches a server or its settings, so the servers stay as the tick found them.\<close>

abbreviation same_servers :: "orch \<Rightarrow> orch \<Rightarrow> bool" where
  "same_servers q r \<equiv> o_deployments q = o_deployments r \<and> o_configs q = o_configs r"

lemma append_servers: "same_servers (appendDeploymentEvent t i e m r) r"
  by (simp add: appendDeploymentEvent_def)

lemma remove_each_servers: "same_servers (snd (remove_each gone bs r)) r"
  by (induction bs arbitrary: r) (auto simp: split_beta deleteBackup_def)

lemma enforce_servers: "same_servers (snd (enforceRetention bx t i now r)) r"
  by (auto simp: enforceRetention_def Let_def split_beta append_servers remove_each_servers split: option.split)

lemma takeBackup_servers: "same_servers (snd (takeBackup bx t i p b r)) r"
  by (auto simp: takeBackup_def Let_def split_beta createBackup_def enforce_servers append_servers
      split: option.split sum.split snapshot_error.split)

lemma action_servers: "same_servers (fst (snd (runScheduleAction bx t s r))) r"
  using takeBackup_servers [of bx t "sd_deploymentId s" None True r]
  by (auto simp: runScheduleAction_def schedule_restart_def requestImageUpdate_def Let_def append_servers
      split: option.split sum.split prod.split)

lemma stamp_servers: "same_servers (stamp t i r) r"
  by (auto simp: stamp_def updateSchedule_def Let_def split: option.split)

lemma config_same: "same_servers q r \<Longrightarrow> getDeploymentConfig i q = getDeploymentConfig i r"
  by (simp add: getDeploymentConfig_def split: option.split)

lemma detail_same:
  assumes "same_servers q r"
  shows "getDeployment_o i q = map_option (\<lambda>d. d\<lparr>dd_events := sort_key ev_timestamp [e \<leftarrow> o_events q. ev_deploymentId e = i]\<rparr>) (getDeployment_o i r)"
  using assms by (auto simp: getDeployment_o_def toView_def deployment.extend_def deployment_view.extend_def split: option.split)

lemma isRunning_events [simp]: "isRunning (d\<lparr>dd_events := es\<rparr>) = isRunning d"
  by (simp add: isRunning_def)

lemma commands_same:
  assumes "same_servers q r" shows "commands q s = commands r s"
  by (cases "getDeployment_o (sd_deploymentId s) r")
    (simp_all add: commands_def detail_same [OF assms] config_same [OF assms] Let_def split: option.split prod.split)

lemma leaves_same:
  assumes "same_servers q r" shows "leaves bx t q = leaves bx t r"
  by (intro ext) (simp only: leaves_def told_def commands_same [OF assms] config_same [OF assms])

lemma restart_exact:
  assumes "sd_action s = ''restart''" "schedule_restart t (sd_deploymentId s) r = (q, ms)"
  shows "ms = commands r s \<and> stamp t (sd_id s) q = leaves bx t r r s"
proof (cases "Option.bind (getDeployment_o (sd_deploymentId s) r) (\<lambda>d. map_option (Pair d) (isRunning d))")
  case None
  then have "commands r s = []" using assms(1) by (auto simp: commands_def Let_def bind_eq_None_conv split: option.split)
  then show ?thesis using assms None by (simp add: schedule_restart_def leaves_def)
next
  case (Some x)
  then obtain d c n where d: "x = (d, c, n)" "getDeployment_o (sd_deploymentId s) r = Some d" "isRunning d = Some (c, n)"
    by (auto simp: bind_eq_Some_conv)
  then have m: "commands r s = [RestartCommand (dp_id d) n c]" using assms(1) by (simp add: commands_def)
  have "q = appendDeploymentEvent t (dp_id d) ''schedule-restart'' ''restarted by schedule'' r"
      "ms = [RestartCommand (dp_id d) n c]"
    using assms(2) Some by (auto simp: schedule_restart_def d(1))
  then show ?thesis using m assms(1) by (simp add: leaves_def told_def)
qed

lemma update_exact:
  assumes "sd_action s = ''update''" "requestImageUpdate t (sd_deploymentId s) ''schedule'' r = (x, q, ms)"
  shows "ms = commands r s \<and> stamp t (sd_id s) q = leaves bx t r r s"
proof (cases "\<exists>d n c. getDeployment_o (sd_deploymentId s) r = Some d \<and> dp_status d \<noteq> Pending_d
    \<and> given (dp_nodeId d) = Some n \<and> getDeploymentConfig (sd_deploymentId s) r = Some c")
  case True
  then obtain d n c where d: "getDeployment_o (sd_deploymentId s) r = Some d" "dp_status d \<noteq> Pending_d"
    "given (dp_nodeId d) = Some n" "getDeploymentConfig (sd_deploymentId s) r = Some c" by blast
  then have m: "commands r s = [UpdateCommand (startCommandFor c (sd_deploymentId s) n) (dp_status d = Running)]"
    using assms(1) by (simp add: commands_def)
  have "q = appendDeploymentEvent t (sd_deploymentId s) ''update-requested''
       (''image update requested by '' @ ''schedule'' @ '': pull '' @ sc_dockerImage c
         @ (if dp_status d = Running then '' and recreate the container'' else [])) r"
      "ms = [UpdateCommand (startCommandFor c (sd_deploymentId s) n) (dp_status d = Running)]"
    using assms(2) d by (simp_all add: requestImageUpdate_def Let_def)
  then show ?thesis using m d assms(1) by (simp add: leaves_def told_def)
next
  case False
  have q: "q = r \<and> ms = []"
  proof (cases "getDeployment_o (sd_deploymentId s) r")
    case (Some d)
    then show ?thesis
      using assms(2) False by (auto simp: requestImageUpdate_def Let_def split: if_splits option.splits)
  qed (use assms(2) in \<open>simp add: requestImageUpdate_def\<close>)
  have "commands r s = []"
    using False assms(1) by (cases "getDeployment_o (sd_deploymentId s) r") (auto simp: commands_def Let_def split: option.split)
  then show ?thesis using assms(1) q by (simp add: leaves_def)
qed

lemma other_exact:
  assumes "sd_action s \<noteq> ''restart''" "sd_action s \<noteq> ''update''"
  shows "commands r s = []"
  using assms by (simp add: commands_def Let_def split: option.split)

lemma action_exact:
  assumes "runScheduleAction bx t s r = (x, q, ms)"
  shows "ms = commands r s \<and> stamp t (sd_id s) q = leaves bx t r r s"
proof -
  consider "sd_action s = ''restart''" | "sd_action s = ''backup''" | "sd_action s = ''update''"
    | "sd_action s \<notin> {''restart'', ''backup'', ''update''}" by auto
  then show ?thesis
  proof cases
    case 1
    then show ?thesis using assms restart_exact [OF 1, of t r q ms bx] by (auto simp: runScheduleAction_def split: prod.splits)
  next
    case 2
    then show ?thesis
      using assms other_exact [of s r] by (auto simp: runScheduleAction_def leaves_def split: prod.splits sum.splits if_splits)
  next
    case 3
    obtain y q' ms' where u: "requestImageUpdate t (sd_deploymentId s) ''schedule'' r = (y, q', ms')" by (metis prod.exhaust)
    then have "q = q' \<and> ms = ms'" using assms 3 by (auto simp: runScheduleAction_def split: sum.splits prod.splits)
    then show ?thesis using update_exact [OF 3 u] by simp
  next
    case 4
    then show ?thesis using assms other_exact [of s r] by (simp add: runScheduleAction_def leaves_def)
  qed
qed

lemma run_due_exact:
  assumes "same_servers r0 r"
  shows "run_due bx t due r = (foldl (leaves bx t r0) r due, concat (map (commands r0) due))"
  using assms
proof (induction due arbitrary: r)
  case (Cons s due)
  obtain x q ms where a: "runScheduleAction bx t s r = (x, q, ms)" by (metis prod.exhaust)
  have "same_servers r0 (stamp t (sd_id s) q)"
    using Cons.prems action_servers [of bx t s r] stamp_servers [of t "sd_id s" q] by (simp add: a)
  from Cons.IH [OF this] show ?case
    using action_exact [OF a] Cons.prems by (simp add: a commands_same [of r0 r] leaves_same [of r0 r])
qed simp

lemma selectDue_set:
  "selectDue ss t = Some due \<Longrightarrow>
     due = filter (\<lambda>s. sd_enabled s \<and> cronMatches (sd_cron s) t = Some True \<and> not_this_minute s t) ss
     \<and> (\<forall>s \<in> set ss. sd_enabled s \<longrightarrow> cronMatches (sd_cron s) t \<noteq> None)"
proof (induction ss arbitrary: due)
  case (Cons s ss)
  show ?case
  proof (cases "sd_enabled s")
    case True
    then obtain m where m: "cronMatches (sd_cron s) t = Some m" using Cons.prems by (auto simp: bind_eq_Some_conv)
    then obtain rest where "selectDue ss t = Some rest" using Cons.prems True by (auto split: if_splits)
    then show ?thesis using Cons.IH [of rest] Cons.prems True m by (auto split: if_splits)
  qed (use Cons in auto)
qed simp

lemma selectDue_none:
  "\<forall>s \<in> set ss. sd_enabled s \<longrightarrow> cronMatches (sd_cron s) t \<noteq> None \<and> (cronMatches (sd_cron s) t = Some True \<longrightarrow> \<not> not_this_minute s t)
     \<Longrightarrow> selectDue ss t = Some []"
proof (induction ss)
  case (Cons s ss)
  show ?case
  proof (cases "sd_enabled s")
    case True
    then obtain m where "cronMatches (sd_cron s) t = Some m" using Cons.prems by auto
    then show ?thesis using Cons True by (cases m) auto
  qed (use Cons in auto)
qed simp

text \<open>
  C22: A tick picks exactly the enabled schedules whose expression matches the minute and that have not
  run in it, and runs them in order: the bus gets the restart or image update each of them asks for,
  as the servers stood when the tick began; the state is what their snapshots, events and stamps,
  one schedule after another, leave, and nothing else; those rows and no other are stamped. Any further
  tick within the same minute runs nothing and changes nothing.
\<close>

theorem tick_once:
  assumes "schedules_ok r" "tickSchedules bx t r = Some (due, r', ms)" "t div 60000 = u div 60000"
  shows "due = filter (\<lambda>s. sd_enabled s \<and> cronMatches (sd_cron s) t = Some True \<and> not_this_minute s t) (listAllSchedules r)
    \<and> ms = concat (map (commands r) due)
    \<and> r' = foldl (leaves bx t r) r due
    \<and> o_schedules r' = map (\<lambda>(k, s). (k, if s \<in> set due then s\<lparr>sd_lastRunAt := Some t\<rparr> else s)) (o_schedules r)
    \<and> tickSchedules bx u r' = Some ([], r', [])"
proof (intro conjI)
  have d: "selectDue (listAllSchedules r) t = Some due" and r': "r' = fst (run_due bx t due r)"
    using assms(2) by (auto simp: tickSchedules_def)
  show "ms = concat (map (commands r) due)" "r' = foldl (leaves bx t r) r due"
    using assms(2) run_due_exact [of r r bx t due] by (auto simp: tickSchedules_def)
  show due: "due = filter (\<lambda>s. sd_enabled s \<and> cronMatches (sd_cron s) t = Some True \<and> not_this_minute s t) (listAllSchedules r)"
    using selectDue_set [OF d] by blast
  have reads: "cronMatches (sd_cron s) t \<noteq> None" if "s \<in> set (vals (o_schedules r))" "sd_enabled s" for s
    using selectDue_set [OF d] that by (auto simp: listAllSchedules_def)
  have sub: "set due \<subseteq> set (vals (o_schedules r))" unfolding due by (auto simp: listAllSchedules_def)
  have same: "sd_id s \<in> sd_id ` set due \<longleftrightarrow> s \<in> set due" if "(k, s) \<in> set (o_schedules r)" for k s
  proof
    assume "sd_id s \<in> sd_id ` set due"
    then obtain x where x: "x \<in> set due" "sd_id x = sd_id s" by auto
    then obtain j where j: "(j, x) \<in> set (o_schedules r)" using sub by (auto simp: vals_def)
    have "j = k" using schedules_id [OF assms(1) j] schedules_id [OF assms(1) that] x(2) by simp
    then have "x = s" using eq_key_imp_eq_value [of "o_schedules r" k x s] assms(1) j that by blast
    then show "s \<in> set due" using x(1) by simp
  qed simp
  have "o_schedules r' = stamped t (sd_id ` set due) r"
    unfolding r' using sub by (intro run_due_schedules assms(1)) auto
  then show rows: "o_schedules r' = map (\<lambda>(k, s). (k, if s \<in> set due then s\<lparr>sd_lastRunAt := Some t\<rparr> else s)) (o_schedules r)"
    unfolding stamped_def using same by (auto intro!: map_cong)
  have "selectDue (listAllSchedules r') u = Some []"
  proof (rule selectDue_none, intro ballI impI conjI)
    fix s
    assume s: "s \<in> set (listAllSchedules r')" "sd_enabled s"
    then have "s \<in> (\<lambda>(k, x). if x \<in> set due then x\<lparr>sd_lastRunAt := Some t\<rparr> else x) ` set (o_schedules r)"
      by (force simp: listAllSchedules_def rows vals_def)
    then obtain k x where kx: "(k, x) \<in> set (o_schedules r)" "s = (if x \<in> set due then x\<lparr>sd_lastRunAt := Some t\<rparr> else x)"
      by auto
    then have x: "x \<in> set (vals (o_schedules r))" "s = (if x \<in> set due then x\<lparr>sd_lastRunAt := Some t\<rparr> else x)"
      by (force simp: vals_def) (rule kx(2))
    then have e: "sd_enabled x" "sd_cron s = sd_cron x" using s(2) by (auto split: if_splits)
    show "cronMatches (sd_cron s) u \<noteq> None" using reads [OF x(1) e(1)] cron_same [OF assms(3)] by (simp add: e)
    assume "cronMatches (sd_cron s) u = Some True"
    then have "cronMatches (sd_cron x) t = Some True" using cron_same [OF assms(3)] by (simp add: e)
    then show "\<not> not_this_minute s u"
      using x e(1) minute_same [OF assms(3)] by (auto simp: due listAllSchedules_def not_this_minute_def split: option.splits)
  qed
  then show "tickSchedules bx u r' = Some ([], r', [])" by (simp add: tickSchedules_def)
qed

section \<open>One schedule at midnight\<close>

definition yearly :: schedule where
  "yearly = \<lparr>sd_id = ''s'', sd_deploymentId = ''d'', sd_name = ''n'', sd_cron = ''0 0 1 1 4'', sd_action = ''restart'',
     sd_enabled = True, sd_lastRunAt = None, sd_createdAt = 0\<rparr>"

lemma yearly_due: "cronMatches ''0 0 1 1 4'' 0 = Some True"
proof -
  have w: "cron_fields ''0 0 1 1 4'' = [''0'', ''0'', ''1'', ''1'', ''4'']" by code_simp
  have n: "js_parse_int ''0'' = Some 0" "js_parse_int ''1'' = Some 1" "js_parse_int ''4'' = Some 4"
    by (simp_all add: js_parse_int_def js_space_def digit_def digits_val_def digit_val_def)
  have f: "parseField ''0'' 0 m = Some (if 0 \<le> m then [0] else [])" "parseField ''1'' 1 m = Some (if 1 \<le> m then [1] else [])"
    "parseField ''4'' 0 7 = Some [4]" for m
    by (simp_all add: parseField_def part_range_def part_step_def part_bounds_def n field_loop.simps jadd_def)
  have c: "utc_weekday 0 = 4" "utc_date 0 = 1" "utc_minutes 0 = 0" "utc_hours 0 = 0" "utc_month 0 = 0" by code_simp+
  show ?thesis by (simp add: cronMatches_def w f c Let_def)
qed

definition at_midnight :: orch where
  "at_midnight = sample_server\<lparr>o_schedules := [(''s'', yearly)],
     o_deployments := map (\<lambda>(i, d). (i, d\<lparr>dp_status := Running, dp_containerId := Some ''k''\<rparr>)) (o_deployments sample_server)\<rparr>"

lemma tick_once_witness:
  "\<exists>r'. tickSchedules obliging 0 at_midnight = Some ([yearly], r', [RestartCommand ''d'' ''n'' ''k''])
    \<and> map ev_event (o_events r') = [''schedule-restart'']
    \<and> tickSchedules obliging 59000 r' = Some ([], r', [])"
proof -
  have s: "o_schedules at_midnight = [(''s'', yearly)]" "schedules_ok at_midnight"
    by (simp_all add: at_midnight_def yearly_def)
  have due: "selectDue (listAllSchedules at_midnight) 0 = Some [yearly]"
    by (simp add: listAllSchedules_def vals_def yearly_due not_this_minute_def s(1)) (simp add: yearly_def yearly_due)
  obtain r' ms where t: "tickSchedules obliging 0 at_midnight = Some ([yearly], r', ms)"
    unfolding tickSchedules_def due by (cases "run_due obliging 0 [yearly] at_midnight") auto
  have "commands at_midnight yearly = [RestartCommand ''d'' ''n'' ''k'']"
    "map ev_event (o_events (leaves obliging 0 at_midnight at_midnight yearly)) = [''schedule-restart'']"
    by code_simp+
  then show ?thesis using tick_once [OF s(2) t, of 59000] t by auto
qed

end
