(* ===== verification/Migration.thy ===== *)
theory Migration
  imports Control_Runs Js_Text
begin

text \<open>
  Moving a stopped server to another node (\<^verbatim>\<open>migrate.ts\<close>). The agents of the two nodes are the
  record \<open>transport\<close>: the volumes a node lists and, for each operation, whether it fails. What a
  migration does is a log: the operations tried, in order, and the switch of the record.

  The lemmas: whenever the process stops, even between two operations, the node the record names
  holds every volume and every backup of the server; nothing on the source is touched before the
  switch; a move that fails leaves the record where it was.
\<close>

section \<open>The transport\<close>

datatype transport_op =
    CopyVolume string string string
  | RemoveVolume string string
  | CopyBackup string string string
  | RemoveBackupFile string string
  | Purge string

record transport =
  tp_volumes :: "string \<Rightarrow> string \<Rightarrow> (string, string list) result"
  tp_fails :: "string \<Rightarrow> transport_op \<Rightarrow> string option"
  tp_url :: "string option \<Rightarrow> string"

datatype migration_event = Tried transport_op "string option" | Switched string

section \<open>Planning a move\<close>

record migration_plan =
  mp_deploymentId :: string
  mp_ports :: "(string \<times> string) list"
  mp_from :: "string option"
  mp_target :: node

definition find_node :: "(string \<Rightarrow> nat) \<Rightarrow> string \<Rightarrow> orch \<Rightarrow> node option" where
  "find_node collate i r = find (\<lambda>n. nd_id n = i) (listNodes collate r)"

definition source_of :: "(string \<Rightarrow> nat) \<Rightarrow> deployment_detail \<Rightarrow> orch \<Rightarrow> node option" where
  "source_of collate d r = (case given (dp_nodeId d) of None \<Rightarrow> None | Some i \<Rightarrow> find_node collate i r)"

text \<open>The plan, and the servers in flight.\<close>

definition planMigration ::
  "(string \<Rightarrow> nat) \<Rightarrow> string list \<Rightarrow> string \<Rightarrow> string \<Rightarrow> time \<Rightarrow> orch \<Rightarrow> migration_plan reply \<times> string list" where
  "planMigration collate inFlight i targetNodeId now r =
     (case getDeployment_o i r of
        None \<Rightarrow> (Inl (404, ''deployment not found''), inFlight)
      | Some d \<Rightarrow>
          if i \<in> set inFlight then (Inl (409, ''this server is already being moved''), inFlight)
          else if dp_status d = Running \<or> dp_status d = Pending_d then
            (Inl (409, ''stop the server first -- a running server cannot be moved''), inFlight)
          else case getDeploymentConfig i r of
            None \<Rightarrow> (Inl (404, ''server config not found''), inFlight)
          | Some c \<Rightarrow>
              if given (sc_dataPath c) \<noteq> None then
                (Inl (409, ''this server runs on an imported directory ('' @ the (sc_dataPath c)
                   @ '') that exists only on its node, and cannot be moved''), inFlight)
              else case find_node collate targetNodeId r of
                None \<Rightarrow> (Inl (400, ''unknown node '' @ targetNodeId), inFlight)
              | Some target \<Rightarrow>
                  if Some (nd_id target) = dp_nodeId d then (Inl (400, ''the server is already on that node''), inFlight)
                  else if nodeHealth target now \<noteq> Healthy then (Inl (409, ''node '' @ nd_id target @ '' is not healthy''), inFlight)
                  else if nd_maintenance target then (Inl (409, ''node '' @ nd_id target @ '' is in maintenance''), inFlight)
                  else if map_option (\<lambda>s. nodeHealth s now) (source_of collate d r) = Some Offline then
                    (Inl (409, ''node '' @ nd_id (the (source_of collate d r))
                       @ '' is offline, and the server's data is on it -- it can be moved once that node is back''), inFlight)
                  else case checkPorts target (sc_ports c) (Some i) r of
                    Inl e \<Rightarrow> (Inl (409, ''cannot move to '' @ nd_id target @ '': '' @ refusal_text (rangeOf target) e), inFlight)
                  | Inr _ \<Rightarrow>
                      (Inr \<lparr>mp_deploymentId = i, mp_ports = sc_ports c,
                         mp_from = map_option nd_id (source_of collate d r), mp_target = target\<rparr>,
                       inFlight @ [i]))"

section \<open>The move\<close>

text \<open>Copies until the first that fails: what was copied, the failure, the log.\<close>

fun copy_all ::
  "(transport_op \<Rightarrow> string option) \<Rightarrow> (string \<Rightarrow> transport_op) \<Rightarrow> string list \<Rightarrow> string list \<times> string option \<times> migration_event list" where
  "copy_all fails copy [] = ([], None, [])"
| "copy_all fails copy (x # xs) =
     (case fails (copy x) of
        Some e \<Rightarrow> ([], Some e, [Tried (copy x) (Some e)])
      | None \<Rightarrow> (let (copied, err, ms) = copy_all fails copy xs in (x # copied, err, Tried (copy x) None # ms)))"

definition try_all :: "(transport_op \<Rightarrow> string option) \<Rightarrow> transport_op list \<Rightarrow> migration_event list" where
  "try_all fails ops = map (\<lambda>op. Tried op (fails op)) ops"

text \<open>The volumes, then the backups: up to the first failure.\<close>

definition copy_phase ::
  "transport \<Rightarrow> string \<Rightarrow> string \<Rightarrow> string \<Rightarrow> string list \<Rightarrow> string list \<times> string list \<times> string option \<times> migration_event list" where
  "copy_phase tp i fu tu refs =
     (case tp_volumes tp fu i of
        Inl e \<Rightarrow> ([], [], Some e, [])
      | Inr paths \<Rightarrow>
          (case copy_all (tp_fails tp i) (CopyVolume fu tu) paths of
             (imported, Some e, ms) \<Rightarrow> (imported, [], Some e, ms)
           | (imported, None, ms) \<Rightarrow>
               (let (copied, err, ms') = copy_all (tp_fails tp i) (CopyBackup fu tu) refs
                in (imported, copied, err, ms @ ms'))))"

definition set_node :: "string \<Rightarrow> string \<Rightarrow> orch \<Rightarrow> orch" where
  "set_node i n r = snd (updateDeploymentStatus i (no_patch\<lparr>sp_nodeId := Some (Some n)\<rparr>) r)"

definition count_of :: "nat \<Rightarrow> string \<Rightarrow> string" where
  "count_of n what = show_nat n @ '' '' @ what @ (if n = 1 then [] else ''s'')"

definition leftovers :: "transport \<Rightarrow> string \<Rightarrow> string \<Rightarrow> string list \<Rightarrow> string list" where
  "leftovers tp i fu refs =
     (case tp_fails tp i (Purge fu) of None \<Rightarrow> [] | Some e \<Rightarrow> [''volumes ('' @ e @ '')''])
       @ map (\<lambda>f. ''backup '' @ f) (filter (\<lambda>f. tp_fails tp i (RemoveBackupFile fu f) \<noteq> None) refs)"

definition migrate_from ::
  "transport \<Rightarrow> time \<Rightarrow> migration_plan \<Rightarrow> string \<Rightarrow> orch \<Rightarrow> orch \<times> migration_event list" where
  "migrate_from tp clock p f r =
     (let i = mp_deploymentId p; to = nd_id (mp_target p);
          fu = tp_url tp (Some f); tu = tp_url tp (Some to);
          (imported, copied, err, ms) = copy_phase tp i fu tu (map bk_ref (listBackups i r));
          (err, r) = (case err of Some e \<Rightarrow> (Some e, r)
            | None \<Rightarrow> (case allocatePorts clock i (mp_target p) (mp_ports p) r of
                (Inl e, r) \<Rightarrow> (Some (refusal_text (rangeOf (mp_target p)) e), r) | (Inr _, r) \<Rightarrow> (None, r)))
      in case err of
           Some e \<Rightarrow>
             (appendDeploymentEvent clock i ''migration-failed''
                (''could not move to '' @ to @ '': '' @ e @ '' -- the server is still on '' @ f @ '', unchanged'') r,
              ms @ try_all (tp_fails tp i) (map (RemoveVolume tu) imported @ map (RemoveBackupFile tu) copied))
         | None \<Rightarrow>
             let r = set_node i to r;
                 r = appendDeploymentEvent clock i ''migrated''
                   (''moved from '' @ f @ '' to '' @ to @ '': '' @ count_of (length imported) ''volume'' @ '', ''
                     @ count_of (length copied) ''backup'') r;
                 left = leftovers tp i fu copied;
                 r = (if left = [] then r
                      else appendDeploymentEvent clock i ''migration-cleanup-incomplete'' (''left on '' @ f @ '': '' @ js_join '', '' left) r)
             in (r, ms @ Switched to # try_all (tp_fails tp i) (Purge fu # map (RemoveBackupFile fu) copied)))"

definition migrate :: "transport \<Rightarrow> time \<Rightarrow> migration_plan \<Rightarrow> orch \<Rightarrow> orch \<times> migration_event list" where
  "migrate tp clock p r =
     (let i = mp_deploymentId p; to = nd_id (mp_target p);
          r = appendDeploymentEvent clock i ''migration-started'' (''moving from '' @ nullish (mp_from p) ''no node'' @ '' to '' @ to) r
      in case given (mp_from p) of
           Some f \<Rightarrow> migrate_from tp clock p f r
         | None \<Rightarrow>
             (case allocatePorts clock i (mp_target p) (mp_ports p) r of
                (Inl e, r) \<Rightarrow> (appendDeploymentEvent clock i ''migration-failed''
                     (''could not move to '' @ to @ '': '' @ refusal_text (rangeOf (mp_target p)) e) r, [])
              | (Inr _, r) \<Rightarrow>
                  (appendDeploymentEvent clock i ''migrated'' (''assigned to '' @ to @ '' (it held no data yet)'') (set_node i to r),
                   [Switched to])))"

text \<open>\<open>run\<close>: the server leaves the set in flight however the move ends.\<close>

definition run_migration :: "transport \<Rightarrow> time \<Rightarrow> migration_plan \<Rightarrow> string list \<Rightarrow> orch \<Rightarrow> orch \<times> string list" where
  "run_migration tp clock p inFlight r = (fst (migrate tp clock p r), removeAll (mp_deploymentId p) inFlight)"

text \<open>\<open>POST /deployments/:id/migrate\<close>, behind the check for a platform administrator.\<close>

definition post_migrate ::
  "(string \<Rightarrow> nat) \<Rightarrow> time \<Rightarrow> string \<Rightarrow> json \<Rightarrow> string list \<Rightarrow> orch \<Rightarrow> migration_plan reply \<times> string list" where
  "post_migrate collate clock i body inFlight r =
     (let target = json_string (jprop body ''nodeId'')
      in if target = [] then (Inl (400, ''nodeId is required''), inFlight)
         else planMigration collate inFlight i target clock r)"

section \<open>What the nodes hold\<close>

text \<open>
  The volumes and the backup files of the server at each agent. An operation that fails is taken at
  its worst: a copy brought nothing, a removal removed.
\<close>

type_synonym holdings = "string \<Rightarrow> string set \<times> string set"

fun effect :: "migration_event \<Rightarrow> holdings \<Rightarrow> holdings" where
  "effect (Tried (CopyVolume f t p) None) s = s(t := (insert p (fst (s t)), snd (s t)))"
| "effect (Tried (CopyBackup f t b) None) s = s(t := (fst (s t), insert b (snd (s t))))"
| "effect (Tried (RemoveVolume u p) e) s = s(u := (fst (s u) - {p}, snd (s u)))"
| "effect (Tried (RemoveBackupFile u b) e) s = s(u := (fst (s u), snd (s u) - {b}))"
| "effect (Tried (Purge u) e) s = s(u := ({}, snd (s u)))"
| "effect ev s = s"

text \<open>The node the record names after a log.\<close>

fun home_of :: "string \<Rightarrow> migration_event list \<Rightarrow> string" where
  "home_of f [] = f"
| "home_of f (Switched n # evs) = home_of n evs"
| "home_of f (Tried op e # evs) = home_of f evs"

fun spares :: "string \<Rightarrow> migration_event \<Rightarrow> bool" where
  "spares u (Tried (RemoveVolume v p) e) = (v \<noteq> u)"
| "spares u (Tried (RemoveBackupFile v b) e) = (v \<noteq> u)"
| "spares u (Tried (Purge v) e) = (v \<noteq> u)"
| "spares u ev = True"

lemma spares_effect: "spares u ev \<Longrightarrow> fst (s u) \<subseteq> fst (effect ev s u) \<and> snd (s u) \<subseteq> snd (effect ev s u)"
  by (induction ev s rule: effect.induct) auto

lemma spares_fold:
  "list_all (spares u) evs \<Longrightarrow> fst (s u) \<subseteq> fst (fold effect evs s u) \<and> snd (s u) \<subseteq> snd (fold effect evs s u)"
proof (induction evs arbitrary: s)
  case (Cons ev evs)
  then have "fst (s u) \<subseteq> fst (effect ev s u) \<and> snd (s u) \<subseteq> snd (effect ev s u)"
    "fst (effect ev s u) \<subseteq> fst (fold effect evs (effect ev s) u) \<and> snd (effect ev s u) \<subseteq> snd (fold effect evs (effect ev s) u)"
    by (simp_all add: spares_effect)
  then show ?case unfolding fold_simps by blast
qed simp

fun is_switch :: "migration_event \<Rightarrow> bool" where
  "is_switch (Switched n) = True"
| "is_switch (Tried op e) = False"

lemma home_no_switch: "list_all (\<lambda>e. \<not> is_switch e) evs \<Longrightarrow> home_of f evs = f"
  by (induction f evs rule: home_of.induct) auto

lemma home_append: "home_of f (xs @ ys) = home_of (home_of f xs) ys"
  by (induction f xs rule: home_of.induct) auto

lemma try_all_all: "list_all P (try_all fails ops) = list_all (\<lambda>op. P (Tried op (fails op))) ops"
  by (simp add: try_all_def list_all_iff)

lemma copy_all_log:
  "copy_all fails copy xs = (copied, err, ms) \<Longrightarrow>
     (\<forall>e \<in> set ms. \<exists>x o'. e = Tried (copy x) o') \<and> (err = None \<longrightarrow> copied = xs \<and> ms = map (\<lambda>x. Tried (copy x) None) xs)"
proof (induction xs arbitrary: copied err ms)
  case (Cons x xs)
  show ?case
  proof (cases "fails (copy x)")
    case None
    obtain c e m where r: "copy_all fails copy xs = (c, e, m)" by (cases "copy_all fails copy xs") auto
    then show ?thesis using Cons.prems None Cons.IH [OF r] by fastforce
  next
    case (Some y)
    then show ?thesis using Cons.prems by (auto simp: Some)
  qed
qed simp

lemma copies_hold:
  "set paths \<subseteq> fst (fold effect (map (\<lambda>x. Tried (CopyVolume fu tu x) None) paths) s tu)"
  "set refs \<subseteq> snd (fold effect (map (\<lambda>x. Tried (CopyBackup fu tu x) None) refs) s tu)"
proof -
  have v: "list_all (spares tu) (map (\<lambda>x. Tried (CopyVolume fu tu x) None) xs)"
    and b: "list_all (spares tu) (map (\<lambda>x. Tried (CopyBackup fu tu x) None) xs)" for xs
    by (simp_all add: list_all_iff)
  show "set paths \<subseteq> fst (fold effect (map (\<lambda>x. Tried (CopyVolume fu tu x) None) paths) s tu)"
    using spares_fold [OF v] by (induction paths arbitrary: s) fastforce+
  show "set refs \<subseteq> snd (fold effect (map (\<lambda>x. Tried (CopyBackup fu tu x) None) refs) s tu)"
    using spares_fold [OF b] by (induction refs arbitrary: s) fastforce+
qed

lemma copy_phase_log:
  assumes "copy_phase tp i fu tu refs = (imported, copied, err, ms)" "fu \<noteq> tu"
  shows "list_all (spares fu) ms \<and> list_all (\<lambda>e. \<not> is_switch e) ms
    \<and> (err = None \<longrightarrow> (\<exists>paths. tp_volumes tp fu i = Inr paths \<and> imported = paths \<and> copied = refs
         \<and> ms = map (\<lambda>x. Tried (CopyVolume fu tu x) None) paths @ map (\<lambda>x. Tried (CopyBackup fu tu x) None) refs))"
proof (cases "tp_volumes tp fu i")
  case (Inl e)
  then show ?thesis using assms(1) by (auto simp: copy_phase_def)
next
  case (Inr paths)
  obtain c e m where v: "copy_all (tp_fails tp i) (CopyVolume fu tu) paths = (c, e, m)"
    by (cases "copy_all (tp_fails tp i) (CopyVolume fu tu) paths") auto
  obtain c' e' m' where b: "copy_all (tp_fails tp i) (CopyBackup fu tu) refs = (c', e', m')"
    by (cases "copy_all (tp_fails tp i) (CopyBackup fu tu) refs") auto
  show ?thesis
    using assms(1) copy_all_log [OF v] copy_all_log [OF b]
    by (cases e) (fastforce simp: copy_phase_def Inr v b list_all_iff)+
qed

text \<open>The two ways a move between nodes ends.\<close>

lemma migrate_from_cases:
  assumes "migrate_from tp t p f r = (r', trace)" "tp_url tp (Some f) \<noteq> tp_url tp (Some (nd_id (mp_target p)))"
  defines "fu \<equiv> tp_url tp (Some f)" and "tu \<equiv> tp_url tp (Some (nd_id (mp_target p)))"
    and "refs \<equiv> map bk_ref (listBackups (mp_deploymentId p) r)"
  obtains (failed) "list_all (spares fu) trace" "list_all (\<lambda>e. \<not> is_switch e) trace"
      "o_deployments r' = o_deployments r" "o_ports r' = o_ports r"
    | (moved) paths rest where "tp_volumes tp fu (mp_deploymentId p) = Inr paths"
      "trace = (map (\<lambda>x. Tried (CopyVolume fu tu x) None) paths @ map (\<lambda>x. Tried (CopyBackup fu tu x) None) refs)
        @ Switched (nd_id (mp_target p)) # rest"
      "list_all (spares tu) rest" "list_all (\<lambda>e. \<not> is_switch e) rest"
      "map_of (o_deployments r') (mp_deploymentId p) =
        map_option (\<lambda>d. d\<lparr>dp_nodeId := Some (nd_id (mp_target p))\<rparr>) (map_of (o_deployments r) (mp_deploymentId p))"
proof -
  obtain imported copied err ms where ph: "copy_phase tp (mp_deploymentId p) fu tu refs = (imported, copied, err, ms)"
    by (cases "copy_phase tp (mp_deploymentId p) fu tu refs") auto
  note log = copy_phase_log [OF ph assms(2) [folded fu_def tu_def]]
  obtain x s where al: "allocatePorts t (mp_deploymentId p) (mp_target p) (mp_ports p) r = (x, s)"
    by (cases "allocatePorts t (mp_deploymentId p) (mp_target p) (mp_ports p) r") auto
  have ne: "fu \<noteq> tu" "tu \<noteq> fu" using assms(2) by (simp_all add: fu_def tu_def)
  have undo: "list_all (spares fu) (try_all g (map (RemoveVolume tu) a @ map (RemoveBackupFile tu) b))"
    "list_all (\<lambda>e. \<not> is_switch e) (try_all g (map (RemoveVolume tu) a @ map (RemoveBackupFile tu) b))" for g a b
    using ne by (auto simp: try_all_def list_all_iff)
  have clean: "list_all (spares tu) (try_all g (Purge fu # map (RemoveBackupFile fu) b))"
    "list_all (\<lambda>e. \<not> is_switch e) (try_all g (Purge fu # map (RemoveBackupFile fu) b))" for g b
    using ne by (auto simp: try_all_def list_all_iff)
  show thesis
  proof (cases "err = None \<and> (\<exists>y. x = Inr y)")
    case True
    then obtain y where y: "err = None" "x = Inr y" by blast
    have s: "o_deployments s = o_deployments r"
      using al allocate_deployments [of t "mp_deploymentId p" "mp_target p" "mp_ports p" r] by simp
    show thesis
      using assms(1) log y clean s
      by (intro moved)
        (auto simp: migrate_from_def Let_def fu_def [symmetric] tu_def [symmetric] refs_def [symmetric] ph al set_node_def
          update_status_map patch_deployment_def no_patch_def cong: map_option_cong)
  next
    case False
    have "s = r" if "x = Inl e" for e using al that allocate_refused by blast
    then show thesis
      using assms(1) log undo False
      by (intro failed)
        (auto simp: migrate_from_def Let_def fu_def [symmetric] tu_def [symmetric] refs_def [symmetric] ph al
          appendDeploymentEvent_def split: option.splits sum.splits)
  qed
qed

lemma append_cut: "xs @ ys = a @ b # c \<Longrightarrow> \<not> length xs \<le> length a \<Longrightarrow> \<exists>m. xs = a @ b # m \<and> m @ ys = c"
  by (auto simp: append_eq_append_conv2 neq_Nil_conv)

text \<open>The server holds its volumes and backups on the node of its record.\<close>

definition at_home :: "transport \<Rightarrow> string set \<Rightarrow> string set \<Rightarrow> string \<Rightarrow> holdings \<Rightarrow> bool" where
  "at_home tp vs bs n s = (vs \<subseteq> fst (s (tp_url tp (Some n))) \<and> bs \<subseteq> snd (s (tp_url tp (Some n))))"

text \<open>
  C23: At every moment of a move between two nodes, wherever the process stops and whatever fails, the
  node the record names holds every volume the source listed and every backup of the server; a move
  that ends without the switch leaves the servers' records and ports as they were, and one that ends
  with it names the target.
\<close>

theorem migration_safe:
  assumes "mp_from p = Some f" "f \<noteq> []" "tp_url tp (Some f) \<noteq> tp_url tp (Some (nd_id (mp_target p)))"
    "at_home tp vs (set (map bk_ref (listBackups (mp_deploymentId p) r))) f s"
    "case tp_volumes tp (tp_url tp (Some f)) (mp_deploymentId p) of Inl e \<Rightarrow> True | Inr paths \<Rightarrow> vs \<subseteq> set paths"
    "migrate tp t p r = (r', past @ todo)"
  shows "at_home tp vs (set (map bk_ref (listBackups (mp_deploymentId p) r))) (home_of f past) (fold effect past s)
    \<and> (if list_ex is_switch (past @ todo)
       then map_of (o_deployments r') (mp_deploymentId p) =
         map_option (\<lambda>d. d\<lparr>dp_nodeId := Some (nd_id (mp_target p))\<rparr>) (map_of (o_deployments r) (mp_deploymentId p))
       else o_deployments r' = o_deployments r \<and> o_ports r' = o_ports r)"
proof -
  let ?fu = "tp_url tp (Some f)"
  let ?tu = "tp_url tp (Some (nd_id (mp_target p)))"
  let ?refs = "map bk_ref (listBackups (mp_deploymentId p) r)"
  obtain q where q: "migrate_from tp t p f q = (r', past @ todo)" "o_deployments q = o_deployments r" "o_ports q = o_ports r"
    "listBackups (mp_deploymentId p) q = listBackups (mp_deploymentId p) r"
    using assms(1,2,6) by (auto simp: migrate_def given_def appendDeploymentEvent_def listBackups_def)
  have start: "vs \<subseteq> fst (s ?fu)" "set ?refs \<subseteq> snd (s ?fu)" using assms(4) by (simp_all add: at_home_def)
  show ?thesis
  proof (rule migrate_from_cases [OF q(1) assms(3)])
    assume failed: "list_all (spares ?fu) (past @ todo)" "list_all (\<lambda>e. \<not> is_switch e) (past @ todo)"
      "o_deployments r' = o_deployments q" "o_ports r' = o_ports q"
    then have "list_all (spares ?fu) past" "list_all (\<lambda>e. \<not> is_switch e) past" by simp_all
    moreover have "\<not> list_ex is_switch (past @ todo)" using failed(2) by (auto simp: list_all_iff list_ex_iff)
    ultimately show ?thesis
      using start spares_fold [of ?fu past s] failed(3,4) q(2,3) by (auto simp: home_no_switch at_home_def)
  next
    fix ps rest
    let ?copies = "map (\<lambda>x. Tried (CopyVolume ?fu ?tu x) None) ps @ map (\<lambda>x. Tried (CopyBackup ?fu ?tu x) None) ?refs"
    assume moved: "tp_volumes tp ?fu (mp_deploymentId p) = Inr ps"
      "past @ todo = (map (\<lambda>x. Tried (CopyVolume ?fu ?tu x) None) ps
        @ map (\<lambda>x. Tried (CopyBackup ?fu ?tu x) None) (map bk_ref (listBackups (mp_deploymentId p) q)))
        @ Switched (nd_id (mp_target p)) # rest"
      "list_all (spares ?tu) rest" "list_all (\<lambda>e. \<not> is_switch e) rest"
      "map_of (o_deployments r') (mp_deploymentId p) =
        map_option (\<lambda>d. d\<lparr>dp_nodeId := Some (nd_id (mp_target p))\<rparr>) (map_of (o_deployments q) (mp_deploymentId p))"
    have all: "list_all (spares u) ?copies" "list_all (\<lambda>e. \<not> is_switch e) ?copies" for u
      by (auto simp: list_all_iff)
    have tr: "past @ todo = ?copies @ Switched (nd_id (mp_target p)) # rest" using moved(2) by (simp add: q(4))
    have "at_home tp vs (set ?refs) (home_of f past) (fold effect past s)"
    proof (cases "length past \<le> length ?copies")
      case True
      then have "past = take (length past) ?copies" using arg_cong [OF tr, of "take (length past)"] by simp
      then have d: "set past \<subseteq> set ?copies" by (metis set_take_subset)
      then have "list_all (spares ?fu) past" "list_all (\<lambda>e. \<not> is_switch e) past"
        using all(1) [of ?fu] all(2) by (auto simp: list_all_iff)
      then show ?thesis using start spares_fold [of ?fu past s] by (auto simp: home_no_switch at_home_def)
    next
      case False
      then obtain more where m: "past = ?copies @ Switched (nd_id (mp_target p)) # more" "more @ todo = rest"
        using append_cut [OF tr] by blast
      have more: "list_all (spares ?tu) more" "list_all (\<lambda>e. \<not> is_switch e) more"
        using moved(3,4) by (auto simp flip: m(2))
      have vs: "vs \<subseteq> set ps" using assms(5) moved(1) by simp
      let ?bk = "map (\<lambda>x. Tried (CopyBackup ?fu ?tu x) None) ?refs"
      let ?s1 = "fold effect (map (\<lambda>x. Tried (CopyVolume ?fu ?tu x) None) ps) s"
      have "set ps \<subseteq> fst (?s1 ?tu)" by (rule copies_hold)
      also have "\<dots> \<subseteq> fst (fold effect ?bk ?s1 ?tu)" using spares_fold [of ?tu ?bk ?s1] by (simp add: list_all_iff)
      finally have A: "set ps \<subseteq> fst (fold effect ?copies s ?tu)" by simp
      have B: "set ?refs \<subseteq> snd (fold effect ?copies s ?tu)"
        unfolding fold_append comp_def by (rule copies_hold)
      define X where "X = fold effect ?copies s"
      have D: "fold effect past s = fold effect more X" by (simp add: m(1) X_def)
      have E: "home_of f past = nd_id (mp_target p)"
        unfolding m(1) home_append home_no_switch [OF all(2)] by (simp add: home_no_switch more)
      show ?thesis
        unfolding at_home_def D E using vs A B spares_fold [OF more(1), of X] unfolding X_def [symmetric] by blast
    qed
    then show ?thesis using moved(5) q(2) tr by simp
  qed
qed

definition wire :: transport where
  "wire = \<lparr>tp_volumes = \<lambda>u i. Inr [''/data''], tp_fails = \<lambda>i op. None, tp_url = \<lambda>n. nullish n []\<rparr>"

definition sample_plan :: migration_plan where
  "sample_plan = \<lparr>mp_deploymentId = ''d'', mp_ports = [], mp_from = Some ''a'', mp_target = node_at ''b'' 0 10\<rparr>"

definition on_a :: holdings where "on_a = (\<lambda>u. if u = ''a'' then ({''/data''}, {}) else ({}, {}))"

lemma migration_safe_witness:
  "home_of ''a'' (snd (migrate wire 5 sample_plan new_orch)) = ''b''
   \<and> ''/data'' \<in> fst (fold effect (snd (migrate wire 5 sample_plan new_orch)) on_a ''b'')"
proof -
  let ?log = "snd (migrate wire 5 sample_plan new_orch)"
  have "home_of ''a'' ?log = ''b''" by code_simp
  moreover have "listBackups ''d'' new_orch = []" by code_simp
  then have "at_home wire {''/data''} {} (home_of ''a'' ?log) (fold effect ?log on_a)"
    using migration_safe [where tp = wire and p = sample_plan and f = "''a''" and vs = "{''/data''}" and r = new_orch and s = on_a
        and t = 5 and r' = "fst (migrate wire 5 sample_plan new_orch)" and past = ?log and todo = "[]"]
    by (simp add: wire_def sample_plan_def node_at_def at_home_def on_a_def)
  ultimately show ?thesis by (simp add: at_home_def wire_def)
qed

end
