(* ===== verification/Server_List.thy ===== *)
theory Server_List
  imports Sharing_Runs Js_Text
begin

text \<open>
  Searching, filtering and paging the list of servers (\<^verbatim>\<open>deploymentQuery.ts\<close>) and the two list
  routes of \<^verbatim>\<open>api.ts\<close>. Query parameters are optional strings; \<open>number\<close> is \<open>Number\<close>, with
  \<open>None\<close> where it gives no finite number, and \<open>collate\<close> the rank of an id under \<open>localeCompare\<close>.

  The lemmas: the pages of a list tile it, whatever order the rows are read in; every row of a page
  carries the role the guard gives its caller.
\<close>

section \<open>Filters and pages\<close>

record list_query =
  lq_q :: "string option"
  lq_status :: "string option"
  lq_nodeId :: "string option"
  lq_ownerId :: "string option"
  lq_limit :: "string option"
  lq_offset :: "string option"

record list_filter =
  lf_q :: "string option"
  lf_status :: "string option"
  lf_nodeId :: "string option"
  lf_ownerId :: "string option"

definition default_limit :: int where "default_limit = 25"
definition max_limit :: int where "max_limit = 200"
definition unassigned :: string where "unassigned = ''unassigned''"

definition query_text :: "string option \<Rightarrow> string option" where
  "query_text v = given (map_option js_trim v)"

definition parseFilter :: "list_query \<Rightarrow> list_filter" where
  "parseFilter q = \<lparr>lf_q = query_text (lq_q q), lf_status = query_text (lq_status q),
     lf_nodeId = query_text (lq_nodeId q), lf_ownerId = query_text (lq_ownerId q)\<rparr>"

definition as_int :: "(string \<Rightarrow> rat option) \<Rightarrow> string option \<Rightarrow> int \<Rightarrow> int" where
  "as_int number v dflt =
     (case Option.bind v number of None \<Rightarrow> dflt | Some n \<Rightarrow> if n \<ge> 0 then \<lfloor>n\<rfloor> else dflt)"

definition parsePage :: "(string \<Rightarrow> rat option) \<Rightarrow> list_query \<Rightarrow> int \<times> int" where
  "parsePage number q =
     (min (max (as_int number (lq_limit q) default_limit) 1) max_limit, as_int number (lq_offset q) 0)"

fun is_part :: "string \<Rightarrow> string \<Rightarrow> bool" where
  "is_part p [] = (p = [])"
| "is_part p (c # s) = (starts_with (c # s) p \<or> is_part p s)"

fun status_name :: "deployment_status \<Rightarrow> string" where
  "status_name Pending_d = ''pending''"
| "status_name Running = ''running''"
| "status_name Stopped = ''stopped''"
| "status_name Crashed = ''crashed''"
| "status_name Failed_d = ''failed''"

definition matchesFilter :: "deployment_view \<Rightarrow> list_filter \<Rightarrow> bool" where
  "matchesFilter d f =
     ((case lf_q f of None \<Rightarrow> True | Some q \<Rightarrow> is_part (js_lower q) (js_lower (dv_name d)))
      \<and> (case lf_status f of None \<Rightarrow> True | Some s \<Rightarrow> status_name (dp_status d) = s)
      \<and> (case lf_nodeId f of None \<Rightarrow> True | Some n \<Rightarrow> dp_nodeId d = (if n = unassigned then None else Some n))
      \<and> (case lf_ownerId f of None \<Rightarrow> True | Some u \<Rightarrow> dv_userId d = u))"

record page =
  pg_items :: "deployment_view list"
  pg_total :: nat
  pg_limit :: int
  pg_offset :: int

definition matched :: "(string \<Rightarrow> nat) \<Rightarrow> deployment_view list \<Rightarrow> list_filter \<Rightarrow> deployment_view list" where
  "matched collate rows f = newest_first dp_createdAt (sort_key (\<lambda>d. collate (dp_id d)) (filter (\<lambda>d. matchesFilter d f) rows))"

definition pageOf :: "(string \<Rightarrow> nat) \<Rightarrow> deployment_view list \<Rightarrow> list_filter \<Rightarrow> int \<times> int \<Rightarrow> page" where
  "pageOf collate rows f pg =
     (let m = matched collate rows f; (limit, offset) = pg
      in \<lparr>pg_items = take (nat limit) (drop (nat offset) m), pg_total = length m, pg_limit = limit, pg_offset = offset\<rparr>)"

section \<open>The list routes\<close>

text \<open>A page, each of its rows with the caller's role on it.\<close>

definition row_role :: "principal \<Rightarrow> user \<Rightarrow> orch \<Rightarrow> deployment_view \<Rightarrow> role option" where
  "row_role p me r d =
     (let share = getSubuserFor (dp_id d) (u_email me) r;
          grant = (case share of None \<Rightarrow> None
            | Some s \<Rightarrow> if su_status s = ''active'' \<and> su_userId s = Some (pr_id p) then Some (su_role s) else None)
      in resolveRole p (dv_userId d) grant (map_option mb_role (team_of_caller p (dv_teamId d) r)))"

definition get_deployments ::
  "(string \<Rightarrow> rat option) \<Rightarrow> (string \<Rightarrow> nat) \<Rightarrow> principal \<Rightarrow> list_query \<Rightarrow> orch \<Rightarrow> page \<times> role option list" where
  "get_deployments number collate p q r =
     (let f = parseFilter q; pg = parsePage number q
      in if platform_admin p then
           let page = pageOf collate (listDeployments r) f pg in (page, map (\<lambda>_. Some Owner) (pg_items page))
         else case getUser (pr_id p) r of
           None \<Rightarrow> (\<lparr>pg_items = [], pg_total = 0, pg_limit = fst pg, pg_offset = snd pg\<rparr>, [])
         | Some me \<Rightarrow>
             let page = pageOf collate (listDeploymentsForUser (u_id me) r) f pg
             in (page, map (row_role p me r) (pg_items page)))"

definition clamp :: "(string \<Rightarrow> rat option) \<Rightarrow> string option \<Rightarrow> int \<Rightarrow> int \<Rightarrow> int" where
  "clamp number v dflt most =
     (case Option.bind v number of None \<Rightarrow> dflt | Some n \<Rightarrow> if n \<ge> 0 then min \<lfloor>n\<rfloor> most else dflt)"

definition max_safe_integer :: int where "max_safe_integer = 2 ^ 53 - 1"

definition get_events ::
  "(string \<Rightarrow> rat option) \<Rightarrow> principal \<Rightarrow> string \<Rightarrow> string option \<Rightarrow> string option \<Rightarrow> orch \<Rightarrow> deployment_event list reply" where
  "get_events number p i limit offset r =
     and_then (guarded r p i ServerView) (\<lambda>(role, d).
       Inr (take (nat (clamp number limit 50 200)) (drop (nat (clamp number offset 0 max_safe_integer)) (rev (dd_events d)))))"

section \<open>Pages tile the list\<close>

lemma slices_tile: "0 < l \<Longrightarrow> concat (map (\<lambda>k. take l (drop (k * l) xs)) [0..<n]) = take (n * l) xs"
proof (induction n)
  case (Suc n)
  have "take (Suc n * l) xs = take (n * l) xs @ take l (drop (n * l) xs)"
    by (metis add.commute mult_Suc take_add)
  then show ?case using Suc by simp
qed simp

text \<open>Sorting by two keys is the same for two orders of the same rows, when the keys tell them apart.\<close>

lemma sort_unique:
  assumes "mset xs = mset ys" "inj_on f (set xs)"
  shows "sort_key f xs = sort_key f ys"
proof -
  have "sort (map f xs) = map f (sort_key f xs)" "sort (map f xs) = map f (sort_key f ys)"
    by (rule properties_for_sort; simp add: assms(1))+
  then have "map f (sort_key f xs) = map f (sort_key f ys)" by simp
  moreover have "set (sort_key f ys) = set xs" using assms(1) by (metis set_mset_mset set_sort)
  ultimately show ?thesis
    using assms(2) by (intro map_inj_on [of f]) (simp_all add: Un_absorb1)
qed

text \<open>
  C24: The pages of a list, one after the other, are the matching rows, each once and newest first;
  no page is longer than asked, and the order in which the rows were read does not matter.
\<close>

theorem pages_tile:
  assumes "0 < limit" "int (pg_total (pageOf collate rows f (limit, 0))) \<le> int n * limit"
  shows "concat (map (\<lambda>k. pg_items (pageOf collate rows f (limit, int k * limit))) [0..<n]) = matched collate rows f
    \<and> mset (matched collate rows f) = mset (filter (\<lambda>d. matchesFilter d f) rows)
    \<and> sorted (map (\<lambda>d. - dp_createdAt d) (matched collate rows f))
    \<and> int (length (pg_items (pageOf collate rows f (limit, offset)))) \<le> limit
    \<and> (mset rows' = mset rows \<and> inj_on (\<lambda>d. collate (dp_id d)) (set rows) \<longrightarrow>
        pageOf collate rows' f (limit, offset) = pageOf collate rows f (limit, offset))"
proof (intro conjI impI)
  let ?m = "matched collate rows f"
  have page: "pg_items (pageOf collate rows f (limit, int k * limit)) = take (nat limit) (drop (k * nat limit) ?m)" for k
    using assms(1) by (simp add: pageOf_def Let_def nat_mult_distrib)
  have "int (length ?m) \<le> int (n * nat limit)" using assms by (simp add: pageOf_def Let_def)
  then have "length ?m \<le> n * nat limit" by (simp only: of_nat_le_iff)
  then show "concat (map (\<lambda>k. pg_items (pageOf collate rows f (limit, int k * limit))) [0..<n]) = ?m"
    unfolding page using slices_tile [of "nat limit" ?m n] assms(1) by simp
  show "mset ?m = mset (filter (\<lambda>d. matchesFilter d f) rows)" by (simp add: matched_def newest_first_def)
  show "sorted (map (\<lambda>d. - dp_createdAt d) ?m)" by (simp add: matched_def newest_first_def)
  show "int (length (pg_items (pageOf collate rows f (limit, offset)))) \<le> limit"
    using assms(1) by (simp add: pageOf_def Let_def)
  assume r: "mset rows' = mset rows \<and> inj_on (\<lambda>d. collate (dp_id d)) (set rows)"
  then have "mset (filter (\<lambda>d. matchesFilter d f) rows) = mset (filter (\<lambda>d. matchesFilter d f) rows')" by (simp add: mset_filter)
  then have "sort_key (\<lambda>d. collate (dp_id d)) (filter (\<lambda>d. matchesFilter d f) rows)
      = sort_key (\<lambda>d. collate (dp_id d)) (filter (\<lambda>d. matchesFilter d f) rows')"
    using r by (intro sort_unique) (auto intro: inj_on_subset)
  then show "pageOf collate rows' f (limit, offset) = pageOf collate rows f (limit, offset)"
    by (simp add: pageOf_def matched_def)
qed


definition sample_row :: "nat \<Rightarrow> deployment_view" where
  "sample_row k = \<lparr>dp_id = uuid k, dp_serverConfigId = uuid k, dp_nodeId = None, dp_containerId = None, dp_status = Stopped,
     dp_startedAt = None, dp_stoppedAt = None, dp_createdAt = 5, dp_suspendedAt = None, dp_suspendedReason = None,
     dv_name = ''s'', dv_dockerImage = ''i'', dv_userId = ''u'', dv_teamId = None, dv_type = ''minecraft'',
     dv_resourceLimits = no_limits, dv_autoRestart = False\<rparr>"

definition no_filter :: list_filter where
  "no_filter = \<lparr>lf_q = None, lf_status = None, lf_nodeId = None, lf_ownerId = None\<rparr>"

theorem pages_tile_witness:
  "concat (map (\<lambda>k. pg_items (pageOf length [sample_row 0, sample_row 1, sample_row 2] no_filter (2, int k * 2))) [0..<2])
   = matched length [sample_row 0, sample_row 1, sample_row 2] no_filter"
  by (rule conjunct1 [OF pages_tile]) (simp_all add: pageOf_def matched_def newest_first_def matchesFilter_def no_filter_def Let_def)

end
