(* ===== verification/Create_Server.thy ===== *)
theory Create_Server
  imports Control_Runs Js_Text
begin

text \<open>
  Creating and editing a server (\<^verbatim>\<open>POST /deployments\<close> and \<^verbatim>\<open>PATCH /deployments/:id\<close> of \<^verbatim>\<open>api.ts\<close>).
  The fields of a request that the route only casts are given with the type of the cast; the
  others are JSON values. What the route asks of billing and of a node is in \<open>create_context\<close>.

  The lemmas: a refused request leaves every server, port and event as they were and sends nothing;
  an accepted one places the server on a healthy node, with a heap that fits its memory cap and
  within the memory of its owner's plan.
\<close>

section \<open>Requests and refusals\<close>

record create_body =
  cb_name :: json
  cb_dockerImage :: json
  cb_ports :: "(string \<times> string) list option"
  cb_env :: "(string \<times> string) list option"
  cb_resourceLimits :: "limits option"
  cb_autoRestart :: bool
  cb_type :: json
  cb_nodeId :: json
  cb_eggId :: json
  cb_eggValues :: "(string \<times> string) list option"
  cb_dataPath :: json
  cb_persistPaths :: json

text \<open>The node's answer to a directory to import.\<close>

datatype import_answer = NodeUnreachable | PathRefused "string option" | PathResolved "string option"

record create_context =
  kx_full_match :: "string \<Rightarrow> string \<Rightarrow> bool"
  kx_generate :: "nat \<Rightarrow> string"
  kx_quota :: "string \<Rightarrow> nat \<Rightarrow> bool \<times> rat option"
  kx_standing :: "string \<Rightarrow> standing option"
  kx_entitlements :: "string \<Rightarrow> entitlements option"
  kx_collate :: "string \<Rightarrow> nat"
  kx_resolve :: "string \<Rightarrow> json \<Rightarrow> import_answer"
  kx_text :: "json \<Rightarrow> string"

datatype create_problem =
    NameRequired | EggIdNotText | UnknownEgg string | EggRefused egg_error | ImageRequired
  | PathsRefused path_problem | QuotaReached "rat option" | NoCredit string | UnknownNode string
  | NodeNotHealthy string | NodeDraining string | NowhereToPlace | ImportForbidden | ImportNeedsEgg
  | ImportRefused string | AgentUnreachable | HeapRefused heap_problem | PlanRefused ram_problem
  | HostPortsRefused port_refusal

fun create_status :: "create_problem \<Rightarrow> nat" where
  "create_status (QuotaReached m) = 409"
| "create_status (NoCredit m) = 402"
| "create_status (NodeNotHealthy n) = 409"
| "create_status (NodeDraining n) = 409"
| "create_status NowhereToPlace = 503"
| "create_status ImportForbidden = 403"
| "create_status AgentUnreachable = 502"
| "create_status (PlanRefused e) = 409"
| "create_status (HostPortsRefused e) = refusal_status e"
| "create_status e = 400"

text \<open>What is published: two facts for billing, and the command to a node.\<close>

datatype server_event =
    DeploymentCreated string string limits
  | DeploymentUpdated string string limits
  | ServerStart start_command

record server_spec =
  sv_image :: string
  sv_ports :: "(string \<times> string) list"
  sv_env :: "(string \<times> string) list"
  sv_type :: string
  sv_dataPath :: "string option"

section \<open>Creating\<close>

text \<open>The recipe, from an egg or from the request itself.\<close>

definition spec_of :: "create_context \<Rightarrow> create_body \<Rightarrow> (create_problem, server_spec \<times> egg option) result" where
  "spec_of kx b =
     (case cb_eggId b of
        JUndef \<Rightarrow>
          (case cb_dockerImage b of
             JStr img \<Rightarrow>
               if img = [] then Inl ImageRequired
               else Inr (\<lparr>sv_image = img, sv_ports = nullish (cb_ports b) [], sv_env = nullish (cb_env b) [],
                      sv_type = (case cb_type b of JStr t \<Rightarrow> t | _ \<Rightarrow> ''generic''), sv_dataPath = None\<rparr>, None)
           | _ \<Rightarrow> Inl ImageRequired)
      | JStr i \<Rightarrow>
          (case getEgg i of
             None \<Rightarrow> Inl (UnknownEgg i)
           | Some e \<Rightarrow>
               (case buildEggDeployment (kx_full_match kx) (kx_generate kx) e (nullish (cb_eggValues b) []) (cb_ports b) of
                  Inl x \<Rightarrow> Inl (EggRefused x)
                | Inr d \<Rightarrow>
                    Inr (\<lparr>sv_image = ed_dockerImage d, sv_ports = ed_ports d, sv_env = ed_env d, sv_type = eg_id e,
                           sv_dataPath = Some (ed_dataPath d)\<rparr>, Some e)))
      | _ \<Rightarrow> Inl EggIdNotText)"

definition extra_paths :: "json \<Rightarrow> (create_problem, string list) result" where
  "extra_paths v =
     (if v = JUndef then Inr [] else case parsePersistPaths v of Inl e \<Rightarrow> Inl (PathsRefused e) | Inr ps \<Rightarrow> Inr ps)"

definition may_create :: "create_context \<Rightarrow> string \<Rightarrow> orch \<Rightarrow> (create_problem, unit) result" where
  "may_create kx userId r =
     (let (allowed, most) = kx_quota kx userId (length [d \<leftarrow> listDeployments r. dv_userId d = userId])
      in if \<not> allowed then Inl (QuotaReached most)
         else case creditProblem (kx_standing kx userId) of Some m \<Rightarrow> Inl (NoCredit m) | None \<Rightarrow> Inr ())"

definition place_server :: "create_context \<Rightarrow> time \<Rightarrow> json \<Rightarrow> orch \<Rightarrow> (create_problem, node) result" where
  "place_server kx now pin r =
     (let nodes = listNodes (kx_collate kx) r
      in case given (case pin of JStr i \<Rightarrow> Some i | _ \<Rightarrow> None) of
           Some i \<Rightarrow>
             (case find (\<lambda>n. nd_id n = i) nodes of
                None \<Rightarrow> Inl (UnknownNode i)
              | Some n \<Rightarrow>
                  if nodeHealth n now \<noteq> Healthy then Inl (NodeNotHealthy i)
                  else if nd_maintenance n then Inl (NodeDraining i)
                  else Inr n)
         | None \<Rightarrow> (case selectNode nodes now of None \<Rightarrow> Inl NowhereToPlace | Some n \<Rightarrow> Inr n))"

text \<open>\<open>url\<close> is where the agent of a node answers.\<close>

definition import_path ::
  "create_context \<Rightarrow> (node \<Rightarrow> string) \<Rightarrow> principal \<Rightarrow> json \<Rightarrow> server_spec \<Rightarrow> node \<Rightarrow> (create_problem, string option) result" where
  "import_path kx url p v spec n =
     (if v \<in> {JUndef, JNull, JStr []} then Inr None
      else if \<not> platform_admin p then Inl ImportForbidden
      else if given (sv_dataPath spec) = None then Inl ImportNeedsEgg
      else case kx_resolve kx (url n) v of
             NodeUnreachable \<Rightarrow> Inl AgentUnreachable
           | PathRefused e \<Rightarrow> Inl (ImportRefused (nullish e ''the node refused that directory''))
           | PathResolved path \<Rightarrow> Inr (Some (nullish path (kx_text kx v))))"

text \<open>The heap follows the memory cap unless the request names one: the environment with it, if so.\<close>

definition derived_env ::
  "egg option \<Rightarrow> (string \<times> string) list option \<Rightarrow> limits \<Rightarrow> node \<Rightarrow> (string \<times> string) list \<Rightarrow> (string \<times> string) list option" where
  "derived_env e values l n env =
     (case given (Option.bind e eg_memoryVariable) of
        None \<Rightarrow> None
      | Some v \<Rightarrow>
          map_option (\<lambda>heap. AList.update v (formatHeapMb heap) env)
            (derivedHeapMb (containerMemoryMb l (nd_ramTotalMb n)) (Option.bind values (\<lambda>m. map_of m v))))"

definition heapProblemFor :: "string \<Rightarrow> (string \<times> string) list \<Rightarrow> limits \<Rightarrow> node \<Rightarrow> heap_problem option" where
  "heapProblemFor ty env l n =
     (case given (Option.bind (getEgg ty) eg_memoryVariable) of
        None \<Rightarrow> None
      | Some v \<Rightarrow>
          (case (parseMemoryMb (nullish (map_of env v) []), containerMemoryMb l (nd_ramTotalMb n)) of
             (Some heap, Some cap) \<Rightarrow> heapBudgetProblem heap cap
           | _ \<Rightarrow> None))"

text \<open>What the owner's plan says of the memory of one more server.\<close>

definition plan_refuses :: "create_context \<Rightarrow> string \<Rightarrow> limits \<Rightarrow> node \<Rightarrow> orch \<Rightarrow> ram_problem option" where
  "plan_refuses kx userId l n r =
     (case kx_entitlements kx userId of
        None \<Rightarrow> None
      | Some e \<Rightarrow>
          ramProblem (Some e) (usageFor userId (listDeployments r) (listNodes (kx_collate kx) r) 0 None)
            (committedRamMb l (nd_ramTotalMb n)))"

text \<open>Every check of the route, in its order: the configuration to store and the node for it.\<close>

definition check_create ::
  "create_context \<Rightarrow> (node \<Rightarrow> string) \<Rightarrow> time \<Rightarrow> principal \<Rightarrow> create_body \<Rightarrow> orch \<Rightarrow> (create_problem, new_server \<times> node) result" where
  "check_create kx url now p b r =
     (case cb_name b of
        JStr name \<Rightarrow>
          if name = [] then Inl NameRequired
          else
            and_then (spec_of kx b) (\<lambda>(spec, e).
            and_then (extra_paths (cb_persistPaths b)) (\<lambda>paths.
            and_then (may_create kx (pr_id p) r) (\<lambda>_.
            and_then (place_server kx now (cb_nodeId b) r) (\<lambda>n.
            and_then (import_path kx url p (cb_dataPath b) spec n) (\<lambda>imported.
              let l = nullish (cb_resourceLimits b) no_limits;
                  env = nullish (derived_env e (cb_eggValues b) l n (sv_env spec)) (sv_env spec)
              in case heapProblemFor (sv_type spec) env l n of
                   Some x \<Rightarrow> Inl (HeapRefused x)
                 | None \<Rightarrow>
                     (case plan_refuses kx (pr_id p) l n r of
                        Some x \<Rightarrow> Inl (PlanRefused x)
                      | None \<Rightarrow>
                          (case checkPorts n (sv_ports spec) None r of
                             Inl x \<Rightarrow> Inl (HostPortsRefused x)
                           | Inr (ports, _) \<Rightarrow>
                               Inr (\<lparr>ns_userId = pr_id p, ns_teamId = None, ns_name = name, ns_dockerImage = sv_image spec,
                                 ns_ports = Some ports, ns_env = Some env, ns_resourceLimits = Some l,
                                 ns_autoRestart = Some (cb_autoRestart b), ns_dataPath = imported,
                                 ns_persistPaths = Some paths, ns_type = Some (sv_type spec)\<rparr>, n))))))))
      | _ \<Rightarrow> Inl NameRequired)"

definition post_deployment ::
  "create_context \<Rightarrow> (node \<Rightarrow> string) \<Rightarrow> time \<Rightarrow> principal \<Rightarrow> create_body \<Rightarrow> orch
     \<Rightarrow> (create_problem, deployment_detail option) result \<times> orch \<times> server_event list" where
  "post_deployment kx url clock p b r =
     (case check_create kx url clock p b r of
        Inl e \<Rightarrow> (Inl e, r, [])
      | Inr (inp, n) \<Rightarrow>
          let (c, r) = createServerConfig clock inp r;
              (d, r) = createDeployment clock (sc_id c) (Some (nd_id n)) r
          in case allocatePorts clock (dp_id d) n (sc_ports c) r of
               (Inl e, r) \<Rightarrow> (Inl (HostPortsRefused e), deleteDeployment (dp_id d) r, [])
             | (Inr _, r) \<Rightarrow>
                 let r = appendDeploymentEvent clock (dp_id d) ''created'' (''placed on node '' @ nd_id n) r
                 in (Inr (getDeployment_o (dp_id d) r), r,
                     [DeploymentCreated (dp_id d) (sc_userId c) (sc_resourceLimits c),
                      ServerStart (startCommandFor c (dp_id d) (nd_id n))]))"

section \<open>Editing\<close>

text \<open>A field that must be an object: absent, not an object, or its cast.\<close>

record edit_body =
  eb_name :: json
  eb_dockerImage :: json
  eb_ports :: "(string \<times> string) list option option"
  eb_env :: "(string \<times> string) list option option"
  eb_resourceLimits :: "limits option option"
  eb_autoRestart :: "bool option"
  eb_eggValues :: "(string \<times> string) list option option"
  eb_persistPaths :: json

datatype edit_problem =
    EditNotAllowed nat string | ConfigNotFound | NotFromEgg | EggEditRefused egg_error | FieldEmpty string
  | NotAnObject string | EditPathsRefused path_problem | EditHeapRefused heap_problem | EditPlanRefused ram_problem
  | EditPortsRefused port_refusal

fun edit_status :: "edit_problem \<Rightarrow> nat" where
  "edit_status (EditNotAllowed n m) = n"
| "edit_status ConfigNotFound = 404"
| "edit_status (EditPlanRefused e) = 409"
| "edit_status (EditPortsRefused e) = refusal_status e"
| "edit_status e = 400"


definition edited_text :: "string \<Rightarrow> json \<Rightarrow> (edit_problem, string option) result" where
  "edited_text field v =
     (case v of
        JUndef \<Rightarrow> Inr None
      | JStr s \<Rightarrow> if js_trim s = [] then Inl (FieldEmpty field) else Inr (Some (js_trim s))
      | _ \<Rightarrow> Inl (FieldEmpty field))"

definition edited_object :: "string \<Rightarrow> 'a option option \<Rightarrow> (edit_problem, 'a option) result" where
  "edited_object field v =
     (case v of None \<Rightarrow> Inr None | Some None \<Rightarrow> Inl (NotAnObject field) | Some (Some x) \<Rightarrow> Inr (Some x))"

text \<open>The environment through the egg, merged over what is stored.\<close>

definition egg_env :: "create_context \<Rightarrow> server_config \<Rightarrow> edit_body \<Rightarrow> (edit_problem, (string \<times> string) list option) result" where
  "egg_env kx c b =
     (case eb_eggValues b of
        None \<Rightarrow> Inr None
      | Some values \<Rightarrow>
          (case getEgg (sc_type c) of
             None \<Rightarrow> Inl NotFromEgg
           | Some e \<Rightarrow>
               (case buildEggDeployment (kx_full_match kx) (kx_generate kx) e
                       (put_all (nullish values []) (sc_env c)) (Some (sc_ports c)) of
                  Inl x \<Rightarrow> Inl (EggEditRefused x) | Inr d \<Rightarrow> Inr (Some (ed_env d)))))"

definition edit_patch :: "create_context \<Rightarrow> server_config \<Rightarrow> edit_body \<Rightarrow> (edit_problem, config_patch) result" where
  "edit_patch kx c b =
     and_then (egg_env kx c b) (\<lambda>built.
     and_then (edited_text ''name'' (eb_name b)) (\<lambda>name.
     and_then (edited_text ''dockerImage'' (eb_dockerImage b)) (\<lambda>img.
     and_then (edited_object ''ports'' (eb_ports b)) (\<lambda>ports.
     and_then (edited_object ''env'' (eb_env b)) (\<lambda>env.
     and_then (edited_object ''resourceLimits'' (eb_resourceLimits b)) (\<lambda>l.
     and_then (if eb_persistPaths b = JUndef then Inr None
               else case parsePersistPaths (eb_persistPaths b) of Inl e \<Rightarrow> Inl (EditPathsRefused e) | Inr ps \<Rightarrow> Inr (Some ps)) (\<lambda>paths.
       Inr \<lparr>cp_name = name, cp_dockerImage = img, cp_ports = ports, cp_env = orElse env built,
         cp_resourceLimits = l, cp_autoRestart = eb_autoRestart b, cp_persistPaths = paths,
         cp_backupRetention = None\<rparr>)))))))"

text \<open>The fields of the patch, in the order they were set.\<close>

definition edit_keys :: "edit_body \<Rightarrow> bool \<Rightarrow> string list" where
  "edit_keys b derived =
     (let egg = eb_eggValues b \<noteq> None; env = eb_env b \<noteq> None;
          key = (\<lambda>c k. if c then [k] else [])
      in key egg ''env'' @ key (eb_name b \<noteq> JUndef) ''name'' @ key (eb_dockerImage b \<noteq> JUndef) ''dockerImage''
         @ key (eb_ports b \<noteq> None) ''ports'' @ key (env \<and> \<not> egg) ''env''
         @ key (eb_resourceLimits b \<noteq> None) ''resourceLimits'' @ key (eb_autoRestart b \<noteq> None) ''autoRestart''
         @ key (eb_persistPaths b \<noteq> JUndef) ''persistPaths'' @ key (derived \<and> \<not> env \<and> \<not> egg) ''env'')"

text \<open>What the owner's plan says of a resize.\<close>

definition resize_refused :: "create_context \<Rightarrow> string \<Rightarrow> server_config \<Rightarrow> limits \<Rightarrow> node \<Rightarrow> orch \<Rightarrow> ram_problem option" where
  "resize_refused kx i c l n r =
     (case kx_entitlements kx (sc_userId c) of
        None \<Rightarrow> None
      | Some e \<Rightarrow>
          ramChangeProblem (Some e)
            (usageFor (sc_userId c) (listDeployments r) (listNodes (kx_collate kx) r) 0 (Some i))
            (committedRamMb (sc_resourceLimits c) (nd_ramTotalMb n)) (committedRamMb l (nd_ramTotalMb n)))"

text \<open>The checks that need the server's node, and the patch they leave.\<close>

definition fit_node ::
  "create_context \<Rightarrow> string \<Rightarrow> server_config \<Rightarrow> edit_body \<Rightarrow> config_patch \<Rightarrow> node \<Rightarrow> orch \<Rightarrow> (edit_problem, config_patch \<times> bool) result" where
  "fit_node kx i c b p n r =
     (let env = nullish (cp_env p) (sc_env c);
          l = nullish (cp_resourceLimits p) (sc_resourceLimits c);
          derived = derived_env (getEgg (sc_type c)) (nullish (eb_eggValues b) None) l n env;
          q = (case derived of None \<Rightarrow> p | Some x \<Rightarrow> p\<lparr>cp_env := Some x\<rparr>)
      in case heapProblemFor (sc_type c) (nullish derived env) l n of
           Some x \<Rightarrow> Inl (EditHeapRefused x)
         | None \<Rightarrow>
             (case Option.bind (cp_resourceLimits p) (\<lambda>l. resize_refused kx i c l n r) of
                Some x \<Rightarrow> Inl (EditPlanRefused x)
              | None \<Rightarrow> Inr (q, derived \<noteq> None)))"

definition claim_ports ::
  "time \<Rightarrow> string \<Rightarrow> config_patch \<Rightarrow> node option \<Rightarrow> orch \<Rightarrow> (edit_problem, config_patch) result \<times> orch" where
  "claim_ports clock i p n r =
     (case (cp_ports p, n) of
        (Some ps, Some n) \<Rightarrow>
          (case allocatePorts clock i n ps r of
             (Inl e, r) \<Rightarrow> (Inl (EditPortsRefused e), r)
           | (Inr (ports, _), r) \<Rightarrow> (Inr (p\<lparr>cp_ports := Some ports\<rparr>), r))
      | _ \<Rightarrow> (Inr p, r))"

definition server_node :: "create_context \<Rightarrow> string \<Rightarrow> orch \<Rightarrow> node option" where
  "server_node kx i r =
     (case Option.bind (getDeployment_o i r) (\<lambda>d. given (dp_nodeId d)) of
        None \<Rightarrow> None | Some m \<Rightarrow> find (\<lambda>n. nd_id n = m) (listNodes (kx_collate kx) r))"

definition patch_deployment_route ::
  "create_context \<Rightarrow> time \<Rightarrow> principal \<Rightarrow> string \<Rightarrow> edit_body \<Rightarrow> orch
     \<Rightarrow> (edit_problem, role \<times> deployment_detail option) result \<times> orch \<times> server_event list" where
  "patch_deployment_route kx clock pr i b r =
     (case guarded r pr i ServerEdit of
        Inl (n, m) \<Rightarrow> (Inl (EditNotAllowed n m), r, [])
      | Inr (role, _) \<Rightarrow>
          (case getDeploymentConfig i r of
             None \<Rightarrow> (Inl ConfigNotFound, r, [])
           | Some c \<Rightarrow>
               (case and_then (edit_patch kx c b) (\<lambda>p.
                       case server_node kx i r of None \<Rightarrow> Inr (p, False) | Some n \<Rightarrow> fit_node kx i c b p n r) of
                  Inl e \<Rightarrow> (Inl e, r, [])
                | Inr (p, derived) \<Rightarrow>
                    (case claim_ports clock i p (server_node kx i r) r of
                       (Inl e, r) \<Rightarrow> (Inl e, r, [])
                     | (Inr p, r) \<Rightarrow>
                         (case updateDeploymentConfig i p r of
                            (None, r) \<Rightarrow> (Inl ConfigNotFound, r, [])
                          | (Some _, r) \<Rightarrow>
                              let keys = edit_keys b derived;
                                  r = appendDeploymentEvent clock i ''config-updated''
                                    (''configuration changed ('' @ (if keys = [] then ''no fields'' else js_join '', '' keys) @ '')'') r
                              in (Inr (role, getDeployment_o i r), r,
                                  (case cp_resourceLimits p of None \<Rightarrow> []
                                   | Some l \<Rightarrow> [DeploymentUpdated i (sc_userId c) l])))))))"


section \<open>A checked plan is not refused\<close>

lemma port_key_plain: "\<not> is_auto (port_key p)"
proof
  assume "is_auto (port_key p)"
  then have e: "js_lower (port_key p) = ''auto''" by (simp add: is_auto_def auto_port_def)
  obtain c cs where c: "port_key p = c # cs" using show_nat_nonempty by (cases "port_key p") (auto simp: port_key_def)
  then have "digit c" using show_nat_digits by (metis list.set_intros(1) port_key_def)
  moreover have "js_lower_char c = CHR ''a''" using e by (simp add: c js_lower_def)
  ultimately show False by (auto simp: js_lower_char_def digit_def split: if_splits)
qed

lemma asPort_key: "1 \<le> p \<Longrightarrow> p \<le> 65535 \<Longrightarrow> asPort (port_key p) = Some p"
  using show_nat_nonempty show_nat_digits by (auto simp: asPort_def port_key_def list_all_iff)

definition host_port :: "(int \<times> int) option \<Rightarrow> taken_ports \<Rightarrow> string option \<Rightarrow> string \<Rightarrow> bool" where
  "host_port pool taken self k = (\<exists>p. k = port_key p \<and> 1 \<le> p \<and> p \<le> 65535 \<and> good_port pool taken self p)"

lemma explicit_again:
  "\<forall>k \<in> fst ` set es. host_port pool taken self k \<Longrightarrow> 
     \<exists>acc'. plan_explicit pool taken self es acc = Inr acc' \<and> fst ` set (snd acc') = fst ` set (snd acc) \<union> fst ` set es"
proof (induction es arbitrary: acc)
  case (Cons e es)
  obtain k c where e: "e = (k, c)" by (cases e)
  obtain p where p: "k = port_key p" "1 \<le> p" "p \<le> 65535" "good_port pool taken self p"
    using Cons.prems by (auto simp: host_port_def e)
  let ?acc = "(set_add p (fst acc), AList.update (port_key p) c (snd acc))"
  obtain acc' where "plan_explicit pool taken self es ?acc = Inr acc'"
      "fst ` set (snd acc') = fst ` set (snd ?acc) \<union> fst ` set es"
    using Cons.IH [of ?acc] Cons.prems by auto
  then show ?case using p by (auto simp: e port_key_plain asPort_key good_port_def keys_update_set)
qed simp

lemma auto_again: "\<forall>k \<in> fst ` set es. \<not> is_auto k \<Longrightarrow> plan_auto pool taken self es acc = Inr acc"
  by (induction es arbitrary: acc) auto

lemma plan_again:
  "\<forall>k \<in> fst ` set es. host_port pool taken self k \<Longrightarrow> 
     \<exists>plan. planPorts es pool taken self = Inr plan \<and> fst ` set (fst plan) = fst ` set es"
proof -
  assume h: "\<forall>k \<in> fst ` set es. host_port pool taken self k"
  then obtain acc where "plan_explicit pool taken self es ([], []) = Inr acc" "fst ` set (snd acc) = fst ` set es"
    using explicit_again [of es pool taken self "([], [])"] by auto
  moreover have "plan_auto pool taken self es acc = Inr acc"
    using h port_key_plain by (intro auto_again) (auto simp: host_port_def)
  ultimately show ?thesis by (cases acc) (simp add: planPorts_def)
qed

text \<open>Which ports are taken does not depend on the names of the servers.\<close>

lemma taken_holder:
  "o_ports s = o_ports r \<Longrightarrow> map_option fst (map_of (takenPorts n s) p) = map_option fst (map_of (takenPorts n r) p)"
proof -
  have names: "map_option fst (map_of (foldl (\<lambda>m a. AList.update (pa_port a) (pa_deploymentId a, f a) m) xs as) p) =
      map_option fst (map_of (foldl (\<lambda>m a. AList.update (pa_port a) (pa_deploymentId a, g a) m) ys as) p)"
    if "map_option fst (map_of xs p) = map_option fst (map_of ys p)" for f g xs ys and as :: "port_allocation list"
    using that by (induction as arbitrary: xs ys) (auto simp: update_conv')
  assume "o_ports s = o_ports r"
  then have "listPortAllocations (Some n) None s = listPortAllocations (Some n) None r" by (simp add: listPortAllocations_def)
  then show ?thesis unfolding takenPorts_def Let_def by (simp only:) (rule names [OF refl])
qed

lemma taken_free:
  assumes "o_ports s = o_ports r" "free_for (takenPorts n r) None p"
  shows "free_for (takenPorts n s) self p"
proof -
  have "map_of (takenPorts n r) p = None" using assms(2) by (auto simp: free_for_def split: option.splits)
  then have "map_of (takenPorts n s) p = None" using taken_holder [OF assms(1), of n p] by simp
  then show ?thesis by (simp add: free_for_def)
qed

text \<open>A node with an id, and a range as \<open>parsePortRange\<close> leaves it.\<close>

definition node_ok :: "node \<Rightarrow> bool" where
  "node_ok n = (nd_id n \<noteq> [] \<and> (case rangeOf n of None \<Rightarrow> True | Some (a, b) \<Rightarrow> 1 \<le> a \<and> b \<le> 65535))"

lemma chosen_bounds:
  assumes "planPorts ports pool taken self = Inr (resolved, chosen)"
    "case pool of None \<Rightarrow> True | Some (a, b) \<Rightarrow> 1 \<le> a \<and> b \<le> 65535" "p \<in> set chosen"
  shows "1 \<le> p \<and> p \<le> 65535"
proof -
  have explicit: "\<forall>p \<in> set (fst acc'). 1 \<le> p \<and> p \<le> 65535"
    if "plan_explicit pool taken self es acc = Inr acc'" "\<forall>p \<in> set (fst acc). 1 \<le> p \<and> p \<le> 65535" for es acc acc'
    using that
  proof (induction es arbitrary: acc)
    case (Cons e es)
    obtain k c where e: "e = (k, c)" by (cases e)
    show ?case
    proof (cases "is_auto k")
      case False
      then obtain p where p: "asPort k = Some p" "plan_explicit pool taken self es
          (set_add p (fst acc), AList.update (port_key p) c (snd acc)) = Inr acc'"
        using Cons.prems(1) by (auto simp: e split: option.splits if_splits)
      show ?thesis by (rule Cons.IH [OF p(2)]) (use Cons.prems(2) asPort_bounds [OF p(1)] in simp)
    next
      case True
      then show ?thesis using Cons.IH [of acc] Cons.prems by (simp add: e)
    qed
  qed simp
  have autos: "\<forall>p \<in> set (fst acc'). 1 \<le> p \<and> p \<le> 65535"
    if "plan_auto pool taken self es acc = Inr acc'" "\<forall>p \<in> set (fst acc). 1 \<le> p \<and> p \<le> 65535" for es acc acc'
    using that
  proof (induction es arbitrary: acc)
    case (Cons e es)
    obtain k c where e: "e = (k, c)" by (cases e)
    show ?case
    proof (cases "is_auto k")
      case True
      then obtain a b p where p: "pool = Some (a, b)" "find (\<lambda>p. p \<notin> set (fst acc) \<and> free_for taken self p) [a..b] = Some p"
          "plan_auto pool taken self es (set_add p (fst acc), AList.update (port_key p) c (snd acc)) = Inr acc'"
        using Cons.prems(1) by (auto simp: e split: option.splits)
      have "1 \<le> p \<and> p \<le> 65535" using find_upto [OF p(2)] assms(2) p(1) by simp
      then show ?thesis by (intro Cons.IH [OF p(3)]) (use Cons.prems(2) in simp)
    next
      case False
      then show ?thesis using Cons.IH [of acc] Cons.prems by (simp add: e)
    qed
  qed simp
  obtain acc where a: "plan_explicit pool taken self ports ([], []) = Inr acc"
      "plan_auto pool taken self ports acc = Inr (chosen, resolved)"
    using assms(1) by (auto simp: planPorts_def)
  show ?thesis using autos [OF a(2) explicit [OF a(1)]] assms(3) by simp
qed

lemma checked_allocates:
  assumes "checkPorts n es None r = Inr (ports, chosen)" "node_ok n" "o_ports s = o_ports r" "exclusive s"
  shows "\<exists>plan. fst (allocatePorts t d n ports s) = Inr plan \<and> fst ` set (fst plan) = fst ` set ports"
proof -
  have plan: "planPorts es (rangeOf n) (takenPorts (nd_id n) r) None = Inr (ports, chosen)"
    using assms(1) by (simp add: checkPorts_def)
  have good: "good_choice (rangeOf n) (takenPorts (nd_id n) r) None (chosen, ports)" by (rule planPorts_good [OF plan])
  have "host_port (rangeOf n) (takenPorts (nd_id n) s) (Some d) (port_key p)" if "p \<in> set chosen" for p
    using that good chosen_bounds [OF plan _ that] assms(2) taken_free [OF assms(3)]
    by (auto simp: host_port_def good_choice_def good_port_def node_ok_def)
  then have "\<forall>k \<in> fst ` set ports. host_port (rangeOf n) (takenPorts (nd_id n) s) (Some d) k"
    using good by (simp add: good_choice_def)
  then obtain plan where p: "checkPorts n ports (Some d) s = Inr plan" "fst ` set (fst plan) = fst ` set ports"
    unfolding checkPorts_def using plan_again [of ports "rangeOf n" "takenPorts (nd_id n) s" "Some d"] by auto
  then have g: "good_choice (rangeOf n) (takenPorts (nd_id n) s) (Some d) (snd plan, fst plan)"
    by (cases plan) (auto simp: checkPorts_def intro: planPorts_good)
  have "\<exists>as s'. replacePortAllocations t d (Some (nd_id n)) (snd plan) s = (Inr as, s')"
  proof (cases "nd_id n = []")
    case False
    have "find (port_clash d (nd_id n) s) (snd plan) = None"
      using g free_no_clash [OF assms(4) False] by (auto simp: find_None_iff good_choice_def good_port_def)
    then show ?thesis by (simp add: replace_eq False split_beta Let_def)
  qed (simp add: replace_eq)
  then show ?thesis using p(2) by (cases plan) (auto simp: allocatePorts_def p(1))
qed


section \<open>Creation is exact\<close>

lemma place_server_sound:
  "place_server kx now pin r = Inr n \<Longrightarrow> n \<in> set (listNodes (kx_collate kx) r) \<and> eligible now n"
  by (auto simp: place_server_def eligible_def Let_def dest!: find_Some_mem selectNode_eligible
        split: option.splits if_splits)

text \<open>What every check of the route leaves.\<close>

lemma check_create_sound:
  assumes "check_create kx url now p b r = Inr (inp, n)"
  obtains es chosen where
    "n \<in> set (listNodes (kx_collate kx) r)" "eligible now n" "may_create kx (pr_id p) r = Inr ()"
    "ns_userId inp = pr_id p" "checkPorts n es None r = Inr (nullish (ns_ports inp) [], chosen)"
    "heapProblemFor (nullish (ns_type inp) ''generic'') (nullish (ns_env inp) []) (nullish (ns_resourceLimits inp) no_limits) n = None"
    "plan_refuses kx (pr_id p) (nullish (ns_resourceLimits inp) no_limits) n r = None"
proof -
  obtain name where name: "cb_name b = JStr name" "name \<noteq> []"
    using assms by (auto simp: check_create_def split: json.splits if_splits)
  obtain spec e paths u imported where steps:
    "spec_of kx b = Inr (spec, e)" "extra_paths (cb_persistPaths b) = Inr paths" "may_create kx (pr_id p) r = Inr u"
    "place_server kx now (cb_nodeId b) r = Inr n" "import_path kx url p (cb_dataPath b) spec n = Inr imported"
    using assms name by (auto simp: check_create_def Let_def and_then_def split: sum.splits option.splits prod.splits)
  define env where "env = nullish (derived_env e (cb_eggValues b) (nullish (cb_resourceLimits b) no_limits) n (sv_env spec)) (sv_env spec)"
  have rest: "heapProblemFor (sv_type spec) env (nullish (cb_resourceLimits b) no_limits) n = None"
      "plan_refuses kx (pr_id p) (nullish (cb_resourceLimits b) no_limits) n r = None"
      "\<exists>ports chosen. checkPorts n (sv_ports spec) None r = Inr (ports, chosen)
         \<and> inp = \<lparr>ns_userId = pr_id p, ns_teamId = None, ns_name = name, ns_dockerImage = sv_image spec,
              ns_ports = Some ports, ns_env = Some env, ns_resourceLimits = Some (nullish (cb_resourceLimits b) no_limits),
              ns_autoRestart = Some (cb_autoRestart b), ns_dataPath = imported,
              ns_persistPaths = Some paths, ns_type = Some (sv_type spec)\<rparr>"
    using assms name steps
    by (auto simp: check_create_def Let_def and_then_def env_def split: sum.splits option.splits prod.splits)
  from rest(3) obtain ports chosen where c: "checkPorts n (sv_ports spec) None r = Inr (ports, chosen)"
      "inp = \<lparr>ns_userId = pr_id p, ns_teamId = None, ns_name = name, ns_dockerImage = sv_image spec,
              ns_ports = Some ports, ns_env = Some env, ns_resourceLimits = Some (nullish (cb_resourceLimits b) no_limits),
              ns_autoRestart = Some (cb_autoRestart b), ns_dataPath = imported,
              ns_persistPaths = Some paths, ns_type = Some (sv_type spec)\<rparr>" by blast
  show ?thesis
    by (rule that [of "sv_ports spec" chosen])
      (use place_server_sound [OF steps(4)] steps(3) rest(1,2) c in \<open>simp_all\<close>)
qed

lemma create_status_bound: "400 \<le> create_status e"
  by (cases e) (simp_all add: refusal_status_bound)


lemma table_update_fresh: "table ident m n \<Longrightarrow> AList.update (uuid n) v m = m @ [(uuid n, v)]"
  by (intro update_fresh) (use table_fresh [of ident m n] in \<open>simp add: map_of_eq_None_iff\<close>)

lemma post_exact:
  assumes "ports_ok r" "table dp_id (o_deployments r) (o_drawn r)" "table sc_id (o_configs r) (o_drawn r)"
    "list_all node_ok (vals (o_nodes r))"
  shows "case post_deployment kx url t p b r of
     (Inl e, s, ms) \<Rightarrow> check_create kx url t p b r = Inl e \<and> s = r \<and> ms = [] \<and> 400 \<le> create_status e
   | (Inr x, s, ms) \<Rightarrow> \<exists>d c n.
       o_deployments s = o_deployments r @ [(dp_id d, d)] \<and> o_configs s = o_configs r @ [(sc_id c, c)]
       \<and> sc_id c = uuid (o_drawn r) \<and> dp_serverConfigId d = sc_id c \<and> dp_status d = Pending_d \<and> dp_nodeId d = Some (nd_id n) \<and> dp_containerId d = None
       \<and> n \<in> set (listNodes (kx_collate kx) r) \<and> eligible t n \<and> sc_userId c = pr_id p
       \<and> fst (kx_quota kx (pr_id p) (length [d \<leftarrow> listDeployments r. dv_userId d = pr_id p]))
       \<and> creditProblem (kx_standing kx (pr_id p)) = None
       \<and> heapProblemFor (sc_type c) (sc_env c) (sc_resourceLimits c) n = None
       \<and> plan_refuses kx (pr_id p) (sc_resourceLimits c) n r = None
       \<and> ports_ok s \<and> of_others (dp_id d) s = of_others (dp_id d) r
       \<and> port_key ` pa_port ` set (of_server (dp_id d) s) = fst ` set (sc_ports c)
       \<and> ms = [DeploymentCreated (dp_id d) (pr_id p) (sc_resourceLimits c), ServerStart (startCommandFor c (dp_id d) (nd_id n))]"
proof (cases "check_create kx url t p b r")
  case (Inl e)
  then show ?thesis by (simp add: post_deployment_def create_status_bound)
next
  case (Inr x)
  obtain inp n where x: "x = (inp, n)" by (cases x)
  show ?thesis
  proof (rule check_create_sound [OF Inr [unfolded x]])
    fix es chosen
    assume n: "n \<in> set (listNodes (kx_collate kx) r)" "eligible t n" "may_create kx (pr_id p) r = Inr ()"
      and u: "ns_userId inp = pr_id p"
      and ports: "checkPorts n es None r = Inr (nullish (ns_ports inp) [], chosen)"
      and plan_ok: "plan_refuses kx (pr_id p) (nullish (ns_resourceLimits inp) no_limits) n r = None"
      and heap: "heapProblemFor (nullish (ns_type inp) ''generic'') (nullish (ns_env inp) []) (nullish (ns_resourceLimits inp) no_limits) n = None"
    obtain c r1 where c: "createServerConfig t inp r = (c, r1)" by (cases "createServerConfig t inp r") auto
    obtain d r2 where d: "createDeployment t (sc_id c) (Some (nd_id n)) r1 = (d, r2)"
      by (cases "createDeployment t (sc_id c) (Some (nd_id n)) r1") auto
    have c': "sc_id c = uuid (o_drawn r)" "sc_userId c = pr_id p" "sc_ports c = nullish (ns_ports inp) []"
      "heapProblemFor (sc_type c) (sc_env c) (sc_resourceLimits c) n = None"
      "r1 = r\<lparr>o_configs := o_configs r @ [(sc_id c, c)], o_drawn := Suc (o_drawn r)\<rparr>"
      using c heap u table_update_fresh [OF assms(3), of c]
      by (auto simp: createServerConfig_def Let_def table_update_fresh [OF assms(3)])
    have refuses: "plan_refuses kx (pr_id p) (sc_resourceLimits c) n r = None"
      using c plan_ok by (auto simp: createServerConfig_def Let_def)
    have t2: "table dp_id (o_deployments r) (Suc (o_drawn r))" using table_mono [OF assms(2)] by simp
    have d': "dp_serverConfigId d = sc_id c" "dp_status d = Pending_d" "dp_nodeId d = Some (nd_id n)" "dp_containerId d = None"
      "r2 = r1\<lparr>o_deployments := o_deployments r @ [(dp_id d, d)], o_drawn := Suc (Suc (o_drawn r))\<rparr>"
      using d by (auto simp: createDeployment_def Let_def c'(5) table_update_fresh [OF t2])
    have r2: "o_ports r2 = o_ports r" "o_drawn r \<le> o_drawn r2" by (simp_all add: d'(5) c'(5))
    then have ok2: "ports_ok r2" using ports_ok_filter [OF assms(1), of r2 "\<lambda>_. True"] by simp
    have pool: "node_ok n" using n(1) assms(4) by (simp add: listNodes_def list_all_iff)
    obtain plan s where a: "allocatePorts t (dp_id d) n (sc_ports c) r2 = (Inr plan, s)"
        "fst ` set (fst plan) = fst ` set (sc_ports c)"
      using checked_allocates [OF ports pool r2(1), of t "dp_id d"] ok2
      by (cases "allocatePorts t (dp_id d) n (sc_ports c) r2") (auto simp: ports_ok_def c'(3))
    have s: "o_deployments s = o_deployments r2" "o_configs s = o_configs r2" "ports_ok s"
      using allocate_deployments [of t "dp_id d" n "sc_ports c" r2] allocate_ok [OF ok2, of t "dp_id d" n "sc_ports c"]
        allocate_keeps(2) [of t "dp_id d" n "sc_ports c" r2] by (simp_all add: a(1))
    have id: "nd_id n \<noteq> []" using pool by (simp add: node_ok_def)
    obtain ps chosen' where plan: "plan = (ps, chosen')" by (cases plan)
    have own: "map (\<lambda>a. (pa_nodeId a, pa_port a)) (of_server (dp_id d) s) = map (Pair (nd_id n)) chosen'"
      "of_others (dp_id d) s = of_others (dp_id d) r2" "fst ` set ps = port_key ` set chosen'"
      using allocate_exact_if [OF ok2 id, of "dp_id d" t "sc_ports c"] by (simp_all add: a(1) plan allocation_exact_def)
    have "map pa_port (of_server (dp_id d) s) = chosen'"
      using arg_cong [OF own(1), of "map snd"] by (simp add: comp_def)
    then have names: "port_key ` pa_port ` set (of_server (dp_id d) s) = fst ` set (sc_ports c)"
      using own(3) a(2) by (metis fst_conv list.set_map plan)
    let ?s = "appendDeploymentEvent t (dp_id d) ''created'' (''placed on node '' @ nd_id n) s"
    have e: "ports_ok ?s" "of_server (dp_id d) ?s = of_server (dp_id d) s" "of_others (dp_id d) ?s = of_others (dp_id d) s"
      using s(3) ports_ok_filter [OF s(3), of ?s "\<lambda>_. True"]
      by (simp_all add: appendDeploymentEvent_def Let_def of_server_def of_others_def)
    have quota: "fst (kx_quota kx (pr_id p) (length [d \<leftarrow> listDeployments r. dv_userId d = pr_id p]))"
        "creditProblem (kx_standing kx (pr_id p)) = None"
      using n(3) by (auto simp: may_create_def split: prod.splits if_splits option.splits)
    have run: "post_deployment kx url t p b r = (Inr (getDeployment_o (dp_id d) ?s), ?s,
        [DeploymentCreated (dp_id d) (sc_userId c) (sc_resourceLimits c), ServerStart (startCommandFor c (dp_id d) (nd_id n))])"
      by (simp add: post_deployment_def Inr x c d a(1) Let_def)
    have others: "of_others (dp_id d) r2 = of_others (dp_id d) r" by (simp add: of_others_def r2(1))
    have tables: "o_deployments ?s = o_deployments r @ [(dp_id d, d)]" "o_configs ?s = o_configs r @ [(sc_id c, c)]"
      by (simp_all add: appendDeploymentEvent_def Let_def s d'(5) c'(5))
    show ?thesis
      unfolding run prod.case sum.case
      using tables d'(1-4) n(1,2) c'(1,2,4) quota refuses e names own(2) others by (intro exI conjI) simp_all
  qed
qed

text \<open>
  C25: A creation the route refuses changes nothing and sends nothing. One it accepts adds one
  server, pending on a healthy node that takes servers, owned by the caller, whose quota and credit
  allow it, with a heap that fits its memory cap; the server holds exactly the host ports of its
  configuration, no port of the node is held twice and every other server keeps its own; what is
  sent is the fact for billing and the command to start it there. A request that passes the checks
  is never refused by the allocation of its ports.
\<close>

theorem create_exact:
  assumes "ports_ok r" "table dp_id (o_deployments r) (o_drawn r)" "table sc_id (o_configs r) (o_drawn r)"
    "list_all node_ok (vals (o_nodes r))"
  shows "case post_deployment kx url t p b r of
     (Inl e, s, ms) \<Rightarrow> check_create kx url t p b r = Inl e \<and> s = r \<and> ms = [] \<and> 400 \<le> create_status e
   | (Inr x, s, ms) \<Rightarrow> \<exists>d c n.
       o_deployments s = o_deployments r @ [(dp_id d, d)] \<and> o_configs s = o_configs r @ [(sc_id c, c)]
       \<and> sc_id c = uuid (o_drawn r) \<and> dp_serverConfigId d = sc_id c \<and> dp_status d = Pending_d \<and> dp_nodeId d = Some (nd_id n) \<and> dp_containerId d = None
       \<and> n \<in> set (listNodes (kx_collate kx) r) \<and> eligible t n \<and> sc_userId c = pr_id p
       \<and> fst (kx_quota kx (pr_id p) (length [d \<leftarrow> listDeployments r. dv_userId d = pr_id p]))
       \<and> creditProblem (kx_standing kx (pr_id p)) = None
       \<and> heapProblemFor (sc_type c) (sc_env c) (sc_resourceLimits c) n = None
       \<and> plan_refuses kx (pr_id p) (sc_resourceLimits c) n r = None
       \<and> ports_ok s \<and> of_others (dp_id d) s = of_others (dp_id d) r
       \<and> port_key ` pa_port ` set (of_server (dp_id d) s) = fst ` set (sc_ports c)
       \<and> ms = [DeploymentCreated (dp_id d) (pr_id p) (sc_resourceLimits c), ServerStart (startCommandFor c (dp_id d) (nd_id n))]"
  by (rule post_exact [OF assms])

section \<open>Edits keep the heap within the cap\<close>

lemma edit_status_bound: "guarded r pr i perm = Inl (n, m) \<Longrightarrow> 400 \<le> edit_status (EditNotAllowed n m)"
  by (auto simp: guarded_def accessGuard_def requirePermission_def and_then_def split: sum.splits option.splits if_splits)

lemma claim_ports_frame:
  assumes "claim_ports t i p n r = (x, s)"
  shows "o_deployments s = o_deployments r" "o_configs s = o_configs r" "x = Inl e \<Longrightarrow> s = r"
    "x = Inr q \<Longrightarrow> \<exists>ps. q = p\<lparr>cp_ports := ps\<rparr>"
    "ports_ok r \<Longrightarrow> nd_id (the n) \<noteq> [] \<Longrightarrow> of_others i s = of_others i r"
proof -
  have "p = p\<lparr>cp_ports := cp_ports p\<rparr>" by simp
  then have ex: "\<exists>ps. p = p\<lparr>cp_ports := ps\<rparr>" by (rule exI)
  consider (same) "x = Inr p" "s = r"
    | (asked) m ps y where "n = Some m" "allocatePorts t i m ps r = (y, s)"
        "x = (case y of Inl e \<Rightarrow> Inl (EditPortsRefused e) | Inr (ports, _) \<Rightarrow> Inr (p\<lparr>cp_ports := Some ports\<rparr>))"
    using assms by (fastforce simp: claim_ports_def split: option.splits prod.splits sum.splits)
  then have all: "o_deployments s = o_deployments r \<and> o_configs s = o_configs r \<and> (x = Inl e \<longrightarrow> s = r)
    \<and> (x = Inr q \<longrightarrow> (\<exists>ps. q = p\<lparr>cp_ports := ps\<rparr>))
    \<and> (ports_ok r \<and> nd_id (the n) \<noteq> [] \<longrightarrow> of_others i s = of_others i r)"
  proof cases
    case same
    then show ?thesis using ex by auto
  next
    case asked
    have "o_deployments s = o_deployments r" "o_configs s = o_configs r"
      using allocate_deployments [of t i m ps r] allocate_keeps(2) [of t i m ps r] by (simp_all add: asked(2))
    moreover have "of_others i s = of_others i r" if "ports_ok r" "nd_id m \<noteq> []"
      using allocate_exact_if [OF that, of i t ps] by (auto simp: asked(2) allocation_exact_def split: sum.splits)
    moreover have "s = r" if "y = Inl f" for f using allocate_refused asked(2) that by blast
    ultimately show ?thesis using asked(1,3) by (auto split: sum.splits)
  qed
  from all show "o_deployments s = o_deployments r" "o_configs s = o_configs r" "x = Inl e \<Longrightarrow> s = r"
    "x = Inr q \<Longrightarrow> \<exists>ps. q = p\<lparr>cp_ports := ps\<rparr>"
    "ports_ok r \<Longrightarrow> nd_id (the n) \<noteq> [] \<Longrightarrow> of_others i s = of_others i r" by blast+
qed


lemma fit_node_sound:
  assumes "fit_node kx i c b p n r = Inr (q, derived)"
  shows "heapProblemFor (sc_type c) (nullish (cp_env q) (sc_env c)) (nullish (cp_resourceLimits q) (sc_resourceLimits c)) n = None"
    "\<exists>env. q = p\<lparr>cp_env := env\<rparr>"
    "cp_resourceLimits p = Some l \<Longrightarrow> resize_refused kx i c l n r = None"
proof -
  let ?env = "nullish (cp_env p) (sc_env c)"
  let ?l = "nullish (cp_resourceLimits p) (sc_resourceLimits c)"
  let ?derived = "derived_env (getEgg (sc_type c)) (nullish (eb_eggValues b) None) ?l n ?env"
  have h: "heapProblemFor (sc_type c) (nullish ?derived ?env) ?l n = None"
    and z: "Option.bind (cp_resourceLimits p) (\<lambda>l. resize_refused kx i c l n r) = None"
    and q: "q = (case ?derived of None \<Rightarrow> p | Some x \<Rightarrow> p\<lparr>cp_env := Some x\<rparr>)"
    using assms by (auto simp: fit_node_def Let_def split: option.splits)
  have "nullish (cp_env q) (sc_env c) = nullish ?derived ?env" "cp_resourceLimits q = cp_resourceLimits p"
    by (simp_all add: q nullish_def split: option.split)
  then show "heapProblemFor (sc_type c) (nullish (cp_env q) (sc_env c)) (nullish (cp_resourceLimits q) (sc_resourceLimits c)) n = None"
    using h by simp
  have "p = p\<lparr>cp_env := cp_env p\<rparr>" by simp
  then have "\<exists>env. p = p\<lparr>cp_env := env\<rparr>" by (rule exI)
  then show "\<exists>env. q = p\<lparr>cp_env := env\<rparr>" unfolding q by (cases ?derived) auto
  show "cp_resourceLimits p = Some l \<Longrightarrow> resize_refused kx i c l n r = None" using z by simp
qed

lemma edit_patch_sound:
  "edit_patch kx c b = Inr p \<Longrightarrow> (cp_resourceLimits p = None) = (eb_resourceLimits b = None)"
  by (auto simp: edit_patch_def and_then_def edited_object_def split: sum.splits option.splits if_splits)

definition edit_checked :: "edit_problem + 'a \<Rightarrow> bool" where
  "edit_checked x = (case x of Inl e \<Rightarrow> 400 \<le> edit_status e | Inr _ \<Rightarrow> True)"

lemma edit_checked_then: "edit_checked x \<Longrightarrow> (\<And>y. edit_checked (f y)) \<Longrightarrow> edit_checked (and_then x f)"
  by (cases x) (simp_all add: edit_checked_def and_then_def)

lemma edit_fields_checked:
  "edit_checked (egg_env kx c b)" "edit_checked (edited_text f v)" "edit_checked (edited_object f o')"
  "edit_checked (if w = JUndef then Inr None
     else case parsePersistPaths w of Inl e \<Rightarrow> Inl (EditPathsRefused e) | Inr ps \<Rightarrow> Inr (Some ps))"
  "edit_checked (Inr y)"
  by (auto simp: edit_checked_def egg_env_def edited_text_def edited_object_def split: sum.split option.split json.split)

lemma edit_patch_checked: "edit_checked (edit_patch kx c b)"
  unfolding edit_patch_def by (intro edit_checked_then edit_fields_checked)

lemma fit_node_checked: "edit_checked (fit_node kx i c b p n r)"
  by (auto simp: edit_checked_def fit_node_def Let_def split: option.split)

lemma claim_ports_checked: "edit_checked (fst (claim_ports t i p m r))"
  by (auto simp: edit_checked_def claim_ports_def refusal_status_bound split: option.split prod.split sum.split)

lemma patch_config_keeps [simp]:
  "sc_id (patch_config p c) = sc_id c" "sc_userId (patch_config p c) = sc_userId c" "sc_type (patch_config p c) = sc_type c"
  "sc_dataPath (patch_config p c) = sc_dataPath c" "sc_env (patch_config p c) = nullish (cp_env p) (sc_env c)"
  "sc_resourceLimits (patch_config p c) = nullish (cp_resourceLimits p) (sc_resourceLimits c)"
  by (simp_all add: patch_config_def)

text \<open>The patch the checks leave, and the node they asked.\<close>

definition check_edit :: "create_context \<Rightarrow> string \<Rightarrow> server_config \<Rightarrow> edit_body \<Rightarrow> orch \<Rightarrow> (edit_problem, config_patch \<times> bool) result" where
  "check_edit kx i c b r =
     and_then (edit_patch kx c b) (\<lambda>p.
       case server_node kx i r of None \<Rightarrow> Inr (p, False) | Some n \<Rightarrow> fit_node kx i c b p n r)"

lemma check_edit_checked: "edit_checked (check_edit kx i c b r)"
  unfolding check_edit_def
  by (intro edit_checked_then edit_patch_checked) (auto simp: fit_node_checked edit_fields_checked split: option.split)

lemma check_edit_sound:
  assumes "check_edit kx i c b r = Inr (q, derived)"
  shows "(cp_resourceLimits q = None) = (eb_resourceLimits b = None)"
    "server_node kx i r = Some n \<Longrightarrow>
       heapProblemFor (sc_type c) (nullish (cp_env q) (sc_env c)) (nullish (cp_resourceLimits q) (sc_resourceLimits c)) n = None"
    "server_node kx i r = Some n \<Longrightarrow> cp_resourceLimits q = Some l \<Longrightarrow> resize_refused kx i c l n r = None"
proof -
  obtain p where p: "edit_patch kx c b = Inr p"
      "(case server_node kx i r of None \<Rightarrow> Inr (p, False) | Some n \<Rightarrow> fit_node kx i c b p n r) = Inr (q, derived)"
    using assms by (auto simp: check_edit_def and_then_def split: sum.splits)
  have same: "cp_resourceLimits q = cp_resourceLimits p"
    using p(2) by (auto split: option.splits dest!: fit_node_sound(2))
  show "(cp_resourceLimits q = None) = (eb_resourceLimits b = None)" using edit_patch_sound [OF p(1)] same by simp
  assume n: "server_node kx i r = Some n"
  then have f: "fit_node kx i c b p n r = Inr (q, derived)" using p(2) by simp
  show "heapProblemFor (sc_type c) (nullish (cp_env q) (sc_env c)) (nullish (cp_resourceLimits q) (sc_resourceLimits c)) n = None"
    by (rule fit_node_sound(1) [OF f])
  show "cp_resourceLimits q = Some l \<Longrightarrow> resize_refused kx i c l n r = None"
    using fit_node_sound(3) [OF f] same by simp
qed

text \<open>
  C27: An edit the route refuses changes nothing and sends nothing. One it accepts changes only the
  configuration of the server it names, not its owner, kind or imported directory, and the ports of
  no other server; on the server's node the stored heap fits the stored memory cap; billing is told
  of the new limits exactly when the request names limits.
\<close>

theorem edit_exact:
  assumes "ports_ok r" "table sc_id (o_configs r) (o_drawn r)" "list_all node_ok (vals (o_nodes r))"
  shows "case patch_deployment_route kx t pr i b r of
     (Inl e, s, ms) \<Rightarrow> s = r \<and> ms = [] \<and> 400 \<le> edit_status e
   | (Inr x, s, ms) \<Rightarrow> \<exists>c c'. getDeploymentConfig i r = Some c \<and> getDeploymentConfig i s = Some c'
       \<and> o_deployments s = o_deployments r
       \<and> map_of (o_configs s) = (map_of (o_configs r))(sc_id c \<mapsto> c')
       \<and> sc_id c' = sc_id c \<and> sc_userId c' = sc_userId c \<and> sc_type c' = sc_type c \<and> sc_dataPath c' = sc_dataPath c
       \<and> of_others i s = of_others i r
       \<and> (case server_node kx i r of None \<Rightarrow> True
          | Some n \<Rightarrow> heapProblemFor (sc_type c') (sc_env c') (sc_resourceLimits c') n = None)
       \<and> ms = (if eb_resourceLimits b = None then [] else [DeploymentUpdated i (sc_userId c) (sc_resourceLimits c')])"
proof (cases "guarded r pr i ServerEdit")
  case (Inl e)
  then show ?thesis using edit_status_bound [of r pr i ServerEdit "fst e" "snd e"]
    by (cases e) (simp add: patch_deployment_route_def)
next
  case (Inr a)
  obtain role d0 where a: "a = (role, d0)" by (cases a)
  show ?thesis
  proof (cases "getDeploymentConfig i r")
    case None
    then show ?thesis by (simp add: patch_deployment_route_def Inr a)
  next
    case c: (Some c)
    note route = patch_deployment_route_def Inr a c check_edit_def [symmetric]
    show ?thesis
    proof (cases "check_edit kx i c b r")
      case (Inl e)
      then show ?thesis using check_edit_checked [of kx i c b r] by (simp add: route edit_checked_def)
    next
      case e: (Inr y)
      obtain q derived where y: "y = (q, derived)" by (cases y)
      obtain z r1 where k: "claim_ports t i q (server_node kx i r) r = (z, r1)" by fastforce
      note frame = claim_ports_frame [OF k]
      show ?thesis
      proof (cases z)
        case (Inl f)
        then show ?thesis using claim_ports_checked [of t i q "server_node kx i r" r] frame(3) [OF Inl]
          by (simp add: route e y k edit_checked_def)
      next
        case z: (Inr w)
        obtain ps where w: "w = q\<lparr>cp_ports := ps\<rparr>" using frame(4) [OF z] by blast
        have c1: "getDeploymentConfig i r1 = Some c" using c unfolding getDeploymentConfig_def frame(1,2) .
        obtain dp where dp: "map_of (o_deployments r) i = Some dp" "map_of (o_configs r) (dp_serverConfigId dp) = Some c"
          using c by (auto simp: getDeploymentConfig_def split: option.splits)
        have id: "dp_serverConfigId dp = sc_id c" using table_ident [OF assms(2) dp(2)] by simp
        define c' where "c' = patch_config w c"
        have keeps: "sc_id c' = sc_id c" "sc_userId c' = sc_userId c" "sc_type c' = sc_type c" "sc_dataPath c' = sc_dataPath c"
          "sc_env c' = nullish (cp_env q) (sc_env c)" "sc_resourceLimits c' = nullish (cp_resourceLimits q) (sc_resourceLimits c)"
          by (simp_all add: c'_def w)
        obtain s m where run: "patch_deployment_route kx t pr i b r = (Inr (role, getDeployment_o i s), s,
            (case cp_resourceLimits q of None \<Rightarrow> [] | Some l \<Rightarrow> [DeploymentUpdated i (sc_userId c) l]))"
          "s = appendDeploymentEvent t i ''config-updated'' m (r1\<lparr>o_configs := AList.update (sc_id c) c' (o_configs r1)\<rparr>)"
          by (simp add: route e y k z updateDeploymentConfig_def c1 Let_def c'_def w)
        have s: "o_deployments s = o_deployments r" "map_of (o_configs s) = (map_of (o_configs r))(sc_id c \<mapsto> c')"
            "o_ports s = o_ports r1"
          by (simp_all add: run(2) appendDeploymentEvent_def Let_def frame(1,2) update_conv')
        have others: "of_others i s = of_others i r"
        proof (cases "server_node kx i r")
          case None
          then have "r1 = r" using k by (simp add: claim_ports_def split: option.splits)
          then show ?thesis by (simp add: of_others_def s(3))
        next
          case (Some n)
          then have "n \<in> set (vals (o_nodes r))"
            by (auto simp: server_node_def listNodes_def dest!: find_Some_mem split: option.splits)
          then have "nd_id n \<noteq> []" using assms(3) by (simp add: list_all_iff node_ok_def)
          then show ?thesis using frame(5) [OF assms(1)] by (simp add: Some of_others_def s(3))
        qed
        have "getDeploymentConfig i s = Some c'" by (simp add: getDeploymentConfig_def s(1,2) dp(1) id)
        moreover have "case server_node kx i r of None \<Rightarrow> True
          | Some n \<Rightarrow> heapProblemFor (sc_type c') (sc_env c') (sc_resourceLimits c') n = None"
          using check_edit_sound(2) [OF e [unfolded y]] by (simp add: keeps split: option.split)
        moreover have "(case cp_resourceLimits q of None \<Rightarrow> [] | Some l \<Rightarrow> [DeploymentUpdated i (sc_userId c) l]) =
            (if eb_resourceLimits b = None then [] else [DeploymentUpdated i (sc_userId c) (sc_resourceLimits c')])"
          using check_edit_sound(1) [OF e [unfolded y]]
          by (cases "cp_resourceLimits q"; cases "eb_resourceLimits b") (simp_all add: keeps(6))
        ultimately show ?thesis
          unfolding run(1) prod.case sum.case using c s(1,2) keeps(1-4) others by (intro exI conjI)
      qed
    qed
  qed
qed


section \<open>Creation keeps the memory of the plan\<close>

definition counted_ram :: "string \<Rightarrow> node list \<Rightarrow> deployment_view \<Rightarrow> int" where
  "counted_ram u nodes d =
     (let mb = serverRamMb (dv_resourceLimits d) (dp_nodeId d) nodes in if dv_userId d = u \<and> mb > 0 then mb else 0)"

lemma usage_ram: "eu_ramMb (usageFor u ds nodes k None) = sum_list (map (counted_ram u nodes) ds)"
proof -
  have "sum_list (filter (\<lambda>mb. mb > 0) (map f (filter q ds))) = sum_list (map (\<lambda>d. if q d \<and> f d > 0 then f d else 0) ds)"
    for f :: "deployment_view \<Rightarrow> int" and q
    by (induction ds) auto
  then show ?thesis by (simp add: usageFor_def Let_def counted_ram_def [abs_def])
qed

lemma listed_sum:
  "sum_list (map f (listDeployments r)) = sum_list (map f (List.map_filter (toView r) (vals (o_deployments r))))" for f :: "_ \<Rightarrow> int"
proof -
  have "mset (map f (listDeployments r)) = mset (map f (List.map_filter (toView r) (vals (o_deployments r))))"
    by (simp add: listDeployments_def newest_first_def)
  then show ?thesis by (metis sum_mset_sum_list)
qed

text \<open>One more server adds its view to the list and leaves the other views.\<close>

lemma listed_more:
  assumes "o_deployments s = o_deployments r @ [(k, d)]" "o_configs s = o_configs r @ [(sc_id c, c)]"
    "dp_serverConfigId d = sc_id c" "map_of (o_configs r) (sc_id c) = None"
    "\<forall>d \<in> set (vals (o_deployments r)). dp_serverConfigId d \<noteq> sc_id c"
  shows "\<exists>v. dv_userId v = sc_userId c \<and> dv_resourceLimits v = sc_resourceLimits c \<and> dp_nodeId v = dp_nodeId d
    \<and> sum_list (map f (listDeployments s)) = sum_list (map f (listDeployments r)) + (f v :: int)"
proof -
  have look: "map_of (o_configs s) j = (if j = sc_id c then Some c else map_of (o_configs r) j)" for j
    using assms(4) by (simp add: assms(2) map_add_def split: option.split)
  have old: "toView s x = toView r x" if "x \<in> set (vals (o_deployments r))" for x
    using assms(5) that by (simp add: toView_def look)
  have olds: "List.map_filter (toView s) (vals (o_deployments r)) = List.map_filter (toView r) (vals (o_deployments r))"
    using old by (simp add: List.map_filter_def cong: filter_cong map_cong)
  define v where "v = the (toView s d)"
  have v: "toView s d = Some v" by (simp add: v_def toView_def look assms(3))
  have "dv_userId v = sc_userId c" "dv_resourceLimits v = sc_resourceLimits c" "dp_nodeId v = dp_nodeId d"
    using v by (auto simp: toView_def look assms(3) deployment.defs)
  moreover have "List.map_filter (toView s) (vals (o_deployments s)) = List.map_filter (toView r) (vals (o_deployments r)) @ [v]"
    using olds v by (simp add: assms(1) vals_def List.map_filter_def)
  ultimately show ?thesis by (intro exI [of _ v]) (simp add: listed_sum)
qed


lemma within_plan:
  assumes "ramProblem (Some e) (usageFor u ds nodes 0 None) mb = None" "en_maxRamMb e = Some (of_int most)" "most \<le> 2 ^ 53"
  shows "0 < mb \<and> eu_ramMb (usageFor u ds nodes 0 None) + mb \<le> most"
proof -
  let ?used = "eu_ramMb (usageFor u ds nodes 0 None)"
  have used: "0 \<le> ?used" unfolding usage_ram by (rule sum_list_nonneg) (auto simp: counted_ram_def Let_def)
  have mb: "0 < mb" "of_int mb \<le> max 0 (jsub (of_int most) (of_int ?used))"
    using assms(1,2) by (auto simp: ramProblem_def Let_def split: if_splits)
  have diff: "jsub (of_int most) (of_int ?used) = b64 (of_int (most - ?used))" by (simp add: jsub_def)
  have "0 \<le> most - ?used"
  proof (rule ccontr)
    assume "\<not> ?thesis"
    then have "(of_int (most - ?used) :: rat) \<le> 0" by linarith
    then have "jsub (of_int most) (of_int ?used) \<le> 0" unfolding diff by (rule b64_le_0)
    then show False using mb by simp
  qed
  then have "b64 (of_int (most - ?used)) = of_int (most - ?used)" using assms(3) used by (intro b64_exact_int) simp
  then show ?thesis using mb diff \<open>0 \<le> most - ?used\<close> by (auto simp: max_def split: if_splits)
qed

text \<open>
  C26: A creation the route accepts leaves the memory that the owner's servers take, each measured on
  its node, within the memory of the plan, and takes some: a server without a memory limit is not
  created under a plan that has one.
\<close>

theorem plan_memory_kept:
  assumes "ports_ok r" "table dp_id (o_deployments r) (o_drawn r)" "table sc_id (o_configs r) (o_drawn r)"
    "list_all node_ok (vals (o_nodes r))" "distinct (map nd_id (vals (o_nodes r)))"
    "list_all (\<lambda>d. map_of (o_configs r) (dp_serverConfigId d) \<noteq> None) (vals (o_deployments r))"
    "kx_entitlements kx (pr_id p) = Some e" "en_maxRamMb e = Some (of_int most)" "most \<le> 2 ^ 53"
    "post_deployment kx url t p b r = (Inr x, s, ms)"
  shows "let used = (\<lambda>r'. eu_ramMb (usageFor (pr_id p) (listDeployments r') (listNodes (kx_collate kx) r) 0 None))
    in used s \<le> most \<and> used r < used s"
proof -
  let ?nodes = "listNodes (kx_collate kx) r"
  let ?f = "counted_ram (pr_id p) ?nodes"
  obtain d c n where a: "o_deployments s = o_deployments r @ [(dp_id d, d)]" "o_configs s = o_configs r @ [(sc_id c, c)]"
      "sc_id c = uuid (o_drawn r)" "dp_serverConfigId d = sc_id c" "dp_nodeId d = Some (nd_id n)" "n \<in> set ?nodes"
      "sc_userId c = pr_id p" "plan_refuses kx (pr_id p) (sc_resourceLimits c) n r = None"
    using post_exact [OF assms(1-4), of kx url t p b] unfolding assms(10) prod.case sum.case by blast
  have fresh: "map_of (o_configs r) (sc_id c) = None" unfolding a(3) by (rule table_fresh [OF assms(3)])
  then have "\<forall>d \<in> set (vals (o_deployments r)). dp_serverConfigId d \<noteq> sc_id c" using assms(6) by (auto simp: list_all_iff)
  from listed_more [OF a(1,2,4) fresh this, of ?f] obtain v where
    v: "dv_userId v = sc_userId c" "dv_resourceLimits v = sc_resourceLimits c" "dp_nodeId v = dp_nodeId d"
      "sum_list (map ?f (listDeployments s)) = sum_list (map ?f (listDeployments r)) + ?f v" by blast
  let ?mb = "committedRamMb (sc_resourceLimits c) (nd_ramTotalMb n)"
  have ids: "distinct (map nd_id ?nodes)"
    using assms(5) by (simp add: listNodes_def distinct_map)
  have "find (\<lambda>m. Some (nd_id m) = Some (nd_id n)) ?nodes = Some n"
    using find_key_unique [OF ids a(6)] by simp
  then have size: "serverRamMb (dv_resourceLimits v) (dp_nodeId v) ?nodes = ?mb" by (simp add: serverRamMb_def v(2,3) a(5))
  have ok: "0 < ?mb \<and> eu_ramMb (usageFor (pr_id p) (listDeployments r) ?nodes 0 None) + ?mb \<le> most"
    using a(8) assms(7) by (intro within_plan [OF _ assms(8,9)]) (simp add: plan_refuses_def)
  then have "?f v = ?mb" by (simp add: counted_ram_def size v(1) a(7))
  then show ?thesis using ok v(4) by (simp add: Let_def usage_ram)
qed

section \<open>One creation\<close>

definition small_plan :: entitlements where
  "small_plan = \<lparr>en_planId = ''p'', en_planName = ''p'', en_maxServers = None, en_maxDatabases = None, en_maxRamMb = Some 2048,
     en_maxBackups = None, en_charging = \<lparr>cm_pricePerHour = 1, cm_currency = ''EUR'', cm_freeHoursPerMonth = 0,
       cm_standardCpuPercent = 50, cm_standardRamPercent = 50, cm_minimum = 0\<rparr>\<rparr>"

definition open_context :: create_context where
  "open_context = \<lparr>kx_full_match = \<lambda>p s. True, kx_generate = \<lambda>n. [], kx_quota = \<lambda>u n. (True, None),
     kx_standing = \<lambda>u. None, kx_entitlements = \<lambda>u. Some small_plan, kx_collate = length, kx_resolve = \<lambda>u v. NodeUnreachable,
     kx_text = \<lambda>v. []\<rparr>"

definition plain_body :: create_body where
  "plain_body = \<lparr>cb_name = JStr ''s'', cb_dockerImage = JStr ''img'', cb_ports = Some [(''auto'', ''80'')], cb_env = None,
     cb_resourceLimits = Some (no_limits\<lparr>ramMb := Some 1024\<rparr>), cb_autoRestart = False, cb_type = JUndef, cb_nodeId = JStr ''n1'', cb_eggId = JUndef,
     cb_eggValues = None, cb_dataPath = JUndef, cb_persistPaths = JUndef\<rparr>"

definition one_node :: orch where "one_node = new_orch\<lparr>o_nodes := [(''n1'', sample_node)]\<rparr>"

abbreviation sample_caller :: principal where "sample_caller \<equiv> \<lparr>pr_id = ''u'', pr_platformRole = ''user''\<rparr>"

lemma sample_checks: "\<exists>x. check_create open_context nd_id 5 sample_caller plain_body one_node = Inr x"
proof -
  have fields: "cb_name plain_body = JStr ''s''" "cb_persistPaths plain_body = JUndef" "cb_dataPath plain_body = JUndef"
    "cb_resourceLimits plain_body = Some (no_limits\<lparr>ramMb := Some 1024\<rparr>)"
    by (simp_all add: plain_body_def open_context_def)
  have spec: "spec_of open_context plain_body = Inr (\<lparr>sv_image = ''img'', sv_ports = [(''auto'', ''80'')], sv_env = [],
      sv_type = ''generic'', sv_dataPath = None\<rparr>, None)" by (simp add: spec_of_def plain_body_def)
  have may: "may_create open_context ''u'' one_node = Inr ()" by (simp add: may_create_def open_context_def creditProblem_def)
  have place: "place_server open_context 5 (cb_nodeId plain_body) one_node = Inr sample_node"
    by (simp add: place_server_def plain_body_def Let_def given_def listNodes_def one_node_def vals_def sample_node_def nodeHealth_def
      degraded_ms_def offline_ms_def)
  have egg: "getEgg ''generic'' = None" by code_simp
  have auto: "is_auto ''auto''" by code_simp
  have "takenPorts ''n1'' one_node = []"
    by (simp add: takenPorts_def listPortAllocations_def one_node_def new_orch_def vals_def)
  then have "\<not> isl (checkPorts sample_node [(''auto'', ''80'')] None one_node)"
    by (simp add: checkPorts_def planPorts_def auto sample_node_def rangeOf_def free_for_def set_add_def)
  then obtain x where ports: "checkPorts sample_node [(''auto'', ''80'')] None one_node = Inr x"
    by (cases "checkPorts sample_node [(''auto'', ''80'')] None one_node") auto
  have plan: "plan_refuses open_context ''u'' (no_limits\<lparr>ramMb := Some 1024\<rparr>) sample_node one_node = None"
    using jround_of_int [of 1024]
    by (simp add: plan_refuses_def open_context_def small_plan_def ramProblem_def usageFor_def listDeployments_def one_node_def
      new_orch_def vals_def newest_first_def List.map_filter_def Let_def committedRamMb_def positive_def jsub_def)
  show ?thesis
    using ports by (cases x) (auto simp: check_create_def and_then_def spec may place fields extra_paths_def import_path_def
      heapProblemFor_def egg given_def plan Let_def)
qed

lemma sample_state_ok:
  "ports_ok one_node" "table dp_id (o_deployments one_node) (o_drawn one_node)" "table sc_id (o_configs one_node) (o_drawn one_node)"
  "list_all node_ok (vals (o_nodes one_node))"
  by (simp_all add: ports_ok_start one_node_def new_orch_def node_ok_def sample_node_def rangeOf_def vals_def)

lemma create_exact_witness:
  "case post_deployment open_context nd_id 5 sample_caller plain_body one_node of
     (Inl e, s, ms) \<Rightarrow> False
   | (Inr x, s, ms) \<Rightarrow> \<exists>d. o_deployments s = [(dp_id d, d)] \<and> dp_status d = Pending_d"
  using create_exact [OF sample_state_ok, of open_context nd_id 5 sample_caller plain_body] sample_checks
  by (auto simp: one_node_def new_orch_def split: prod.splits sum.splits)

lemma plan_memory_kept_witness:
  "\<exists>x s ms. post_deployment open_context nd_id 5 sample_caller plain_body one_node = (Inr x, s, ms)
     \<and> eu_ramMb (usageFor ''u'' (listDeployments s) (listNodes length one_node) 0 None) \<le> 2048"
proof -
  obtain x s ms where run: "post_deployment open_context nd_id 5 sample_caller plain_body one_node = (Inr x, s, ms)"
    using post_exact [OF sample_state_ok, of open_context nd_id 5 sample_caller plain_body] sample_checks
    by (auto split: prod.splits sum.splits)
  have "distinct (map nd_id (vals (o_nodes one_node)))"
    "list_all (\<lambda>d. map_of (o_configs one_node) (dp_serverConfigId d) \<noteq> None) (vals (o_deployments one_node))"
    "kx_entitlements open_context (pr_id sample_caller) = Some small_plan" "en_maxRamMb small_plan = Some (of_int 2048)"
    by (simp_all add: one_node_def new_orch_def vals_def open_context_def small_plan_def)
  from plan_memory_kept [OF sample_state_ok this _ run] show ?thesis
    using run by (simp add: Let_def open_context_def)
qed


section \<open>Where an egg is only advice\<close>

text \<open>A request without an egg may carry the name of one, with any image.\<close>

lemma label_without_egg:
  assumes "cb_eggId b = JUndef" "cb_dockerImage b = JStr img" "img \<noteq> []" "cb_type b = JStr ''minecraft''"
  shows "\<exists>spec. spec_of kx b = Inr (spec, None) \<and> sv_image spec = img \<and> sv_type spec = ''minecraft''"
  using assms by (simp add: spec_of_def)

text \<open>An edit that sends an environment stores it as sent, whatever egg the server is built from.\<close>

lemma env_without_egg: "edit_patch kx c b = Inr p \<Longrightarrow> eb_env b = Some (Some m) \<Longrightarrow> cp_env p = Some m"
  by (auto simp: edit_patch_def and_then_def edited_object_def split: sum.splits if_splits)


definition edited_server :: orch where
  "edited_server = new_orch\<lparr>
     o_configs := [(uuid 0, \<lparr>sc_id = uuid 0, sc_userId = ''u'', sc_teamId = None, sc_name = ''n'', sc_dockerImage = ''i'', sc_ports = [],
       sc_env = [], sc_resourceLimits = no_limits, sc_autoRestart = False, sc_dataPath = None, sc_persistPaths = [],
       sc_backupRetention = no_retention, sc_type = ''generic'', sc_createdAt = 0\<rparr>)],
     o_deployments := [(uuid 1, \<lparr>dp_id = uuid 1, dp_serverConfigId = uuid 0, dp_nodeId = None, dp_containerId = None,
       dp_status = Stopped, dp_startedAt = None, dp_stoppedAt = None, dp_createdAt = 0, dp_suspendedAt = None,
       dp_suspendedReason = None\<rparr>)], o_drawn := 2\<rparr>"

definition renaming :: edit_body where
  "renaming = \<lparr>eb_name = JStr '' new '', eb_dockerImage = JUndef, eb_ports = None, eb_env = None, eb_resourceLimits = None,
     eb_autoRestart = None, eb_eggValues = None, eb_persistPaths = JUndef\<rparr>"

lemma edit_exact_witness:
  "case patch_deployment_route open_context 5 \<lparr>pr_id = ''a'', pr_platformRole = ''admin''\<rparr> (uuid 1) renaming edited_server of
     (Inl e, s, ms) \<Rightarrow> False
   | (Inr x, s, ms) \<Rightarrow> ms = [] \<and> o_deployments s = o_deployments edited_server"
proof -
  let ?run = "patch_deployment_route open_context 5 \<lparr>pr_id = ''a'', pr_platformRole = ''admin''\<rparr> (uuid 1) renaming edited_server"
  have "\<not> isl (fst ?run)" by code_simp
  moreover have "ports_ok edited_server" "table sc_id (o_configs edited_server) (o_drawn edited_server)"
    "list_all node_ok (vals (o_nodes edited_server))"
    by (auto simp: ports_ok_start edited_server_def new_orch_def table_def vals_def)
  note edit_exact [OF this, where kx = open_context and t = 5 and i = "uuid 1" and b = renaming
    and pr = "\<lparr>pr_id = ''a'', pr_platformRole = ''admin''\<rparr>"]
  ultimately show ?thesis by (auto simp: renaming_def split: prod.splits sum.splits)
qed

end
