(* ===== verification/Agent_Files.thy ===== *)
theory Agent_Files
  imports Access Js_Text "HOL-Library.Word"
begin

text \<open>
  Files on a node (\<^verbatim>\<open>node-agent/src/files.ts\<close>, \<^verbatim>\<open>imports.ts\<close>): paths inside a container, the
  single-file archives that carry bytes into it and out of it, and the directories of the host a
  server may mount.

  Bytes are words of eight bits. The reader of an archive is a loop that a negative len could turn
  back, so it is a partial function: not returning is \<open>None\<close>.

  The lemmas: a container path has no way up; a path that may be mounted lies beneath the import
  anchor after links are followed; a file put into an archive is read back.
\<close>

section \<open>Paths\<close>

definition path_step :: "string list \<Rightarrow> string \<Rightarrow> string list" where
  "path_step stack part =
     (if part = [] \<or> part = ''.'' then stack else if part = ''..'' then butlast stack else stack @ [part])"

definition path_segments :: "string \<Rightarrow> string list" where
  "path_segments p = foldl path_step [] (js_split (CHR ''/'') p)"

definition normalizeContainerPath :: "string \<Rightarrow> string" where
  "normalizeContainerPath input =
     (let raw = map (\<lambda>c. if c = CHR 0x5C then CHR ''/'' else c) (if input = [] then ''/'' else input)
      in CHR ''/'' # js_join ''/'' (path_segments raw))"

text \<open>\<open>path.resolve\<close> and \<open>path.relative\<close> of Node on POSIX; \<open>cwd\<close> is the working directory.\<close>

definition isAbsolute :: "string \<Rightarrow> bool" where "isAbsolute p = starts_with p ''/''"

definition resolve :: "string \<Rightarrow> string \<Rightarrow> string list" where
  "resolve cwd p = path_segments (if isAbsolute p then p else cwd @ ''/'' @ p)"

fun common :: "string list \<Rightarrow> string list \<Rightarrow> nat" where
  "common (a # as) (b # bs) = (if a = b then Suc (common as bs) else 0)"
| "common as bs = 0"

definition relative :: "string list \<Rightarrow> string list \<Rightarrow> string" where
  "relative as bs = (let k = common as bs in js_join ''/'' (replicate (length as - k) ''..'' @ drop k bs))"

definition isContained :: "string \<Rightarrow> string \<Rightarrow> string \<Rightarrow> bool" where
  "isContained cwd anchor target =
     (let as = resolve cwd anchor; bs = resolve cwd target; rel = relative as bs
      in as = bs \<or> rel \<noteq> [] \<and> \<not> starts_with rel ''..'' \<and> \<not> isAbsolute rel)"

text \<open>\<open>realpath\<close> follows the links; \<open>None\<close> where it rejects.\<close>

definition resolveImportPath ::
  "(string \<Rightarrow> string option) \<Rightarrow> string \<Rightarrow> string option \<Rightarrow> string \<Rightarrow> (string, string) result" where
  "resolveImportPath realpath cwd anchor requested =
     (case given anchor of
        None \<Rightarrow> Inl ''importing directories is not enabled on this node (set IMPORT_ROOT)''
      | Some anchor \<Rightarrow>
          let candidate = js_trim requested
          in if candidate = [] then Inl ''a directory path is required''
             else if \<not> isAbsolute candidate then Inl ''the directory must be an absolute path''
             else case realpath anchor of
               None \<Rightarrow> Inl (''the configured import root '' @ anchor @ '' does not exist on this node'')
             | Some resolvedRoot \<Rightarrow>
                 (case realpath candidate of
                    None \<Rightarrow> Inl (candidate @ '' does not exist on this node'')
                  | Some resolved \<Rightarrow>
                      if \<not> isContained cwd resolvedRoot resolved then Inl (candidate @ '' is outside the import root '' @ anchor)
                      else Inr resolved))"

definition importRoot :: "string option \<Rightarrow> string option" where
  "importRoot env = given (map_option js_trim env)"

definition get_imports :: "string option \<Rightarrow> bool \<times> string option" where
  "get_imports anchor = (given anchor \<noteq> None, anchor)"

definition post_imports_resolve :: "(string \<Rightarrow> string option) \<Rightarrow> string \<Rightarrow> string option \<Rightarrow> string \<Rightarrow> string reply" where
  "post_imports_resolve realpath cwd anchor path =
     (case resolveImportPath realpath cwd anchor path of Inl e \<Rightarrow> Inl (400, e) | Inr p \<Rightarrow> Inr p)"

section \<open>No way up\<close>

definition plain_name :: "string \<Rightarrow> bool" where
  "plain_name s = (s \<noteq> [] \<and> s \<noteq> ''.'' \<and> s \<noteq> ''..'' \<and> CHR ''/'' \<notin> set s)"

lemma path_steps_plain:
  "list_all plain_name stack \<Longrightarrow> list_all (\<lambda>p. CHR ''/'' \<notin> set p) ps \<Longrightarrow> list_all plain_name (foldl path_step stack ps)"
proof (induction ps arbitrary: stack)
  case (Cons p ps)
  have "list_all plain_name (path_step stack p)"
    using Cons.prems by (auto simp: path_step_def plain_name_def list_all_iff dest: in_set_butlastD)
  then show ?case using Cons by simp
qed simp

lemma split_parts: "list_all (\<lambda>p. c \<notin> set p) (js_split c s)"
  by (induction s) (auto split: list.splits)

lemma segments_plain: "list_all plain_name (path_segments p)"
  unfolding path_segments_def by (rule path_steps_plain) (simp_all add: split_parts)

lemma plain_steps: "list_all plain_name ps \<Longrightarrow> foldl path_step stack ps = stack @ ps"
  by (induction ps arbitrary: stack) (auto simp: path_step_def plain_name_def)

lemma segments_join:
  assumes "list_all plain_name ps" shows "path_segments (CHR ''/'' # js_join ''/'' ps) = ps"
proof (cases "ps = []")
  case True
  then show ?thesis by (simp add: path_segments_def path_step_def)
next
  case False
  have "list_all (\<lambda>p. CHR ''/'' \<notin> set p) ps" using assms by (auto simp: list_all_iff plain_name_def)
  then have "js_split (CHR ''/'') (CHR ''/'' # js_join ''/'' ps) = [] # ps"
    using js_split_join [OF False, of "CHR ''/''"] js_split_append [of "CHR ''/''" "[]"] by simp
  then show ?thesis using plain_steps [OF assms] by (simp add: path_segments_def path_step_def)
qed

lemma segments_normalized: "path_segments (normalizeContainerPath p) = path_segments (map (\<lambda>c. if c = CHR 0x5C then CHR ''/'' else c) (if p = [] then ''/'' else p))"
  unfolding normalizeContainerPath_def Let_def by (rule segments_join) (rule segments_plain)

text \<open>
  A container path is absolute, has no empty, \<open>.\<close> or \<open>..\<close> segment, and is its own normal form.
\<close>

lemma path_steps_sub:
  "list_all (\<lambda>s. set s \<subseteq> A) stack \<Longrightarrow> list_all (\<lambda>s. set s \<subseteq> A) ps \<Longrightarrow> list_all (\<lambda>s. set s \<subseteq> A) (foldl path_step stack ps)"
proof (induction ps arbitrary: stack)
  case (Cons p ps)
  have "list_all (\<lambda>s. set s \<subseteq> A) (path_step stack p)"
    using Cons.prems by (auto simp: path_step_def list_all_iff dest!: in_set_butlastD)
  then show ?case using Cons by simp
qed simp

lemma segments_sub: "list_all (\<lambda>s. set s \<subseteq> set p) (path_segments p)"
  unfolding path_segments_def by (rule path_steps_sub) (auto simp: list_all_iff dest: js_split_chars)

lemma no_backslash: "CHR 0x5C \<notin> set (normalizeContainerPath p)"
proof -
  let ?raw = "map (\<lambda>c. if c = CHR 0x5C then CHR ''/'' else c) (if p = [] then ''/'' else p)"
  have "CHR 0x5C \<notin> set ?raw" by auto
  then have "CHR 0x5C \<notin> set s" if "s \<in> set (path_segments ?raw)" for s
    using segments_sub [of ?raw] that by (auto simp: list_all_iff)
  then show ?thesis using set_js_join [of "''/''" "path_segments ?raw"]
    unfolding normalizeContainerPath_def Let_def by auto
qed

lemma container_path_plain:
  "list_all plain_name (path_segments (normalizeContainerPath p))"
  "normalizeContainerPath p = CHR ''/'' # js_join ''/'' (path_segments (normalizeContainerPath p))"
  "normalizeContainerPath (normalizeContainerPath p) = normalizeContainerPath p"
proof -
  show "list_all plain_name (path_segments (normalizeContainerPath p))" by (rule segments_plain)
  show a: "normalizeContainerPath p = CHR ''/'' # js_join ''/'' (path_segments (normalizeContainerPath p))"
    unfolding segments_normalized by (simp add: normalizeContainerPath_def)
  have "map (\<lambda>c. if c = CHR 0x5C then CHR ''/'' else c) (normalizeContainerPath p) = normalizeContainerPath p"
    using no_backslash [of p] by (intro map_idI) auto
  moreover have "normalizeContainerPath p \<noteq> []" by (subst a) simp
  ultimately show "normalizeContainerPath (normalizeContainerPath p) = normalizeContainerPath p"
    using a by (simp add: normalizeContainerPath_def [of "normalizeContainerPath p"])
qed

section \<open>Only beneath the import root\<close>

lemma common_take: "take (common as bs) as = take (common as bs) bs" "common as bs \<le> length as" "common as bs \<le> length bs"
  by (induction as bs rule: common.induct) auto

lemma relative_up: "common as bs < length as \<Longrightarrow> starts_with (relative as bs) ''..''"
proof -
  assume "common as bs < length as"
  then obtain n where "length as - common as bs = Suc n" by (metis Suc_diff_Suc)
  then have "relative as bs = ''..'' \<or> (\<exists>x. relative as bs = ''..'' @ x)"
    by (cases "replicate n ''..'' @ drop (common as bs) bs") (auto simp: relative_def Let_def)
  then show ?thesis by (auto simp: starts_with_def)
qed

lemma contained_prefix:
  assumes "isContained cwd anchor target" shows "\<exists>rest. resolve cwd target = resolve cwd anchor @ rest"
proof (cases "resolve cwd anchor = resolve cwd target")
  case False
  then have "\<not> starts_with (relative (resolve cwd anchor) (resolve cwd target)) ''..''"
    using assms by (simp add: isContained_def Let_def)
  then have "common (resolve cwd anchor) (resolve cwd target) = length (resolve cwd anchor)"
    using relative_up common_take(2) by (metis le_neq_implies_less)
  then have "take (length (resolve cwd anchor)) (resolve cwd target) = resolve cwd anchor"
    using common_take(1) [of "resolve cwd anchor" "resolve cwd target"] by simp
  then show ?thesis by (metis append_take_drop_id)
qed simp

text \<open>
  C36: Only a directory beneath the import root is mounted. Whatever path is asked for and wherever
  links lead, an accepted path is the real path of the request, and the names that lead to it begin
  with those that lead to the real import root: no \<open>..\<close>, no link and no similar name escapes it.
\<close>

theorem import_confined:
  assumes "resolveImportPath realpath cwd anchor requested = Inr p"
  shows "\<exists>r base rest. anchor = Some r \<and> realpath r = Some base \<and> realpath (js_trim requested) = Some p
    \<and> resolve cwd p = resolve cwd base @ rest \<and> list_all plain_name rest"
proof -
  obtain r base where r: "anchor = Some r" "realpath r = Some base" "realpath (js_trim requested) = Some p" "isContained cwd base p"
    using assms by (auto simp: resolveImportPath_def given_def Let_def split: option.splits if_splits)
  obtain rest where rest: "resolve cwd p = resolve cwd base @ rest" using contained_prefix [OF r(4)] by blast
  have "list_all plain_name (resolve cwd p)" by (simp add: resolve_def segments_plain)
  then show ?thesis using r rest by auto
qed

theorem import_confined_witness:
  "\<exists>r base rest. Some ''/srv/import'' = Some r \<and> Some r = Some base \<and> Some (js_trim '' /srv/import/world/'') = Some ''/srv/import/world/''
    \<and> resolve ''/'' ''/srv/import/world/'' = resolve ''/'' base @ rest \<and> list_all plain_name rest"
  by (rule import_confined [where realpath = Some and requested = "'' /srv/import/world/''"]) code_simp

text \<open>A directory whose name begins with two dots is refused although it lies inside.\<close>

lemma dotted_name_refused:
  "\<not> isContained ''/'' ''/srv/import'' ''/srv/import/..data''" "resolve ''/'' ''/srv/import/..data'' = resolve ''/'' ''/srv/import'' @ [''..data'']"
  "\<not> isContained ''/'' ''/srv/import'' ''/srv/import-evil''" "\<not> isContained ''/'' ''/srv/import'' ''/srv/import/../../etc''"
  by code_simp+

section \<open>Archives of one file\<close>

type_synonym bytes = "8 word list"

text \<open>\<open>Buffer.write\<close> of text whose characters are at most 255; it stops at the end of the buffer.\<close>

definition utf8 :: "string \<Rightarrow> bytes" where
  "utf8 s = concat (map (\<lambda>c. let n = of_char c :: nat
     in if n < 128 then [of_nat n] else [of_nat (192 + n div 64), of_nat (128 + n mod 64)]) s)"

definition write_at :: "nat \<Rightarrow> bytes \<Rightarrow> bytes \<Rightarrow> bytes" where
  "write_at off bs h = take (length h) (take off h @ bs @ drop (off + length bs) h)"

fun octal :: "nat \<Rightarrow> string" where
  "octal n = (if n < 8 then [char_of (48 + n)] else octal (n div 8) @ [char_of (48 + n mod 8)])"

declare octal.simps [simp del]

definition octal_field :: "nat \<Rightarrow> nat \<Rightarrow> string" where
  "octal_field k n = replicate (k - length (octal n)) CHR ''0'' @ octal n"

abbreviation (input) NUL :: char where "NUL \<equiv> CHR 0x00"

text \<open>\<open>clock\<close> is in milliseconds.\<close>

definition header_writes :: "string \<Rightarrow> nat \<Rightarrow> nat \<Rightarrow> (nat \<times> string) list" where
  "header_writes fileName len clock =
     [(0, take 100 (if fileName \<noteq> [] \<and> hd fileName = CHR ''/'' then tl fileName else fileName)),
      (100, ''0000644'' @ [NUL]), (108, ''0000000'' @ [NUL]), (116, ''0000000'' @ [NUL]),
      (124, octal_field 11 len @ [NUL]), (136, octal_field 11 (clock div 1000) @ [NUL]),
      (148, replicate 8 CHR '' ''), (156, ''0''), (257, ''ustar'' @ [NUL]), (263, ''00'')]"

definition tar_header :: "string \<Rightarrow> nat \<Rightarrow> nat \<Rightarrow> bytes" where
  "tar_header fileName len clock =
     (let h = foldl (\<lambda>h (off, s). write_at off (utf8 s) h) (replicate 512 0) (header_writes fileName len clock)
      in write_at 148 (utf8 (octal_field 6 (sum_list (map unat h)) @ [NUL, CHR '' ''])) h)"

definition buildTarball :: "string \<Rightarrow> bytes \<Rightarrow> nat \<Rightarrow> bytes" where
  "buildTarball fileName content clock =
     tar_header fileName (length content) clock @ content
     @ replicate ((length content + 511) div 512 * 512 - length content) 0 @ replicate 1024 0"

text \<open>\<open>subarray\<close>: a negative index counts from the end.\<close>

definition subarray :: "bytes \<Rightarrow> int \<Rightarrow> int \<Rightarrow> bytes" where
  "subarray b i j =
     (let n = int (length b); pos = (\<lambda>k. if k < 0 then max 0 (n + k) else min k n)
      in take (nat (pos j - pos i)) (drop (nat (pos i)) b))"

text \<open>From the first NUL with no line break behind it.\<close>

fun cut_nul :: "string \<Rightarrow> string" where
  "cut_nul [] = []"
| "cut_nul (c # s) = (if c = NUL \<and> CHR 0x0A \<notin> set s \<and> CHR 0x0D \<notin> set s then [] else c # cut_nul s)"

definition octal_digit :: "char \<Rightarrow> bool" where
  "octal_digit c = (let n = of_char c :: nat in 48 \<le> n \<and> n \<le> 55)"

definition octal_val :: "string \<Rightarrow> nat" where
  "octal_val s = foldl (\<lambda>a c. 8 * a + (of_char c - 48)) 0 s"

text \<open>\<open>parseInt\<close> with radix 8; \<open>None\<close> for not a number.\<close>

definition parse_octal :: "string \<Rightarrow> int option" where
  "parse_octal s =
     (let minus = s \<noteq> [] \<and> hd s = CHR ''-''; body = (if s \<noteq> [] \<and> hd s \<in> {CHR ''-'', CHR ''+''} then tl s else s);
          ds = takeWhile octal_digit body
      in if ds = [] then None else Some (if minus then - int (octal_val ds) else int (octal_val ds)))"

definition size_field :: "bytes \<Rightarrow> int option" where
  "size_field header =
     (let s = js_trim (cut_nul (map (\<lambda>b. char_of (unat b mod 128)) (subarray header 124 136)))
      in parse_octal (if s = [] then ''0'' else s))"

definition type_flag :: "bytes \<Rightarrow> char" where
  "type_flag header = (let b = (if 156 < length header then unat (header ! 156) else 0) in char_of (if b = 0 then 48 else b))"

partial_function (option) read_member :: "bytes \<Rightarrow> int \<Rightarrow> (string, bytes) result option" where
  "read_member tar offset =
     (if offset + 512 \<le> int (length tar) then
        let header = subarray tar offset (offset + 512); len = size_field header; flag = type_flag header;
            dataStart = offset + 512
        in if list_all (\<lambda>b. b = 0) header then Some (Inl ''the archive holds no file'')
           else if flag = CHR ''0'' \<or> flag = CHR ''7'' then
             Some (Inr (case len of None \<Rightarrow> subarray tar dataStart 0 | Some n \<Rightarrow> subarray tar dataStart (dataStart + n)))
           else if flag = CHR ''5'' then Some (Inl ''that path is a directory'')
           else if flag = CHR ''2'' \<or> flag = CHR ''1'' then Some (Inl ''that path is a link, not a file'')
           else case len of
             None \<Rightarrow> Some (Inl ''the archive holds no file'')
           | Some n \<Rightarrow> read_member tar (dataStart - (- n) div 512 * 512)
      else Some (Inl ''the archive holds no file''))"

declare read_member.simps [code]

definition extractSingleFile :: "bytes \<Rightarrow> (string, bytes) result option" where
  "extractSingleFile tar = read_member tar 0"

section \<open>What goes in comes out\<close>

lemma length_write [simp]: "length (write_at off bs h) = length h"
  by (simp add: write_at_def)

lemma slice_other:
  assumes "k + n \<le> off \<or> off + length bs \<le> k" "off \<le> length h" "k + n \<le> length h"
  shows "take n (drop k (write_at off bs h)) = take n (drop k h)"
proof (rule nth_equalityI)
  show "length (take n (drop k (write_at off bs h))) = length (take n (drop k h))" by simp
  fix i assume "i < length (take n (drop k (write_at off bs h)))"
  then have i: "i < n" "k + i < length h" using assms(3) by simp_all
  then have "write_at off bs h ! (k + i) = h ! (k + i)"
    using assms by (auto simp: write_at_def nth_append)
  then show "take n (drop k (write_at off bs h)) ! i = take n (drop k h) ! i" using i assms(3) by simp
qed

lemma slice_same:
  assumes "off + length bs \<le> length h" shows "take (length bs) (drop off (write_at off bs h)) = bs"
  using assms by (simp add: write_at_def)

lemma octal_chars: "c \<in> set (octal n) \<Longrightarrow> octal_digit c"
proof (induction n rule: octal.induct)
  case (1 n)
  have "octal_digit (char_of (48 + k))" if "k < 8" for k :: nat using that by (simp add: octal_digit_def Let_def)
  then show ?case using 1 by (subst (asm) octal.simps) (auto split: if_splits)
qed

lemma octal_length: "n < 8 ^ Suc k \<Longrightarrow> length (octal n) \<le> Suc k"
proof (induction k arbitrary: n)
  case 0
  then show ?case by (subst octal.simps) simp
next
  case (Suc k)
  then have "n div 8 < 8 ^ Suc k" by (simp add: div_less_iff_less_mult mult.commute)
  then show ?case using Suc.IH [of "n div 8"] by (subst octal.simps) simp
qed

lemma octal_val_snoc: "octal_val (s @ [c]) = 8 * octal_val s + (of_char c - 48)"
  by (simp add: octal_val_def)

lemma octal_val_octal: "octal_val (octal n) = n"
proof (induction n rule: octal.induct)
  case (1 n)
  then show ?case by (subst octal.simps) (auto simp: octal_val_snoc, simp add: octal_val_def)
qed

lemma octal_val_zeros: "octal_val (replicate k CHR ''0'' @ s) = octal_val s"
  by (induction k) (simp_all add: octal_val_def)

lemma field_chars: "c \<in> set (octal_field k n) \<Longrightarrow> octal_digit c"
  using octal_chars by (auto simp: octal_field_def octal_digit_def)

lemma field_length: "n < 8 ^ Suc k \<Longrightarrow> length (octal_field (Suc k) n) = Suc k"
  using octal_length [of n k] by (simp add: octal_field_def)

lemma octal_plain: "octal_digit c \<Longrightarrow> of_char c < (128 :: nat) \<and> \<not> js_space c \<and> c \<noteq> NUL \<and> c \<noteq> CHR ''-'' \<and> c \<noteq> CHR ''+''"
  by (auto simp: octal_digit_def js_space_def Let_def)

definition ascii :: "string \<Rightarrow> bytes" where "ascii s = map (\<lambda>c. of_nat (of_char c)) s"

lemma utf8_ascii: "list_all (\<lambda>c. of_char c < (128 :: nat)) s \<Longrightarrow> utf8 s = ascii s"
  by (induction s) (simp_all add: utf8_def ascii_def Let_def)

lemma ascii_text: "list_all (\<lambda>c. of_char c < (128 :: nat)) s \<Longrightarrow> map (\<lambda>b. char_of (unat b mod 128)) (ascii s) = s"
  by (induction s) (simp_all add: ascii_def unat_of_nat)

lemma field_ascii: "list_all (\<lambda>c. of_char c < (128 :: nat)) (octal_field k n @ [NUL])"
  using field_chars octal_plain by (auto simp: list_all_iff)

lemma cut_field: "list_all (\<lambda>c. c \<noteq> NUL) s \<Longrightarrow> cut_nul (s @ [NUL]) = s"
  by (induction s) auto

lemma strip_none: "\<forall>c \<in> set s. \<not> p c \<Longrightarrow> strip p s = s"
  by (rule strip_id) (cases s, auto)

lemma size_text:
  assumes "map (\<lambda>b. char_of (unat b mod 128)) (subarray h 124 136) = octal_field (Suc k) n @ [NUL]" "n < 8 ^ Suc k"
  shows "size_field h = Some (int n)"
proof -
  let ?f = "octal_field (Suc k) n"
  have ne: "?f \<noteq> []" using field_length [OF assms(2)] by auto
  have cut: "cut_nul (?f @ [NUL]) = ?f" using field_chars octal_plain by (intro cut_field) (auto simp: list_all_iff)
  have trim: "js_trim ?f = ?f" unfolding js_trim_def using field_chars octal_plain by (intro strip_none) blast
  have "hd ?f \<noteq> CHR ''-''" "hd ?f \<noteq> CHR ''+''" using field_chars octal_plain hd_in_set [OF ne] by blast+
  moreover have "takeWhile octal_digit ?f = ?f" using field_chars by (simp add: takeWhile_eq_all_conv)
  moreover have "octal_val ?f = n" by (simp add: octal_field_def octal_val_zeros octal_val_octal)
  ultimately show ?thesis using ne by (simp add: size_field_def assms(1) cut trim parse_octal_def Let_def del: takeWhile_eq_all_conv)
qed

lemma header_slices:
  assumes "n < 8 ^ 11"
  shows "length (tar_header name n clock) = 512"
    "take 12 (drop 124 (tar_header name n clock)) = ascii (octal_field 11 n @ [NUL])"
    "take 1 (drop 156 (tar_header name n clock)) = ascii ''0''"
proof -
  define h where "h = foldl (\<lambda>h (off, s). write_at off (utf8 s) h) (replicate 512 0) (header_writes name n clock)"
  define sum where "sum = utf8 (octal_field 6 (sum_list (map unat h)) @ [NUL, CHR '' ''])"
  have hdr: "tar_header name n clock = write_at 148 sum h" by (simp add: tar_header_def h_def sum_def Let_def)
  have len: "length h = 512" by (simp add: h_def header_writes_def)
  then show "length (tar_header name n clock) = 512" by (simp add: hdr)
  have "sum_list (map unat xs) \<le> 255 * length xs" for xs :: bytes
  proof (induction xs)
    case (Cons x xs)
    have "unat x < 2 ^ LENGTH(8)" by (rule unsigned_less)
    then show ?case using Cons by simp
  qed simp
  from this [of h] have "sum_list (map unat h) < 8 ^ Suc 5" by (simp add: len)
  then have "length (octal_field 6 (sum_list (map unat h))) = 6" using field_length [of _ 5] by simp
  moreover have "list_all (\<lambda>c. of_char c < (128 :: nat)) (octal_field 6 (sum_list (map unat h)) @ [NUL, CHR '' ''])"
    using field_chars octal_plain by (auto simp: list_all_iff)
  ultimately have lsum: "length sum = 8" by (simp add: sum_def utf8_ascii ascii_def)
  have "length (octal_field 11 n) = 11" using field_length [of n 10] assms by simp
  then have lf: "length (utf8 (octal_field 11 n @ [NUL])) = 12" by (simp add: utf8_ascii field_ascii ascii_def del: list_all_append)
  have fixed: "length (utf8 ''0'') = 1" "utf8 ''0'' = ascii ''0''" by (simp_all add: utf8_def ascii_def)
  show "take 12 (drop 124 (tar_header name n clock)) = ascii (octal_field 11 n @ [NUL])"
  proof -
    have "take 12 (drop 124 h) = utf8 (octal_field 11 n @ [NUL])"
      unfolding h_def header_writes_def
      using slice_same [of 124 "utf8 (octal_field 11 n @ [NUL])"] lf by (simp add: slice_other)
    then show ?thesis by (simp add: hdr slice_other len utf8_ascii field_ascii del: list_all_append)
  qed
  show "take 1 (drop 156 (tar_header name n clock)) = ascii ''0''"
  proof -
    have "take 1 (drop 156 h) = utf8 ''0''"
      unfolding h_def header_writes_def
      using slice_same [of 156 "utf8 ''0''"] fixed(1) by (simp add: slice_other)
    then show ?thesis by (simp add: hdr slice_other len lsum fixed(2))
  qed
qed

lemma char_zero: "char_of (48 :: nat) = CHR ''0''"
  by code_simp

text \<open>
  C37: A file put into an archive comes out as it was. Whatever bytes a file holds, up to eight
  gigabytes, whatever it is called and whatever the clock shows, reading the archive returns, and
  returns exactly the bytes.
\<close>

theorem archive_roundtrip:
  assumes "length content < 8 ^ 11"
  shows "extractSingleFile (buildTarball name content clock) = Some (Inr content)"
proof -
  define tar where "tar = buildTarball name content clock"
  define hdr where "hdr = tar_header name (length content) clock"
  note h = header_slices [OF assms, of name clock, folded hdr_def]
  have tar: "tar = hdr @ content @ replicate ((length content + 511) div 512 * 512 - length content) 0 @ replicate 1024 0"
    by (simp add: tar_def buildTarball_def hdr_def)
  have header: "subarray tar 0 512 = hdr" using h(1) by (simp add: subarray_def tar)
  have field: "map (\<lambda>b. char_of (unat b mod 128)) (subarray hdr 124 136) = octal_field (Suc 10) (length content) @ [NUL]"
  proof -
    have "subarray hdr 124 136 = ascii (octal_field 11 (length content) @ [NUL])" using h(1,2) by (simp add: subarray_def)
    then show ?thesis using ascii_text [OF field_ascii] by simp
  qed
  have size: "size_field hdr = Some (int (length content))"
    by (rule size_text [OF field]) (use assms in simp)
  have "hdr ! 156 = (take 1 (drop 156 hdr)) ! 0" using h(1) by simp
  also have "\<dots> = 48" using h(3) by (simp add: ascii_def)
  finally have flagged: "hdr ! 156 = 48" .
  then have flag: "type_flag hdr = CHR ''0''" using h(1) flagged char_zero by (simp add: type_flag_def Let_def)
  have "hdr ! 156 \<in> set hdr" using h(1) by (intro nth_mem) simp
  then have some: "\<not> list_all (\<lambda>b. b = 0) hdr" using flagged by (auto simp: list_all_iff intro!: bexI [of _ 48])
  have data: "subarray tar 512 (512 + int (length content)) = content" using h(1) by (simp add: subarray_def tar)
  have "512 \<le> int (length tar)" using h(1) by (simp add: tar)
  then have "read_member tar 0 = Some (Inr content)"
    using header some flag size data by (subst read_member.simps) (simp add: Let_def)
  then show ?thesis by (simp add: extractSingleFile_def tar_def)
qed

theorem archive_roundtrip_witness:
  "extractSingleFile (buildTarball ''world.dat'' [1, 2, 255] 1700000000000) = Some (Inr [1, 2, 255])"
  by (rule archive_roundtrip) simp

text \<open>A name of more than a hundred characters is cut: two such names make the same archive.\<close>

lemma long_names_collide:
  "buildTarball (replicate 100 CHR ''a'' @ ''.old'') content clock = buildTarball (replicate 100 CHR ''a'' @ ''.new'') content clock"
  by (simp add: buildTarball_def tar_header_def header_writes_def)

end
