(* ===== verification/Agent_Commands.thy ===== *)
theory Agent_Commands
  imports Control_Runs Agent_Files
begin

text \<open>
  What a node's agent does (\<^verbatim>\<open>node-agent/src/agent.ts\<close>): it carries out the commands sent to its
  node, watches its containers, and reports. Docker is the record \<open>runtime\<close> over a world of any type;
  an operation of it returns its answer, or the message of what it throws, and the new world. Reports
  are published through an outbox that does not throw.

  The lemmas: a start the control plane accepts ends in a record that agrees with the node; the
  agent's own restart is no crash; the watcher remembers which containers it last reported as down.
\<close>

section \<open>The runtime and the agent\<close>

record start_spec =
  ss_dockerImage :: string
  ss_containerName :: string
  ss_env :: "(string \<times> string) list"
  ss_ports :: "(string \<times> string) list"
  ss_resourceLimits :: limits
  ss_deploymentId :: string
  ss_persistPaths :: "string list"
  ss_dataMount :: "(string \<times> string) option"

record container_state =
  cs_running :: bool
  cs_exitCode :: nat
  cs_oomKilled :: bool

record 'w runtime =
  rt_start :: "start_spec \<Rightarrow> 'w \<Rightarrow> (string, string) result \<times> 'w"
  rt_stop :: "string \<Rightarrow> 'w \<Rightarrow> (string, unit) result \<times> 'w"
  rt_kill :: "string \<Rightarrow> 'w \<Rightarrow> (string, unit) result \<times> 'w"
  rt_restart :: "string \<Rightarrow> 'w \<Rightarrow> (string, unit) result \<times> 'w"
  rt_pullImage :: "string \<Rightarrow> 'w \<Rightarrow> (string, string option) result \<times> 'w"
  rt_listManaged :: "'w \<Rightarrow> (string, (string \<times> bool) list) result"
  rt_inspect :: "string \<Rightarrow> 'w \<Rightarrow> (string, container_state option) result"

record 'w agent_deps =
  ad_nodeId :: string
  ad_runtime :: "'w runtime"
  ad_resolveMount :: "string \<Rightarrow> (string, string) result"

text \<open>The mounts a node allows, unless told otherwise: beneath its import root, links resolved.\<close>

definition import_mount :: "(string \<Rightarrow> string option) \<Rightarrow> string \<Rightarrow> string option \<Rightarrow> string \<Rightarrow> (string, string) result" where
  "import_mount realpath cwd env hostPath = resolveImportPath realpath cwd (importRoot env) hostPath"

text \<open>The containers the agent is restarting, until when (\<open>None\<close>: still at it), and those it reported down.\<close>

record 'w agent =
  ag_world :: 'w
  ag_own :: "(string \<times> time option) list"
  ag_down :: "string list"

definition new_agent :: "'w \<Rightarrow> 'w agent" where
  "new_agent w = \<lparr>ag_world = w, ag_own = [], ag_down = []\<rparr>"

definition own_grace :: time where "own_grace = 5000"

definition markOwn :: "string \<Rightarrow> 'w agent \<Rightarrow> 'w agent" where
  "markOwn c a = a\<lparr>ag_own := AList.update c None (ag_own a)\<rparr>"

definition releaseOwn :: "time \<Rightarrow> string \<Rightarrow> 'w agent \<Rightarrow> 'w agent" where
  "releaseOwn clock c a = a\<lparr>ag_own := AList.update c (Some (clock + own_grace)) (ag_own a)\<rparr>"

definition isOwn :: "time \<Rightarrow> string \<Rightarrow> 'w agent \<Rightarrow> bool \<times> 'w agent" where
  "isOwn clock c a =
     (case map_of (ag_own a) c of
        None \<Rightarrow> (False, a)
      | Some None \<Rightarrow> (True, a)
      | Some (Some until) \<Rightarrow> if until < clock then (False, a\<lparr>ag_own := AList.delete c (ag_own a)\<rparr>) else (True, a))"

section \<open>Reports\<close>

definition report_of :: "string \<Rightarrow> string \<Rightarrow> report" where
  "report_of t i = \<lparr>rp_type = t, rp_deploymentId = Some i, rp_containerId = None, rp_nodeId = None, rp_reason = None,
     rp_image = None, rp_digest = None, rp_recreated = False\<rparr>"

definition started :: "string \<Rightarrow> string \<Rightarrow> string \<Rightarrow> report" where
  "started i c n = (report_of ''server.started'' i)\<lparr>rp_containerId := Some c, rp_nodeId := Some n\<rparr>"

definition stopped :: "string \<Rightarrow> string \<Rightarrow> report" where
  "stopped i c = (report_of ''server.stopped'' i)\<lparr>rp_containerId := Some c\<rparr>"

definition crashed :: "string \<Rightarrow> string \<Rightarrow> string \<Rightarrow> report" where
  "crashed i c reason = (report_of ''server.crashed'' i)\<lparr>rp_containerId := Some c, rp_reason := Some reason\<rparr>"

definition update_failed :: "string \<Rightarrow> string \<Rightarrow> string \<Rightarrow> report" where
  "update_failed i im reason = (report_of ''server.update-failed'' i)\<lparr>rp_image := Some im, rp_reason := Some reason\<rparr>"

definition image_updated :: "string \<Rightarrow> string \<Rightarrow> string option \<Rightarrow> bool \<Rightarrow> report" where
  "image_updated i im digest recreated =
     (report_of ''server.image-updated'' i)\<lparr>rp_image := Some im, rp_digest := digest, rp_recreated := recreated\<rparr>"

section \<open>Commands\<close>

definition startSpecFrom :: "'w agent_deps \<Rightarrow> start_command \<Rightarrow> (string, start_spec) result" where
  "startSpecFrom dp cm =
     (let spec = \<lparr>ss_dockerImage = cm_dockerImage cm, ss_containerName = cm_containerName cm, ss_env = cm_env cm,
            ss_ports = cm_ports cm, ss_resourceLimits = cm_resourceLimits cm, ss_deploymentId = cm_deploymentId cm,
            ss_persistPaths = cm_persistPaths cm, ss_dataMount = None\<rparr>
      in case cm_dataMount cm of
           None \<Rightarrow> Inr spec
         | Some (host, container) \<Rightarrow>
             and_then (ad_resolveMount dp host) (\<lambda>p. Inr (spec\<lparr>ss_dataMount := Some (p, container)\<rparr>)))"

text \<open>Start a container: its id, or what went wrong.\<close>

definition run_start :: "'w agent_deps \<Rightarrow> start_command \<Rightarrow> 'w \<Rightarrow> (string, string) result \<times> 'w" where
  "run_start dp cm w =
     (case startSpecFrom dp cm of Inl e \<Rightarrow> (Inl e, w) | Inr spec \<Rightarrow> rt_start (ad_runtime dp) spec w)"

definition start_report :: "'w agent_deps \<Rightarrow> string \<Rightarrow> (string, string) result \<Rightarrow> report" where
  "start_report dp i outcome =
     (case outcome of Inr c \<Rightarrow> started i c (ad_nodeId dp) | Inl e \<Rightarrow> crashed i [] e)"

definition stop_report :: "string \<Rightarrow> string \<Rightarrow> (string, unit) result \<Rightarrow> report" where
  "stop_report i c outcome = (case outcome of Inr _ \<Rightarrow> stopped i c | Inl e \<Rightarrow> crashed i c e)"

fun message_node :: "message \<Rightarrow> string" where
  "message_node (StopCommand i n c) = n"
| "message_node (KillCommand i n c) = n"
| "message_node (RestartCommand i n c) = n"
| "message_node (StartCommand cm) = cm_nodeId cm"
| "message_node (UpdateCommand cm recreate) = cm_nodeId cm"

text \<open>One command, from the message to the reports; \<open>clock\<close> is when a restart is over.\<close>

fun carry_out :: "'w agent_deps \<Rightarrow> time \<Rightarrow> message \<Rightarrow> 'w agent \<Rightarrow> 'w agent \<times> report list" where
  "carry_out dp clock (StartCommand cm) a =
     (let (outcome, w) = run_start dp cm (ag_world a)
      in (a\<lparr>ag_world := w\<rparr>, [start_report dp (cm_deploymentId cm) outcome]))"
| "carry_out dp clock (UpdateCommand cm recreate) a =
     (let i = cm_deploymentId cm; im = cm_dockerImage cm
      in case rt_pullImage (ad_runtime dp) im (ag_world a) of
           (Inl e, w) \<Rightarrow> (a\<lparr>ag_world := w\<rparr>, [update_failed i im e])
         | (Inr digest, w) \<Rightarrow>
             if \<not> recreate then (a\<lparr>ag_world := w\<rparr>, [image_updated i im digest False])
             else
               let (outcome, w) = run_start dp cm w
               in (a\<lparr>ag_world := w\<rparr>,
                   start_report dp i outcome # (if isl outcome then [] else [image_updated i im digest True])))"
| "carry_out dp clock (StopCommand i n c) a =
     (let (outcome, w) = rt_stop (ad_runtime dp) c (ag_world a) in (a\<lparr>ag_world := w\<rparr>, [stop_report i c outcome]))"
| "carry_out dp clock (KillCommand i n c) a =
     (let (outcome, w) = rt_kill (ad_runtime dp) c (ag_world a) in (a\<lparr>ag_world := w\<rparr>, [stop_report i c outcome]))"
| "carry_out dp clock (RestartCommand i n c) a =
     (let a = markOwn c a; (outcome, w) = rt_restart (ad_runtime dp) c (ag_world a);
          a = releaseOwn clock c (a\<lparr>ag_world := w\<rparr>)
      in (a, [case outcome of Inr _ \<Rightarrow> started i c (ad_nodeId dp) | Inl e \<Rightarrow> crashed i c e]))"

definition handleCommand :: "'w agent_deps \<Rightarrow> time \<Rightarrow> message \<Rightarrow> 'w agent \<Rightarrow> 'w agent \<times> report list" where
  "handleCommand dp clock m a =
     (if message_node m \<noteq> [] \<and> message_node m \<noteq> ad_nodeId dp then (a, []) else carry_out dp clock m a)"

definition reportInventory :: "'w agent_deps \<Rightarrow> 'w agent \<Rightarrow> inventory option" where
  "reportInventory dp a =
     (case rt_listManaged (ad_runtime dp) (ag_world a) of
        Inl _ \<Rightarrow> None
      | Inr cs \<Rightarrow> Some \<lparr>in_nodeId = ad_nodeId dp, in_containers = cs\<rparr>)"

section \<open>Containers that stop or start on their own\<close>

datatype event_action = Die | StartEvent

record container_event =
  ce_action :: event_action
  ce_containerId :: string
  ce_deploymentId :: "string option"
  ce_exitCode :: "nat option"

definition why_text :: "nat \<Rightarrow> container_state \<Rightarrow> string" where
  "why_text code st =
     ''exited with code '' @ show_nat code
       @ (if cs_oomKilled st then '' -- killed by the OOM killer: it ran out of memory for its limit'' else [])"

definition down_report :: "string \<Rightarrow> string \<Rightarrow> nat \<Rightarrow> container_state \<Rightarrow> string \<Rightarrow> report" where
  "down_report i c code st tail =
     (if code = 0 \<and> \<not> cs_oomKilled st then stopped i c else crashed i c (why_text code st @ tail))"

text \<open>\<open>clock\<close> is when the event arrives, \<open>later\<close> when the container has settled.\<close>

definition handleContainerEvent ::
  "'w agent_deps \<Rightarrow> time \<Rightarrow> time \<Rightarrow> container_event \<Rightarrow> 'w agent \<Rightarrow> 'w agent \<times> report list" where
  "handleContainerEvent dp clock later ev a =
     (let c = ce_containerId ev; i = nullish (ce_deploymentId ev) []
      in if ce_action ev = StartEvent then
           if c \<notin> set (ag_down a) then (a, [])
           else (a\<lparr>ag_down := filter (\<lambda>x. x \<noteq> c) (ag_down a)\<rparr>, [started i c (ad_nodeId dp)])
         else
           let (own, a) = isOwn clock c a
           in if own then (a, [])
              else case rt_inspect (ad_runtime dp) c (ag_world a) of
                Inl _ \<Rightarrow> (a, [])
              | Inr None \<Rightarrow> (a, [])
              | Inr (Some st) \<Rightarrow>
                  let (own, a) = isOwn later c a; code = nullish (ce_exitCode ev) (cs_exitCode st)
                  in if own then (a, [])
                     else if cs_running st then
                       (a, [down_report i c code st '', and was restarted by its restart policy'', started i c (ad_nodeId dp)])
                     else (a\<lparr>ag_down := (if c \<in> set (ag_down a) then ag_down a else ag_down a @ [c])\<rparr>,
                           [down_report i c code st []]))"


section \<open>A start and its answer\<close>

text \<open>The messages reach the agent in order, and its reports the control plane.\<close>

fun node_round ::
  "'w agent_deps \<Rightarrow> time \<Rightarrow> message list \<Rightarrow> 'w agent \<Rightarrow> orch \<Rightarrow> 'w agent \<times> orch" where
  "node_round dp clock [] a r = (a, r)"
| "node_round dp clock (m # ms) a r =
     (let (a, reports) = handleCommand dp clock m a
      in node_round dp clock ms a (foldl (\<lambda>r rp. fst (handleReport clock rp r)) r reports))"

definition record_of :: "string \<Rightarrow> orch \<Rightarrow> deployment option" where
  "record_of i r = map_of (o_deployments r) i"

text \<open>The record says what the node did with the start.\<close>

definition start_recorded :: "string \<Rightarrow> time \<Rightarrow> (string, string) result \<Rightarrow> deployment option \<Rightarrow> bool" where
  "start_recorded n clock outcome rec =
     (case rec of None \<Rightarrow> False
      | Some x \<Rightarrow>
          dp_nodeId x = Some n \<and> dp_suspendedAt x = None
          \<and> (case outcome of
               Inr c \<Rightarrow> dp_status x = Running \<and> dp_containerId x = Some c \<and> dp_startedAt x = Some clock
             | Inl e \<Rightarrow> dp_status x = Crashed \<and> dp_containerId x = None \<and> dp_stoppedAt x = Some clock))"

lemma append_if_deployments [simp]: "o_deployments (append_if u t i e m) = o_deployments (snd u)"
  by (cases u; cases "fst u") (auto simp: append_if_def)

lemma start_report_handled:
  assumes "i \<noteq> []"
  shows "o_deployments (fst (handleReport clock (start_report dp i outcome) r)) =
    o_deployments (snd (updateDeploymentStatus i
      (case outcome of
         Inr c \<Rightarrow> no_patch\<lparr>sp_status := Some Running, sp_containerId := Some (Some c),
           sp_nodeId := map_option Some (given (Some (ad_nodeId dp))), sp_startedAt := Some (Some clock),
           sp_suspendedAt := Some None, sp_suspendedReason := Some None\<rparr>
       | Inl e \<Rightarrow> no_patch\<lparr>sp_status := Some Crashed, sp_stoppedAt := Some (Some clock)\<rparr>) r))"
  using assms
  by (cases outcome)
    (simp_all add: handleReport_def report_target_def stale_def start_report_def started_def crashed_def report_of_def
      given_def Let_def)

lemma start_report_recorded:
  assumes "record_of i r = Some x" "i \<noteq> []" "ad_nodeId dp \<noteq> []"
    and "dp_nodeId x = Some (ad_nodeId dp)" "dp_suspendedAt x = None" "dp_containerId x = None"
  shows "start_recorded (ad_nodeId dp) clock outcome (record_of i (fst (handleReport clock (start_report dp i outcome) r)))"
  using assms
  by (cases outcome)
    (auto simp: start_report_handled record_of_def update_status_map start_recorded_def patch_deployment_def no_patch_def given_def)

text \<open>
  C34: A start the control plane accepts is answered. It sends one command, to the node it chose;
  when that node's agent carries it out and its report comes back, the server's record agrees with
  what the node did: running, in the container the runtime started, on that node, since then; or
  crashed and without a container, when the data directory is refused or the runtime fails. Whatever
  the runtime answers, the record is not left pending.
\<close>

theorem start_answered:
  assumes "control_start cx t d r = (Inr said, s, ms)" "record_of (dp_id d) r = Some x" "dp_id d \<noteq> []"
    and "list_all (\<lambda>m. message_node m = ad_nodeId dp) ms" "ad_nodeId dp \<noteq> []"
  shows "\<exists>cm. ms = [StartCommand cm] \<and> cm_deploymentId cm = dp_id d
    \<and> start_recorded (ad_nodeId dp) later (fst (run_start dp cm (ag_world a)))
        (record_of (dp_id d) (snd (node_round dp later ms a s)))"
proof -
  obtain c q e m and n :: node where o: "o_deployments q = o_deployments r"
      "s = appendDeploymentEvent t (dp_id d) e m (snd (updateDeploymentStatus (dp_id d) (starting (nd_id n)) q))"
      "ms = [StartCommand (startCommandFor c (dp_id d) (nd_id n))]"
    using start_accepted [OF assms(1)] by blast
  let ?cm = "startCommandFor c (dp_id d) (nd_id n)"
  have n: "nd_id n = ad_nodeId dp" and cm: "cm_deploymentId ?cm = dp_id d" "cm_nodeId ?cm = ad_nodeId dp"
    using assms(4) o(3) by (simp_all add: startCommandFor_def)
  have pending: "record_of (dp_id d) s = Some (patch_deployment (starting (nd_id n)) x)"
    using assms(2) o(1) by (simp add: o(2) record_of_def update_status_map)
  have "start_recorded (ad_nodeId dp) later (fst (run_start dp ?cm (ag_world a)))
      (record_of (dp_id d) (fst (handleReport later (start_report dp (dp_id d) (fst (run_start dp ?cm (ag_world a)))) s)))"
    by (rule start_report_recorded [OF pending assms(3,5)]) (simp_all add: patch_deployment_def starting_def n)
  moreover have "snd (node_round dp later ms a s) =
      fst (handleReport later (start_report dp (dp_id d) (fst (run_start dp ?cm (ag_world a)))) s)"
    by (simp add: o(3) handleCommand_def cm split_beta)
  ultimately show ?thesis using o(3) cm(1) by auto
qed

section \<open>The watcher\<close>

text \<open>Its own restart is not a crash: the death of the container is not looked into until the grace is over.\<close>

lemma own_restart_silent:
  assumes "message_node (RestartCommand i n c) = ad_nodeId dp" "clock \<le> t + own_grace"
    and "ce_action ev = Die" "ce_containerId ev = c"
  shows "snd (handleContainerEvent dp clock later ev (fst (handleCommand dp t (RestartCommand i n c) a))) = []"
  using assms by (simp add: handleCommand_def handleContainerEvent_def releaseOwn_def isOwn_def markOwn_def Let_def
      update_conv' split_beta)

datatype agent_op = Command time message | Watched time time container_event

text \<open>The agent, and what its watcher has reported.\<close>

fun agent_step :: "'w agent_deps \<Rightarrow> 'w agent \<times> report list \<Rightarrow> agent_op \<Rightarrow> 'w agent \<times> report list" where
  "agent_step dp (a, rs) (Command clock m) = (fst (handleCommand dp clock m a), rs)"
| "agent_step dp (a, rs) (Watched clock later ev) =
     (let (a, new) = handleContainerEvent dp clock later ev a in (a, rs @ new))"

text \<open>The last thing reported about a container is that it is down.\<close>

definition said_down :: "string \<Rightarrow> report list \<Rightarrow> bool" where
  "said_down c rs =
     (let about = filter (\<lambda>rp. rp_containerId rp = Some c) rs
      in about \<noteq> [] \<and> rp_type (List.last about) \<noteq> ''server.started'')"

lemma said_down_none [simp]: "list_all (\<lambda>rp. rp_containerId rp \<noteq> Some c) new \<Longrightarrow> said_down c (rs @ new) = said_down c rs"
  by (simp add: said_down_def list_all_iff)

lemma said_down_snoc: "rp_containerId rp = Some c \<Longrightarrow> said_down c (rs @ [rp]) = (rp_type rp \<noteq> ''server.started'')"
  by (simp add: said_down_def)

lemma command_keeps_down: "ag_down (fst (handleCommand dp clock m a)) = ag_down a"
  by (cases m) (auto simp: handleCommand_def markOwn_def releaseOwn_def Let_def split_beta split: prod.split sum.split)

lemma own_keeps: "ag_down (snd (isOwn clock c a)) = ag_down a" "ag_world (snd (isOwn clock c a)) = ag_world a"
  by (auto simp: isOwn_def split: option.split)

lemma report_fields [simp]:
  "rp_containerId (started i c n) = Some c" "rp_type (started i c n) = ''server.started''"
  "rp_containerId (down_report i c code st tail) = Some c" "rp_type (down_report i c code st tail) \<noteq> ''server.started''"
  by (auto simp: started_def stopped_def crashed_def down_report_def report_of_def)

lemma event_down:
  assumes "handleContainerEvent dp clock later ev a = (b, new)" "said_down x rs \<Longrightarrow> x \<in> set (ag_down a)"
    and "said_down x (rs @ new)"
  shows "x \<in> set (ag_down b)"
proof -
  let ?c = "ce_containerId ev" and ?i = "nullish (ce_deploymentId ev) []"
  consider (quiet) "ag_down b = ag_down a" "new = []"
    | (up) "ag_down b = filter (\<lambda>x. x \<noteq> ?c) (ag_down a)" "new = [started ?i ?c (ad_nodeId dp)]"
    | (returned) code st tail where "ag_down b = ag_down a" "new = [down_report ?i ?c code st tail, started ?i ?c (ad_nodeId dp)]"
    | (down) code st tail where "set (ag_down b) = insert ?c (set (ag_down a))" "new = [down_report ?i ?c code st tail]"
  proof (cases "ce_action ev")
    case StartEvent
    then show ?thesis using assms(1) quiet up by (auto simp: handleContainerEvent_def Let_def split: if_splits)
  next
    case Die
    obtain own1 a1 where o1: "isOwn clock ?c a = (own1, a1)" by (cases "isOwn clock ?c a")
    obtain own2 a2 where o2: "isOwn later ?c a1 = (own2, a2)" by (cases "isOwn later ?c a1")
    have k: "ag_down a1 = ag_down a" "ag_down a2 = ag_down a"
      using own_keeps(1) [of clock ?c a] own_keeps(1) [of later ?c a1] o1 o2 by simp_all
    show ?thesis
    proof (cases "own1 \<or> own2")
      case True
      then show ?thesis using assms(1) Die o1 o2 k
        by (intro quiet) (auto simp: handleContainerEvent_def Let_def split: if_splits sum.splits option.splits)
    next
      case False
      then show ?thesis using assms(1) Die o1 o2 k quiet returned down
        by (auto simp: handleContainerEvent_def Let_def insert_absorb split: if_splits sum.splits option.splits)
    qed
  qed
  then show ?thesis
  proof cases
    case quiet
    then show ?thesis using assms(2,3) by simp
  next
    case up
    then show ?thesis using assms(2,3) said_down_none [of x new rs] said_down_snoc [of "hd new" x rs]
      by (cases "x = ?c") auto
  next
    case returned
    then show ?thesis using assms(2,3) said_down_none [of x new rs] said_down_snoc [of "last new" x "rs @ [hd new]"]
      by (cases "x = ?c") auto
  next
    case down
    then show ?thesis using assms(2,3) said_down_none [of x new rs] said_down_snoc [of "hd new" x rs]
      by (cases "x = ?c") auto
  qed
qed

lemma watched_down:
  "said_down c (snd (foldl (agent_step dp) (new_agent w, []) ops))
     \<Longrightarrow> c \<in> set (ag_down (fst (foldl (agent_step dp) (new_agent w, []) ops)))"
proof (induction ops rule: rev_induct)
  case Nil
  then show ?case by (simp add: said_down_def)
next
  case (snoc p ops)
  obtain a rs where s: "foldl (agent_step dp) (new_agent w, []) ops = (a, rs)" by fastforce
  show ?case
  proof (cases p)
    case (Command clock m)
    then show ?thesis using snoc s by (simp add: command_keeps_down)
  next
    case (Watched clock later ev)
    obtain b new where "handleContainerEvent dp clock later ev a = (b, new)" by fastforce
    then show ?thesis using event_down [of dp clock later ev a b new c rs] snoc s Watched by simp
  qed
qed

definition comes_back :: "string \<Rightarrow> string \<Rightarrow> container_event" where
  "comes_back i c = \<lparr>ce_action = StartEvent, ce_containerId = c, ce_deploymentId = Some i, ce_exitCode = None\<rparr>"

text \<open>
  C35: No server stays down in the records when it is up. However commands and Docker's events have
  followed one another, every container the watcher last reported as stopped or crashed is remembered:
  when it starts again, whoever started it, the agent reports that server as started in that container.
\<close>

theorem comeback_reported:
  "{c. said_down c (snd (foldl (agent_step dp) (new_agent w, []) ops))}
     \<subseteq> {c. snd (handleContainerEvent dp t t' (comes_back i c) (fst (foldl (agent_step dp) (new_agent w, []) ops)))
            = [started i c (ad_nodeId dp)]}"
  using watched_down [of _ dp w ops] by (auto simp: handleContainerEvent_def comes_back_def)

section \<open>A concrete start\<close>

definition first_beat :: heartbeat where
  "first_beat = \<lparr>hb_nodeId = Some ''n'', hb_timestamp = Some 0, hb_agentUrl = None, hb_connection = None, hb_resources = None\<rparr>"

definition down_server :: orch where
  "down_server = foldl life_step new_orch
     [Heartbeat 0 first_beat,
      Create 0 \<lparr>ns_userId = ''u'', ns_teamId = None, ns_name = ''world'', ns_dockerImage = ''img'', ns_ports = None,
        ns_env = None, ns_resourceLimits = None, ns_autoRestart = None, ns_dataPath = None, ns_persistPaths = None,
        ns_type = None\<rparr> (Some ''n''),
      NodeReport 1 (stopped (uuid 1) ''c1'')]"

definition down_detail :: deployment_detail where "down_detail = the (getDeployment_o (uuid 1) down_server)"

definition free_context :: control_context where
  "free_context = \<lparr>cx_migrating = (\<lambda>i. False), cx_standing = (\<lambda>u. None), cx_collate = (\<lambda>s. 0)\<rparr>"

text \<open>A runtime that starts anything, and counts.\<close>

definition counting :: "nat agent_deps" where
  "counting = \<lparr>ad_nodeId = ''n'',
     ad_runtime = \<lparr>rt_start = (\<lambda>spec w. (Inr (''c'' @ show_nat w), w + 1)), rt_stop = (\<lambda>c w. (Inr (), w)),
       rt_kill = (\<lambda>c w. (Inr (), w)), rt_restart = (\<lambda>c w. (Inr (), w)), rt_pullImage = (\<lambda>i w. (Inr None, w)),
       rt_listManaged = (\<lambda>w. Inr []), rt_inspect = (\<lambda>c w. Inr None)\<rparr>,
     ad_resolveMount = Inr\<rparr>"

definition took_start :: "control_answer \<Rightarrow> bool" where
  "took_start x = (case x of (Inr _, s, ms) \<Rightarrow> list_all (\<lambda>m. message_node m = ''n'') ms | _ \<Rightarrow> False)"

lemma sample_start:
  "took_start (control_start free_context 5 down_detail down_server)
    \<and> (case record_of (dp_id down_detail) down_server of None \<Rightarrow> False | Some x \<Rightarrow> dp_id down_detail \<noteq> [])"
  by code_simp

theorem start_answered_witness:
  "case control_start free_context 5 down_detail down_server of
     (Inr _, s, ms) \<Rightarrow>
       (\<exists>cm. ms = [StartCommand cm] \<and> start_recorded ''n'' 9 (fst (run_start counting cm 7))
          (record_of (dp_id down_detail) (snd (node_round counting 9 ms (new_agent 7) s))))
   | _ \<Rightarrow> False"
proof -
  obtain said s ms where c: "control_start free_context 5 down_detail down_server = (Inr said, s, ms)"
      "list_all (\<lambda>m. message_node m = ''n'') ms"
    using sample_start by (cases "control_start free_context 5 down_detail down_server")
      (auto simp: took_start_def split: sum.splits)
  obtain x where x: "record_of (dp_id down_detail) down_server = Some x" "dp_id down_detail \<noteq> []"
    using sample_start by (auto split: option.splits)
  show ?thesis
    using start_answered [OF c(1) x, where dp = counting and a = "new_agent 7" and later = 9] c
    by (auto simp: counting_def new_agent_def)
qed

end
