(* ===== verification/Node_Agent.thy ===== *)
theory Node_Agent
  imports Start_Names Agent_Files
begin

text \<open>
  How a node's agent makes a server's settings into Docker's (\<^verbatim>\<open>node-agent/src\<close>): published ports
  (\<^verbatim>\<open>ports.ts\<close>), limits (\<^verbatim>\<open>limits.ts\<close>, \<^verbatim>\<open>cgroupSupport.ts\<close>), volumes (\<^verbatim>\<open>volumes.ts\<close>), backups
  (\<^verbatim>\<open>backups.ts\<close>), and what it measures and shows: disks (\<^verbatim>\<open>disk.ts\<close>, \<^verbatim>\<open>diskUsage.ts\<close>), images
  (\<^verbatim>\<open>images.ts\<close>) and the lines of a log (\<^verbatim>\<open>logs.ts\<close>).

  The lemmas: of two host ports for one container port the last is published; the kept directories are
  distinct and apart from the data directory; a log is cut into the same lines however it arrives in
  pieces.
\<close>

section \<open>Ports\<close>

definition protocols :: "string list" where "protocols = [''tcp'', ''udp'']"

definition all_digits :: "string \<Rightarrow> bool" where "all_digits s = (s \<noteq> [] \<and> list_all digit s)"

text \<open>The port and the protocols of the container side; the second piece of \<open>split('/', 2)\<close> is the suffix.\<close>

definition parseContainerPort :: "string \<Rightarrow> (string \<times> string list) option" where
  "parseContainerPort v =
     (let parts = js_split (CHR ''/'') (js_trim v); port = hd parts; suffix = (case tl parts of [] \<Rightarrow> [] | s # _ \<Rightarrow> s)
      in if \<not> all_digits port then None
         else if suffix = [] then Some (port, [''tcp''])
         else let ps = filter (\<lambda>p. p \<in> set protocols) (map js_trim (js_split (CHR ''+'') (js_lower suffix)))
              in Some (port, if ps \<noteq> [] then js_unique ps else [''tcp'']))"

definition hostPortOf :: "string \<Rightarrow> string option" where
  "hostPortOf v = (let port = hd (js_split (CHR ''/'') (js_trim v)) in if all_digits port then Some port else None)"

text \<open>The bindings of Docker, one host port for each container port and protocol; the exposed ports are their keys.\<close>

definition bind_port :: "(string \<times> string) list \<Rightarrow> string \<times> string \<Rightarrow> (string \<times> string) list" where
  "bind_port m e =
     (case (hostPortOf (fst e), parseContainerPort (snd e)) of
        (Some host, Some (port, ps)) \<Rightarrow> foldl (\<lambda>m p. AList.update (port @ ''/'' @ p) host m) m ps
      | _ \<Rightarrow> m)"

definition publishPorts :: "(string \<times> string) list \<Rightarrow> (string \<times> string) list" where
  "publishPorts ports = foldl bind_port [] ports"

text \<open>The second host port for a container port takes the place of the first.\<close>

lemma second_host_port_wins:
  "publishPorts [(''8080'', ''80''), (''8081'', ''80'')] = [(''80/tcp'', ''8081'')]"
  by code_simp

section \<open>Limits\<close>

record host_config =
  hc_Memory :: "rat option"
  hc_MemorySwap :: "rat option"
  hc_NanoCpus :: "rat option"
  hc_BlkioWeight :: "nat option"
  hc_OomKillDisable :: "bool option"
  hc_RestartPolicy :: "(restart_policy \<times> nat) option"

definition no_host_config :: host_config where
  "no_host_config = \<lparr>hc_Memory = None, hc_MemorySwap = None, hc_NanoCpus = None, hc_BlkioWeight = None,
     hc_OomKillDisable = None, hc_RestartPolicy = None\<rparr>"

definition io_weight :: "io_priority \<Rightarrow> nat" where
  "io_weight p = (case p of IoLow \<Rightarrow> 250 | IoNormal \<Rightarrow> 500 | IoHigh \<Rightarrow> 750)"

definition on_failure_retries :: nat where "on_failure_retries = 5"

definition rounded :: "rat \<Rightarrow> rat" where "rounded x = of_int (jround x)"

definition memory_limit :: "limits \<Rightarrow> rat \<Rightarrow> rat" where
  "memory_limit l totalMem =
     (case positive (ramMb l) of
        Some mb \<Rightarrow> rounded (jmul (jmul mb 1024) 1024)
      | None \<Rightarrow>
          (case positive (ramPercent l) of
             Some p \<Rightarrow> if totalMem > 0 then rounded (jmul (jdiv p 100) totalMem) else 0
           | None \<Rightarrow> 0))"

definition cpu_limit :: "limits \<Rightarrow> rat \<Rightarrow> rat option" where
  "cpu_limit l cpuCount =
     (case positive (cpuCores l) of
        Some c \<Rightarrow> Some (rounded (jmul c 1000000000))
      | None \<Rightarrow>
          (case positive (cpuPercent l) of
             Some p \<Rightarrow> if cpuCount > 0 then Some (rounded (jmul (jmul (jdiv p 100) cpuCount) 1000000000)) else None
           | None \<Rightarrow> None))"

definition resourceLimitsToHostConfig :: "limits option \<Rightarrow> rat \<Rightarrow> rat \<Rightarrow> host_config" where
  "resourceLimitsToHostConfig limits totalMem cpuCount =
     (case limits of None \<Rightarrow> no_host_config
      | Some l \<Rightarrow>
          let mem = memory_limit l totalMem;
              swap = (case positive (swapPercent l) of Some p \<Rightarrow> rounded (jmul (jdiv p 100) mem) | None \<Rightarrow> 0)
          in \<lparr>hc_Memory = (if mem > 0 then Some mem else None),
              hc_MemorySwap = (if mem > 0 then Some (jadd mem swap) else None),
              hc_NanoCpus = cpu_limit l cpuCount,
              hc_BlkioWeight = map_option io_weight (ioPriority l),
              hc_OomKillDisable = (if mem > 0 \<and> oomKill l = Some False then Some True else None),
              hc_RestartPolicy = map_option (\<lambda>p. (p, if p = RestartOnFailure then on_failure_retries else 0)) (restartPolicy l)\<rparr>)"

text \<open>\<open>exists\<close> probes a path; \<open>None\<close> where it throws.\<close>

definition detectCgroupSupport :: "(string \<Rightarrow> bool option) \<Rightarrow> bool" where
  "detectCgroupSupport probe = nullish (probe ''/sys/fs/cgroup/io.weight'') False"

definition withCgroupSupport :: "host_config \<Rightarrow> bool \<Rightarrow> host_config" where
  "withCgroupSupport h ioWeight = (if ioWeight then h else h\<lparr>hc_BlkioWeight := None\<rparr>)"

section \<open>Volumes\<close>

definition plain_id_char :: "char \<Rightarrow> bool" where
  "plain_id_char c = (letter c \<or> digit c \<or> c = CHR ''_'' \<or> c = CHR ''-'')"

definition isDeploymentId :: "string \<Rightarrow> bool" where
  "isDeploymentId s = (1 \<le> length s \<and> length s \<le> 64 \<and> list_all plain_id_char s)"

definition normalise :: "string \<Rightarrow> string option" where
  "normalise path =
     (if \<not> starts_with path ''/'' then None
      else let segs = filter (\<lambda>s. s \<noteq> []) (js_split (CHR ''/'') path)
           in if segs = [] \<or> ''..'' \<in> set segs then None else Some (CHR ''/'' # js_join ''/'' segs))"

definition alnum :: "char \<Rightarrow> bool" where "alnum c = (letter c \<or> digit c)"

function dashed_alnum :: "string \<Rightarrow> string" where
  "dashed_alnum [] = []"
| "dashed_alnum (c # cs) = (if alnum c then c # dashed_alnum cs else CHR ''-'' # dashed_alnum (dropWhile (\<lambda>d. \<not> alnum d) cs))"
  by pat_completeness auto
termination
  by (relation "measure length") (auto simp: le_imp_less_Suc length_dropWhile_le)

text \<open>\<open>sha\<close> gives the digest in hexadecimal.\<close>

definition volumeNameFor :: "(string \<Rightarrow> string) \<Rightarrow> string \<Rightarrow> string \<Rightarrow> string" where
  "volumeNameFor sha deploymentId path =
     (let i = take 12 (filter alnum deploymentId); slug = take 40 (strip (\<lambda>c. c = CHR ''-'') (dashed_alnum path))
      in ''nexus-'' @ (if i = [] then ''server'' else i) @ ''-'' @ (if slug = [] then ''root'' else slug)
         @ ''-'' @ take 8 (sha (deploymentId @ NUL # path)))"

definition inside_dir :: "string \<Rightarrow> string \<Rightarrow> bool" where
  "inside_dir path dir = (path = dir \<or> starts_with path (dir @ ''/''))"

definition keep_path :: "string option \<Rightarrow> string list \<Rightarrow> string \<Rightarrow> string list" where
  "keep_path dataMountPath out raw =
     (case normalise raw of None \<Rightarrow> out
      | Some path \<Rightarrow>
          if path \<in> set out then out
          else if (case given dataMountPath of None \<Rightarrow> False | Some d \<Rightarrow> inside_dir path d) then out
          else out @ [path])"

definition pathsToPersist :: "string list \<Rightarrow> string list \<Rightarrow> string option \<Rightarrow> string list" where
  "pathsToPersist requested imageVolumes dataMountPath = foldl (keep_path dataMountPath) [] (requested @ imageVolumes)"

definition volumeMounts :: "(string \<Rightarrow> string) \<Rightarrow> string \<Rightarrow> string list \<Rightarrow> (string \<times> string) list" where
  "volumeMounts sha deploymentId paths = map (\<lambda>p. (volumeNameFor sha deploymentId p, p)) paths"

text \<open>
  The kept directories are distinct and absolute, and none lies in the data directory, which is
  mounted on its own.
\<close>

definition apart :: "string option \<Rightarrow> string \<Rightarrow> bool" where
  "apart dataMountPath p =
     (starts_with p ''/'' \<and> (case given dataMountPath of None \<Rightarrow> True | Some d \<Rightarrow> \<not> inside_dir p d))"

lemma normalise_absolute: "normalise raw = Some p \<Longrightarrow> starts_with p ''/''"
  by (auto simp: normalise_def Let_def starts_with_def split: if_splits)

lemma kept_apart:
  "distinct out \<Longrightarrow> list_all (apart m) out \<Longrightarrow> distinct (keep_path m out raw) \<and> list_all (apart m) (keep_path m out raw)"
  using normalise_absolute [of raw]
  by (cases "normalise raw"; cases "given m") (simp_all add: keep_path_def apart_def)

lemma persisted_apart:
  "distinct (pathsToPersist requested volumes m) \<and> list_all (apart m) (pathsToPersist requested volumes m)"
proof -
  have "distinct (foldl (keep_path m) out raws) \<and> list_all (apart m) (foldl (keep_path m) out raws)"
    if "distinct out" "list_all (apart m) out" for out raws
    using that
    by (induction raws arbitrary: out) (simp_all add: kept_apart)
  from this [of "[]" "requested @ volumes"] show ?thesis unfolding pathsToPersist_def by (simp del: foldl_append)
qed

section \<open>Backups, disks, images\<close>

definition isSafeRef :: "string \<Rightarrow> bool" where "isSafeRef = isDeploymentId"

text \<open>\<open>dir\<close> is a normal path.\<close>

definition backupFilePath :: "string \<Rightarrow> string \<Rightarrow> (string, string) result" where
  "backupFilePath dir r =
     (if \<not> isSafeRef r then Inl ''invalid backup reference'' else Inr (dir @ ''/'' @ r @ ''.tar''))"

record stat_fs =
  sf_bsize :: rat
  sf_blocks :: rat
  sf_bavail :: rat

definition one_decimal :: "rat \<Rightarrow> rat" where "one_decimal x = jdiv (rounded (jmul x 10)) 10"

definition diskUsageFrom :: "stat_fs \<Rightarrow> (rat \<times> rat) option" where
  "diskUsageFrom st =
     (if sf_bsize st \<le> 0 \<or> sf_blocks st \<le> 0 then None
      else let gb = 1073741824; totalBytes = jmul (sf_bsize st) (sf_blocks st);
               availableBytes = jmul (sf_bsize st) (max 0 (sf_bavail st));
               usedBytes = max 0 (jsub totalBytes availableBytes)
           in Some (one_decimal (jdiv usedBytes gb), one_decimal (jdiv totalBytes gb)))"

datatype disk_reason = Configured | DockerRoot | ContainerRoot

definition resolveDiskPath :: "string option \<Rightarrow> string option \<Rightarrow> (string \<Rightarrow> stat_fs option) \<Rightarrow> string \<times> disk_reason" where
  "resolveDiskPath configured dockerRootDir statfs =
     (case given (map_option js_trim configured) of
        Some p \<Rightarrow> (p, Configured)
      | None \<Rightarrow>
          (case given dockerRootDir of
             Some d \<Rightarrow> if statfs d \<noteq> None then (d, DockerRoot) else (''/'', ContainerRoot)
           | None \<Rightarrow> (''/'', ContainerRoot)))"

definition collectDisk :: "(string \<Rightarrow> stat_fs option) \<Rightarrow> string \<Rightarrow> (rat \<times> rat) option" where
  "collectDisk statfs path = Option.bind (statfs path) diskUsageFrom"

record volume_df =
  vd_name :: string
  vd_deployment :: "string option"
  vd_path :: "string option"
  vd_size :: "rat option"

record deployment_disk =
  dd_deploymentId :: string
  dd_volumesBytes :: "rat option"
  dd_writableBytes :: "rat option"
  dd_volumes :: "(string \<times> string option \<times> rat option) list"

definition measured :: "rat option \<Rightarrow> rat option" where
  "measured n = (case n of Some v \<Rightarrow> if v \<ge> 0 then Some v else None | None \<Rightarrow> None)"

definition disk_entry :: "string \<Rightarrow> (string \<times> deployment_disk) list \<Rightarrow> deployment_disk" where
  "disk_entry i m = nullish (map_of m i) \<lparr>dd_deploymentId = i, dd_volumesBytes = Some 0, dd_writableBytes = None, dd_volumes = []\<rparr>"

definition add_volume :: "(string \<times> deployment_disk) list \<Rightarrow> volume_df \<Rightarrow> (string \<times> deployment_disk) list" where
  "add_volume m v =
     (case given (vd_deployment v) of None \<Rightarrow> m
      | Some i \<Rightarrow>
          let d = disk_entry i m; b = measured (vd_size v)
          in AList.update i (d\<lparr>dd_volumes := dd_volumes d @ [(vd_name v, vd_path v, b)],
               dd_volumesBytes := (case (b, dd_volumesBytes d) of (Some x, Some y) \<Rightarrow> Some (jadd y x) | _ \<Rightarrow> None)\<rparr>) m)"

definition add_writable :: "(string \<times> deployment_disk) list \<Rightarrow> string option \<times> rat option \<Rightarrow> (string \<times> deployment_disk) list" where
  "add_writable m c =
     (case given (fst c) of None \<Rightarrow> m
      | Some i \<Rightarrow>
          let d = disk_entry i m
          in AList.update i (case measured (snd c) of None \<Rightarrow> d
               | Some b \<Rightarrow> d\<lparr>dd_writableBytes := Some (jadd (nullish (dd_writableBytes d) 0) b)\<rparr>) m)"

definition diskByDeployment :: "volume_df list \<Rightarrow> (string option \<times> rat option) list \<Rightarrow> (string \<times> deployment_disk) list" where
  "diskByDeployment volumes containers = foldl add_writable (foldl add_volume [] volumes) containers"

definition totalBytes :: "deployment_disk \<Rightarrow> rat option" where
  "totalBytes d = map_option (\<lambda>v. jadd v (nullish (dd_writableBytes d) 0)) (dd_volumesBytes d)"

definition digestOf :: "string \<Rightarrow> string option" where
  "digestOf repoDigest =
     (if CHR ''@'' \<notin> set repoDigest then None
      else let d = rev (takeWhile (\<lambda>c. c \<noteq> CHR ''@'') (rev repoDigest)) in if starts_with d ''sha256:'' then Some d else None)"

datatype image_status = Current | UpdateAvailable | PulledNotApplied | UnknownImage

record image_facts =
  if_remoteDigest :: "string option"
  if_localRepoDigests :: "string list"
  if_localImageId :: "string option"
  if_containerImageId :: "string option"

definition imageUpdateStatus :: "image_facts \<Rightarrow> image_status" where
  "imageUpdateStatus f =
     (case (given (if_containerImageId f), given (if_localImageId f)) of
        (Some c, Some l) \<Rightarrow>
          if c \<noteq> l then PulledNotApplied
          else (case given (if_remoteDigest f) of None \<Rightarrow> UnknownImage
            | Some d \<Rightarrow> if Some d \<in> set (map digestOf (if_localRepoDigests f)) then Current else UpdateAvailable)
      | (None, Some l) \<Rightarrow>
          (case given (if_remoteDigest f) of None \<Rightarrow> UnknownImage
           | Some d \<Rightarrow> if Some d \<in> set (map digestOf (if_localRepoDigests f)) then Current else UpdateAvailable)
      | (_, None) \<Rightarrow> if given (if_remoteDigest f) \<noteq> None then UpdateAvailable else UnknownImage)"

section \<open>Lines of a log\<close>

definition no_cr :: "string \<Rightarrow> string" where
  "no_cr s = (if s \<noteq> [] \<and> List.last s = CHR 0x0D then butlast s else s)"

text \<open>The whole lines of a text, and what is left behind the last line break.\<close>

fun take_lines :: "string \<Rightarrow> string list \<times> string" where
  "take_lines [] = ([], [])"
| "take_lines (c # s) =
     (let (ls, rest) = take_lines s
      in if c = CHR 0x0A then ([] # ls, rest)
         else case ls of [] \<Rightarrow> ([], c # rest) | l # ls \<Rightarrow> ((c # l) # ls, rest))"

definition shown :: "string list \<Rightarrow> string list" where
  "shown ls = filter (\<lambda>l. l \<noteq> []) (map no_cr ls)"

text \<open>Pieces in the order they arrive, after what is buffered; at the end the rest is a line.\<close>

fun lineSplitter :: "string \<Rightarrow> string list \<Rightarrow> string list" where
  "lineSplitter buf [] = shown [buf]"
| "lineSplitter buf (chunk # chunks) =
     (let (ls, rest) = take_lines (buf @ chunk) in shown ls @ lineSplitter rest chunks)"

lemma take_lines_append:
  "js_split (CHR 0x0A) (s @ t) = fst (take_lines s) @ js_split (CHR 0x0A) (snd (take_lines s) @ t)"
proof (induction s)
  case (Cons c s)
  obtain ls rest where s: "take_lines s = (ls, rest)" by (cases "take_lines s")
  show ?case using Cons by (cases ls) (auto simp: s Let_def split: list.splits)
qed simp

text \<open>
  A container's log is cut into the same lines however it arrives. For any pieces, in whatever
  places the stream is cut, the lines reported are those of the whole text split at its line breaks,
  without the carriage return at their end and without the empty ones; the last is reported although
  no break follows it.
\<close>

theorem lines_any_pieces:
  "lineSplitter [] chunks = shown (js_split (CHR 0x0A) (concat chunks))"
proof -
  have "lineSplitter buf chunks = shown (js_split (CHR 0x0A) (buf @ concat chunks))"
    if "CHR 0x0A \<notin> set buf" for buf
    using that
  proof (induction buf chunks rule: lineSplitter.induct)
    case (1 buf)
    have "js_split (CHR 0x0A) buf = [buf]" using 1 by (induction buf) auto
    then show ?case by simp
  next
    case (2 buf chunk chunks)
    obtain ls rest where t: "take_lines (buf @ chunk) = (ls, rest)" by (cases "take_lines (buf @ chunk)")
    have "CHR 0x0A \<notin> set (snd (take_lines s))" for s
      by (induction s) (auto simp: Let_def split: prod.splits list.splits)
    then have "CHR 0x0A \<notin> set rest" using t by (metis snd_conv)
    then have "lineSplitter rest chunks = shown (js_split (CHR 0x0A) (rest @ concat chunks))" by (rule "2.IH" [OF t [symmetric] refl])
    then show ?case
      using take_lines_append [of "buf @ chunk" "concat chunks"] t by (simp add: shown_def)
  qed
  from this [of "[]"] show ?thesis by simp
qed

end
