(* ===== verification/Outbox.thy ===== *)
theory Outbox
  imports Prelude "HOL-Library.Sublist"
begin

text \<open>
  The outbox in front of the message bus (\<^verbatim>\<open>shared/src/outbox.ts\<close>): what cannot be published is held
  and sent again in order, the oldest given up when it is full. The publisher is the answer it gives
  to each event at each attempt, \<open>None\<close> where it throws; what it has taken is kept beside the state.

  The lemmas: nothing overtakes anything and nothing is lost uncounted, as long as no event arrives
  while another is being sent; one that does may push out the event in flight.
\<close>

record 'e outbox =
  ob_queue :: "'e list"
  ob_dropped :: nat
  ob_flushing :: bool
  ob_capacity :: nat

definition new_outbox :: "nat option \<Rightarrow> 'e outbox" where
  "new_outbox c = \<lparr>ob_queue = [], ob_dropped = 0, ob_flushing = False, ob_capacity = max 1 (nullish c 500)\<rparr>"

text \<open>The attempts made so far, and what was taken.\<close>

type_synonym 'e bus = "nat \<times> 'e list"

definition try_publish :: "('e \<Rightarrow> nat \<Rightarrow> bool option) \<Rightarrow> 'e \<Rightarrow> 'e bus \<Rightarrow> bool \<times> 'e bus" where
  "try_publish pub e b =
     (let taken = nullish (pub e (fst b)) False in (taken, fst b + 1, if taken then snd b @ [e] else snd b))"

text \<open>The event given up, when one is.\<close>

definition hold :: "'e \<Rightarrow> 'e outbox \<Rightarrow> 'e option \<times> 'e outbox" where
  "hold e ob =
     (if length (ob_queue ob) \<ge> ob_capacity ob then
        (case ob_queue ob of [] \<Rightarrow> None | old # _ \<Rightarrow> Some old,
         ob\<lparr>ob_queue := tl (ob_queue ob) @ [e], ob_dropped := ob_dropped ob + 1\<rparr>)
      else (None, ob\<lparr>ob_queue := ob_queue ob @ [e]\<rparr>))"

fun drain :: "('e \<Rightarrow> nat \<Rightarrow> bool option) \<Rightarrow> 'e list \<Rightarrow> 'e bus \<Rightarrow> nat \<times> 'e list \<times> 'e bus" where
  "drain pub [] b = (0, [], b)"
| "drain pub (e # q) b =
     (case try_publish pub e b of
        (False, b) \<Rightarrow> (0, e # q, b)
      | (True, b) \<Rightarrow> (let (k, rest, b) = drain pub q b in (k + 1, rest, b)))"

definition flush :: "('e \<Rightarrow> nat \<Rightarrow> bool option) \<Rightarrow> 'e outbox \<Rightarrow> 'e bus \<Rightarrow> nat \<times> 'e outbox \<times> 'e bus" where
  "flush pub ob b =
     (if ob_flushing ob then (0, ob, b)
      else let (k, q, b) = drain pub (ob_queue ob) b in (k, ob\<lparr>ob_queue := q, ob_flushing := False\<rparr>, b))"

definition outbox_publish :: "('e \<Rightarrow> nat \<Rightarrow> bool option) \<Rightarrow> 'e \<Rightarrow> 'e outbox \<Rightarrow> 'e bus \<Rightarrow> bool \<times> 'e outbox \<times> 'e bus" where
  "outbox_publish pub e ob b =
     (let (ob, b) = (if ob_queue ob \<noteq> [] then snd (flush pub ob b) else (ob, b))
      in if ob_queue ob \<noteq> [] then (False, snd (hold e ob), b)
         else case try_publish pub e b of
           (True, b) \<Rightarrow> (True, ob, b)
         | (False, b) \<Rightarrow> (False, snd (hold e ob), b))"

section \<open>Order and loss\<close>

datatype 'e outbox_op = Publish 'e | Tick

fun outbox_step :: "('e \<Rightarrow> nat \<Rightarrow> bool option) \<Rightarrow> 'e outbox \<times> 'e bus \<Rightarrow> 'e outbox_op \<Rightarrow> 'e outbox \<times> 'e bus" where
  "outbox_step pub (ob, b) (Publish e) = snd (outbox_publish pub e ob b)"
| "outbox_step pub (ob, b) Tick = snd (flush pub ob b)"

fun outbox_events :: "'e outbox_op list \<Rightarrow> 'e list" where
  "outbox_events [] = []"
| "outbox_events (Publish e # ops) = e # outbox_events ops"
| "outbox_events (Tick # ops) = outbox_events ops"

text \<open>What was asked, against what was taken, waits and was given up.\<close>

definition in_order :: "'e list \<Rightarrow> 'e outbox \<times> 'e bus \<Rightarrow> bool" where
  "in_order asked s =
     (case s of (ob, n, taken) \<Rightarrow>
        subseq (taken @ ob_queue ob) asked \<and> length asked = length taken + length (ob_queue ob) + ob_dropped ob
        \<and> length (ob_queue ob) \<le> ob_capacity ob \<and> 1 \<le> ob_capacity ob \<and> \<not> ob_flushing ob)"

lemma drain_splits:
  "drain pub q (n, taken) = (k, rest, m, taken') \<Longrightarrow> taken' @ rest = taken @ q \<and> length rest \<le> length q"
proof (induction q arbitrary: n taken k)
  case (Cons e q)
  show ?case
  proof (cases "nullish (pub e n) False")
    case True
    obtain k' where "drain pub q (n + 1, taken @ [e]) = (k', rest, m, taken')"
      using Cons.prems True by (auto simp: try_publish_def split: prod.splits)
    then show ?thesis using Cons.IH by fastforce
  qed (use Cons.prems in \<open>simp add: try_publish_def\<close>)
qed simp

lemma flush_in_order:
  assumes "in_order asked (ob, b)" shows "in_order asked (snd (flush pub ob b))"
proof -
  obtain n taken where b: "b = (n, taken)" by (cases b)
  obtain k q m taken' where d: "drain pub (ob_queue ob) b = (k, q, m, taken')" by (cases "drain pub (ob_queue ob) b") auto
  have s: "taken' @ q = taken @ ob_queue ob" "length q \<le> length (ob_queue ob)"
    using drain_splits [OF d [unfolded b]] by auto
  have "length taken' + length q = length taken + length (ob_queue ob)" using arg_cong [OF s(1), of length] by simp
  then show ?thesis using assms s d by (simp add: flush_def b in_order_def)
qed

lemma hold_in_order:
  assumes "in_order asked (ob, b)" shows "in_order (asked @ [e]) (snd (hold e ob), b)"
proof -
  obtain n taken where b: "b = (n, taken)" by (cases b)
  have o: "subseq (taken @ ob_queue ob) asked" "length asked = length taken + length (ob_queue ob) + ob_dropped ob"
      "length (ob_queue ob) \<le> ob_capacity ob" "1 \<le> ob_capacity ob" "\<not> ob_flushing ob"
    using assms by (auto simp: in_order_def b)
  show ?thesis
  proof (cases "length (ob_queue ob) \<ge> ob_capacity ob")
    case True
    then obtain old q where q: "ob_queue ob = old # q" using o(4) by (cases "ob_queue ob") auto
    have "subseq (taken @ q) (taken @ old # q)" by (simp add: list_emb_append_mono subseq_Cons')
    then have "subseq ((taken @ q) @ [e]) (asked @ [e])"
      using o(1) q subseq_order.trans list_emb_append_mono [of _ _ _ "[e]" "[e]"] by (metis subseq_order.refl)
    then show ?thesis using o True q by (simp add: hold_def in_order_def b)
  next
    case False
    have "subseq ((taken @ ob_queue ob) @ [e]) (asked @ [e])"
      by (rule list_emb_append_mono [OF o(1)]) simp
    then show ?thesis using o False by (simp add: hold_def in_order_def b)
  qed
qed

lemma attempt_in_order:
  "in_order asked (ob, b) \<Longrightarrow> ob_queue ob = [] \<Longrightarrow> try_publish pub e b = (True, b') \<Longrightarrow> in_order (asked @ [e]) (ob, b')"
  by (cases b) (auto simp: in_order_def try_publish_def Let_def intro: list_emb_append_mono)

lemma attempt_failed: "in_order asked (ob, b) \<Longrightarrow> try_publish pub e b = (False, b') \<Longrightarrow> in_order asked (ob, b')"
  by (cases b) (auto simp: in_order_def try_publish_def Let_def)

lemma publish_in_order:
  assumes "in_order asked (ob, b)" shows "in_order (asked @ [e]) (snd (outbox_publish pub e ob b))"
proof -
  define s where "s = (if ob_queue ob \<noteq> [] then snd (flush pub ob b) else (ob, b))"
  obtain ob' b' where s': "s = (ob', b')" by (cases s)
  have i: "in_order asked (ob', b')"
    unfolding s' [symmetric] s_def using flush_in_order [OF assms, of pub] assms by simp
  have p: "outbox_publish pub e ob b = (if ob_queue ob' \<noteq> [] then (False, snd (hold e ob'), b')
      else case try_publish pub e b' of (True, b) \<Rightarrow> (True, ob', b) | (False, b) \<Rightarrow> (False, snd (hold e ob'), b))"
    using s' by (simp add: outbox_publish_def s_def [symmetric])
  show ?thesis
    using hold_in_order [OF i] attempt_in_order [OF i] hold_in_order [OF attempt_failed [OF i]]
    by (auto simp: p split: prod.split bool.split)
qed

lemma run_in_order:
  "in_order asked s \<Longrightarrow> in_order (asked @ outbox_events ops) (foldl (outbox_step pub) s ops)"
proof (induction ops arbitrary: asked s)
  case (Cons p ops)
  obtain ob b where s: "s = (ob, b)" by (cases s)
  show ?case
  proof (cases p)
    case (Publish e)
    then show ?thesis using Cons.IH [OF publish_in_order [OF Cons.prems [unfolded s], of e pub]] s by simp
  next
    case Tick
    then show ?thesis using Cons.IH [OF flush_in_order [OF Cons.prems [unfolded s], of pub]] s by simp
  qed
qed simp

text \<open>
  C38: The outbox never lets a newer event overtake an older one. Whatever is published, one event
  after the other, however often the bus is down and whenever the backlog is flushed in between, what the bus has taken followed by what
  still waits is a subsequence of what was published; each event is taken, waiting or counted as
  dropped; and no more wait than the capacity, which is never less than one.
\<close>

theorem outbox_keeps_order:
  "in_order (outbox_events ops) (foldl (outbox_step pub) (new_outbox c, 0, []) ops)"
proof -
  have "in_order ([] @ outbox_events ops) (foldl (outbox_step pub) (new_outbox c, 0, []) ops)"
    by (rule run_in_order) (simp add: in_order_def new_outbox_def)
  then show ?thesis by simp
qed

section \<open>Events that arrive while one is sent\<close>

text \<open>
  A flush waits for the answer to the event at the head; what is published meanwhile finds the
  flush under way and goes to the back. A round is the answer and what arrives before it.
\<close>

fun flush_rounds :: "'e outbox \<Rightarrow> 'e list \<Rightarrow> (bool \<times> 'e list) list \<Rightarrow> 'e outbox \<times> 'e list" where
  "flush_rounds ob taken [] = (ob, taken)"
| "flush_rounds ob taken ((answered, arrivals) # rounds) =
     (case ob_queue ob of [] \<Rightarrow> (ob\<lparr>ob_flushing := False\<rparr>, taken)
      | next_e # _ \<Rightarrow>
          let ob = foldl (\<lambda>ob e. snd (hold e ob)) (ob\<lparr>ob_flushing := True\<rparr>) arrivals
          in if answered then flush_rounds (ob\<lparr>ob_queue := tl (ob_queue ob)\<rparr>) (taken @ [next_e]) rounds
             else (ob\<lparr>ob_flushing := False\<rparr>, taken))"

text \<open>At capacity, the arrival pushes out the event in flight, and the answer takes the next one off the queue.\<close>

lemma unsent_event_shifted:
  "flush_rounds \<lparr>ob_queue = [1, 2], ob_dropped = 0, ob_flushing = False, ob_capacity = 2\<rparr> [] [(True, [3]), (True, [])]
     = (\<lparr>ob_queue = [], ob_dropped = 1, ob_flushing = True, ob_capacity = 2\<rparr>, [1, 3 :: nat])"
  by code_simp

end
