(* ===== verification/Uptime.thy ===== *)
theory Uptime
  imports Prelude Js_Number
begin

text \<open>
  The control room's monitor (\<^verbatim>\<open>control-room/src/monitor.ts\<close>) and its view of the dead letters
  (\<^verbatim>\<open>dlq.ts\<close>): which sources of heartbeats are alive, and for how much of the time they were.
  Times are whole milliseconds.

  The lemmas: whenever and however often the monitor is evaluated, the healthy time it reports is the
  number of milliseconds that lie within three seconds of a heartbeat.
\<close>

datatype source_status = Healthy_s | Degraded_s | Offline_s

definition monitor_degraded_ms :: int where "monitor_degraded_ms = 3000"

definition monitor_offline_ms :: int where "monitor_offline_ms = 10000"

definition statusFor :: "int \<Rightarrow> int \<Rightarrow> source_status" where
  "statusFor lastSeen now =
     (let age = now - lastSeen
      in if age \<ge> monitor_offline_ms then Offline_s else if age \<ge> monitor_degraded_ms then Degraded_s else Healthy_s)"

definition healthyOverlapMs :: "int \<Rightarrow> int \<Rightarrow> int \<Rightarrow> int" where
  "healthyOverlapMs lastSeen a b = max 0 (min b (lastSeen + monitor_degraded_ms) - max a lastSeen)"

record transition =
  ts_from :: source_status
  ts_to :: source_status
  ts_at :: int

record tracked =
  tk_source :: string
  tk_lastSeen :: int
  tk_firstSeen :: int
  tk_status :: source_status
  tk_lastEvaluated :: int
  tk_healthyMs :: int
  tk_observedMs :: int
  tk_transitions :: "transition list"

record source_uptime =
  su_source :: string
  su_status :: source_status
  su_lastSeenMsAgo :: int
  su_uptimePercent :: rat
  su_firstSeen :: int
  su_observedMs :: int
  su_healthyMs :: int
  su_transitions :: "transition list"

record monitor =
  mo_sources :: "(string \<times> tracked) list"
  mo_historyLimit :: nat

definition new_monitor :: "nat option \<Rightarrow> monitor" where
  "new_monitor limit = \<lparr>mo_sources = [], mo_historyLimit = max 1 (nullish limit 50)\<rparr>"

definition advance :: "int \<Rightarrow> tracked \<Rightarrow> tracked" where
  "advance now t =
     (let elapsed = now - tk_lastEvaluated t
      in if elapsed \<le> 0 then t
         else t\<lparr>tk_observedMs := tk_observedMs t + elapsed,
           tk_healthyMs := tk_healthyMs t + healthyOverlapMs (tk_lastSeen t) (tk_lastEvaluated t) now,
           tk_lastEvaluated := now\<rparr>)"

definition transitionTo :: "nat \<Rightarrow> source_status \<Rightarrow> int \<Rightarrow> tracked \<Rightarrow> tracked" where
  "transitionTo limit st now t =
     (if tk_status t = st then t
      else let ts = tk_transitions t @ [\<lparr>ts_from = tk_status t, ts_to = st, ts_at = now\<rparr>]
           in t\<lparr>tk_transitions := (if length ts > limit then tl ts else ts), tk_status := st\<rparr>)"

definition mo_heartbeat :: "string \<Rightarrow> int \<Rightarrow> monitor \<Rightarrow> monitor" where
  "mo_heartbeat source now m =
     (case map_of (mo_sources m) source of
        None \<Rightarrow>
          m\<lparr>mo_sources := mo_sources m @ [(source, \<lparr>tk_source = source, tk_lastSeen = now, tk_firstSeen = now,
            tk_status = Healthy_s, tk_lastEvaluated = now, tk_healthyMs = 0, tk_observedMs = 0, tk_transitions = []\<rparr>)]\<rparr>
      | Some t \<Rightarrow>
          m\<lparr>mo_sources := AList.update source
            (transitionTo (mo_historyLimit m) Healthy_s now ((advance now t)\<lparr>tk_lastSeen := now\<rparr>)) (mo_sources m)\<rparr>)"

definition evaluate_one :: "nat \<Rightarrow> int \<Rightarrow> tracked \<Rightarrow> tracked" where
  "evaluate_one limit now t = (let t = advance now t in transitionTo limit (statusFor (tk_lastSeen t) now) now t)"

definition evaluate :: "int \<Rightarrow> monitor \<Rightarrow> monitor" where
  "evaluate now m = m\<lparr>mo_sources := map (\<lambda>(s, t). (s, evaluate_one (mo_historyLimit m) now t)) (mo_sources m)\<rparr>"

definition uptime_percent :: "int \<Rightarrow> int \<Rightarrow> rat" where
  "uptime_percent healthyMs observedMs =
     (if observedMs > 0 then jdiv (of_int (jround (jmul (jdiv (of_int healthyMs) (of_int observedMs)) 10000))) 100 else 100)"

definition uptime_of :: "int \<Rightarrow> tracked \<Rightarrow> source_uptime" where
  "uptime_of now t =
     (let pendingMs = max 0 (now - tk_lastEvaluated t);
          healthyMs = tk_healthyMs t + healthyOverlapMs (tk_lastSeen t) (tk_lastEvaluated t) now;
          observedMs = tk_observedMs t + pendingMs
      in \<lparr>su_source = tk_source t, su_status = statusFor (tk_lastSeen t) now,
          su_lastSeenMsAgo = max 0 (now - tk_lastSeen t), su_uptimePercent = uptime_percent healthyMs observedMs,
          su_firstSeen = tk_firstSeen t, su_observedMs = observedMs, su_healthyMs = healthyMs,
          su_transitions = tk_transitions t\<rparr>)"

text \<open>\<open>collate\<close> is the rank \<open>localeCompare\<close> gives a name.\<close>

definition uptimes :: "(string \<Rightarrow> nat) \<Rightarrow> int \<Rightarrow> monitor \<Rightarrow> source_uptime list" where
  "uptimes collate now m = sort_key (\<lambda>u. collate (su_source u)) (map (uptime_of now \<circ> snd) (mo_sources m))"

definition live_snapshot :: "(string \<Rightarrow> nat) \<Rightarrow> int \<Rightarrow> monitor \<Rightarrow> (string \<times> source_status \<times> int \<times> rat) list" where
  "live_snapshot collate now m =
     map (\<lambda>u. (su_source u, su_status u, su_lastSeenMsAgo u, su_uptimePercent u)) (uptimes collate now m)"

definition get_uptime :: "(string \<Rightarrow> nat) \<Rightarrow> string \<Rightarrow> int \<Rightarrow> monitor \<Rightarrow> source_uptime option" where
  "get_uptime collate source now m = find (\<lambda>u. su_source u = source) (uptimes collate now m)"

text \<open>The source of a heartbeat is its payload's name or node, else the envelope's.\<close>

definition beat_source :: "(string option \<times> string option) option \<Rightarrow> string \<Rightarrow> string" where
  "beat_source payload source =
     (case payload of None \<Rightarrow> source
      | Some (name, node) \<Rightarrow> (case given name of Some n \<Rightarrow> n | None \<Rightarrow> nullish (given node) source))"

section \<open>Dead letters\<close>

datatype dlq_status = DlqEmpty | MessagesWaiting | DlqUnknown

record dlq_snapshot =
  dq_status :: dlq_status
  dq_depth :: "nat option"
  dq_error :: "string option"

text \<open>The probe, when connected, answers with a depth or throws.\<close>

definition readDlq :: "(string, nat) result option \<Rightarrow> dlq_snapshot" where
  "readDlq probe =
     (case probe of
        None \<Rightarrow> \<lparr>dq_status = DlqUnknown, dq_depth = None, dq_error = Some ''not connected to the broker''\<rparr>
      | Some (Inl e) \<Rightarrow> \<lparr>dq_status = DlqUnknown, dq_depth = None, dq_error = Some e\<rparr>
      | Some (Inr n) \<Rightarrow> \<lparr>dq_status = (if n > 0 then MessagesWaiting else DlqEmpty), dq_depth = Some n, dq_error = None\<rparr>)"

definition describeDlq :: "dlq_snapshot \<Rightarrow> string" where
  "describeDlq s =
     (case dq_status s of
        DlqEmpty \<Rightarrow> ''No failed events.''
      | MessagesWaiting \<Rightarrow>
          if dq_depth s = Some 1 then ''1 event could not be processed and is waiting in the dead-letter queue.''
          else (case dq_depth s of None \<Rightarrow> ''null'' | Some n \<Rightarrow> show_nat n)
            @ '' events could not be processed and are waiting in the dead-letter queue.''
      | DlqUnknown \<Rightarrow> ''The dead-letter queue could not be read, so whether anything failed is unknown.'')"

section \<open>Healthy time\<close>

datatype monitor_op = Beat string int | Evaluate int

fun monitor_step :: "monitor \<Rightarrow> monitor_op \<Rightarrow> monitor" where
  "monitor_step m (Beat s now) = mo_heartbeat s now m"
| "monitor_step m (Evaluate now) = evaluate now m"

fun monitor_time :: "monitor_op \<Rightarrow> int" where
  "monitor_time (Beat s now) = now"
| "monitor_time (Evaluate now) = now"

fun beats :: "string \<Rightarrow> monitor_op list \<Rightarrow> int list" where
  "beats s [] = []"
| "beats s (Beat s' now # ops) = (if s' = s then now # beats s ops else beats s ops)"
| "beats s (Evaluate now # ops) = beats s ops"

text \<open>The milliseconds of a span that lie within three seconds of a heartbeat.\<close>

definition covered :: "int list \<Rightarrow> int \<Rightarrow> int \<Rightarrow> int set" where
  "covered bs a b = {t. a \<le> t \<and> t < b \<and> (\<exists>x \<in> set bs. x \<le> t \<and> t < x + monitor_degraded_ms)}"

definition tracked_ok :: "int list \<Rightarrow> tracked \<Rightarrow> bool" where
  "tracked_ok bs t =
     (bs \<noteq> [] \<and> tk_firstSeen t = hd bs \<and> tk_lastSeen t \<in> set bs \<and> (\<forall>b \<in> set bs. hd bs \<le> b \<and> b \<le> tk_lastSeen t)
      \<and> tk_lastSeen t \<le> tk_lastEvaluated t \<and> tk_observedMs t = tk_lastEvaluated t - hd bs
      \<and> tk_healthyMs t = int (card (covered bs (hd bs) (tk_lastEvaluated t))))"

lemma covered_finite: "finite (covered bs a b)"
  by (rule finite_subset [of _ "{a..b}"]) (auto simp: covered_def)

lemma covered_more:
  assumes "tracked_ok bs t" "tk_lastEvaluated t \<le> now"
  shows "int (card (covered bs (hd bs) now)) =
    tk_healthyMs t + healthyOverlapMs (tk_lastSeen t) (tk_lastEvaluated t) now"
proof -
  let ?e = "tk_lastEvaluated t" and ?l = "tk_lastSeen t"
  have l: "?l \<in> set bs" "\<And>b. b \<in> set bs \<Longrightarrow> b \<le> ?l" "?l \<le> ?e" "hd bs \<le> ?l"
    using assms(1) by (auto simp: tracked_ok_def)
  have new: "covered bs ?e now = {?e..<min now (?l + monitor_degraded_ms)}"
  proof (rule set_eqI)
    fix x
    show "x \<in> covered bs ?e now \<longleftrightarrow> x \<in> {?e..<min now (?l + monitor_degraded_ms)}"
    proof
      assume "x \<in> covered bs ?e now"
      then obtain b where b: "?e \<le> x" "x < now" "b \<in> set bs" "x < b + monitor_degraded_ms" by (auto simp: covered_def)
      then show "x \<in> {?e..<min now (?l + monitor_degraded_ms)}" using l(2) [OF b(3)] by simp
    next
      assume "x \<in> {?e..<min now (?l + monitor_degraded_ms)}"
      then have "?e \<le> x" "x < now" "?l \<le> x" "x < ?l + monitor_degraded_ms" using l(3) by auto
      then show "x \<in> covered bs ?e now" using l(1) by (auto simp: covered_def)
    qed
  qed
  have split: "covered bs (hd bs) now = covered bs (hd bs) ?e \<union> covered bs ?e now"
    using l assms(2) by (auto simp: covered_def)
  have "covered bs (hd bs) ?e \<inter> covered bs ?e now = {}" by (auto simp: covered_def)
  then have "card (covered bs (hd bs) now) = card (covered bs (hd bs) ?e) + card (covered bs ?e now)"
    unfolding split by (intro card_Un_disjoint covered_finite)
  moreover have "int (card (covered bs ?e now)) = healthyOverlapMs ?l ?e now"
    using l(3) by (auto simp: new healthyOverlapMs_def max_def min_def)
  ultimately show ?thesis using assms(1) by (simp add: tracked_ok_def)
qed

lemma advance_ok:
  assumes "tracked_ok bs t" "tk_lastEvaluated t \<le> now" shows "tracked_ok bs (advance now t)" "tk_lastEvaluated (advance now t) = now"
    "tk_lastSeen (advance now t) = tk_lastSeen t" "tk_firstSeen (advance now t) = tk_firstSeen t"
  using assms covered_more [OF assms] by (auto simp: advance_def tracked_ok_def Let_def)

lemma transition_keeps [simp]: "tracked_ok bs (transitionTo limit st now t) = tracked_ok bs t"
    "tk_lastEvaluated (transitionTo limit st now t) = tk_lastEvaluated t" "tk_source (transitionTo limit st now t) = tk_source t"
  by (auto simp: transitionTo_def tracked_ok_def Let_def)

lemma beat_ok:
  assumes "tracked_ok bs t" "tk_lastEvaluated t \<le> now"
  shows "tracked_ok (bs @ [now]) ((advance now t)\<lparr>tk_lastSeen := now\<rparr>)"
proof -
  note a = advance_ok [OF assms]
  have "covered (bs @ [now]) (hd bs) now = covered bs (hd bs) now" by (auto simp: covered_def)
  moreover have "\<forall>b \<in> set bs. hd bs \<le> b \<and> b \<le> now" "hd bs \<le> now" "bs \<noteq> []"
    using assms by (auto simp: tracked_ok_def)
  ultimately show ?thesis using a by (auto simp: tracked_ok_def)
qed

lemma beats_snoc [simp]: "beats s (ops @ qs) = beats s ops @ beats s qs"
  by (induction s ops rule: beats.induct) auto

definition monitor_ok :: "monitor_op list \<Rightarrow> int \<Rightarrow> monitor \<Rightarrow> bool" where
  "monitor_ok ops now m =
     (distinct (map fst (mo_sources m))
      \<and> (\<forall>(s, t) \<in> set (mo_sources m). tk_source t = s \<and> tracked_ok (beats s ops) t \<and> tk_lastEvaluated t \<le> now)
      \<and> (\<forall>s. map_of (mo_sources m) s = None \<longrightarrow> beats s ops = []))"

lemma advance_source [simp]: "tk_source (advance now t) = tk_source t"
  by (simp add: advance_def Let_def)

lemma evaluate_ok:
  assumes "monitor_ok ops a m" "a \<le> now" shows "monitor_ok (ops @ [Evaluate now]) now (evaluate now m)"
proof -
  have keys: "map fst (mo_sources (evaluate now m)) = map fst (mo_sources m)" by (auto simp: evaluate_def)
  then have "fst ` set (mo_sources (evaluate now m)) = fst ` set (mo_sources m)" by (metis set_map)
  moreover have "tk_source u = s \<and> tracked_ok (beats s ops) u \<and> tk_lastEvaluated u \<le> now" if u: "(s, u) \<in> set (mo_sources (evaluate now m))" for s u
  proof -
    obtain t where t: "(s, t) \<in> set (mo_sources m)" "u = evaluate_one (mo_historyLimit m) now t"
      using u by (auto simp: evaluate_def)
    then have "tk_source t = s" "tracked_ok (beats s ops) t" "tk_lastEvaluated t \<le> now"
      using assms by (auto simp: monitor_ok_def)
    then show ?thesis using advance_ok [of "beats s ops" t now] by (simp add: t(2) evaluate_one_def Let_def)
  qed
  ultimately show ?thesis using assms(1) keys by (auto simp: monitor_ok_def map_of_eq_None_iff)
qed

lemma heartbeat_ok:
  assumes "monitor_ok ops a m" "a \<le> now" shows "monitor_ok (ops @ [Beat s now]) now (mo_heartbeat s now m)"
proof (cases "map_of (mo_sources m) s")
  case None
  then have "beats s ops = []" using assms(1) by (simp add: monitor_ok_def)
  moreover have "s \<notin> fst ` set (mo_sources m)" using None by (simp add: map_of_eq_None_iff)
  moreover have "x \<noteq> s" if "(x, t) \<in> set (mo_sources m)" for x t
    using that \<open>s \<notin> fst ` set (mo_sources m)\<close> by force
  ultimately show ?thesis
    using assms None
    by (auto simp: monitor_ok_def mo_heartbeat_def tracked_ok_def covered_def split: if_splits; fastforce)
next
  case (Some t)
  let ?u = "transitionTo (mo_historyLimit m) Healthy_s now ((advance now t)\<lparr>tk_lastSeen := now\<rparr>)"
  have run: "mo_sources (mo_heartbeat s now m) = AList.update s ?u (mo_sources m)" using Some by (simp add: mo_heartbeat_def)
  have d: "distinct (map fst (mo_sources m))" using assms(1) by (simp add: monitor_ok_def)
  have t: "tk_source t = s" "tracked_ok (beats s ops) t" "tk_lastEvaluated t \<le> now"
    using assms map_of_SomeD [OF Some] by (auto simp: monitor_ok_def)
  have u: "tk_source ?u = s" "tracked_ok (beats s (ops @ [Beat s now])) ?u" "tk_lastEvaluated ?u \<le> now"
    using t beat_ok [OF t(2,3)] advance_ok [OF t(2,3)] by simp_all
  have "tk_source v = x \<and> tracked_ok (beats x (ops @ [Beat s now])) v \<and> tk_lastEvaluated v \<le> now"
    if v: "(x, v) \<in> set (AList.update s ?u (mo_sources m))" for x v
  proof (cases "x = s")
    case True
    then have "v = ?u" using v d map_of_is_SomeI [of "AList.update s ?u (mo_sources m)" x v]
      by (simp add: distinct_update update_conv')
    then show ?thesis using u True by simp
  next
    case False
    then have "map_of (mo_sources m) x = Some v" using v d map_of_is_SomeI [of "AList.update s ?u (mo_sources m)" x v]
      by (simp add: distinct_update update_conv')
    then show ?thesis using assms map_of_SomeD False by (fastforce simp: monitor_ok_def)
  qed
  moreover have "beats x (ops @ [Beat s now]) = []" if "map_of (AList.update s ?u (mo_sources m)) x = None" for x
    using that assms(1) by (auto simp: monitor_ok_def update_conv' split: if_splits)
  ultimately show ?thesis unfolding monitor_ok_def run using distinct_update [OF d] by blast
qed

lemma monitor_run_ok:
  assumes "monitor_ok past a m" "sorted (a # map monitor_time ops)"
  shows "monitor_ok (past @ ops) (List.last (a # map monitor_time ops)) (foldl monitor_step m ops)"
  using assms
proof (induction ops arbitrary: past a m)
  case (Cons p ops)
  have "monitor_ok (past @ [p]) (monitor_time p) (monitor_step m p)"
    using Cons.prems evaluate_ok heartbeat_ok by (cases p) auto
  then show ?case using Cons.IH [of "past @ [p]" "monitor_time p" "monitor_step m p"] Cons.prems(2) by simp
qed simp

lemma reported_uptime:
  assumes "monitor_ok ops a m" "a \<le> now" "get_uptime collate s now m = Some u"
  shows "\<exists>t. u = uptime_of now t \<and> tracked_ok (beats s ops) t \<and> tk_lastEvaluated t \<le> now"
proof -
  have "u \<in> set (map (uptime_of now \<circ> snd) (mo_sources m))" "su_source u = s"
    using assms(3) unfolding get_uptime_def uptimes_def find_Some_iff by (auto dest: nth_mem simp del: length_sort)
  then obtain x t where t: "(x, t) \<in> set (mo_sources m)" "u = uptime_of now t" by auto
  have "x = s" using assms(1) t \<open>su_source u = s\<close> by (auto simp: monitor_ok_def uptime_of_def Let_def)
  then show ?thesis using t assms by (fastforce simp: monitor_ok_def)
qed

text \<open>
  C39: The uptime of a source does not depend on how often the monitor looks. As long as the clock does
  not go back, whatever heartbeats arrive from whichever sources and whenever the monitor is evaluated
  in between, the healthy time it reports is the number of milliseconds since the first heartbeat that
  lie within three seconds of some heartbeat of that source; the observed time is all of them; and the
  status is that of the time since the latest heartbeat.
\<close>

theorem uptime_exact:
  assumes "sorted (0 # map monitor_time ops @ [now])" "get_uptime collate s now (foldl monitor_step (new_monitor limit) ops) = Some u"
  shows "su_healthyMs u = int (card (covered (beats s ops) (hd (beats s ops)) now))
    \<and> su_observedMs u = now - hd (beats s ops) \<and> su_status u = statusFor (Max (set (beats s ops))) now"
proof -
  have "monitor_ok [] 0 (new_monitor limit)" by (simp add: monitor_ok_def new_monitor_def)
  moreover have "sorted (0 # map monitor_time ops)" "\<forall>x \<in> set (0 # map monitor_time ops). x \<le> now"
    using assms(1) by (auto simp: sorted_append)
  moreover from this(2) have "List.last (0 # map monitor_time ops) \<le> now" using last_in_set by blast
  ultimately obtain t where t: "u = uptime_of now t" "tracked_ok (beats s ops) t" "tk_lastEvaluated t \<le> now"
    using monitor_run_ok [of "[]" 0 "new_monitor limit" ops] reported_uptime [OF _ _ assms(2)] by fastforce
  have "Max (set (beats s ops)) = tk_lastSeen t"
    using t(2) by (intro Max_eqI) (auto simp: tracked_ok_def)
  then show ?thesis
    using t covered_more [OF t(2,3)] by (simp add: uptime_of_def Let_def tracked_ok_def)
qed

lemma seen_reported:
  assumes "monitor_ok ops a m" "s \<in> fst ` set (mo_sources m)" shows "get_uptime collate s now m \<noteq> None"
proof -
  obtain t where t: "(s, t) \<in> set (mo_sources m)" using assms(2) by auto
  then have "su_source (uptime_of now t) = s" using assms(1) by (auto simp: monitor_ok_def uptime_of_def Let_def)
  moreover have "uptime_of now t \<in> set (uptimes collate now m)" using t by (force simp: uptimes_def)
  ultimately show ?thesis unfolding get_uptime_def find_None_iff by blast
qed

definition two_sources :: "monitor_op list" where
  "two_sources = [Beat ''a'' 1000, Beat ''b'' 1500, Evaluate 3000, Beat ''a'' 3500, Evaluate 9000, Evaluate 15000]"

theorem uptime_exact_witness:
  "\<exists>u. get_uptime (\<lambda>s. 0) ''a'' 20000 (foldl monitor_step (new_monitor None) two_sources) = Some u
    \<and> su_healthyMs u = int (card (covered [1000, 3500] 1000 20000)) \<and> su_observedMs u = 19000"
proof -
  let ?g = "get_uptime (\<lambda>s. 0) ''a'' 20000 (foldl monitor_step (new_monitor None) two_sources)"
  have s: "sorted (0 # map monitor_time two_sources)" by (simp add: two_sources_def)
  have "monitor_ok [] 0 (new_monitor None)" by (simp add: monitor_ok_def new_monitor_def)
  note monitor_run_ok [OF this s]
  moreover have "''a'' \<in> fst ` set (mo_sources (foldl monitor_step (new_monitor None) two_sources))"
    by (simp add: two_sources_def mo_heartbeat_def evaluate_def new_monitor_def)
  ultimately have "?g \<noteq> None" by (rule seen_reported)
  then obtain u where u: "?g = Some u" by auto
  have "beats ''a'' two_sources = [1000, 3500]" by (simp add: two_sources_def)
  moreover have "sorted (0 # map monitor_time two_sources @ [20000])" by (simp add: two_sources_def)
  ultimately have "su_healthyMs u = int (card (covered [1000, 3500] 1000 20000)) \<and> su_observedMs u = 19000"
    using uptime_exact [OF _ u] by simp
  then show ?thesis using u by blast
qed

end
