(* ===== verification/Gateway.thy ===== *)
theory Gateway
  imports Prelude Js_Number Js_Text
begin

text \<open>
  The gateway, the front door of the HTTP interface: the routing table (\<^verbatim>\<open>gateway/src/routes.ts\<close>), the
  token buckets (\<^verbatim>\<open>rateLimit.ts\<close>), bearer tokens (\<^verbatim>\<open>auth.ts\<close>), the gate and what is passed on
  (\<^verbatim>\<open>gateway.ts\<close>, \<^verbatim>\<open>upgrade.ts\<close>). The verification of a web token is a parameter that gives its
  subject; header names are in lower case, as Node gives them; metrics, streams and sockets are left
  out.

  The lemmas: what is passed on was routed by its longest prefix and let in by the rules of that
  route, and names no user but the one whose token was verified.
\<close>

section \<open>Routes\<close>

record route_rule =
  ru_prefix :: string
  ru_target :: string
  ru_public :: "bool option"

record matched_route =
  mr_target :: string
  mr_public :: bool
  mr_prefix :: string

definition defaultRoutes :: "string \<Rightarrow> route_rule list" where
  "defaultRoutes orchestrator =
     map (\<lambda>p. \<lparr>ru_prefix = p, ru_target = orchestrator, ru_public = Some True\<rparr>) [''/config'', ''/auth'', ''/agent-link'']
     @ map (\<lambda>p. \<lparr>ru_prefix = p, ru_target = orchestrator, ru_public = None\<rparr>)
         [''/me'', ''/users'', ''/teams'', ''/deployments'', ''/nodes'', ''/monitoring'', ''/billing'']"

definition prefixMatches :: "string \<Rightarrow> string \<Rightarrow> bool" where
  "prefixMatches path pre = (path = pre \<or> starts_with path (pre @ ''/''))"

definition longer_match :: "string \<Rightarrow> route_rule option \<Rightarrow> route_rule \<Rightarrow> route_rule option" where
  "longer_match path best rule =
     (if prefixMatches path (ru_prefix rule)
         \<and> (case best of None \<Rightarrow> True | Some b \<Rightarrow> length (ru_prefix rule) > length (ru_prefix b))
      then Some rule else best)"

definition matchRoute :: "string \<Rightarrow> route_rule list \<Rightarrow> matched_route option" where
  "matchRoute path routes =
     map_option (\<lambda>b. \<lparr>mr_target = ru_target b, mr_public = (ru_public b = Some True), mr_prefix = ru_prefix b\<rparr>)
       (foldl (longer_match path) None routes)"

section \<open>Token buckets\<close>

record bucket =
  bu_tokens :: rat
  bu_lastRefillMs :: int

record rate_options =
  ro_ratePerSec :: rat
  ro_burst :: rat

type_synonym buckets = "(string \<times> bucket) list"

definition allow :: "rate_options \<Rightarrow> string \<Rightarrow> int \<Rightarrow> buckets \<Rightarrow> bool \<times> buckets" where
  "allow opts key nowMs m =
     (let b = nullish (map_of m key) \<lparr>bu_tokens = ro_burst opts, bu_lastRefillMs = nowMs\<rparr>;
          elapsedSec = max 0 (jdiv (of_int (nowMs - bu_lastRefillMs b)) 1000);
          refilled = min (ro_burst opts) (jadd (bu_tokens b) (jmul elapsedSec (ro_ratePerSec opts)));
          allowed = refilled \<ge> 1
      in (allowed, AList.update key \<lparr>bu_tokens = (if allowed then jsub refilled 1 else refilled), bu_lastRefillMs = nowMs\<rparr> m))"

section \<open>The gate\<close>

definition bearerToken :: "string option \<Rightarrow> string option" where
  "bearerToken header =
     (case header of None \<Rightarrow> None
      | Some h \<Rightarrow> if starts_with h ''Bearer '' then Some (drop (length ''Bearer '') h) else None)"

definition isApiToken :: "string \<Rightarrow> bool" where
  "isApiToken token = (starts_with token ''nxi_'' \<and> length token > length ''nxi_'')"

record gateway_deps =
  gd_routes :: "route_rule list"
  gd_rate :: rate_options
  gd_verify :: "string \<Rightarrow> string option"

definition clientKey :: "gateway_deps \<Rightarrow> string option \<Rightarrow> string option \<Rightarrow> string" where
  "clientKey g token ip =
     (case (case given token of None \<Rightarrow> None | Some t \<Rightarrow> if isApiToken t then None else gd_verify g t) of
        Some user \<Rightarrow> ''user:'' @ user
      | None \<Rightarrow> ''ip:'' @ nullish ip ''undefined'')"

record refusal =
  rf_route :: string
  rf_status :: nat
  rf_outcome :: string
  rf_error :: string

definition gate ::
  "gateway_deps \<Rightarrow> int \<Rightarrow> string \<Rightarrow> string option \<Rightarrow> string option \<Rightarrow> buckets
     \<Rightarrow> (refusal, matched_route \<times> string option) result \<times> buckets" where
  "gate g now path token ip m =
     (case matchRoute path (gd_routes g) of
        None \<Rightarrow> (Inl \<lparr>rf_route = ''none'', rf_status = 404, rf_outcome = ''no_route'', rf_error = ''no route for path''\<rparr>, m)
      | Some route \<Rightarrow>
          let (allowed, m) = allow (gd_rate g) (clientKey g token ip) now m
          in if \<not> allowed then
               (Inl \<lparr>rf_route = mr_prefix route, rf_status = 429, rf_outcome = ''rate_limited'', rf_error = ''rate limit exceeded''\<rparr>, m)
             else if mr_public route then (Inr (route, None), m)
             else case given token of
               None \<Rightarrow>
                 (Inl \<lparr>rf_route = mr_prefix route, rf_status = 401, rf_outcome = ''unauthorized'', rf_error = ''missing bearer token''\<rparr>, m)
             | Some t \<Rightarrow>
                 if isApiToken t then (Inr (route, None), m)
                 else case gd_verify g t of
                   Some user \<Rightarrow> (Inr (route, Some user), m)
                 | None \<Rightarrow>
                     (Inl \<lparr>rf_route = mr_prefix route, rf_status = 401, rf_outcome = ''unauthorized'',
                        rf_error = ''invalid or expired token''\<rparr>, m))"

section \<open>What is passed on\<close>

text \<open>A header has one value or several; \<open>None\<close> stands for an undefined one.\<close>

type_synonym headers_in = "(string \<times> string list option) list"

record request =
  rq_method :: string
  rq_path :: string
  rq_originalUrl :: string
  rq_headers :: headers_in
  rq_ip :: "string option"
  rq_body :: string

definition strip_http :: "string list" where
  "strip_http = [''host'', ''connection'', ''content-length'', ''transfer-encoding'', ''x-user-id'']"

definition put_header :: "string list \<Rightarrow> (string \<times> string) list \<Rightarrow> string \<times> string list option \<Rightarrow> (string \<times> string) list" where
  "put_header hop out kv =
     (case snd kv of None \<Rightarrow> out
      | Some vs \<Rightarrow> if fst kv \<in> set hop then out else AList.update (fst kv) (js_join '', '' vs) out)"

definition forwardHeaders :: "request \<Rightarrow> string option \<Rightarrow> (string \<times> string) list" where
  "forwardHeaders q user =
     (let out = AList.update ''x-forwarded-for'' (nullish (rq_ip q) []) (foldl (put_header strip_http) [] (rq_headers q))
      in case given user of None \<Rightarrow> out | Some u \<Rightarrow> AList.update ''x-user-id'' u out)"

definition authorization :: "request \<Rightarrow> string option" where
  "authorization q = map_option (js_join '', '') (Option.bind (map_of (rq_headers q) ''authorization'') id)"

record forwarded =
  fw_method :: string
  fw_url :: string
  fw_headers :: "(string \<times> string) list"
  fw_body :: "string option"

definition handle_http ::
  "gateway_deps \<Rightarrow> int \<Rightarrow> request \<Rightarrow> buckets \<Rightarrow> (nat \<times> string, forwarded) result \<times> buckets" where
  "handle_http g now q m =
     (case gate g now (rq_path q) (bearerToken (authorization q)) (rq_ip q) m of
        (Inl e, m) \<Rightarrow> (Inl (rf_status e, rf_error e), m)
      | (Inr (route, user), m) \<Rightarrow>
          (Inr \<lparr>fw_method = rq_method q, fw_url = mr_target route @ rq_originalUrl q, fw_headers = forwardHeaders q user,
             fw_body = (if rq_method q \<notin> {''GET'', ''HEAD''} \<and> rq_body q \<noteq> [] then Some (rq_body q) else None)\<rparr>, m))"

definition response_hop :: "string list" where
  "response_hop = [''connection'', ''keep-alive'', ''transfer-encoding'', ''upgrade'', ''te'', ''trailer'',
     ''proxy-authenticate'', ''set-cookie'']"

definition copyResponseHeaders :: "(string \<times> string) list \<Rightarrow> string list \<Rightarrow> (string \<times> string list) list" where
  "copyResponseHeaders hs cookies =
     (let encoded = (''content-encoding'' \<in> fst ` set hs);
          out = foldl (\<lambda>m (k, v). if k \<in> set response_hop \<or> (encoded \<and> k \<in> {''content-encoding'', ''content-length''}) then m
                  else AList.update k [v] m) [] hs
      in if cookies = [] then out else AList.update ''set-cookie'' cookies out)"

text \<open>An upgrade: its token is in the query, or in the header; the headers are replayed.\<close>

definition strip_upgrade :: "string list" where "strip_upgrade = [''host'', ''x-forwarded-for'', ''x-user-id'']"

definition upgradeHeaders :: "headers_in \<Rightarrow> string option \<Rightarrow> string option \<Rightarrow> (string \<times> string list) list" where
  "upgradeHeaders hs ip user =
     (let out = foldl (\<lambda>m (k, v). case v of None \<Rightarrow> m | Some vs \<Rightarrow> if k \<in> set strip_upgrade then m else AList.update k vs m) [] hs;
          out = AList.update ''x-forwarded-for'' [nullish ip []] out
      in case given user of None \<Rightarrow> out | Some u \<Rightarrow> AList.update ''x-user-id'' [u] out)"

definition handle_upgrade ::
  "gateway_deps \<Rightarrow> int \<Rightarrow> string option \<Rightarrow> request \<Rightarrow> buckets
     \<Rightarrow> (nat, string \<times> (string \<times> string list) list) result \<times> buckets" where
  "handle_upgrade g now query_token q m =
     (case gate g now (rq_path q) (case query_token of Some t \<Rightarrow> Some t | None \<Rightarrow> bearerToken (authorization q)) (rq_ip q) m of
        (Inl e, m) \<Rightarrow> (Inl (rf_status e), m)
      | (Inr (route, user), m) \<Rightarrow> (Inr (mr_target route, upgradeHeaders (rq_headers q) (rq_ip q) user), m))"

definition crlf :: string where "crlf = [CHR 0x0D, CHR 0x0A]"

definition responseHead :: "nat \<Rightarrow> string \<Rightarrow> (string \<times> string) list \<Rightarrow> string" where
  "responseHead statusCode statusMessage rawHeaders =
     ''HTTP/1.1 '' @ show_nat statusCode @ '' '' @ statusMessage @ crlf
       @ concat (map (\<lambda>(k, v). k @ '': '' @ v @ crlf) rawHeaders) @ crlf"

definition refuseUpgrade :: "(nat \<Rightarrow> string option) \<Rightarrow> nat \<Rightarrow> string" where
  "refuseUpgrade status_codes status =
     ''HTTP/1.1 '' @ show_nat status @ '' '' @ nullish (status_codes status) ''Error'' @ crlf
       @ ''Connection: close'' @ crlf @ ''Content-Length: 0'' @ crlf @ crlf"

section \<open>Who is let in\<close>

lemma better_foldl:
  "foldl (longer_match path) best routes = Some r \<Longrightarrow>
     (best = Some r \<or> (r \<in> set routes \<and> prefixMatches path (ru_prefix r)))
     \<and> list_all (\<lambda>x. prefixMatches path (ru_prefix x) \<longrightarrow> length (ru_prefix x) \<le> length (ru_prefix r)) routes
     \<and> (case best of None \<Rightarrow> True | Some b \<Rightarrow> length (ru_prefix b) \<le> length (ru_prefix r))"
proof (induction routes arbitrary: best)
  case (Cons x routes)
  from Cons.IH [of "longer_match path best x"] Cons.prems show ?case
    by (auto simp: longer_match_def split: if_splits option.splits)
qed simp

lemma matchRoute_longest:
  assumes "matchRoute path routes = Some m"
  shows "\<exists>r \<in> set routes. prefixMatches path (ru_prefix r) \<and> mr_prefix m = ru_prefix r \<and> mr_target m = ru_target r
    \<and> mr_public m = (ru_public r = Some True)
    \<and> list_all (\<lambda>x. prefixMatches path (ru_prefix x) \<longrightarrow> length (ru_prefix x) \<le> length (ru_prefix r)) routes"
  using assms better_foldl [of path None routes] by (auto simp: matchRoute_def)

text \<open>The user a request speaks for: the subject of a token that a protected route has verified.\<close>

definition verified_subject :: "gateway_deps \<Rightarrow> matched_route \<Rightarrow> string option \<Rightarrow> string option" where
  "verified_subject g route token =
     (if mr_public route then None
      else case given token of None \<Rightarrow> None | Some t \<Rightarrow> if isApiToken t then None else gd_verify g t)"

definition let_in :: "gateway_deps \<Rightarrow> matched_route \<Rightarrow> string option \<Rightarrow> bool" where
  "let_in g route token =
     (mr_public route \<or> (case given token of None \<Rightarrow> False | Some t \<Rightarrow> isApiToken t \<or> gd_verify g t \<noteq> None))"

lemma gate_lets_in:
  "gate g now path token ip m = (Inr (route, user), m') \<Longrightarrow>
     matchRoute path (gd_routes g) = Some route \<and> let_in g route token \<and> user = verified_subject g route token
     \<and> allow (gd_rate g) (clientKey g token ip) now m = (True, m')"
  by (auto simp: gate_def let_in_def verified_subject_def Let_def split: option.splits if_splits prod.splits)
    (metis option.exhaust)+

lemma put_keeps_out: "k \<in> set hop \<Longrightarrow> map_of out k = None \<Longrightarrow> map_of (foldl (put_header hop) out hs) k = None"
proof (induction hs arbitrary: out)
  case (Cons h hs)
  have "map_of (put_header hop out h) k = None"
    using Cons.prems by (auto simp: put_header_def update_conv' split: option.split)
  then show ?case using Cons by simp
qed simp

lemma forwarded_user: "map_of (forwardHeaders q user) ''x-user-id'' = given user"
  using put_keeps_out [of "''x-user-id''" strip_http "[]" "rq_headers q"]
  by (cases "given user") (auto simp: forwardHeaders_def strip_http_def update_conv' given_def split: if_splits)

text \<open>
  What a bucket holds by now: filled at the rate since it was last looked at, up to the burst; a new
  one is full.
\<close>

definition tokens_at :: "rate_options \<Rightarrow> int \<Rightarrow> bucket option \<Rightarrow> rat" where
  "tokens_at opts now b =
     (case b of None \<Rightarrow> min (ro_burst opts) (jadd (ro_burst opts) (jmul 0 (ro_ratePerSec opts)))
      | Some b \<Rightarrow> min (ro_burst opts)
          (jadd (bu_tokens b) (jmul (max 0 (jdiv (of_int (now - bu_lastRefillMs b)) 1000)) (ro_ratePerSec opts))))"

lemma allow_one:
  assumes "allow opts key now m = (True, m')"
  shows "1 \<le> tokens_at opts now (map_of m key)
    \<and> map_of m' = (map_of m)(key \<mapsto> \<lparr>bu_tokens = jsub (tokens_at opts now (map_of m key)) 1, bu_lastRefillMs = now\<rparr>)"
  using assms by (auto simp: allow_def Let_def tokens_at_def update_conv' split: option.splits)

text \<open>Whose bucket it is: the verified subject's, or that of the address.\<close>

definition bucket_of :: "gateway_deps \<Rightarrow> string option \<Rightarrow> string option \<Rightarrow> string" where
  "bucket_of g token ip =
     (if token \<noteq> None \<and> token \<noteq> Some [] \<and> \<not> isApiToken (the token) \<and> gd_verify g (the token) \<noteq> None
      then ''user:'' @ the (gd_verify g (the token)) else ''ip:'' @ nullish ip ''undefined'')"

lemma clientKey_bucket: "clientKey g token ip = bucket_of g token ip"
  by (auto simp: clientKey_def bucket_of_def given_def split: option.split)

text \<open>
  C40: The gateway cannot be told who the caller is. Whatever headers a request brings, it is passed on
  only to the backend of a rule whose prefix matches its path and is the longest of those that match;
  only when that rule is public or the bearer token is an API token or verifies; only when the
  caller's bucket (the verified subject's, else the address's), refilled at the rate up to the
  burst, holds a whole token, of which exactly one is taken, from no bucket but that one; and the
  user it names to the backend is the verified subject of the token of a request to a protected
  rule, or nobody.
\<close>

theorem forwarded_identity:
  assumes "handle_http g now q m = (Inr f, m')"
  shows "\<exists>r \<in> set (gd_routes g).
    prefixMatches (rq_path q) (ru_prefix r)
    \<and> list_all (\<lambda>x. length (ru_prefix x) \<le> length (ru_prefix r)) (filter (\<lambda>x. prefixMatches (rq_path q) (ru_prefix x)) (gd_routes g))
    \<and> fw_url f = ru_target r @ rq_originalUrl q
    \<and> (ru_public r = Some True
       \<or> (\<exists>t. bearerToken (authorization q) = Some t \<and> t \<noteq> [] \<and> (isApiToken t \<or> (\<exists>u. gd_verify g t = Some u))))
    \<and> map_of (fw_headers f) ''x-user-id'' =
        (if ru_public r = Some True then None
         else case bearerToken (authorization q) of None \<Rightarrow> None
              | Some t \<Rightarrow> if isApiToken t then None else given (gd_verify g t))
    \<and> 1 \<le> tokens_at (gd_rate g) now (map_of m (bucket_of g (bearerToken (authorization q)) (rq_ip q)))
    \<and> map_of m' = (map_of m)(bucket_of g (bearerToken (authorization q)) (rq_ip q) \<mapsto>
        \<lparr>bu_tokens = jsub (tokens_at (gd_rate g) now (map_of m (bucket_of g (bearerToken (authorization q)) (rq_ip q)))) 1,
         bu_lastRefillMs = now\<rparr>)"
proof -
  obtain r user where r: "gate g now (rq_path q) (bearerToken (authorization q)) (rq_ip q) m = (Inr (r, user), m')"
      "fw_url f = mr_target r @ rq_originalUrl q" "fw_headers f = forwardHeaders q user"
    using assms by (auto simp: handle_http_def split: prod.splits sum.splits)
  note g = gate_lets_in [OF r(1)]
  obtain x where x: "x \<in> set (gd_routes g)" "prefixMatches (rq_path q) (ru_prefix x)" "mr_target r = ru_target x"
      "mr_public r = (ru_public x = Some True)"
      "list_all (\<lambda>y. length (ru_prefix y) \<le> length (ru_prefix x)) (filter (\<lambda>y. prefixMatches (rq_path q) (ru_prefix y)) (gd_routes g))"
    using matchRoute_longest [of "rq_path q" "gd_routes g" r] g by (auto simp: list_all_iff)
  show ?thesis
    by (rule bexI [OF _ x(1)])
      (use g x r(2,3) allow_one clientKey_bucket forwarded_user [of q user] in
        \<open>auto simp: let_in_def verified_subject_def given_def split: option.splits if_splits\<close>)
qed

definition open_gateway :: gateway_deps where
  "open_gateway = \<lparr>gd_routes = defaultRoutes ''http://o'', gd_rate = \<lparr>ro_ratePerSec = 50, ro_burst = 100\<rparr>,
     gd_verify = (\<lambda>t. if t = ''good'' then Some ''u1'' else None)\<rparr>"

definition forged :: request where
  "forged = \<lparr>rq_method = ''GET'', rq_path = ''/me/x'', rq_originalUrl = ''/me/x'',
     rq_headers = [(''authorization'', Some [''Bearer good'']), (''x-user-id'', Some [''admin''])], rq_ip = Some ''1'', rq_body = []\<rparr>"

lemma forwarded_identity_witness:
  "case handle_http open_gateway 0 forged [] of (Inl _, _) \<Rightarrow> False
   | (Inr f, m) \<Rightarrow> fw_url f = ''http://o/me/x'' \<and> map_of (fw_headers f) ''x-user-id'' = Some ''u1''
       \<and> map_of m ''user:u1'' = Some \<lparr>bu_tokens = 99, bu_lastRefillMs = 0\<rparr>"
proof -
  have run: "\<not> isl (fst (handle_http open_gateway 0 forged []))"
    "bucket_of open_gateway (bearerToken (authorization forged)) (rq_ip forged) = ''user:u1''"
    "jsub (tokens_at (gd_rate open_gateway) 0 None) 1 = 99"
    "bearerToken (authorization forged) = Some ''good''" "\<not> isApiToken ''good''" "gd_verify open_gateway ''good'' = Some ''u1''"
    "list_all (\<lambda>x. ru_target x = ''http://o'') (gd_routes open_gateway)"
    "filter (\<lambda>x. prefixMatches (rq_path forged) (ru_prefix x) \<and> ru_public x = Some True) (gd_routes open_gateway) = []"
    "rq_originalUrl forged = ''/me/x''"
    by code_simp+
  then obtain f m where f: "handle_http open_gateway 0 forged [] = (Inr f, m)"
    by (cases "handle_http open_gateway 0 forged []"; cases "fst (handle_http open_gateway 0 forged [])") auto
  obtain r where "r \<in> set (gd_routes open_gateway)" "prefixMatches (rq_path forged) (ru_prefix r)"
    "fw_url f = ru_target r @ rq_originalUrl forged"
    "map_of (fw_headers f) ''x-user-id'' = (if ru_public r = Some True then None else Some ''u1'')"
    "map_of m ''user:u1'' = Some \<lparr>bu_tokens = 99, bu_lastRefillMs = 0\<rparr>"
    using forwarded_identity [OF f] run by (auto simp: given_def)
  then show ?thesis using f run by (auto simp: list_all_iff filter_empty_conv)
qed

text \<open>
  A path that climbs out of a public prefix is let in without a token, while \<open>fetch\<close> resolves its
  dots and asks the backend for the protected path.
\<close>

lemma climbing_path_let_in:
  "map_option mr_public (matchRoute ''/config/../users'' (defaultRoutes backend)) = Some True"
  "map_option mr_public (matchRoute ''/users'' (defaultRoutes backend)) = Some False"
  by (simp_all add: matchRoute_def defaultRoutes_def longer_match_def prefixMatches_def starts_with_def)

end
