(* ===== verification/Spec2Isabelle.thy ===== *)
theory Spec2Isabelle
  imports Billing_Checks Notify Sign_In Control_Runs Start_Names Schedules Migration Server_List Create_Server
    Agent_Commands Node_Agent Outbox Uptime Gateway
begin

text \<open>
  A verification development for NexusInfra, a control panel for game servers.

  The program. The orchestrator (\<^verbatim>\<open>services/orchestrator/src\<close>) keeps accounts, teams, servers
  and their shares, places servers on nodes, sends commands to the node agents and applies what
  they report. The billing bridge (\<^verbatim>\<open>services/billing-bridge/src\<close>) follows the same reports, meters
  the run time of every server, keeps a wallet and a ledger for every account, and suspends servers
  whose owner ran out of credit. They speak over queues; the panel and the command line reach them
  over HTTP through a gateway.

  Common ground.
  \<^item> \<open>Prelude\<close>: results as sums, association lists for the \<^verbatim>\<open>Map\<close> of the sources, runs of operations
    and the locales for them, words of identifiers (an identifier is drawn from a counter, so that
    two are never equal), JSON values as they arrive in a request.
  \<^item> \<open>Js_Number\<close>, \<open>Js_Date\<close>, \<open>Js_Text\<close>: the numbers of the language as rationals rounded to 53 bits,
    times as whole milliseconds with the civil calendar, and the text functions the sources use.

  The billing bridge.
  \<^item> \<open>Pricing\<close> (\<^verbatim>\<open>pricing.ts\<close>, \<^verbatim>\<open>wallet.ts\<close>, \<^verbatim>\<open>quotas.ts\<close>, \<^verbatim>\<open>plans.ts\<close>, the limits of
    \<^verbatim>\<open>shared/src/events.ts\<close>): prices, resource factors and the rules of the plan catalogue.
  \<^item> \<open>Billing_Repo\<close> (\<^verbatim>\<open>repository.ts\<close>, \<^verbatim>\<open>types.ts\<close>): the store, one operation per method.
  \<^item> \<open>Billing_Standing\<close> (\<^verbatim>\<open>standing.ts\<close>) and \<open>Billing_Service\<close> (\<^verbatim>\<open>service.ts\<close>, \<^verbatim>\<open>index.ts\<close>): what is
    owed before the month ends, and the handlers of payments, credit, plans and reports.
  \<^item> \<open>Billing_Ledger\<close>, \<open>Billing_Cycle\<close> (\<^verbatim>\<open>cycle.ts\<close>), \<open>Billing_Invariants\<close>, \<open>Billing_Checks\<close>: the balance
    of a wallet is the settled part of its ledger; a month is charged once, whatever is replayed;
    one open interval for a server, unique payment references, a settled entry stays; the sweeps of
    credit, warnings and stale payments act exactly when they should.

  The orchestrator.
  \<^item> \<open>Orch_Types\<close> (\<^verbatim>\<open>types.ts\<close>), \<open>Orch_Repo\<close> (\<^verbatim>\<open>repository.ts\<close>): the data and the store.
  \<^item> \<open>Ports\<close> (\<^verbatim>\<open>portPool.ts\<close>, \<^verbatim>\<open>portAllocation.ts\<close>): no port of a node belongs to two servers.
  \<^item> \<open>Access\<close> (\<^verbatim>\<open>access.ts\<close>, \<^verbatim>\<open>accessGuard.ts\<close>, \<^verbatim>\<open>teams.ts\<close>), \<open>Accounts\<close> (\<^verbatim>\<open>users.ts\<close>), \<open>Sharing\<close>,
    \<open>Sharing_Runs\<close> (\<^verbatim>\<open>transfer.ts\<close> and the sharing routes of \<^verbatim>\<open>api.ts\<close>): who may do what; a person
    sees exactly the servers the guard lets them in to, after any run of operations.
  \<^item> \<open>Nodes\<close> (\<^verbatim>\<open>nodeRegistry.ts\<close>, \<^verbatim>\<open>nodeSelection.ts\<close>, \<^verbatim>\<open>capacity.ts\<close>, \<^verbatim>\<open>memory.ts\<close>,
    \<^verbatim>\<open>entitlements.ts\<close>): placement, heartbeats, memory budgets.
  \<^item> \<open>Eggs\<close> (\<^verbatim>\<open>eggs.ts\<close>): the catalogue of games and what a server built from it is given.
  \<^item> \<open>Control\<close>, \<open>Control_Runs\<close> (\<^verbatim>\<open>lifecycle.ts\<close>, \<^verbatim>\<open>reconcile.ts\<close>, \<^verbatim>\<open>suspend.ts\<close>, \<^verbatim>\<open>credit.ts\<close>,
    \<^verbatim>\<open>imageUpdate.ts\<close>, the control routes of \<^verbatim>\<open>api.ts\<close>), \<open>Start_Names\<close> (\<^verbatim>\<open>containerName.ts\<close>,
    \<^verbatim>\<open>startCommand.ts\<close>): the life of a server as a state machine driven by routes and reports.
  \<^item> \<open>Backups\<close> (\<^verbatim>\<open>backups.ts\<close>, \<^verbatim>\<open>retention.ts\<close>), \<open>Cron\<close> (\<^verbatim>\<open>cron.ts\<close>), \<open>Schedules\<close>
    (\<^verbatim>\<open>scheduler.ts\<close>), \<open>Migration\<close> (\<^verbatim>\<open>migrate.ts\<close>), \<open>Server_List\<close> (\<^verbatim>\<open>deploymentQuery.ts\<close>).
  \<^item> \<open>Create_Server\<close> (the creating and editing routes of \<^verbatim>\<open>api.ts\<close>): a refused request changes nothing,
    an accepted one makes exactly one server that fits its node and its owner's plan.
  \<^item> \<open>Notify\<close> (\<^verbatim>\<open>notify.ts\<close>, \<^verbatim>\<open>notifier.ts\<close>, \<^verbatim>\<open>notificationRoutes.ts\<close>): the queue of notifications
    settles, and sends nothing twice.
  \<^item> \<open>Login_Limiter\<close> (\<^verbatim>\<open>loginLimiter.ts\<close>), \<open>Totp\<close> (\<^verbatim>\<open>totp.ts\<close>), \<open>Sign_In\<close> (\<^verbatim>\<open>auth.ts\<close>, \<^verbatim>\<open>apiTokens.ts\<close>,
    \<^verbatim>\<open>passwordReset.ts\<close>, \<^verbatim>\<open>emailVerification.ts\<close>): how often a password may be guessed, and what ends
    a session.

  The other services.
  \<^item> The node agent (\<^verbatim>\<open>services/node-agent/src\<close>): \<open>Agent_Commands\<close> (\<^verbatim>\<open>agent.ts\<close>) carries out the
    messages of \<open>Control\<close> and sends the reports \<open>Control\<close> handles, so that a start can be followed
    from the request to the record it leaves; \<open>Agent_Files\<close> (\<^verbatim>\<open>files.ts\<close>, \<^verbatim>\<open>imports.ts\<close>) guards paths
    and writes archives; \<open>Node_Agent\<close> makes a server's settings into Docker's.
  \<^item> \<open>Outbox\<close> (\<^verbatim>\<open>shared/src/outbox.ts\<close>): the events an unreachable bus leaves waiting keep their order.
  \<^item> \<open>Uptime\<close> (\<^verbatim>\<open>services/control-room/src\<close>): the time a source was healthy is counted exactly.
  \<^item> \<open>Gateway\<close> (\<^verbatim>\<open>services/gateway/src\<close>): who is let in, and as whom.

  Conventions. A route is a function of the caller, the request and the store that gives a reply
  (a status and a message, or a body) and the store after it, with the messages it sends. What is
  not under the repository is an argument: the hash and its comparison, the rank of a text under
  \<^verbatim>\<open>localeCompare\<close>, \<^verbatim>\<open>Number\<close> of a text, the match of a regular expression, the nodes' HTTP
  interface (records \<open>transport\<close> and \<open>backup_context\<close>), the standing billing answers. A dash longer
  than a hyphen is written \<open>--\<close>.

  Bounds and fuel. No definition carries fuel. The two loops of the modelled sources that may not end
  are partial functions with \<open>None\<close> for a run that does not end: that of \<^verbatim>\<open>parseField\<close> ends for numbers
  below \<open>2^52\<close>, and \<open>cron_hangs\<close> gives an expression for which it does not; that of
  \<^verbatim>\<open>extractSingleFile\<close> ends on every archive \<^verbatim>\<open>buildTarball\<close> makes (\<open>archive_roundtrip\<close>).

  Not modelled: the HTTP layer (Express, JSON bodies beyond the fields read), the Prisma repositories
  (the same interface over a database client), the Docker and S3 clients of the node agent and its
  terminal and game queries, the SFTP server and the agent link (binary protocols over libraries), the
  sockets and streams of the gateway, metrics, the dashboard and the command line, and concurrency between two handlers of one process: an \<^verbatim>\<open>await\<close> is a step of the
  handler, and two handlers do not interleave, except where a lemma says so.
\<close>

end
